(* ===== verification/JsPrelude.thy ===== *)
theory JsPrelude
  imports Complex_Main "HOL-Library.Word" "HOL-Library.AList" "HOL-Library.Sublist"
    "HOL-Library.Multiset"
begin

text \<open>
  What the program uses of JavaScript, shared by every component: text (the methods of
  \<open>String\<close> the code calls), numbers read from and written to text, \<open>Map\<close> as an
  association list in insertion order, \<open>Array.prototype.sort\<close> as a stable insertion sort
  under a comparator, and the general lemmas on them. Text is a \<open>string\<close>; case
  conversion and white space are those of ASCII (and the no-break space).
\<close>

unbundle bit_operations_syntax

named_theorems js_text
  \<open>rewriting of the text operations\<close>

named_theorems js_map
  \<open>rewriting of Map operations\<close>

type_synonym ts = int
type_synonym mac = string
type_synonym ('k, 'v) jsmap = "('k \<times> 'v) list"

section \<open>Text\<close>

definition is_ws :: "char \<Rightarrow> bool" where
  "is_ws c \<longleftrightarrow> of_char c \<in> {9, 10, 11, 12, 13, 32, 160 :: nat}"

definition is_digit :: "char \<Rightarrow> bool" where
  "is_digit c \<longleftrightarrow> 48 \<le> (of_char c :: nat) \<and> (of_char c :: nat) \<le> 57"

definition is_lower :: "char \<Rightarrow> bool" where
  "is_lower c \<longleftrightarrow> 97 \<le> (of_char c :: nat) \<and> (of_char c :: nat) \<le> 122"

definition is_upper :: "char \<Rightarrow> bool" where
  "is_upper c \<longleftrightarrow> 65 \<le> (of_char c :: nat) \<and> (of_char c :: nat) \<le> 90"

definition is_alpha :: "char \<Rightarrow> bool" where
  "is_alpha c \<longleftrightarrow> is_lower c \<or> is_upper c"

definition is_word :: "char \<Rightarrow> bool" where
  "is_word c \<longleftrightarrow> is_alpha c \<or> is_digit c \<or> c = CHR ''_''"

definition is_hex :: "char \<Rightarrow> bool" where
  "is_hex c \<longleftrightarrow> is_digit c
     \<or> (97 \<le> (of_char c :: nat) \<and> (of_char c :: nat) \<le> 102)
     \<or> (65 \<le> (of_char c :: nat) \<and> (of_char c :: nat) \<le> 70)"

definition upc :: "char \<Rightarrow> char" where
  "upc c = (if is_lower c then char_of (of_char c - 32 :: nat) else c)"

definition loc :: "char \<Rightarrow> char" where
  "loc c = (if is_upper c then char_of (of_char c + 32 :: nat) else c)"

definition toUpperCase :: "string \<Rightarrow> string" where
  "toUpperCase s = map upc s"

definition toLowerCase :: "string \<Rightarrow> string" where
  "toLowerCase s = map loc s"

definition trimStart :: "string \<Rightarrow> string" where
  "trimStart s = dropWhile is_ws s"

definition trimEnd :: "string \<Rightarrow> string" where
  "trimEnd s = rev (dropWhile is_ws (rev s))"

definition trim :: "string \<Rightarrow> string" where
  "trim s = trimEnd (trimStart s)"

definition startsWith :: "string \<Rightarrow> string \<Rightarrow> bool" where
  "startsWith s p \<longleftrightarrow> take (length p) s = p"

definition endsWith :: "string \<Rightarrow> string \<Rightarrow> bool" where
  "endsWith s t = startsWith (rev s) (rev t)"

fun str_includes :: "string \<Rightarrow> string \<Rightarrow> bool" where
  "str_includes [] p = (p = [])"
| "str_includes (c # s) p = (startsWith (c # s) p \<or> str_includes s p)"

text \<open>\<open>s.slice(a, b)\<close> for \<open>0 \<le> a\<close>.\<close>

definition js_slice :: "nat \<Rightarrow> nat \<Rightarrow> 'a list \<Rightarrow> 'a list" where
  "js_slice a b s = drop a (take b s)"

fun splitOn :: "char \<Rightarrow> string \<Rightarrow> string list" where
  "splitOn d [] = [[]]"
| "splitOn d (c # s) =
     (if c = d then [] # splitOn d s
      else (case splitOn d s of [] \<Rightarrow> [[c]] | p # ps \<Rightarrow> (c # p) # ps))"

fun join :: "string \<Rightarrow> string list \<Rightarrow> string" where
  "join sep [] = []"
| "join sep [x] = x"
| "join sep (x # y # xs) = x @ sep @ join sep (y # xs)"

definition padStart :: "nat \<Rightarrow> char \<Rightarrow> string \<Rightarrow> string" where
  "padStart n c s = replicate (n - length s) c @ s"

text \<open>An optional text field: absent and empty are both false in a condition.\<close>

definition truthy :: "string option \<Rightarrow> bool" where
  "truthy so \<longleftrightarrow> (case so of None \<Rightarrow> False | Some s \<Rightarrow> s \<noteq> [])"

text \<open>\<open>a || b\<close> on text, and \<open>s?.trim()\<close>.\<close>

definition or_else :: "string \<Rightarrow> string \<Rightarrow> string" where
  "or_else a b = (if a \<noteq> [] then a else b)"

definition opt_str :: "string option \<Rightarrow> string" where
  "opt_str so = (case so of None \<Rightarrow> [] | Some s \<Rightarrow> s)"

definition opt_trim :: "string option \<Rightarrow> string" where
  "opt_trim so = trim (opt_str so)"

definition opt_list :: "'a list option \<Rightarrow> 'a list" where
  "opt_list xo = (case xo of None \<Rightarrow> [] | Some xs \<Rightarrow> xs)"

section \<open>Numbers in text\<close>

definition digit_char :: "nat \<Rightarrow> char" where
  "digit_char d = char_of (if d < 10 then 48 + d else 87 + d)"

fun radix :: "nat \<Rightarrow> nat \<Rightarrow> string" where
  "radix b n = (if n < b \<or> b < 2 then [digit_char n]
                else radix b (n div b) @ [digit_char (n mod b)])"

declare radix.simps [simp del]

definition dec :: "nat \<Rightarrow> string" where
  "dec n = radix 10 n"

definition hex :: "nat \<Rightarrow> string" where
  "hex n = radix 16 n"

definition dec_int :: "int \<Rightarrow> string" where
  "dec_int i = (if i < 0 then ''-'' @ dec (nat (- i)) else dec (nat i))"

definition digit_val :: "char \<Rightarrow> nat" where
  "digit_val c = (if is_digit c then of_char c - 48
     else if is_lower c then of_char c - 87 else of_char c - 55)"

definition read_nat :: "nat \<Rightarrow> string \<Rightarrow> nat" where
  "read_nat b s = foldl (\<lambda>n c. n * b + digit_val c) 0 s"

text \<open>
  A JavaScript number: a finite value (exact, as a rational), not-a-number, or an infinity
  with its sign.
\<close>

datatype jsnum = Num rat | NaN | Inf bool

fun is_finite :: "jsnum \<Rightarrow> bool" where
  "is_finite (Num _) = True"
| "is_finite NaN = False"
| "is_finite (Inf _) = False"

definition all_digits :: "string \<Rightarrow> bool" where
  "all_digits s \<longleftrightarrow> s \<noteq> [] \<and> list_all is_digit s"

text \<open>The digits before and after a decimal point.\<close>

definition read_decimal :: "string \<Rightarrow> rat option" where
  "read_decimal s =
     (case splitOn CHR ''.'' s of
        [a] \<Rightarrow> if all_digits a then Some (of_nat (read_nat 10 a)) else None
      | [a, f] \<Rightarrow>
          if a @ f \<noteq> [] \<and> list_all is_digit (a @ f)
          then Some (of_nat (read_nat 10 (a @ f)) / 10 ^ length f) else None
      | _ \<Rightarrow> None)"

definition read_exponent :: "string \<Rightarrow> int option" where
  "read_exponent s =
     (case s of
        c # t \<Rightarrow>
          if c = CHR ''+'' then (if all_digits t then Some (int (read_nat 10 t)) else None)
          else if c = CHR ''-'' then (if all_digits t then Some (- int (read_nat 10 t)) else None)
          else if all_digits s then Some (int (read_nat 10 s)) else None
      | [] \<Rightarrow> None)"

definition scale10 :: "rat \<Rightarrow> int \<Rightarrow> rat" where
  "scale10 r e = (if 0 \<le> e then r * 10 ^ nat e else r / 10 ^ nat (- e))"

definition read_unsigned :: "string \<Rightarrow> jsnum" where
  "read_unsigned s =
     (if s = ''Infinity'' then Inf True
      else case splitOn CHR ''e'' (toLowerCase s) of
        [m] \<Rightarrow> (case read_decimal m of Some r \<Rightarrow> Num r | None \<Rightarrow> NaN)
      | [m, x] \<Rightarrow> (case (read_decimal m, read_exponent x) of
                    (Some r, Some e) \<Rightarrow> Num (scale10 r e) | _ \<Rightarrow> NaN)
      | _ \<Rightarrow> NaN)"

definition negate :: "jsnum \<Rightarrow> jsnum" where
  "negate n = (case n of Num r \<Rightarrow> Num (- r) | NaN \<Rightarrow> NaN | Inf b \<Rightarrow> Inf (\<not> b))"

definition read_prefixed :: "nat \<Rightarrow> string \<Rightarrow> jsnum" where
  "read_prefixed b s = (if s \<noteq> [] \<and> list_all (\<lambda>c. is_hex c \<and> digit_val c < b) s
     then Num (of_nat (read_nat b s)) else NaN)"

text \<open>\<open>Number(s)\<close> on text: white space around the literal is dropped and the empty text is 0.\<close>

definition js_Number :: "string \<Rightarrow> jsnum" where
  "js_Number s0 = (let s = trim s0; p = toLowerCase (take 2 s) in
     if s = [] then Num 0
     else if p = ''0x'' then read_prefixed 16 (drop 2 s)
     else if p = ''0o'' then read_prefixed 8 (drop 2 s)
     else if p = ''0b'' then read_prefixed 2 (drop 2 s)
     else if hd s = CHR ''-'' then negate (read_unsigned (tl s))
     else if hd s = CHR ''+'' then read_unsigned (tl s)
     else read_unsigned s)"

text \<open>The difference of two numbers, read as a comparator result: its sign, 0 for not-a-number.\<close>

fun num_diff :: "jsnum \<Rightarrow> jsnum \<Rightarrow> int" where
  "num_diff (Num a) (Num b) = (if a < b then - 1 else if b < a then 1 else 0)"
| "num_diff (Num _) (Inf p) = (if p then - 1 else 1)"
| "num_diff (Inf p) (Num _) = (if p then 1 else - 1)"
| "num_diff (Inf p) (Inf q) = (if p = q then 0 else if p then 1 else - 1)"
| "num_diff _ _ = 0"

section \<open>Sorting\<close>

text \<open>
  \<open>Array.prototype.sort\<close> is a stable sort under the comparator; for a consistent comparator
  every stable sort gives the same list.
\<close>

fun insert_cmp :: "('a \<Rightarrow> 'a \<Rightarrow> int) \<Rightarrow> 'a \<Rightarrow> 'a list \<Rightarrow> 'a list" where
  "insert_cmp cmp x [] = [x]"
| "insert_cmp cmp x (y # ys) =
     (if cmp x y \<le> 0 then x # y # ys else y # insert_cmp cmp x ys)"

fun js_sort :: "('a \<Rightarrow> 'a \<Rightarrow> int) \<Rightarrow> 'a list \<Rightarrow> 'a list" where
  "js_sort cmp [] = []"
| "js_sort cmp (x # xs) = insert_cmp cmp x (js_sort cmp xs)"

section \<open>Lemmas on text\<close>

lemma of_char_lt_256 [simp]: "(of_char c :: nat) < 256"
  by (metis String.of_char_of of_char_mod_256 mod_less_divisor zero_less_numeral)

lemma of_char_upc: "(of_char (upc c) :: nat) = (if is_lower c then of_char c - 32 else of_char c)"
  using of_char_lt_256 [of c] by (auto simp: upc_def is_lower_def)

lemma of_char_loc: "(of_char (loc c) :: nat) = (if is_upper c then of_char c + 32 else of_char c)"
  by (auto simp: loc_def is_upper_def)

lemma char_eqI: "(of_char c :: nat) = of_char d \<Longrightarrow> c = d"
  by simp

lemmas char_case = of_char_upc of_char_loc is_lower_def is_upper_def

lemma upc_idem [simp]: "upc (upc c) = upc c"
  by (rule char_eqI) (auto simp: char_case)

lemma loc_idem [simp]: "loc (loc c) = loc c"
  by (rule char_eqI) (auto simp: char_case)

lemma loc_upc [simp]: "loc (upc c) = loc c"
  by (rule char_eqI) (auto simp: char_case)

lemma upc_loc [simp]: "upc (loc c) = upc c"
  by (rule char_eqI) (auto simp: char_case)

lemma is_ws_upc [simp]: "is_ws (upc c) = is_ws c"
  by (auto simp: is_ws_def char_case)

lemma is_ws_loc [simp]: "is_ws (loc c) = is_ws c"
  by (auto simp: is_ws_def char_case)

lemma length_case [simp]: "length (toUpperCase s) = length s" "length (toLowerCase s) = length s"
  by (simp_all add: toUpperCase_def toLowerCase_def)

lemma case_Nil_iff [simp]: "toUpperCase s = [] \<longleftrightarrow> s = []" "toLowerCase s = [] \<longleftrightarrow> s = []"
  by (simp_all add: toUpperCase_def toLowerCase_def)

lemma case_Nil [simp]: "toUpperCase [] = []" "toLowerCase [] = []"
  by (simp_all add: toUpperCase_def toLowerCase_def)

lemma toUpperCase_idem [simp]: "toUpperCase (toUpperCase s) = toUpperCase s"
  by (simp add: toUpperCase_def)

lemma toLowerCase_idem [simp]: "toLowerCase (toLowerCase s) = toLowerCase s"
  by (simp add: toLowerCase_def)

lemma toLower_toUpper [simp]: "toLowerCase (toUpperCase s) = toLowerCase s"
  by (simp add: toLowerCase_def toUpperCase_def)

lemma toUpper_toLower [simp]: "toUpperCase (toLowerCase s) = toUpperCase s"
  by (simp add: toLowerCase_def toUpperCase_def)

lemma dropWhile_map_ws:
  "dropWhile is_ws (map upc s) = map upc (dropWhile is_ws s)"
  "dropWhile is_ws (map loc s) = map loc (dropWhile is_ws s)"
  by (induction s) simp_all

lemma trim_case:
  "trim (toUpperCase s) = toUpperCase (trim s)"
  "trim (toLowerCase s) = toLowerCase (trim s)"
  by (simp_all add: trim_def trimStart_def trimEnd_def toUpperCase_def toLowerCase_def
      dropWhile_map_ws rev_map)

lemma trim_Nil [simp]: "trim [] = []"
  by (simp add: trim_def trimStart_def trimEnd_def)

lemma trim_clean:
  assumes "s = [] \<or> \<not> is_ws (hd s) \<and> \<not> is_ws (last s)"
  shows "trim s = s"
proof (cases s)
  case Nil
  then show ?thesis by simp
next
  case (Cons c t)
  with assms have h: "\<not> is_ws c" and l: "\<not> is_ws (last s)" by auto
  from h Cons have "trimStart s = s" by (simp add: trimStart_def)
  moreover from l Cons have "trimEnd s = s"
    by (metis (no_types, lifting) dropWhile.simps(2) hd_rev list.collapse list.simps(3)
        rev_is_Nil_conv rev_rev_ident trimEnd_def)
  ultimately show ?thesis by (simp add: trim_def)
qed

lemma trimEnd_no_ws: "trimEnd s = [] \<or> \<not> is_ws (last (trimEnd s))"
  unfolding trimEnd_def
  by (metis hd_dropWhile last_rev rev.simps(1))

lemma trim_idem [simp]: "trim (trim s) = trim s"
proof (cases "trim s = []")
  case False
  have last: "\<not> is_ws (last (trim s))"
    using trimEnd_no_ws [of "trimStart s"] False by (simp add: trim_def)
  have "prefix (trim s) (trimStart s)"
    unfolding trim_def trimEnd_def
    by (metis rev_rev_ident suffix_dropWhile suffix_to_prefix)
  then have "hd (trim s) = hd (trimStart s)"
    using False by (metis hd_append2 prefix_def)
  moreover have "trimStart s \<noteq> []"
    using False by (auto simp: trim_def trimEnd_def)
  ultimately have "\<not> is_ws (hd (trim s))"
    by (metis hd_dropWhile trimStart_def)
  with last show ?thesis by (simp add: trim_clean)
qed simp

lemma startsWith_append [simp]: "startsWith (p @ s) p"
  by (simp add: startsWith_def)

lemma startsWith_iff: "startsWith s p \<longleftrightarrow> (\<exists>t. s = p @ t)"
  by (auto simp: startsWith_def) (metis append_take_drop_id)

lemma str_includes_iff: "str_includes s p \<longleftrightarrow> (\<exists>a b. s = a @ p @ b)"
proof (induction s)
  case (Cons c s)
  show ?case
  proof
    assume "str_includes (c # s) p"
    then show "\<exists>a b. c # s = a @ p @ b"
      using Cons by (metis append_Cons append_Nil startsWith_iff str_includes.simps(2))
  next
    assume "\<exists>a b. c # s = a @ p @ b"
    then obtain a b where "c # s = a @ p @ b" by blast
    then have "startsWith (c # s) p \<or> (\<exists>a' b. s = a' @ p @ b)"
      by (cases a) (simp_all add: startsWith_def, metis)
    then show "str_includes (c # s) p"
      using Cons by auto
  qed
qed auto

lemma splitOn_not_Nil [simp]: "splitOn d s \<noteq> []"
  by (cases s) (auto split: list.splits)

lemma join_splitOn: "join [d] (splitOn d s) = s"
proof (induction s)
  case (Cons c s)
  then show ?case
    by (cases "splitOn d s"; cases "tl (splitOn d s)") (auto split: list.splits)
qed simp

lemma splitOn_no_sep: "d \<notin> set s \<Longrightarrow> splitOn d s = [s]"
  by (induction s) auto

lemma splitOn_append: "d \<notin> set p \<Longrightarrow> splitOn d (p @ d # s) = p # splitOn d s"
  by (induction p) auto

lemma splitOn_parts: "p \<in> set (splitOn d s) \<Longrightarrow> d \<notin> set p"
proof (induction s arbitrary: p)
  case (Cons c s)
  then show ?case by (cases "splitOn d s") (auto split: if_splits)
qed simp

lemma length_padStart [simp]: "length (padStart n c s) = max n (length s)"
  by (simp add: padStart_def)

section \<open>Lemmas on numbers in text\<close>

lemma is_digit_digit_char: "d < 10 \<Longrightarrow> is_digit (digit_char d)"
  by (simp add: is_digit_def digit_char_def)

lemma is_hex_digit_char: "d < 16 \<Longrightarrow> is_hex (digit_char d)"
  by (simp add: is_hex_def is_digit_def digit_char_def)

lemma digit_val_digit_char: "d < 16 \<Longrightarrow> digit_val (digit_char d) = d"
  by (auto simp: digit_val_def digit_char_def is_digit_def is_lower_def)

lemma radix_not_Nil [simp]: "radix b n \<noteq> []"
  by (subst radix.simps) simp

lemma read_nat_snoc: "read_nat b (s @ [c]) = read_nat b s * b + digit_val c"
  by (simp add: read_nat_def)

lemma read_nat_radix:
  assumes "2 \<le> b" "b \<le> 16"
  shows "read_nat b (radix b n) = n"
  using assms
proof (induction b n rule: radix.induct)
  case (1 b n)
  show ?case
  proof (cases "n < b")
    case True
    with 1 show ?thesis by (subst radix.simps) (simp add: read_nat_def digit_val_digit_char)
  next
    case False
    with 1 have "read_nat b (radix b (n div b)) = n div b" by simp
    moreover have "n mod b < 16" using 1 by (meson less_le_trans mod_less_divisor zero_less_numeral order_trans pos2 less_le_trans)
    ultimately show ?thesis using False 1
      by (subst radix.simps) (simp add: read_nat_snoc digit_val_digit_char)
  qed
qed

lemma radix_chars:
  assumes "2 \<le> b" "\<And>d. d < b \<Longrightarrow> P (digit_char d)"
  shows "list_all P (radix b n)"
  using assms
proof (induction b n rule: radix.induct)
  case (1 b n)
  then show ?case
    by (cases "n < b"; subst radix.simps) auto
qed

lemma dec_digits [simp]: "list_all is_digit (dec n)"
  unfolding dec_def by (rule radix_chars) (simp_all add: is_digit_digit_char)

lemma hex_digits [simp]: "list_all is_hex (hex n)"
  unfolding hex_def by (rule radix_chars) (simp_all add: is_hex_digit_char)

lemma dec_not_Nil [simp]: "dec n \<noteq> []"
  by (simp add: dec_def)

lemma hex_not_Nil [simp]: "hex n \<noteq> []"
  by (simp add: hex_def)

lemma all_digits_dec [simp]: "all_digits (dec n)"
  by (simp add: all_digits_def)

lemma read_dec [simp]: "read_nat 10 (dec n) = n"
  by (simp add: dec_def read_nat_radix)

lemma read_hex [simp]: "read_nat 16 (hex n) = n"
  by (simp add: hex_def read_nat_radix)

lemma dec_inj [simp]: "dec m = dec n \<longleftrightarrow> m = n"
  by (metis read_dec)

lemma hex_inj [simp]: "hex m = hex n \<longleftrightarrow> m = n"
  by (metis read_hex)

lemma digit_not_dot: "is_digit c \<Longrightarrow> c \<noteq> CHR ''.'' \<and> c \<noteq> CHR ''e''
    \<and> c \<noteq> CHR ''x'' \<and> c \<noteq> CHR ''o'' \<and> c \<noteq> CHR ''b''
    \<and> c \<noteq> CHR ''+'' \<and> c \<noteq> CHR ''-'' \<and> c \<noteq> CHR ''/'' \<and> c \<noteq> CHR '':'' \<and> c \<noteq> CHR ''|''"
  by (auto simp: is_digit_def)

lemma digit_plain: "is_digit c \<Longrightarrow> \<not> is_ws c \<and> loc c = c \<and> upc c = c"
  by (auto simp: is_digit_def is_ws_def loc_def upc_def is_upper_def is_lower_def)

lemma digits_trim:
  assumes "list_all is_digit s"
  shows "trim s = s"
  using assms
  by (intro trim_clean) (metis Ball_set digit_plain hd_in_set last_in_set)

lemma digits_lower: "list_all is_digit s \<Longrightarrow> toLowerCase s = s"
  unfolding toLowerCase_def by (induction s) (auto simp: digit_plain)

lemma splitOn_digits:
  assumes "list_all is_digit s" "\<not> is_digit d"
  shows "splitOn d s = [s]"
  using assms by (intro splitOn_no_sep) (auto simp: list_all_iff)

lemma js_Number_digits:
  assumes "all_digits s"
  shows "js_Number s = Num (of_nat (read_nat 10 s))"
proof -
  from assms have d: "list_all is_digit s" "s \<noteq> []" by (auto simp: all_digits_def)
  then have h: "is_digit (hd s)" by (cases s) auto
  have d2: "list_all is_digit (take 2 s)"
    using d(1) by (auto simp: list_all_iff dest: in_set_takeD)
  have p: "toLowerCase (take 2 s) = take 2 s"
    using d2 by (rule digits_lower)
  have np: "take 2 s \<noteq> ''0x''" "take 2 s \<noteq> ''0o''" "take 2 s \<noteq> ''0b''"
    using d2 by (auto simp: is_digit_def)
  have ninf: "s \<noteq> ''Infinity''"
    using h by (auto simp: is_digit_def)
  have "read_unsigned s = Num (of_nat (read_nat 10 s))"
    using d ninf
    by (simp add: read_unsigned_def read_decimal_def digits_lower splitOn_digits is_digit_def
        assms)
  then show ?thesis
    using d np digit_not_dot [OF h]
    by (simp add: js_Number_def Let_def digits_trim p)
qed

lemma js_Number_dec [simp]: "js_Number (dec n) = Num (of_nat n)"
  by (simp add: js_Number_digits)

section \<open>Lemmas on sorting\<close>

lemma mset_insert_cmp [simp]: "mset (insert_cmp cmp x xs) = add_mset x (mset xs)"
  by (induction xs) auto

lemma mset_js_sort [simp]: "mset (js_sort cmp xs) = mset xs"
  by (induction xs) auto

lemma set_insert_cmp [simp]: "set (insert_cmp cmp x xs) = insert x (set xs)"
  by (induction xs) auto

lemma set_js_sort [simp]: "set (js_sort cmp xs) = set xs"
  by (induction xs) auto

lemma length_js_sort [simp]: "length (js_sort cmp xs) = length xs"
  by (metis mset_js_sort size_mset)

lemma js_sort_Nil_iff [simp]: "js_sort cmp xs = [] \<longleftrightarrow> xs = []"
  by (metis length_0_conv length_js_sort)

lemma distinct_js_sort [simp]: "distinct (map f (js_sort cmp xs)) = distinct (map f xs)"
  by (metis image_mset_add_mset mset_js_sort mset_map distinct_map mset_eq_imp_distinct_iff)

lemma distinct_js_sort_id [simp]: "distinct (js_sort cmp xs) = distinct xs"
  using distinct_js_sort [of id cmp xs] by simp

text \<open>
  The contract of a comparator: the laws \<open>Array.prototype.sort\<close> asks of its argument.
  Sorting under it gives an ordered list in which elements that compare equal keep their order.
\<close>

locale comparator =
  fixes cmp :: "'a \<Rightarrow> 'a \<Rightarrow> int"
  assumes cmp_total: "cmp x y \<le> 0 \<or> cmp y x \<le> 0"
    and cmp_trans: "cmp x y \<le> 0 \<Longrightarrow> cmp y z \<le> 0 \<Longrightarrow> cmp x z \<le> 0"
begin

lemma sorted_insert_cmp:
  "sorted_wrt (\<lambda>a b. cmp a b \<le> 0) xs \<Longrightarrow> sorted_wrt (\<lambda>a b. cmp a b \<le> 0) (insert_cmp cmp x xs)"
proof (induction xs)
  case (Cons y ys)
  show ?case
  proof (cases "cmp x y \<le> 0")
    case True
    with Cons.prems show ?thesis by (auto intro: cmp_trans)
  next
    case False
    with cmp_total have "cmp y x \<le> 0" by blast
    with False Cons show ?thesis by auto
  qed
qed simp

lemma sorted_js_sort: "sorted_wrt (\<lambda>a b. cmp a b \<le> 0) (js_sort cmp xs)"
  by (induction xs) (auto intro: sorted_insert_cmp)

lemma insert_cmp_stable:
  assumes "\<And>a b. P a \<Longrightarrow> P b \<Longrightarrow> cmp a b \<le> 0"
  shows "filter P (insert_cmp cmp x xs) = (if P x then x # filter P xs else filter P xs)"
proof (induction xs)
  case (Cons y ys)
  then show ?case using assms by auto
qed simp

lemma js_sort_stable:
  assumes "\<And>a b. P a \<Longrightarrow> P b \<Longrightarrow> cmp a b \<le> 0"
  shows "filter P (js_sort cmp xs) = filter P xs"
  by (induction xs) (simp_all add: insert_cmp_stable [OF assms])

lemma js_sort_sorted: "sorted_wrt (\<lambda>a b. cmp a b \<le> 0) xs \<Longrightarrow> js_sort cmp xs = xs"
proof (induction xs)
  case (Cons x xs)
  then show ?case by (cases xs) auto
qed simp

end

section \<open>Maps\<close>

lemma find_append:
  "find P (xs @ ys) = (case find P xs of Some x \<Rightarrow> Some x | None \<Rightarrow> find P ys)"
  by (induction xs) auto

text \<open>
  The interface of the keyed containers (\<open>Map\<close> and the storage): what a lookup returns after
  a write or a removal.
\<close>

locale keyed_store =
  fixes get :: "'m \<Rightarrow> 'k \<Rightarrow> 'v option"
    and set_key :: "'k \<Rightarrow> 'v \<Rightarrow> 'm \<Rightarrow> 'm"
    and remove_key :: "'k \<Rightarrow> 'm \<Rightarrow> 'm"
  assumes get_set: "get (set_key k v m) = (get m)(k := Some v)"
    and get_remove: "get (remove_key k m) = (get m)(k := None)"
begin

lemma get_set_same: "get (set_key k v m) k = Some v"
  by (simp add: get_set)

lemma get_set_other: "j \<noteq> k \<Longrightarrow> get (set_key k v m) j = get m j"
  by (simp add: get_set)

lemma get_fold_set:
  "get (fold (\<lambda>x m. set_key (f x) (g x) m) xs m) k =
     (case find (\<lambda>x. f x = k) (rev xs) of Some x \<Rightarrow> Some (g x) | None \<Rightarrow> get m k)"
  by (induction xs arbitrary: m) (auto simp: get_set find_append split: option.splits)

end

interpretation jm: keyed_store map_of "AList.update" "AList.delete"
  by unfold_locales (simp_all add: update_conv' delete_conv')

lemma map_of_update [js_map]: "map_of (AList.update k v m) = (map_of m)(k \<mapsto> v)"
  by (rule update_conv')

lemma keys_update [js_map]: "fst ` set (AList.update k v m) = insert k (fst ` set m)"
  by (simp add: dom_update)

end
