(* ===== verification/UiTypes.thy ===== *)
theory UiTypes
  imports JsPrelude
begin

text \<open>
  The data model of the program (\<open>ui/src/lib/types.ts\<close>): the views the server sends, one
  record for each object type, a datatype for each union of literals and for the two recursive
  object types. A field \<open>f?: T\<close> is of type \<open>T option\<close>; \<open>null\<close> is \<open>None\<close> too. Counters,
  identifiers and timestamps are integers, measured quantities are rationals. A field keeps its
  name behind a prefix of its type, since selectors share one name space.
\<close>

section \<open>Snapshots and metrics\<close>

record Load =
  ld_m1 :: rat
  ld_m5 :: rat
  ld_m15 :: rat
  ld_cores :: "nat option"

record IfaceStats =
  ifs_rx_bytes :: int
  ifs_tx_bytes :: int
  ifs_speed_mbps :: "int option"
  ifs_carrier :: bool

record WANLink =
  wl_name :: string
  wl_ready :: bool
  wl_active :: bool

record CPU =
  cpu_user :: rat
  cpu_sys :: rat
  cpu_idle :: "rat option"
  cpu_softirq :: rat

record DNSSvc =
  dsv_name :: string
  dsv_ok :: bool
  dsv_since :: "int option"

record Unbound =
  ub_queries :: int
  ub_hits :: int
  ub_misses :: int
  ub_hit_pct :: rat

record Rates =
  rt_rx_mbps :: "rat option"
  rt_tx_mbps :: "rat option"

record DiskMount =
  dm_mount :: string
  dm_filesystem :: "string option"
  dm_capacity :: int
  dm_size :: "int option"
  dm_used :: "int option"
  dm_available :: "int option"

record NICMetric =
  nm_name :: string
  nm_rx_median :: "rat option"
  nm_tx_median :: "rat option"
  nm_rx_pt90 :: "rat option"
  nm_tx_pt90 :: "rat option"

record Snapshot =
  sn_ts :: ts
  sn_host :: string
  sn_load :: Load
  sn_cpu :: "CPU option"
  sn_dns_restarts :: int
  sn_dns_svcs :: "DNSSvc list option"
  sn_dns_blocks_delta :: "int option"
  sn_unbound :: "Unbound option"
  sn_ifaces :: "(string, IfaceStats) jsmap"
  sn_wan :: "(string, WANLink) jsmap"
  sn_disks :: "DiskMount list option"
  sn_nic_metrics :: "NICMetric list option"

record UnboundHit =
  uh_pct :: rat
  uh_life :: "bool option"

record Provenance =
  pv_source :: "string option"
  pv_fetched_at :: "string option"
  pv_stale :: "bool option"
  pv_enriched_from :: "string option"
  pv_reason :: "string option"

type_synonym DataSource = string

record AlarmSample =
  al_aid :: int
  al_type :: "string option"
  al_message :: "string option"
  al_timestamp :: "ts option"
  al_device_mac :: "mac option"
  al_device_ip :: "string option"
  al_device_name :: "string option"

record AlarmsView =
  av_active_alarm_count :: int
  av_new_alarms :: "AlarmSample list"
  av_source :: "string option"
  av_fetched_at :: "string option"
  av_stale :: "bool option"
  av_reason :: "string option"
  av_enriched_from :: "string option"

record LatestView =
  lv_snapshot :: Snapshot
  lv_rates :: "(string, Rates) jsmap"
  lv_have_prev :: bool
  lv_unbound_hit :: "UnboundHit option"
  lv_source :: "DataSource option"
  lv_fetched_at :: "string option"
  lv_stale :: "bool option"
  lv_enriched_from :: "string option"
  lv_reason :: "string option"

record HistoryPoint =
  hp_ts :: ts
  hp_load :: Load
  hp_dns_restarts :: int
  hp_rates :: "(string, Rates) jsmap"

section \<open>Flows\<close>

datatype RankedFlow = RankedFlow
  (rf_id: "string option")
  (rf_name: string)
  (rf_type: "string option")
  (rf_dest_ip: "string option")
  (rf_country: "string option")
  (rf_region: "string option")
  (rf_upload: "int option")
  (rf_download: "int option")
  (rf_bytes: int)
  (rf_devices: "RankedFlow list option")
  (rf_targets: "RankedFlow list option")

section \<open>Devices and networks\<close>

record DAP =
  dap_status :: string
  dap_reason :: "string option"
  dap_learned :: int
  dap_trusted :: int
  dap_blocked :: int

record Device =
  dev_mac :: mac
  dev_name :: string
  dev_ip :: "string option"
  dev_ipv6 :: "string list option"
  dev_vendor :: "string option"
  dev_type :: "string option"
  dev_local_domain :: "string option"
  dev_last_active_ts :: "ts option"
  dev_active :: "bool option"
  dev_intf_uuid :: "string option"
  dev_tag_ids :: "string list option"
  dev_device_tag_ids :: "string list option"
  dev_user_tag_ids :: "string list option"
  dev_upload :: "int option"
  dev_download :: "int option"
  dev_top_dests :: "RankedFlow list option"
  dev_dap :: "DAP option"
  dev_hostname :: "string option"
  dev_os :: "string option"
  dev_tx_kbps :: "rat option"
  dev_rx_kbps :: "rat option"
  dev_ssid :: "string option"
  dev_band :: "string option"
  dev_ap_mac :: "mac option"
  dev_ap_name :: "string option"

record NetIface =
  ni_name :: string
  ni_desc :: "string option"
  ni_type :: "string option"
  ni_uuid :: "string option"
  ni_ip :: "string option"
  ni_subnet :: "string option"
  ni_device_count :: "nat option"
  ni_vid :: "nat option"
  ni_intfs :: "string list option"
  ni_dhcp :: "bool option"
  ni_wan_ready :: "bool option"
  ni_wan_active :: "bool option"

record WanFeatures =
  wf_dual_wan :: "bool option"
  wf_single_wan_conn_check :: "bool option"

record WanTestWAN =
  wtw_ready :: "bool option"
  wtw_active :: "bool option"
  wtw_ts :: "ts option"
  wtw_failures :: "string list option"

record WanTest =
  wt_connected :: bool
  wt_wans :: "(string, WanTestWAN) jsmap"

record VirtWAN =
  vw_uuid :: "string option"
  vw_name :: "string option"
  vw_type :: "string option"
  vw_conn_state :: "string option"
  vw_wans :: "string list option"
  vw_failback :: "bool option"
  vw_strict_vpn :: "bool option"

record VPNPeer =
  vp_name :: "string option"
  vp_public_key :: "string option"
  vp_intf :: "string option"
  vp_rx_bytes :: "int option"
  vp_tx_bytes :: "int option"
  vp_last_active :: "ts option"

record VPNClientProfile =
  vcp_profile_id :: "string option"
  vcp_display_name :: "string option"
  vcp_status :: "string option"
  vcp_type :: "string option"
  vcp_remote_ip :: "string option"
  vcp_local_ip :: "string option"
  vcp_message :: "string option"

record VPNClientFamily =
  vcf_family :: string
  vcf_profiles :: "VPNClientProfile list option"

record VPNVIP =
  vip_uid :: "string option"
  vip_name :: "string option"
  vip_ip :: "string option"

record VPNVirtWAN =
  vvw_uuid :: "string option"
  vvw_name :: "string option"
  vvw_type :: "string option"
  vvw_conn_state :: "string option"
  vvw_wans :: "string list option"
  vvw_failback :: "bool option"
  vvw_strict_vpn :: "bool option"

record NetworkView =
  nv_extras_provenance :: "Provenance option"
  nv_network :: "NetIface list"
  nv_features :: "WanFeatures option"
  nv_wan_test :: "WanTest option"
  nv_virt_wans :: "VirtWAN list option"
  nv_capabilities :: "bool option option"

record VPNInventory =
  vi_fetched_at :: "string option"
  vi_stale :: "bool option"
  vi_enriched_from :: "string option"
  vi_reason :: "string option"
  vi_ts :: "ts option"
  vi_host :: "string option"
  vi_wg_peers :: "VPNPeer list option"
  vi_awg_peers :: "VPNPeer list option"
  vi_wg_clients :: "VPNClientProfile list option"
  vi_client_profiles :: "VPNClientFamily list option"
  vi_vips :: "VPNVIP list option"
  vi_virt_wans :: "VPNVirtWAN list option"
  vi_source :: "DataSource option"

section \<open>Switches and topology\<close>

record SwitchPort =
  sp_id :: string
  sp_up :: bool
  sp_speed_mbps :: "int option"
  sp_poe_status :: "string option"
  sp_poe_w :: "rat option"
  sp_poe_mode :: "string option"
  sp_sfp :: "bool option"
  sp_uplink :: "bool option"
  sp_clients :: "mac list option"
  sp_rx_bytes :: "int option"
  sp_tx_bytes :: "int option"
  sp_rx_unicast :: "int option"
  sp_tx_unicast :: "int option"
  sp_rx_broadcast :: "int option"
  sp_tx_broadcast :: "int option"
  sp_rx_multicast :: "int option"
  sp_tx_multicast :: "int option"
  sp_rx_discard :: "int option"
  sp_tx_discard :: "int option"
  sp_rx_error :: "int option"
  sp_tx_error :: "int option"

record SwitchPoE =
  poe_draw_w :: rat
  poe_budget_w :: rat
  poe_active_ports :: int
  poe_peak_port :: "string option"

record SwitchACL =
  acl_used :: int
  acl_max :: int
  acl_control :: int
  acl_tracking :: int

record SwitchRadio =
  srd_band :: string
  srd_channel :: "int option"
  srd_width_mhz :: "int option"

record SwitchCaps =
  sc_clients :: "bool option"
  sc_port_clients :: "bool option"

record Switch =
  sw_mac :: mac
  sw_name :: "string option"
  sw_ip :: "string option"
  sw_model :: "string option"
  sw_version :: "string option"
  sw_firmware :: "string option"
  sw_source :: "string option"
  sw_kind :: "string option"
  sw_healthy :: bool
  sw_uplink_port :: "string option"
  sw_uplink_static :: "bool option"
  sw_parent_nic :: "string option"
  sw_parent_mac :: "mac option"
  sw_parent_port :: "string option"
  sw_ports :: "SwitchPort list option"
  sw_lags :: "string list list option"
  sw_radios :: "SwitchRadio list option"
  sw_poe :: "SwitchPoE option"
  sw_acl :: "SwitchACL option"
  sw_clients :: "mac list option"
  sw_capabilities :: "SwitchCaps option"

datatype TopoNode = TopoNode
  (tn_mac: mac)
  (tn_name: "string option")
  (tn_ip: "string option")
  (tn_type: "string option")
  (tn_parent_port: "string option")
  (tn_child_port: "string option")
  (tn_clients: "mac list option")
  (tn_children: "TopoNode list option")

record BoxMAC =
  bm_name :: string
  bm_mac :: mac

datatype BoxMacEntry = Labeled BoxMAC | Plain mac

record BoxInfo =
  box_name :: string
  box_public_ip :: "string option"
  box_public_ips :: "(string, string) jsmap option"
  box_ddns :: "string option"
  box_macs :: "BoxMacEntry list option"
  box_version :: "string option"
  box_model :: "string option"
  box_license :: "string option"
  box_eid :: "string option"
  box_mode :: "string option"
  box_timezone :: "string option"
  box_country :: "string option"
  box_region :: "string option"
  box_wan_type :: "string option"
  box_local_domain_suffix :: "string option"
  box_uptime_sec :: "int option"
  box_os_uptime_sec :: "int option"
  box_cloud_connected :: "bool option"

record TopoView =
  tv_ts :: "ts option"
  tv_host :: "string option"
  tv_box :: "BoxInfo option"
  tv_switches :: "Switch list option"
  tv_tree :: "TopoNode list option"
  tv_wan_type :: "string option"

section \<open>Policies and rules\<close>

record Policy =
  pol_id :: string
  pol_action :: "string option"
  pol_type :: "string option"
  pol_target :: "string option"
  pol_hit_count :: int
  pol_disabled :: bool
  pol_notes :: "string option"

datatype FwAppRuleSection = SecAllow | SecBlock | SecDisturb | SecTimelimit | SecOther

record FwAppRule =
  fr_id :: string
  fr_section :: FwAppRuleSection
  fr_action :: string
  fr_type :: string
  fr_target :: string
  fr_name :: "string option"
  fr_notes :: "string option"
  fr_direction :: "string option"
  fr_trafficDirection :: "string option"
  fr_disabled :: bool
  fr_scope :: "mac list option"
  fr_tags :: "string list option"
  fr_scopeLabel :: "string option"
  fr_hitCount :: int
  fr_lastHitTs :: "ts option"
  fr_activatedTime :: "string option"
  fr_timestamp :: "string option"
  fr_purpose :: "string option"
  fr_method :: "string option"
  fr_alarmType :: "string option"
  fr_readOnly :: "bool option"
  fr_thresholdMinutes :: "int option"
  fr_offsetSeconds :: "int option"

record FwAppExceptionRule =
  fe_id :: string
  fe_type :: "string option"
  fe_alarmType :: "string option"
  fe_target :: "string option"
  fe_targetName :: "string option"
  fe_matchCount :: int
  fe_timestamp :: "ts option"
  fe_reason :: "string option"
  fe_category :: "string option"
  fe_ifType :: "string option"
  fe_ifTarget :: "string option"

datatype FwAppScopeChipKind = ScopeAll | ScopeDevice | ScopeTag | ScopeGroup

record FwAppScopeChip =
  ch_id :: string
  ch_kind :: FwAppScopeChipKind
  ch_label :: string
  ch_count :: int

record FwAppRulesHub =
  hub_totalRules :: int
  hub_totalHits :: int
  hub_allowHits :: int
  hub_blockHits :: int
  hub_allowCount :: int
  hub_blockCount :: int

record FwAppCatalogItem =
  ci_id :: string
  ci_label :: "string option"

record FwAppHostPolicy =
  hpo_mac :: mac
  hpo_label :: "string option"
  hpo_monitor :: bool
  hpo_isolated :: bool
  hpo_emergency :: "bool option"
  hpo_adblock :: "bool option"
  hpo_family :: "bool option"
  hpo_note :: "string option"
  hpo_tags :: "string list option"

record FwAppRulesView =
  rv_hub :: FwAppRulesHub
  rv_rules :: "FwAppRule list"
  rv_dapRules :: "FwAppRule list option"
  rv_scopes :: "FwAppScopeChip list"
  rv_exceptions :: "FwAppExceptionRule list"
  rv_catalog :: "FwAppCatalogItem list option"
  rv_capabilities :: "(string, bool) jsmap"
  rv_refreshed_at :: "string option"

record FwAppStatus =
  fs_paired :: bool
  fs_state :: string
  fs_box_ip :: "string option"
  fs_gid_hint :: "string option"
  fs_email :: "string option"
  fs_device_name :: "string option"
  fs_paired_at :: "string option"
  fs_last_ping_ok :: "bool option"
  fs_last_ping_at :: "string option"
  fs_last_error :: "string option"
  fs_secrets_ready :: bool

record Tag =
  tag_id :: string
  tag_name :: string
  tag_type :: "string option"
  tag_affiliated_tag :: "string option"

section \<open>Modules, name synchronisation and audit\<close>

datatype ModuleStatus = ModOk | ModDown | ModReady

record ModuleInfo =
  mi_id :: string
  mi_label :: string
  mi_enabled :: bool
  mi_status :: "ModuleStatus option"
  mi_detail :: "string option"
  mi_site :: "string option"
  mi_name_sync_enabled :: "bool option"
  mi_name_sync_auto :: "bool option"
  mi_name_sync_pending :: "int option"
  mi_audit_names :: "int option"
  mi_audit_vlan :: "int option"
  mi_audit_stp :: "int option"
  mi_audit_unknown :: "int option"
  mi_audit_offline :: "int option"
  mi_audit_pending :: "int option"

datatype NameSyncStatus = SyncEmpty | SyncConflict

record NameSyncRow =
  nsr_mac :: mac
  nsr_ip :: "string option"
  nsr_firewalla_name :: string
  nsr_unifi_name :: "string option"
  nsr_status :: NameSyncStatus

record NameSyncView =
  nsv_name_sync_enabled :: bool
  nsv_name_sync_auto :: bool
  nsv_name_sync_excluded :: "string list option"
  nsv_rows :: "NameSyncRow list"
  nsv_excluded :: "NameSyncRow list option"

record VLANAuditRow =
  var_mac :: mac
  var_name :: "string option"
  var_fw_vid :: int
  var_unifi_vid :: int
  var_sx_vid :: "int option"

datatype StpKind = StpOff | StpWrongRoot | StpPriority | StpUplinkBlocking

record STPAuditRow =
  sar_mac :: mac
  sar_name :: "string option"
  sar_kind :: StpKind
  sar_detail :: "string option"

datatype UnknownSide = UnifiOnly | FwOnly

record UnknownAuditRow =
  uar_mac :: mac
  uar_name :: "string option"
  uar_side :: UnknownSide

datatype OfflineKind = OffSwitch | OffAp

record OfflineAuditRow =
  oar_mac :: mac
  oar_name :: "string option"
  oar_kind :: OfflineKind

record PendingAuditRow =
  par_mac :: mac
  par_name :: "string option"
  par_model :: "string option"

record AuditView =
  au_names :: "int \<times> NameSyncRow list"
  au_vlan :: "int \<times> VLANAuditRow list"
  au_stp :: "int \<times> STPAuditRow list"
  au_unknown :: "int \<times> UnknownAuditRow list"
  au_offline :: "int \<times> OfflineAuditRow list"
  au_pending :: "int \<times> PendingAuditRow list"

section \<open>UniFi and wireless\<close>

record UnifiConsole =
  uc_name :: "string option"
  uc_hardware :: "string option"
  uc_ip :: "string option"
  uc_inform :: "string option"
  uc_uptime_sec :: "int option"
  uc_network_version :: "string option"
  uc_network_update :: "bool option"
  uc_site :: "string option"
  uc_cloud :: "bool option"
  uc_aps :: "int option"
  uc_switches :: "int option"
  uc_devices :: "int option"
  uc_clients :: "int option"

record WirelessMeta =
  wm_source :: "string option"
  wm_site :: "string option"
  wm_networks_supported :: bool
  wm_error :: "string option"

record WirelessRadio =
  wr_band :: string
  wr_channel :: "int option"
  wr_width_mhz :: "int option"
  wr_clients :: "int option"

record WirelessAP =
  wa_mac :: mac
  wa_name :: "string option"
  wa_ip :: "string option"
  wa_model :: "string option"
  wa_firmware :: "string option"
  wa_healthy :: bool
  wa_uplink :: "string option"
  wa_source :: "string option"
  wa_radios :: "WirelessRadio list option"
  wa_clients :: "int option"

record WirelessNetwork =
  wn_id :: "string option"
  wn_name :: string
  wn_ssid :: "string option"
  wn_enabled :: "bool option"
  wn_bands :: "string list option"
  wn_clients :: "int option"

record WirelessClient =
  wc_mac :: mac
  wc_name :: "string option"
  wc_ip :: "string option"
  wc_ssid :: "string option"
  wc_band :: "string option"
  wc_ap_mac :: "mac option"
  wc_ap_name :: "string option"
  wc_hostname :: "string option"
  wc_os :: "string option"
  wc_tx_kbps :: "rat option"
  wc_rx_kbps :: "rat option"

record WirelessView =
  wv_meta :: WirelessMeta
  wv_aps :: "WirelessAP list"
  wv_networks :: "WirelessNetwork list"
  wv_clients :: "WirelessClient list"

section \<open>Control history\<close>

text \<open>A value of type \<open>unknown\<close> that came from JSON.\<close>

datatype json =
    JNull
  | JBool bool
  | JNum rat
  | JStr string
  | JArr "json list"
  | JObj "(string \<times> json) list"

record ControlEvent =
  ce_id :: int
  ce_ts :: int
  ce_scheme :: string
  ce_action :: string
  ce_actor_kind :: string
  ce_actor :: string
  ce_target :: string
  ce_summary :: "string option"
  ce_result :: string
  ce_error :: "string option"
  ce_before :: "json option"
  ce_after :: "json option"

record ControlHistoryView =
  chv_events :: "ControlEvent list"
  chv_actions :: "(string, string list) jsmap"

section \<open>Tabs and view modes\<close>

datatype Tab =
    TMetrics | TInventory | TNetwork | TTopology | TWireless | TAudit | THistory | TDevices
  | TAlarms | TRules | TGroups | TLogs | TSettings | TDebug | TLegacy

datatype ViewMode = Visual | ListMode

section \<open>Dashboard\<close>

record BytePoint =
  bp_ts :: ts
  bp_upload :: int
  bp_download :: int
  bp_conn :: "int option"

record Transfer24h =
  tr_upload :: int
  tr_download :: int
  tr_points :: "BytePoint list option"

record WANUsage =
  wu_uuid :: string
  wu_name :: string
  wu_upload :: int
  wu_download :: int

record BlockedMix =
  bx_blocked :: int
  bx_allowed :: int

record SpeedtestPoint =
  stp_ts :: ts
  stp_down :: rat
  stp_up :: rat
  stp_ping :: "rat option"
  stp_server_id :: "string option"
  stp_server :: "string option"
  stp_location :: "string option"

record SpeedtestWAN =
  stw_uuid :: string
  stw_name :: string
  stw_active :: "bool option"
  stw_plan_down :: "rat option"
  stw_plan_up :: "rat option"
  stw_down :: "rat option"
  stw_up :: "rat option"
  stw_ping :: "rat option"
  stw_jitter :: "rat option"
  stw_server_id :: "string option"
  stw_server :: "string option"
  stw_location :: "string option"
  stw_points :: "SpeedtestPoint list option"

record DNSResolver =
  dr_server :: string
  dr_wan :: "string option"
  dr_ok :: bool

record DNSQuery =
  dq_ts :: ts
  dq_count :: int

record DNSHealth =
  dh_resolvers :: "DNSResolver list option"
  dh_queries :: "DNSQuery list option"

record Dashboard =
  da_ts :: "ts option"
  da_host :: "string option"
  da_devices :: int
  da_rules :: int
  da_alarm_count :: int
  da_transfer_24h :: Transfer24h
  da_transfer_30d :: "Transfer24h option"
  da_transfer_60 :: "Transfer24h option"
  da_transfer_12m :: "Transfer24h option"
  da_monthly_wans :: "WANUsage list option"
  da_monthly_begin_ts :: "ts option"
  da_monthly_end_ts :: "ts option"
  da_blocked :: BlockedMix
  da_top_upload :: "RankedFlow list option"
  da_top_download :: "RankedFlow list option"
  da_top_dest_upload :: "RankedFlow list option"
  da_top_dest_download :: "RankedFlow list option"
  da_top_regions :: "RankedFlow list option"
  da_speedtest :: "SpeedtestWAN list option"
  da_dns :: "DNSHealth option"
  da_source :: "DataSource option"
  da_fetched_at :: "string option"
  da_stale :: "bool option"
  da_enriched_from :: "string option"
  da_reason :: "string option"

section \<open>Constants\<close>

definition MIN_MS :: int where
  "MIN_MS = 60000"

definition HOUR_MS :: int where
  "HOUR_MS = 60 * MIN_MS"

definition DAY_MS :: int where
  "DAY_MS = 24 * HOUR_MS"

lemmas ms_units = MIN_MS_def HOUR_MS_def DAY_MS_def

definition SEEN_OPTIONS :: "(string \<times> int) list" where
  "SEEN_OPTIONS =
     [(''1h'', HOUR_MS), (''6h'', 6 * HOUR_MS), (''1d'', DAY_MS), (''1w'', 7 * DAY_MS), (''1mo'', 30 * DAY_MS),
      (''3mo'', 90 * DAY_MS), (''6mo'', 180 * DAY_MS)]"

definition CHART_RANGES :: "string list" where
  "CHART_RANGES = [''6h'', ''1d'', ''7d'', ''30d'', ''90d'']"

section \<open>Plain values\<close>

text \<open>A device of which only the address and the name are known.\<close>

definition plain_device :: "mac \<Rightarrow> string \<Rightarrow> Device" where
  "plain_device m n = \<lparr>dev_mac = m, dev_name = n, dev_ip = None, dev_ipv6 = None, dev_vendor = None,
     dev_type = None, dev_local_domain = None, dev_last_active_ts = None, dev_active = None,
     dev_intf_uuid = None, dev_tag_ids = None, dev_device_tag_ids = None, dev_user_tag_ids = None,
     dev_upload = None, dev_download = None, dev_top_dests = None, dev_dap = None,
     dev_hostname = None, dev_os = None, dev_tx_kbps = None, dev_rx_kbps = None, dev_ssid = None,
     dev_band = None, dev_ap_mac = None, dev_ap_name = None\<rparr>"

text \<open>An interface with an address and a subnet, and a switch with a parent.\<close>

definition plain_iface :: "string \<Rightarrow> string \<Rightarrow> string \<Rightarrow> NetIface" where
  "plain_iface name ip subnet = \<lparr>ni_name = name, ni_desc = None, ni_type = None, ni_uuid = None,
     ni_ip = Some ip, ni_subnet = Some subnet, ni_device_count = None, ni_vid = None,
     ni_intfs = None, ni_dhcp = None, ni_wan_ready = None, ni_wan_active = None\<rparr>"

definition plain_switch :: "mac \<Rightarrow> mac option \<Rightarrow> Switch" where
  "plain_switch m parent = \<lparr>sw_mac = m, sw_name = None, sw_ip = None, sw_model = None, sw_version = None,
     sw_firmware = None, sw_source = None, sw_kind = None, sw_healthy = True, sw_uplink_port = None,
     sw_uplink_static = None, sw_parent_nic = None, sw_parent_mac = parent, sw_parent_port = None,
     sw_ports = None, sw_lags = None, sw_radios = None, sw_poe = None, sw_acl = None,
     sw_clients = None, sw_capabilities = None\<rparr>"

end
