(* ===== verification/AnonNet.thy ===== *)
theory AnonNet
  imports UiTypes
begin

text \<open>
  The address half of the anonymity mode (\<open>ui/src/lib/anonymity.ts\<close>, lines 471 to 572, 611 to
  616 and the address methods of \<open>createAnon\<close>): the FNV-1a hash, IPv4 addresses and prefixes
  as 32-bit words, and the substitutes for addresses, prefixes, hardware addresses, identifiers
  and timestamps. The operators \<open>&\<close>, \<open>|\<close>, \<open><<\<close>, \<open>>>>\<close> and \<open>Math.imul\<close> of the language work on
  32 bits, so a result taken \<open>>>> 0\<close> is a \<open>32 word\<close>. A text that is hashed is the list of
  its UTF-16 code units, so that the placeholder U+2205 of an empty text is one unit.
\<close>

type_synonym units = "nat list"
type_synonym v4 = "32 word"

definition units :: "string \<Rightarrow> units" where
  "units s = map of_char s"

definition EMPTY_MARK :: units where
  "EMPTY_MARK = [0x2205]"

text \<open>\<open>original || U+2205\<close>\<close>

definition or_mark :: "string \<Rightarrow> units" where
  "or_mark s = (if s = [] then EMPTY_MARK else units s)"

section \<open>Hash\<close>

definition fnv :: "units \<Rightarrow> 32 word" where
  "fnv s = foldl (\<lambda>h u. (h XOR of_nat u) * 16777619) 2166136261 s"

section \<open>IPv4 addresses and prefixes\<close>

definition octet :: "string \<Rightarrow> bool" where
  "octet s \<longleftrightarrow> all_digits s \<and> length s \<le> 3"

definition pack4 :: "nat \<Rightarrow> nat \<Rightarrow> nat \<Rightarrow> nat \<Rightarrow> v4" where
  "pack4 a b c d =
     ((push_bit 24 (of_nat a) OR push_bit 16 (of_nat b)) OR push_bit 8 (of_nat c)) OR of_nat d"

definition parseV4 :: "string \<Rightarrow> v4 option" where
  "parseV4 s =
     (case splitOn CHR ''.'' (trim s) of
        [a, b, c, d] \<Rightarrow>
          if list_all octet [a, b, c, d]
          then let oct = map (read_nat 10) [a, b, c, d] in
            if list_ex (\<lambda>n. 255 < n) oct then None
            else Some (pack4 (oct ! 0) (oct ! 1) (oct ! 2) (oct ! 3))
          else None
      | _ \<Rightarrow> None)"

definition fmtV4 :: "v4 \<Rightarrow> string" where
  "fmtV4 n = dec (unat (drop_bit 24 n AND 255)) @ ''.'' @ dec (unat (drop_bit 16 n AND 255)) @ ''.''
     @ dec (unat (drop_bit 8 n AND 255)) @ ''.'' @ dec (unat (n AND 255))"

definition v4Mask :: "nat \<Rightarrow> v4" where
  "v4Mask plen = (let hostBits = 32 - plen in
     if 32 \<le> hostBits then 0
     else if hostBits = 0 then 0xffffffff
     else push_bit hostBits (NOT 0))"

record cidr =
  cd_net :: v4
  cd_plen :: nat

definition plen_of :: "jsnum \<Rightarrow> nat option" where
  "plen_of n = (case n of
      Num r \<Rightarrow> if of_int \<lfloor>r\<rfloor> = r \<and> 0 \<le> r \<and> r \<le> 32 then Some (nat \<lfloor>r\<rfloor>) else None
    | _ \<Rightarrow> None)"

definition parseCIDR :: "string \<Rightarrow> cidr option" where
  "parseCIDR s =
     (let parts = splitOn CHR ''/'' (trim s) in
      case parseV4 (hd parts) of
        None \<Rightarrow> None
      | Some addr \<Rightarrow>
          (case plen_of (case tl parts of [] \<Rightarrow> Num 32 | p # _ \<Rightarrow> js_Number p) of
             None \<Rightarrow> None
           | Some plen \<Rightarrow> Some \<lparr>cd_net = addr AND v4Mask plen, cd_plen = plen\<rparr>))"

definition isPrivateV4 :: "v4 \<Rightarrow> bool" where
  "isPrivateV4 n =
     (let a = drop_bit 24 n AND 255; b = drop_bit 16 n AND 255 in
      if a = 10 then True
      else if a = 192 \<and> b = 168 then True
      else if a = 172 \<and> 16 \<le> b \<and> b \<le> 31 then True
      else False)"

definition ipInCIDR :: "string \<Rightarrow> string \<Rightarrow> bool" where
  "ipInCIDR ip cidr =
     (case (parseV4 ip, parseCIDR cidr) of
        (Some addr, Some c) \<Rightarrow> (addr AND v4Mask (cd_plen c)) = cd_net c
      | _ \<Rightarrow> False)"

section \<open>Substitute networks\<close>

definition fakePrivateV4Net :: "32 word \<Rightarrow> nat \<Rightarrow> v4" where
  "fakePrivateV4Net h plen =
     (let p = max plen 8;
          hostBits = 32 - p;
          inner = min 24 (max 0 (p - 8));
          net = 0x0a000000 OR push_bit hostBits (h AND (push_bit inner 1 - 1))
      in net AND v4Mask p)"

definition TEST_NET24 :: "v4 list" where
  "TEST_NET24 = [0xcb007100, 0xc6336400, 0xc0000200]"

definition fakePublicV4Net :: "32 word \<Rightarrow> nat \<Rightarrow> v4" where
  "fakePublicV4Net h plen =
     (if 24 \<le> plen then
        let base = TEST_NET24 ! (unat h mod length TEST_NET24);
            hostBits = 32 - plen;
            extraBits = max 0 (plen - 24);
            extra = (if extraBits = 0 then 0 else drop_bit 8 h AND (push_bit extraBits 1 - 1))
        in (base OR push_bit hostBits extra) AND v4Mask plen
      else
        let p = max plen 10;
            hostBits = 32 - p;
            inner = min 22 (max 0 (p - 10));
            innerMask = (if inner = 0 then 0 else push_bit inner 1 - 1);
            net = 0x64400000 OR push_bit hostBits (h AND innerMask)
        in net AND v4Mask p)"

definition remapV4 :: "v4 \<Rightarrow> cidr \<Rightarrow> v4 \<Rightarrow> string" where
  "remapV4 addr orig fakeNet =
     (let host = addr AND NOT (v4Mask (cd_plen orig)) in fmtV4 (fakeNet OR host))"

definition fakeV6 :: "string \<Rightarrow> string \<Rightarrow> string" where
  "fakeV6 salt ip =
     (let lower = toLowerCase (trim ip);
          ula = startsWith lower ''fc'' \<or> startsWith lower ''fd'' \<or> startsWith lower ''fe80'';
          h = fnv (units (salt @ ''|v6|'' @ lower));
          p0 = hex (unat (h AND 0xffff));
          p1 = hex (unat (drop_bit 16 h AND 0xffff));
          p2 = take 4 (hex (unat (fnv (units (salt @ ''|v6b|'' @ lower)))));
          p6 = hex (unat (h AND 0xff))
      in if ula then ''fd00:'' @ p0 @ '':'' @ p1 @ '':'' @ p2 @ ''::'' @ p6
         else ''2001:db8:'' @ p0 @ '':'' @ p1 @ ''::'' @ p6)"

section \<open>Hardware addresses\<close>

definition mac_pair :: "string \<Rightarrow> bool" where
  "mac_pair s \<longleftrightarrow> length s = 2 \<and> list_all is_hex s"

definition dash_to_colon :: "string \<Rightarrow> string" where
  "dash_to_colon s = map (\<lambda>c. if c = CHR ''-'' then CHR '':'' else c) s"

definition parseMAC :: "string \<Rightarrow> nat list option" where
  "parseMAC s =
     (let hx = dash_to_colon (toLowerCase (trim s)); ps = splitOn CHR '':'' hx in
      if length ps = 6 \<and> list_all mac_pair ps then Some (map (read_nat 16) ps) else None)"

definition hex2 :: "nat \<Rightarrow> string" where
  "hex2 b = padStart 2 CHR ''0'' (hex b)"

definition fakeMAC :: "string \<Rightarrow> string \<Rightarrow> string" where
  "fakeMAC salt mac =
     (case parseMAC mac of
        None \<Rightarrow> mac
      | Some bytes \<Rightarrow>
          let h = fnv (units (salt @ ''|mac|'' @ join '':'' (map hex2 bytes)));
              h2 = fnv (units (salt @ ''|mac2|'' @ toLowerCase mac));
              out = [(drop_bit 24 h AND 0xfe) OR 0x02, drop_bit 16 h AND 0xff, drop_bit 8 h AND 0xff,
                     h AND 0xff, drop_bit 16 h2 AND 0xff, h2 AND 0xff]
          in join '':'' (map (\<lambda>b. padStart 2 CHR ''0'' (toUpperCase (hex (unat b)))) out))"

section \<open>The address methods of \<open>createAnon\<close>\<close>

text \<open>A prefix of the local network and its substitute.\<close>

record CidrMap =
  cm_orig :: string
  cm_fake :: string

definition offsetSec :: "string \<Rightarrow> int" where
  "offsetSec salt = - ((3 + int (unat (fnv (units (salt @ ''|offset''))) mod 14)) * 86400)"

definition shiftTS :: "string \<Rightarrow> ts \<Rightarrow> ts" where
  "shiftTS salt t = (if t = 0 then t else t + offsetSec salt)"

definition fakeEID :: "string \<Rightarrow> string \<Rightarrow> string" where
  "fakeEID salt original =
     (let h = padStart 8 CHR ''0'' (hex (unat (fnv (units (salt @ ''|eid|'' @ original)))))
      in ''eid-'' @ h @ h)"

definition fakeCIDR :: "string \<Rightarrow> string \<Rightarrow> string" where
  "fakeCIDR salt cidr =
     (case parseCIDR cidr of
        None \<Rightarrow> cidr
      | Some c \<Rightarrow>
          let h = fnv (units (salt @ ''|cidr|'' @ dec (unat (cd_net c)) @ ''/'' @ dec (cd_plen c)));
              net = (if isPrivateV4 (cd_net c) then fakePrivateV4Net h (cd_plen c)
                     else fakePublicV4Net h (cd_plen c))
          in fmtV4 net @ ''/'' @ dec (cd_plen c))"

text \<open>The first entry of the list that holds the address and has prefixes of one length.\<close>

fun remap_first :: "string \<Rightarrow> v4 \<Rightarrow> CidrMap list \<Rightarrow> string option" where
  "remap_first raw addr [] = None"
| "remap_first raw addr (m # ms) =
     (if \<not> ipInCIDR raw (cm_orig m) then remap_first raw addr ms
      else case (parseCIDR (cm_orig m), parseCIDR (cm_fake m)) of
        (Some orig, Some fake) \<Rightarrow>
          if cd_plen orig \<noteq> cd_plen fake then remap_first raw addr ms
          else Some (remapV4 addr orig (cd_net fake))
      | _ \<Rightarrow> remap_first raw addr ms)"

definition fakeIP :: "string \<Rightarrow> string \<Rightarrow> CidrMap list \<Rightarrow> string" where
  "fakeIP salt ip cidrs =
     (let raw = trim ip in
      if CHR '':'' \<in> set raw then fakeV6 salt raw
      else case parseV4 raw of
        None \<Rightarrow> ip
      | Some addr \<Rightarrow>
          (case remap_first raw addr cidrs of
             Some out \<Rightarrow> out
           | None \<Rightarrow>
               let h = fnv (units (salt @ ''|ip|'' @ raw));
                   net = (if isPrivateV4 addr then fakePrivateV4Net h 32 else fakePublicV4Net h 32)
               in fmtV4 net))"

section \<open>Bits of the masks\<close>

lemma byte_mask: "(255 :: 32 word) = mask 8"
  by (simp add: mask_eq_exp_minus_1)

lemma bit_v4Mask:
  "plen \<le> 32 \<Longrightarrow> bit (v4Mask plen) i \<longleftrightarrow> 32 - plen \<le> i \<and> i < 32"
proof -
  assume "plen \<le> 32"
  moreover have all_ones: "mask 32 = (0xffffffff :: 32 word)"
    by (simp add: mask_eq_exp_minus_1)
  ultimately show ?thesis
    by (auto simp: v4Mask_def Let_def bit_simps simp flip: all_ones)
qed

lemma v4Mask_32 [simp]: "w AND v4Mask 32 = w"
  by (rule bit_word_eqI) (simp add: bit_v4Mask bit_and_iff)

lemma unat_byte [simp]: "unat (w AND 255 :: 32 word) < 256"
proof -
  have "w AND 255 = take_bit 8 w"
    by (simp add: byte_mask take_bit_eq_mask)
  then show ?thesis
    by (simp add: unsigned_take_bit_eq take_bit_nat_less_exp [of 8, simplified])
qed

lemma pack4_bytes:
  "pack4 (unat (drop_bit 24 n AND 255)) (unat (drop_bit 16 n AND 255))
     (unat (drop_bit 8 n AND 255)) (unat (n AND 255)) = n"
  unfolding pack4_def byte_mask
proof (rule bit_word_eqI)
  fix i
  assume "i < LENGTH(32)"
  then consider "i < 8" | "8 \<le> i" "i < 16" | "16 \<le> i" "i < 24" | "24 \<le> i" "i < 32"
    by fastforce
  then show "bit (((push_bit 24 (of_nat (unat (drop_bit 24 n AND mask 8)))
        OR push_bit 16 (of_nat (unat (drop_bit 16 n AND mask 8))))
        OR push_bit 8 (of_nat (unat (drop_bit 8 n AND mask 8))))
        OR of_nat (unat (n AND mask 8)) :: 32 word) i = bit n i"
    by cases (auto simp: bit_simps)
qed

section \<open>Reading and printing addresses\<close>

lemma length_dec_octet: "n < 1000 \<Longrightarrow> length (dec n) \<le> 3"
  unfolding dec_def
  by (subst radix.simps, simp, subst radix.simps, simp, subst radix.simps, simp)

lemma octet_dec: "n < 256 \<Longrightarrow> octet (dec n)"
  using length_dec_octet [of n] by (simp add: octet_def)

lemma hd_dec: "is_digit (hd (dec n))"
  by (metis dec_digits dec_not_Nil list.pred_set hd_in_set)

lemma last_dec: "is_digit (last (dec n))"
  by (metis dec_digits dec_not_Nil list.pred_set last_in_set)

lemma dec_no_sep: "\<not> is_digit d \<Longrightarrow> d \<notin> set (dec n)"
  by (metis dec_digits list.pred_set)

lemma splitOn_dec:
  assumes "\<not> is_digit d"
  shows "splitOn d (dec n @ d # s) = dec n # splitOn d s" "splitOn d (dec n) = [dec n]"
  using dec_no_sep [OF assms] by (simp_all add: splitOn_append splitOn_no_sep)

lemma not_digits [simp]:
  "\<not> is_digit CHR ''.''" "\<not> is_digit CHR ''/''" "\<not> is_digit CHR '':''"
  by (simp_all add: is_digit_def)

lemma fmtV4_plain:
  "fmtV4 n \<noteq> []" "\<not> is_ws (hd (fmtV4 n))" "\<not> is_ws (last (fmtV4 n))"
  by (simp_all add: fmtV4_def hd_dec last_dec digit_plain)

lemma trim_fmtV4 [simp]: "trim (fmtV4 n) = fmtV4 n"
  by (simp add: trim_clean fmtV4_plain)

lemma fmtV4_chars: "c \<in> set (fmtV4 n) \<Longrightarrow> is_digit c \<or> c = CHR ''.''"
  using dec_digits unfolding fmtV4_def by (auto simp: list.pred_set)

lemma parseV4_fmtV4 [simp]: "parseV4 (fmtV4 n) = Some n"
proof -
  have "splitOn CHR ''.'' (fmtV4 n) =
      [dec (unat (drop_bit 24 n AND 255)), dec (unat (drop_bit 16 n AND 255)),
       dec (unat (drop_bit 8 n AND 255)), dec (unat (n AND 255))]"
    by (simp add: fmtV4_def splitOn_dec)
  moreover have "\<not> 255 < unat (w AND 255 :: 32 word)" for w
    using unat_byte [of w] by linarith
  ultimately show ?thesis
    by (simp add: parseV4_def Let_def octet_dec pack4_bytes)
qed

lemma parseV4_trim [simp]: "parseV4 (trim s) = parseV4 s"
  by (simp add: parseV4_def)

lemma plen_of_nat: "n \<le> 32 \<Longrightarrow> plen_of (Num (of_nat n)) = Some n"
  by (simp add: plen_of_def)

lemma plen_of_le: "plen_of x = Some n \<Longrightarrow> n \<le> 32"
  by (auto simp: plen_of_def floor_le_iff split: jsnum.splits if_splits)

lemma parseCIDR_print:
  assumes "plen \<le> 32"
  shows "parseCIDR (fmtV4 n @ ''/'' @ dec plen) = Some \<lparr>cd_net = n AND v4Mask plen, cd_plen = plen\<rparr>"
proof -
  have "CHR ''/'' \<notin> set (fmtV4 n)"
    using fmtV4_chars not_digits(2) by blast
  then have sp: "splitOn CHR ''/'' (fmtV4 n @ ''/'' @ dec plen) = [fmtV4 n, dec plen]"
    by (simp add: splitOn_append splitOn_dec)
  have tr: "trim (fmtV4 n @ ''/'' @ dec plen) = fmtV4 n @ ''/'' @ dec plen"
    using fmtV4_plain [of n] by (intro trim_clean) (simp add: last_dec digit_plain)
  show ?thesis
    using assms by (simp add: parseCIDR_def Let_def sp [simplified] tr [simplified] plen_of_nat)
qed

lemma parseCIDR_Some:
  assumes "parseCIDR s = Some c"
  shows "cd_plen c \<le> 32" "cd_net c AND v4Mask (cd_plen c) = cd_net c"
  using assms plen_of_le
  by (auto simp: parseCIDR_def Let_def ac_simps split: option.splits)

section \<open>Substitute networks stay in reserved ranges\<close>

lemma bit_low_mask: "k < 32 \<Longrightarrow> bit (2 ^ k - 1 :: 32 word) i \<longleftrightarrow> i < k"
proof -
  assume "k < 32"
  have "(2 ^ k - 1 :: 32 word) = mask k"
    by (simp add: mask_eq_exp_minus_1)
  with \<open>k < 32\<close> show ?thesis by (auto simp: bit_simps)
qed

text \<open>A network number that agrees with a base above bit \<open>k\<close>.\<close>

definition in_block :: "nat \<Rightarrow> v4 \<Rightarrow> v4 \<Rightarrow> bool" where
  "in_block k base w \<longleftrightarrow> drop_bit k w = drop_bit k base"

lemma in_blockI:
  assumes "\<And>i. k \<le> i \<Longrightarrow> i < 32 \<Longrightarrow> bit w i = bit base i"
  shows "in_block k base w"
  unfolding in_block_def
proof (rule bit_word_eqI)
  fix i :: nat
  show "bit (drop_bit k w) i = bit (drop_bit k base) i"
    using assms [of "k + i"] bit_imp_le_length [of w "k + i"] bit_imp_le_length [of base "k + i"]
    by (auto simp: bit_drop_bit_eq)
qed

lemma fakePrivateV4Net_block:
  assumes "plen \<le> 32"
  shows "in_block 24 0x0a000000 (fakePrivateV4Net h plen)"
proof (rule in_blockI)
  fix i :: nat
  assume i: "24 \<le> i" "i < 32"
  define p where "p = max plen 8"
  have p: "8 \<le> p" "p \<le> 32" using assms by (auto simp: p_def)
  have "fakePrivateV4Net h plen =
      (0x0a000000 OR push_bit (32 - p) (h AND (push_bit (p - 8) 1 - 1))) AND v4Mask p"
    using p by (simp add: fakePrivateV4Net_def Let_def flip: p_def)
  moreover have "\<not> bit (push_bit (32 - p) (h AND (push_bit (p - 8) 1 - 1)) :: 32 word) i"
    using i p by (auto simp: bit_simps bit_low_mask)
  moreover have "32 - p \<le> i" using i p by simp
  ultimately show "bit (fakePrivateV4Net h plen) i = bit (0x0a000000 :: 32 word) i"
    using i p by (auto simp: bit_or_iff bit_and_iff bit_v4Mask)
qed

lemma TEST_NET24_low: "b \<in> set TEST_NET24 \<Longrightarrow> drop_bit 8 b = b div 256"
  by (simp add: drop_bit_eq_div)

lemma fakePublicV4Net_block:
  assumes "plen \<le> 32"
  shows "if 24 \<le> plen then \<exists>b \<in> set TEST_NET24. in_block 8 b (fakePublicV4Net h plen)
         else in_block 22 0x64400000 (fakePublicV4Net h plen)"
proof (cases "24 \<le> plen")
  case True
  define b where "b = TEST_NET24 ! (unat h mod length TEST_NET24)"
  define x where "x = (if plen - 24 = 0 then 0 else drop_bit 8 h AND (push_bit (plen - 24) 1 - 1))"
  have b: "b \<in> set TEST_NET24"
    unfolding b_def by (rule nth_mem) (simp add: TEST_NET24_def)
  have eq: "fakePublicV4Net h plen = (b OR push_bit (32 - plen) x) AND v4Mask plen"
    using True by (simp add: fakePublicV4Net_def Let_def b_def x_def)
  have "in_block 8 b (fakePublicV4Net h plen)"
  proof (rule in_blockI)
    fix i :: nat
    assume i: "8 \<le> i" "i < 32"
    have "\<not> bit (push_bit (32 - plen) x) i"
      using i True assms by (auto simp: x_def bit_simps bit_low_mask)
    moreover have "32 - plen \<le> i" using i True by simp
    ultimately show "bit (fakePublicV4Net h plen) i = bit b i"
      using i assms by (simp add: eq bit_or_iff bit_and_iff bit_v4Mask)
  qed
  with b True show ?thesis by auto
next
  case False
  define p where "p = max plen 10"
  have p: "10 \<le> p" "p < 24" using False by (auto simp: p_def)
  define x where "x = h AND (if p - 10 = 0 then 0 else push_bit (p - 10) 1 - 1)"
  have eq: "fakePublicV4Net h plen = (0x64400000 OR push_bit (32 - p) x) AND v4Mask p"
    using False p by (simp add: fakePublicV4Net_def Let_def x_def flip: p_def)
  have "in_block 22 0x64400000 (fakePublicV4Net h plen)"
  proof (rule in_blockI)
    fix i :: nat
    assume i: "22 \<le> i" "i < 32"
    have "\<not> bit (push_bit (32 - p) x) i"
      using i p by (auto simp: x_def bit_simps bit_low_mask)
    moreover have "32 - p \<le> i" using i p by simp
    ultimately show "bit (fakePublicV4Net h plen) i = bit (0x64400000 :: 32 word) i"
      using i p by (simp add: eq bit_or_iff bit_and_iff bit_v4Mask)
  qed
  with False show ?thesis by simp
qed

section \<open>Addresses of a mapped prefix\<close>

lemma remap_word:
  assumes "plen \<le> 32" "net AND v4Mask plen = net"
  shows "(net OR (a AND NOT (v4Mask plen))) AND v4Mask plen = net"
    and "(net OR (a AND NOT (v4Mask plen))) AND NOT (v4Mask plen) = a AND NOT (v4Mask plen)"
proof -
  have net: "bit net i \<Longrightarrow> bit (v4Mask plen) i" for i
    using assms(2) by (metis bit_and_iff)
  show "(net OR (a AND NOT (v4Mask plen))) AND v4Mask plen = net"
    by (rule bit_word_eqI) (use net in \<open>auto simp: bit_simps\<close>)
  show "(net OR (a AND NOT (v4Mask plen))) AND NOT (v4Mask plen) = a AND NOT (v4Mask plen)"
    by (rule bit_word_eqI) (use net in \<open>auto simp: bit_simps\<close>)
qed

lemma remap_first_Some:
  assumes "remap_first raw addr ms = Some out"
  shows "\<exists>m orig fake. m \<in> set ms \<and> ipInCIDR raw (cm_orig m) \<and> parseCIDR (cm_orig m) = Some orig
     \<and> parseCIDR (cm_fake m) = Some fake \<and> cd_plen orig = cd_plen fake
     \<and> out = remapV4 addr orig (cd_net fake)"
  using assms
  by (induction ms) (auto split: if_splits option.splits)

lemma parseV4_remapV4:
  "parseV4 (remapV4 addr orig net) = Some (net OR (addr AND NOT (v4Mask (cd_plen orig))))"
  by (simp add: remapV4_def Let_def)

lemma fakeCIDR_parse:
  assumes "parseCIDR c = Some orig"
  obtains fake where "parseCIDR (fakeCIDR salt c) = Some fake" "cd_plen fake = cd_plen orig"
  using assms parseCIDR_Some(1) [OF assms]
  by (simp add: fakeCIDR_def Let_def parseCIDR_print [simplified])

section \<open>Hardware addresses\<close>

lemma hex_length_byte: "n < 256 \<Longrightarrow> length (hex n) \<le> 2"
  unfolding hex_def
  by (subst radix.simps, simp, subst radix.simps, simp, linarith)

lemma is_hex_case [simp]: "is_hex (upc c) = is_hex c" "is_hex (loc c) = is_hex c"
  by (auto simp: is_hex_def is_digit_def char_case)

lemma list_all_hex_upper [simp]: "list_all is_hex (toUpperCase s) = list_all is_hex s"
  by (simp add: toUpperCase_def list.pred_map comp_def)

lemma digit_val_upc: "is_hex c \<Longrightarrow> digit_val (upc c) = digit_val c"
  by (auto simp: digit_val_def is_hex_def is_digit_def char_case)

lemma digit_val_loc: "is_hex c \<Longrightarrow> digit_val (loc c) = digit_val c"
  by (auto simp: digit_val_def is_hex_def is_digit_def char_case)

lemma read_nat_cong:
  "(\<And>c. c \<in> set s \<Longrightarrow> digit_val (f c) = digit_val c) \<Longrightarrow> read_nat b (map f s) = read_nat b s"
proof (induction s rule: rev_induct)
  case (snoc c s)
  then show ?case by (simp add: read_nat_snoc)
qed simp

lemma read_nat_lower:
  "list_all is_hex s \<Longrightarrow> read_nat 16 (toLowerCase s) = read_nat 16 s"
  unfolding toLowerCase_def by (rule read_nat_cong) (auto simp: list.pred_set digit_val_loc)

lemma read_nat_upper:
  "list_all is_hex s \<Longrightarrow> read_nat 16 (toUpperCase s) = read_nat 16 s"
  unfolding toUpperCase_def by (rule read_nat_cong) (auto simp: list.pred_set digit_val_upc)

lemma read_nat_zeros: "read_nat b (replicate k CHR ''0'' @ s) = read_nat b s"
proof -
  have "foldl (\<lambda>n c. n * b + digit_val c) 0 (replicate k CHR ''0'') = 0"
    by (induction k) (simp_all add: digit_val_def is_digit_def)
  then show ?thesis by (simp add: read_nat_def)
qed

text \<open>The two upper-case hexadecimal digits of a byte, as \<open>fakeMAC\<close> prints them.\<close>

definition HEX2 :: "nat \<Rightarrow> string" where
  "HEX2 b = padStart 2 CHR ''0'' (toUpperCase (hex b))"

lemma is_hex_0 [simp]: "is_hex CHR ''0''"
  by (simp add: is_hex_def is_digit_def)

lemma HEX2_pair: "b < 256 \<Longrightarrow> mac_pair (HEX2 b)"
proof -
  assume "b < 256"
  moreover have "list_all is_hex (toUpperCase (hex b))" by simp
  ultimately show ?thesis
    using hex_length_byte [of b]
    by (auto simp: HEX2_def mac_pair_def padStart_def list.pred_set simp del: list_all_hex_upper)
qed

lemma read_HEX2: "read_nat 16 (HEX2 b) = b"
  by (simp add: HEX2_def padStart_def read_nat_zeros read_nat_upper)

lemma mac_pair_chars: "mac_pair s \<Longrightarrow> c \<in> set s \<Longrightarrow> is_hex c"
  by (auto simp: mac_pair_def list.pred_set)

lemma not_hex [simp]: "\<not> is_hex CHR '':''" "\<not> is_hex CHR ''-''"
  by (simp_all add: is_hex_def is_digit_def)

lemma splitOn_join_pairs:
  assumes "ps \<noteq> []" "list_all mac_pair ps"
  shows "splitOn CHR '':'' (join '':'' ps) = ps"
  using assms
proof (induction ps rule: induct_list012)
  case (2 x)
  then show ?case using mac_pair_chars by (fastforce intro: splitOn_no_sep)
next
  case (3 x y zs)
  then have "CHR '':'' \<notin> set x" using mac_pair_chars by fastforce
  with 3 show ?case by (simp add: splitOn_append)
qed simp

lemma hex_plain: "is_hex c \<Longrightarrow> \<not> is_ws c \<and> c \<noteq> CHR ''-''"
  by (auto simp: is_hex_def is_ws_def is_digit_def)

lemma join_pairs_chars:
  "list_all mac_pair ps \<Longrightarrow> c \<in> set (join '':'' ps) \<Longrightarrow> is_hex c \<or> c = CHR '':''"
  by (induction ps rule: induct_list012) (auto dest: mac_pair_chars)

lemma mac_text_plain:
  assumes "list_all mac_pair ps"
  shows "trim (join '':'' ps) = join '':'' ps"
    and "dash_to_colon (join '':'' ps) = join '':'' ps"
proof -
  have c: "\<not> is_ws c \<and> c \<noteq> CHR ''-''" if "c \<in> set (join '':'' ps)" for c
    using join_pairs_chars [OF assms that] hex_plain by (auto simp: is_ws_def)
  then show "trim (join '':'' ps) = join '':'' ps"
    by (intro trim_clean) (metis hd_in_set last_in_set)
  show "dash_to_colon (join '':'' ps) = join '':'' ps"
    unfolding dash_to_colon_def by (rule map_idI) (use c in auto)
qed

lemma toLowerCase_append [simp]: "toLowerCase (s @ t) = toLowerCase s @ toLowerCase t"
  by (simp add: toLowerCase_def)

lemma toUpperCase_append [simp]: "toUpperCase (s @ t) = toUpperCase s @ toUpperCase t"
  by (simp add: toUpperCase_def)

lemma toLowerCase_join: "toLowerCase (join '':'' ps) = join '':'' (map toLowerCase ps)"
  by (induction ps rule: induct_list012) (auto simp: toLowerCase_def loc_def is_upper_def)

lemma mac_pair_lower [simp]: "mac_pair (toLowerCase s) = mac_pair s"
  by (simp add: mac_pair_def toLowerCase_def list.pred_map comp_def)

lemma parseMAC_join:
  assumes "list_all mac_pair ps" "length ps = 6"
  shows "parseMAC (join '':'' ps) = Some (map (read_nat 16) ps)"
proof -
  let ?qs = "map toLowerCase ps"
  have q: "list_all mac_pair ?qs" "?qs \<noteq> []"
    using assms by (auto simp: list.pred_map comp_def)
  have "map (read_nat 16) ?qs = map (read_nat 16) ps"
    using assms(1) by (auto simp: mac_pair_def list.pred_set read_nat_lower)
  then show ?thesis
    using assms q
    by (simp add: parseMAC_def Let_def mac_text_plain [OF assms(1)] toLowerCase_join
        mac_text_plain [OF q(1)] splitOn_join_pairs)
qed

lemma parseMAC_upper [simp]: "parseMAC (toUpperCase s) = parseMAC s"
  by (simp add: parseMAC_def trim_case)

lemma parseMAC_lower [simp]: "parseMAC (toLowerCase s) = parseMAC s"
  by (simp add: parseMAC_def trim_case)

text \<open>The six bytes of a substitute hardware address.\<close>

definition fake_bytes :: "string \<Rightarrow> string \<Rightarrow> nat list \<Rightarrow> 32 word list" where
  "fake_bytes salt mac bytes =
     (let h = fnv (units (salt @ ''|mac|'' @ join '':'' (map hex2 bytes)));
          h2 = fnv (units (salt @ ''|mac2|'' @ toLowerCase mac))
      in [(drop_bit 24 h AND 0xfe) OR 0x02, drop_bit 16 h AND 0xff, drop_bit 8 h AND 0xff,
          h AND 0xff, drop_bit 16 h2 AND 0xff, h2 AND 0xff])"

lemma fakeMAC_eq:
  "parseMAC mac = Some bytes \<Longrightarrow>
     fakeMAC salt mac = join '':'' (map (\<lambda>b. HEX2 (unat b)) (fake_bytes salt mac bytes))"
  by (simp add: fakeMAC_def fake_bytes_def HEX2_def Let_def)

lemma first_byte_word:
  "unat ((w AND 0xfe) OR 0x02 :: 32 word) < 256"
  "((w AND 0xfe) OR 0x02 :: 32 word) AND 3 = 2"
proof -
  have "((w AND 0xfe) OR 0x02 :: 32 word) AND 255 = (w AND 0xfe) OR 0x02"
    by (simp add: word_ao_dist word_bw_assocs)
  then show "unat ((w AND 0xfe) OR 0x02 :: 32 word) < 256"
    by (metis unat_byte)
  show "((w AND 0xfe) OR 0x02 :: 32 word) AND 3 = 2"
    by (simp add: word_ao_dist word_bw_assocs word_ao_absorbs)
qed

lemma fake_bytes_lt: "list_all (\<lambda>b. unat b < 256) (fake_bytes salt mac bytes)"
  by (simp add: fake_bytes_def Let_def first_byte_word)

lemma parseMAC_fakeMAC:
  assumes "parseMAC mac = Some bytes"
  shows "parseMAC (fakeMAC salt mac) = Some (map unat (fake_bytes salt mac bytes))"
proof -
  have "list_all mac_pair (map (\<lambda>b. HEX2 (unat b)) (fake_bytes salt mac bytes))"
    using fake_bytes_lt by (auto simp: list.pred_set HEX2_pair)
  moreover have "length (fake_bytes salt mac bytes) = 6"
    by (simp add: fake_bytes_def Let_def)
  ultimately show ?thesis
    by (simp add: fakeMAC_eq [OF assms] parseMAC_join comp_def read_HEX2)
qed

lemma fakeMAC_upper:
  "toUpperCase (fakeMAC salt (toUpperCase mac)) = toUpperCase (fakeMAC salt mac)"
  by (simp add: fakeMAC_def split: option.splits)

section \<open>Properties of the substitutes\<close>

text \<open>an address printed by \<open>fmtV4\<close> is read back by \<open>parseV4\<close> as the same 32 bits, and a
  prefix printed with its length as the masked network with that length.\<close>

theorem address_round_trip:
  "parseV4 (fmtV4 n) = Some n \<and>
   parseCIDR (fmtV4 n @ ''/'' @ dec (k mod 33)) =
     Some \<lparr>cd_net = n AND v4Mask (k mod 33), cd_plen = k mod 33\<rparr>"
proof -
  have "k mod 33 \<le> 32"
    using mod_less_divisor [of 33 k] by linarith
  then show ?thesis by (simp only: parseV4_fmtV4 parseCIDR_print)
qed

lemma parse_no_colon: "parseV4 s = Some a \<Longrightarrow> CHR '':'' \<notin> set (trim s)"
proof
  assume a: "parseV4 s = Some a" and colon: "CHR '':'' \<in> set (trim s)"
  from a obtain ps where ps: "splitOn CHR ''.'' (trim s) = ps" "list_all octet ps"
    unfolding parseV4_def by (auto split: list.splits if_splits)
  have cover: "set s' \<subseteq> insert d (\<Union>p \<in> set (splitOn d s'). set p)" for s' :: string and d
  proof (induction s')
    case (Cons c s')
    then show ?case by (cases "splitOn d s'") auto
  qed simp
  from subsetD [OF cover colon, of "CHR ''.''"] ps(1) have "\<exists>p \<in> set ps. CHR '':'' \<in> set p" by simp
  with ps(2) show False by (metis list_all_iff all_digits_def not_digits(3) octet_def)
qed

lemma remap_first_None:
  "\<forall>m \<in> set ms. \<not> ipInCIDR raw (cm_orig m) \<Longrightarrow> remap_first raw addr ms = None"
  by (induction ms) auto

lemma fakePublic_host: "\<exists>t \<in> set TEST_NET24. in_block 8 t (fakePublicV4Net h 32)"
  using fakePublicV4Net_block [of 32 h] by simp

lemma fakeIP_outside:
  assumes "parseV4 ip = Some a" "\<forall>m \<in> set cidrs. \<not> ipInCIDR (trim ip) (cm_orig m)"
  shows "\<exists>b. parseV4 (fakeIP salt ip cidrs) = Some b \<and>
    (if isPrivateV4 a then in_block 24 0x0a000000 b else \<exists>t \<in> set TEST_NET24. in_block 8 t b)"
  using assms parse_no_colon [OF assms(1)]
  by (simp add: fakeIP_def Let_def remap_first_None fakePrivateV4Net_block fakePublic_host)

text \<open>C4: an IPv4 address outside the prefixes of the local network becomes an IPv4 address of a
  reserved range: 10.0.0.0/8 for a private address, one of the three documentation networks for a
  public one. No routable address is shown.\<close>

theorem fakeIP_reserved:
  assumes "parseV4 ip = Some a" "\<forall>m \<in> set cidrs. \<not> ipInCIDR (trim ip) (cm_orig m)"
  shows "\<exists>b. parseV4 (fakeIP salt ip cidrs) = Some b \<and>
    (if isPrivateV4 a then in_block 24 0x0a000000 b else \<exists>t \<in> set TEST_NET24. in_block 8 t b)"
  using assms by (rule fakeIP_outside)

theorem fakeIP_reserved_witness:
  "\<exists>b. parseV4 (fakeIP ''k'' ''8.8.4.4'' [\<lparr>cm_orig = ''192.168.1.0/24'', cm_fake = ''10.9.9.0/24''\<rparr>])
     = Some b \<and> (\<exists>t \<in> set TEST_NET24. in_block 8 t b)"
proof -
  have p: "parseV4 ''8.8.4.4'' = Some (pack4 8 8 4 4)" "parseV4 (trim ''8.8.4.4'') = Some (pack4 8 8 4 4)"
    by code_simp+
  moreover have "\<not> isPrivateV4 (pack4 8 8 4 4)" by code_simp
  moreover have "\<not> ipInCIDR (trim ''8.8.4.4'') ''192.168.1.0/24''" by code_simp
  ultimately show ?thesis
    using fakeIP_reserved [of "''8.8.4.4''" "pack4 8 8 4 4"
      "[\<lparr>cm_orig = ''192.168.1.0/24'', cm_fake = ''10.9.9.0/24''\<rparr>]" "''k''"] by simp
qed

lemma fakePrivate_masked:
  "8 \<le> plen \<Longrightarrow> fakePrivateV4Net h plen AND v4Mask plen = fakePrivateV4Net h plen"
  by (simp add: fakePrivateV4Net_def Let_def max_def word_bw_assocs)

lemma fakePublic_masked:
  "10 \<le> plen \<Longrightarrow> fakePublicV4Net h plen AND v4Mask plen = fakePublicV4Net h plen"
  by (simp add: fakePublicV4Net_def Let_def max_def word_bw_assocs)

text \<open>the substitute of a prefix is a prefix of the same length. It lies in 10.0.0.0/8 for a
  private prefix (of length 8 or more), in a documentation network for a public prefix of length
  24 or more, and in 100.64.0.0/10 for a public prefix of length 10 to 23.\<close>

theorem fakeCIDR_class:
  assumes "parseCIDR c = Some orig"
  shows "\<exists>fake. parseCIDR (fakeCIDR salt c) = Some fake \<and> cd_plen fake = cd_plen orig \<and>
    (if isPrivateV4 (cd_net orig)
     then 8 \<le> cd_plen orig \<longrightarrow> in_block 24 0x0a000000 (cd_net fake)
     else if 24 \<le> cd_plen orig then \<exists>t \<in> set TEST_NET24. in_block 8 t (cd_net fake)
     else 10 \<le> cd_plen orig \<longrightarrow> in_block 22 0x64400000 (cd_net fake))"
proof -
  define h where "h = fnv (units (salt @ ''|cidr|'' @ dec (unat (cd_net orig)) @ ''/'' @ dec (cd_plen orig)))"
  define net where "net = (if isPrivateV4 (cd_net orig) then fakePrivateV4Net h (cd_plen orig)
    else fakePublicV4Net h (cd_plen orig))"
  have le: "cd_plen orig \<le> 32" using assms by (rule parseCIDR_Some)
  have "fakeCIDR salt c = fmtV4 net @ ''/'' @ dec (cd_plen orig)"
    using assms by (simp add: fakeCIDR_def net_def h_def Let_def)
  then have "parseCIDR (fakeCIDR salt c) =
      Some \<lparr>cd_net = net AND v4Mask (cd_plen orig), cd_plen = cd_plen orig\<rparr>"
    using parseCIDR_print [OF le, of net] by simp
  then show ?thesis
    using fakePrivateV4Net_block [OF le, of h] fakePublicV4Net_block [OF le, of h]
    by (auto simp: net_def fakePrivate_masked fakePublic_masked)
qed

theorem fakeCIDR_class_witness:
  "\<exists>fake. parseCIDR (fakeCIDR ''k'' ''192.168.7.0/24'') = Some fake \<and> cd_plen fake = 24 \<and>
     in_block 24 0x0a000000 (cd_net fake)"
proof -
  have "parseCIDR ''192.168.7.0/24'' = Some \<lparr>cd_net = 0xc0a80700, cd_plen = 24\<rparr>"
    "isPrivateV4 0xc0a80700" by code_simp+
  then show ?thesis
    using fakeCIDR_class [of "''192.168.7.0/24''" "\<lparr>cd_net = 0xc0a80700, cd_plen = 24\<rparr>" "''k''"] by simp
qed

lemma remap_first_exists:
  assumes "\<forall>m \<in> set ms. cm_fake m = fakeCIDR salt (cm_orig m)"
    "\<exists>m \<in> set ms. ipInCIDR raw (cm_orig m)"
  shows "\<exists>out. remap_first raw addr ms = Some out"
  using assms
proof (induction ms)
  case (Cons m ms)
  show ?case
  proof (cases "ipInCIDR raw (cm_orig m)")
    case True
    then obtain orig where orig: "parseCIDR (cm_orig m) = Some orig"
      by (auto simp: ipInCIDR_def split: option.splits)
    from fakeCIDR_parse [OF this, of salt] Cons.prems(1) obtain fake
      where "parseCIDR (cm_fake m) = Some fake" "cd_plen fake = cd_plen orig" by auto
    with True orig show ?thesis by simp
  next
    case False
    with Cons show ?thesis by auto
  qed
qed simp

lemma fakeIP_moved:
  assumes ip: "parseV4 ip = Some a"
    and table: "\<forall>m \<in> set cidrs. cm_fake m = fakeCIDR salt (cm_orig m)"
    and local: "\<exists>m \<in> set cidrs. ipInCIDR (trim ip) (cm_orig m)"
  shows "\<exists>m \<in> set cidrs. \<exists>orig fake b. ipInCIDR (trim ip) (cm_orig m) \<and>
    parseCIDR (cm_orig m) = Some orig \<and> parseCIDR (cm_fake m) = Some fake \<and>
    cd_plen fake = cd_plen orig \<and> parseV4 (fakeIP salt ip cidrs) = Some b \<and>
    b AND v4Mask (cd_plen orig) = cd_net fake \<and>
    b AND NOT (v4Mask (cd_plen orig)) = a AND NOT (v4Mask (cd_plen orig))"
proof -
  from remap_first_exists [OF table local] obtain out where
    out: "remap_first (trim ip) a cidrs = Some out" by blast
  from remap_first_Some [OF this] obtain m orig fake where
    m: "m \<in> set cidrs" "ipInCIDR (trim ip) (cm_orig m)" and
    p: "parseCIDR (cm_orig m) = Some orig" "parseCIDR (cm_fake m) = Some fake"
      "cd_plen orig = cd_plen fake" and o: "out = remapV4 a orig (cd_net fake)" by blast
  have "fakeIP salt ip cidrs = out"
    using ip out parse_no_colon [OF ip] by (simp add: fakeIP_def Let_def)
  then have "parseV4 (fakeIP salt ip cidrs) = Some (cd_net fake OR (a AND NOT (v4Mask (cd_plen orig))))"
    using o by (simp add: parseV4_remapV4)
  moreover note remap_word [OF parseCIDR_Some [OF p(2)], of a]
  ultimately show ?thesis
    using m p by (metis (no_types, lifting))
qed

text \<open>C5: an address of the local network keeps its place in it. It is moved into the substitute of
  a prefix that holds it, which has the same length, and its host part is unchanged.\<close>

theorem fakeIP_keeps_host:
  assumes ip: "parseV4 ip = Some a"
    and table: "\<forall>m \<in> set cidrs. cm_fake m = fakeCIDR salt (cm_orig m)"
    and local: "\<exists>m \<in> set cidrs. ipInCIDR (trim ip) (cm_orig m)"
  shows "\<exists>m \<in> set cidrs. \<exists>orig fake b. ipInCIDR (trim ip) (cm_orig m) \<and>
    parseCIDR (cm_orig m) = Some orig \<and> parseCIDR (cm_fake m) = Some fake \<and>
    cd_plen fake = cd_plen orig \<and> parseV4 (fakeIP salt ip cidrs) = Some b \<and>
    b AND v4Mask (cd_plen orig) = cd_net fake \<and>
    b AND NOT (v4Mask (cd_plen orig)) = a AND NOT (v4Mask (cd_plen orig))"
  using assms by (rule fakeIP_moved)

theorem fakeIP_keeps_host_witness:
  "\<exists>b fake. parseV4 (fakeIP ''k'' ''192.168.7.33''
       [\<lparr>cm_orig = ''192.168.7.1/24'', cm_fake = fakeCIDR ''k'' ''192.168.7.1/24''\<rparr>]) = Some b \<and>
     parseCIDR (fakeCIDR ''k'' ''192.168.7.1/24'') = Some fake \<and>
     b AND v4Mask 24 = cd_net fake \<and> b AND NOT (v4Mask 24) = 33"
proof -
  have "parseV4 ''192.168.7.33'' = Some 0xc0a80721"
    "ipInCIDR (trim ''192.168.7.33'') ''192.168.7.1/24''"
    "parseCIDR ''192.168.7.1/24'' = Some \<lparr>cd_net = 0xc0a80700, cd_plen = 24\<rparr>"
    "0xc0a80721 AND NOT (v4Mask 24) = 33"
    by code_simp+
  then show ?thesis
    using fakeIP_keeps_host [of "''192.168.7.33''" "0xc0a80721"
      "[\<lparr>cm_orig = ''192.168.7.1/24'', cm_fake = fakeCIDR ''k'' ''192.168.7.1/24''\<rparr>]" "''k''"]
    by auto
qed

lemma fake_bytes_first: "unat (fake_bytes salt mac bytes ! 0) mod 4 = 2"
proof -
  define w where "w = fake_bytes salt mac bytes ! 0"
  have "w AND 3 = 2"
    by (simp add: w_def fake_bytes_def Let_def first_byte_word)
  then have "unat (take_bit 2 w) = 2"
    by (simp add: take_bit_eq_mask mask_eq_exp_minus_1)
  then show ?thesis
    by (simp add: w_def take_bit_eq_mod unat_mod_distrib)
qed

text \<open>a text that is not a hardware address is left alone; a hardware address becomes a
  well-formed address of six bytes whose first byte marks it as locally administered and unicast,
  so that it is no vendor's.\<close>

theorem fakeMAC_local:
  "case parseMAC mac of
     None \<Rightarrow> fakeMAC salt mac = mac
   | Some _ \<Rightarrow> \<exists>bs. parseMAC (fakeMAC salt mac) = Some bs \<and> length bs = 6 \<and>
       list_all (\<lambda>b. b < 256) bs \<and> bs ! 0 mod 4 = 2"
proof (cases "parseMAC mac")
  case (Some bytes)
  have "length (fake_bytes salt mac bytes) = 6" by (simp add: fake_bytes_def Let_def)
  then show ?thesis
    using parseMAC_fakeMAC [OF Some] fake_bytes_lt [of salt mac bytes]
      fake_bytes_first [of salt mac bytes] Some
    by (simp add: list.pred_map comp_def)
qed (simp add: fakeMAC_def)

text \<open>the same hardware address in the notation with dashes and in the one with colons is
  read as the same six bytes but gets two substitutes: the last two bytes are a hash of the text
  as it is written, not of the bytes.\<close>

theorem fakeMAC_notation:
  "parseMAC ''AA-BB-CC-DD-EE-FF'' = parseMAC ''AA:BB:CC:DD:EE:FF'' \<and>
   fakeMAC ''s'' ''AA-BB-CC-DD-EE-FF'' \<noteq> fakeMAC ''s'' ''AA:BB:CC:DD:EE:FF''"
  by code_simp

text \<open>every timestamp of a session is moved by the same number of whole days, between 3 and 16
  into the past, so that the differences between the events of a view are kept; the absent
  timestamp 0 is left alone.\<close>

theorem shiftTS_uniform:
  "\<exists>days \<in> {3..16}. \<forall>t. shiftTS salt t = (if t = 0 then 0 else t - days * 86400)"
proof -
  have "unat (fnv (units (salt @ ''|offset''))) mod 14 < 14" by simp
  then show ?thesis
    by (intro bexI [of _ "3 + int (unat (fnv (units (salt @ ''|offset''))) mod 14)"])
      (auto simp: shiftTS_def offsetSec_def)
qed

end
