(* ===== verification/JsRegex.thy ===== *)
theory JsRegex
  imports JsPrelude
begin

text \<open>
  The regular expressions of the language, as far as the program uses them: a backtracking
  matcher that lists the end positions of a match in the order in which the standard's matcher
  tries them (greedy repetition, left alternative first), \<open>RegExp.prototype.exec\<close> from a
  position, the loop of a global expression, and \<open>test\<close>. The fuel of a repetition is shown to
  be enough.
\<close>

datatype rx =
    Eps
  | Cls "char \<Rightarrow> bool"
  | Seq rx rx
  | Alt rx rx
  | Rep nat "nat option" rx
  | WordB
  | Bol
  | Eol

definition Chr :: "char \<Rightarrow> rx" where
  "Chr c = Cls (\<lambda>d. d = c)"

text \<open>One character under the \<open>i\<close> flag.\<close>

definition ChrI :: "char \<Rightarrow> rx" where
  "ChrI c = Cls (\<lambda>d. loc d = loc c)"

fun Lit :: "string \<Rightarrow> rx" where
  "Lit [] = Eps"
| "Lit (c # s) = Seq (Chr c) (Lit s)"

fun LitI :: "string \<Rightarrow> rx" where
  "LitI [] = Eps"
| "LitI (c # s) = Seq (ChrI c) (LitI s)"

fun Alts :: "rx list \<Rightarrow> rx" where
  "Alts [] = Cls (\<lambda>_. False)"
| "Alts [r] = r"
| "Alts (r # q # rs) = Alt r (Alts (q # rs))"

fun Seqs :: "rx list \<Rightarrow> rx" where
  "Seqs [] = Eps"
| "Seqs [r] = r"
| "Seqs (r # q # rs) = Seq r (Seqs (q # rs))"

definition Star :: "rx \<Rightarrow> rx" where
  "Star r = Rep 0 None r"

definition Plus :: "rx \<Rightarrow> rx" where
  "Plus r = Rep 1 None r"

definition Opt :: "rx \<Rightarrow> rx" where
  "Opt r = Rep 0 (Some 1) r"

section \<open>The matcher\<close>

text \<open>
  Repetition: an iteration past the minimum that consumes nothing is rejected, as the
  standard's \<open>RepeatMatcher\<close> does.
\<close>

fun rep_ends :: "nat \<Rightarrow> nat \<Rightarrow> nat option \<Rightarrow> (nat \<Rightarrow> nat list) \<Rightarrow> nat \<Rightarrow> nat list" where
  "rep_ends 0 lo hi f i = (if lo = 0 then [i] else [])"
| "rep_ends (Suc k) lo hi f i =
     (if hi = Some 0 then [i]
      else concat (map (\<lambda>j. if lo = 0 \<and> j = i then []
                             else rep_ends k (lo - 1) (map_option (\<lambda>h. h - 1) hi) f j) (f i))
           @ (if lo = 0 then [i] else []))"

declare rep_ends.simps [simp del]

definition word_at :: "string \<Rightarrow> nat \<Rightarrow> bool" where
  "word_at s i \<longleftrightarrow> i < length s \<and> is_word (s ! i)"

definition boundary :: "string \<Rightarrow> nat \<Rightarrow> bool" where
  "boundary s i \<longleftrightarrow> (0 < i \<and> word_at s (i - 1)) \<noteq> word_at s i"

primrec ends :: "rx \<Rightarrow> string \<Rightarrow> nat \<Rightarrow> nat list" where
  "ends Eps s i = [i]"
| "ends (Cls p) s i = (if i < length s \<and> p (s ! i) then [Suc i] else [])"
| "ends (Seq a b) s i = concat (map (ends b s) (ends a s i))"
| "ends (Alt a b) s i = ends a s i @ ends b s i"
| "ends (Rep lo hi r) s i = rep_ends (Suc (lo + (length s - i))) lo hi (ends r s) i"
| "ends WordB s i = (if boundary s i then [i] else [])"
| "ends Bol s i = (if i = 0 then [i] else [])"
| "ends Eol s i = (if i = length s then [i] else [])"

text \<open>The leftmost match that starts at or after a position: its start and its end.\<close>

function exec_from :: "rx \<Rightarrow> string \<Rightarrow> nat \<Rightarrow> (nat \<times> nat) option" where
  "exec_from r s i =
     (if length s < i then None
      else case ends r s i of e # _ \<Rightarrow> Some (i, e) | [] \<Rightarrow> exec_from r s (Suc i))"
  by pat_completeness auto
termination
  by (relation "measure (\<lambda>(r, s, i). Suc (length s) - i)") auto

declare exec_from.simps [simp del]

definition test :: "rx \<Rightarrow> string \<Rightarrow> bool" where
  "test r s \<longleftrightarrow> exec_from r s 0 \<noteq> None"

text \<open>
  The loop \<open>while ((m = re.exec(s)))\<close> of a global expression from a last index. A match that
  does not move the index would make the loop run forever: \<open>exec_all\<close> is used for expressions
  that never match the empty text, for which the guard holds.
\<close>

function exec_all :: "rx \<Rightarrow> string \<Rightarrow> nat \<Rightarrow> (nat \<times> nat) list" where
  "exec_all r s pos =
     (case exec_from r s pos of
        None \<Rightarrow> []
      | Some (i, e) \<Rightarrow> (i, e) # (if pos < e \<and> e \<le> length s then exec_all r s e else []))"
  by pat_completeness auto
termination
  by (relation "measure (\<lambda>(r, s, l). length s - l)") auto

declare exec_all.simps [simp del]

text \<open>\<open>s.replace(re, t)\<close> for a global expression and a fixed text.\<close>

fun replace_spans :: "string \<Rightarrow> nat \<Rightarrow> (nat \<times> nat) list \<Rightarrow> string \<Rightarrow> string" where
  "replace_spans s i [] t = drop i s"
| "replace_spans s i ((a, b) # sp) t = js_slice i a s @ t @ replace_spans s b sp t"

definition replace_all :: "rx \<Rightarrow> string \<Rightarrow> string \<Rightarrow> string" where
  "replace_all r s t = replace_spans s 0 (exec_all r s 0) t"

section \<open>Bounds and fuel\<close>

lemma rep_ends_bounds:
  assumes "\<And>i j. i \<le> n \<Longrightarrow> j \<in> set (f i) \<Longrightarrow> i \<le> j \<and> j \<le> n"
    and "i \<le> n" "j \<in> set (rep_ends k lo hi f i)"
  shows "i \<le> j \<and> j \<le> n"
  using assms(2,3)
proof (induction k arbitrary: lo hi i)
  case 0
  then show ?case by (auto simp: rep_ends.simps split: if_splits)
next
  case (Suc k)
  show ?case
  proof (cases "j = i")
    case True
    with Suc.prems show ?thesis by simp
  next
    case False
    then obtain l where l: "l \<in> set (f i)" and
      j: "j \<in> set (rep_ends k (lo - 1) (map_option (\<lambda>h. h - 1) hi) f l)"
      using Suc.prems by (auto simp: rep_ends.simps split: if_splits)
    from assms(1) [OF Suc.prems(1) l] have "i \<le> l" "l \<le> n" by auto
    with Suc.IH [OF _ j] show ?thesis by simp
  qed
qed

lemma ends_bounds: "i \<le> length s \<Longrightarrow> j \<in> set (ends r s i) \<Longrightarrow> i \<le> j \<and> j \<le> length s"
proof (induction r arbitrary: i j)
  case (Seq a b)
  from Seq.prems obtain l where l: "l \<in> set (ends a s i)" "j \<in> set (ends b s l)" by auto
  with Seq.IH(1) [OF Seq.prems(1) l(1)] Seq.IH(2) [of l j] show ?case by simp
next
  case (Rep lo hi r)
  have "j \<in> set (rep_ends (Suc (lo + (length s - i))) lo hi (ends r s) i)"
    using Rep.prems by simp
  from rep_ends_bounds [where f = "ends r s" and n = "length s", OF Rep.IH Rep.prems(1) this]
  show ?case .
next
  case (Alt a b)
  from Alt.prems(2) have "j \<in> set (ends a s i) \<or> j \<in> set (ends b s i)" by simp
  with Alt.IH Alt.prems(1) show ?case by blast
qed (auto split: if_splits)

text \<open>More fuel than a repetition needs does not change its result.\<close>

lemma rep_ends_fuel:
  assumes f: "\<And>i j. i \<le> n \<Longrightarrow> j \<in> set (f i) \<Longrightarrow> i \<le> j \<and> j \<le> n"
    and "i \<le> n" "lo + (n - i) < k"
  shows "rep_ends (k + d) lo hi f i = rep_ends k lo hi f i"
  using assms(2,3)
proof (induction k arbitrary: lo hi i)
  case (Suc k)
  have "(if lo = 0 \<and> j = i then []
         else rep_ends (k + d) (lo - 1) (map_option (\<lambda>h. h - 1) hi) f j) =
        (if lo = 0 \<and> j = i then []
         else rep_ends k (lo - 1) (map_option (\<lambda>h. h - 1) hi) f j)"
    if "j \<in> set (f i)" for j
  proof (cases "lo = 0 \<and> j = i")
    case False
    from f [OF Suc.prems(1) that] have "i \<le> j" "j \<le> n" by auto
    with False Suc.prems have "lo - 1 + (n - j) < k" by (cases lo) auto
    with Suc.IH [OF \<open>j \<le> n\<close>] show ?thesis by presburger
  qed simp
  then show ?case by (simp add: rep_ends.simps cong: map_cong)
qed simp

lemma ends_Rep_fuel:
  assumes "i \<le> length s"
  shows "rep_ends (Suc (lo + (length s - i)) + d) lo hi (ends r s) i = ends (Rep lo hi r) s i"
proof -
  have "rep_ends (Suc (lo + (length s - i)) + d) lo hi (ends r s) i =
      rep_ends (Suc (lo + (length s - i))) lo hi (ends r s) i"
    by (rule rep_ends_fuel [where n = "length s"]) (use ends_bounds in blast, use assms in simp_all)
  then show ?thesis by simp
qed

section \<open>Properties of exec\<close>

lemma exec_from_Some:
  "exec_from r s i = Some (a, e) \<Longrightarrow>
     i \<le> a \<and> a \<le> e \<and> e \<le> length s \<and> e \<in> set (ends r s a) \<and> (\<forall>j. i \<le> j \<and> j < a \<longrightarrow> ends r s j = [])"
proof (induction r s i rule: exec_from.induct)
  case (1 r s i)
  show ?case
  proof (cases "ends r s i")
    case Nil
    with 1 have "Suc i \<le> a \<and> a \<le> e \<and> e \<le> length s \<and> e \<in> set (ends r s a) \<and>
        (\<forall>j. Suc i \<le> j \<and> j < a \<longrightarrow> ends r s j = [])"
      by (auto simp: exec_from.simps [of r s i] split: if_splits)
    with Nil show ?thesis
      by (metis Suc_leI Suc_leD order_le_imp_less_or_eq)
  next
    case (Cons x xs)
    with "1.prems" have "i \<le> length s" "a = i" "e = x"
      by (auto simp: exec_from.simps [of r s i] split: if_splits)
    with Cons ends_bounds [of i s x r] show ?thesis by auto
  qed
qed

lemma exec_from_None:
  "exec_from r s i = None \<Longrightarrow> i \<le> j \<Longrightarrow> j \<le> length s \<Longrightarrow> ends r s j = []"
proof (induction r s i rule: exec_from.induct)
  case (1 r s i)
  have n: "ends r s i = []" "exec_from r s (Suc i) = None"
    using "1.prems" by (auto simp: exec_from.simps [of r s i] split: list.splits if_splits)
  with 1 show ?case by (cases "i = j") auto
qed

text \<open>An expression that never matches the empty text.\<close>

definition consuming :: "rx \<Rightarrow> bool" where
  "consuming r \<longleftrightarrow> (\<forall>s i. i \<le> length s \<longrightarrow> i \<notin> set (ends r s i))"

fun nonempty :: "rx \<Rightarrow> bool" where
  "nonempty (Cls _) = True"
| "nonempty (Seq a b) = (nonempty a \<or> nonempty b)"
| "nonempty (Alt a b) = (nonempty a \<and> nonempty b)"
| "nonempty (Rep lo hi r) = (0 < lo \<and> hi \<noteq> Some 0 \<and> nonempty r)"
| "nonempty _ = False"

lemma rep_ends_nonempty:
  assumes "\<And>i j. i \<le> n \<Longrightarrow> j \<in> set (f i) \<Longrightarrow> i < j \<and> j \<le> n"
    and "i \<le> n" "0 < lo" "hi \<noteq> Some 0" "j \<in> set (rep_ends k lo hi f i)"
  shows "i < j"
proof (cases k)
  case 0
  with assms show ?thesis by (simp add: rep_ends.simps)
next
  case (Suc k')
  with assms obtain l where l: "l \<in> set (f i)"
    and j: "j \<in> set (rep_ends k' (lo - 1) (map_option (\<lambda>h. h - 1) hi) f l)"
    by (auto simp: rep_ends.simps)
  from assms(1) [OF assms(2) l] have "i < l" "l \<le> n" by auto
  moreover have "l \<le> j"
    using rep_ends_bounds [OF _ \<open>l \<le> n\<close> j] assms(1) by (meson less_imp_le)
  ultimately show ?thesis by simp
qed

lemma nonempty_ends: "nonempty r \<Longrightarrow> i \<le> length s \<Longrightarrow> j \<in> set (ends r s i) \<Longrightarrow> i < j"
proof (induction r arbitrary: i j)
  case (Seq a b)
  from Seq.prems obtain l where l: "l \<in> set (ends a s i)" "j \<in> set (ends b s l)" by auto
  with ends_bounds [OF Seq.prems(2) l(1)] have b: "i \<le> l" "l \<le> length s" by auto
  with ends_bounds [OF b(2) l(2)] Seq.IH l Seq.prems show ?case
    by (metis leD le_neq_implies_less nonempty.simps(2) order_le_less_trans)
next
  case (Rep lo hi r)
  have f: "i < j \<and> j \<le> length s" if "i \<le> length s" "j \<in> set (ends r s i)" for i j
    using Rep.IH [of i j] Rep.prems(1) that ends_bounds [OF that] by simp
  show ?case
    by (rule rep_ends_nonempty [where f = "ends r s" and n = "length s", OF f])
      (use Rep.prems in simp_all)
next
  case (Alt a b)
  from Alt.prems(1,3) have "j \<in> set (ends a s i) \<or> j \<in> set (ends b s i)"
    and "nonempty a" "nonempty b" by simp_all
  with Alt.IH Alt.prems(2) show ?case by blast
qed (auto split: if_splits)

lemma nonempty_consuming: "nonempty r \<Longrightarrow> consuming r"
  unfolding consuming_def using nonempty_ends by blast

lemma consumingD: "consuming r \<Longrightarrow> exec_from r s i = Some (a, e) \<Longrightarrow> a < e"
  by (metis consuming_def exec_from_Some le_neq_implies_less order_trans)

text \<open>
  For such an expression the loop never stands still, so \<open>exec_all\<close> is the whole run: it
  unfolds without the guard, and its matches are in order and apart.
\<close>

lemma exec_all_unfold:
  assumes "consuming r"
  shows "exec_all r s pos =
     (case exec_from r s pos of None \<Rightarrow> [] | Some (i, e) \<Rightarrow> (i, e) # exec_all r s e)"
proof (cases "exec_from r s pos")
  case (Some p)
  obtain i e where p: "p = (i, e)" by force
  have "pos \<le> i" "e \<le> length s" "i < e"
    using Some p exec_from_Some [of r s pos i e] consumingD [OF assms, of s pos i e] by auto
  with Some p show ?thesis by (subst exec_all.simps) simp
qed (subst exec_all.simps, simp)

definition spans_from :: "nat \<Rightarrow> nat \<Rightarrow> (nat \<times> nat) list \<Rightarrow> bool" where
  "spans_from l n sp \<longleftrightarrow>
     (\<forall>(a, b) \<in> set sp. l \<le> a \<and> a < b \<and> b \<le> n) \<and> sorted_wrt (\<lambda>p q. snd p \<le> fst q) sp"

lemma exec_all_spans: "consuming r \<Longrightarrow> spans_from pos (length s) (exec_all r s pos)"
proof (induction r s pos rule: exec_all.induct)
  case (1 r s pos)
  show ?case
  proof (cases "exec_from r s pos")
    case None
    then show ?thesis by (subst exec_all.simps) (simp add: spans_from_def)
  next
    case (Some p)
    obtain i e where p: "p = (i, e)" by force
    note b = exec_from_Some [OF Some [unfolded p]]
    have "i < e" using consumingD [OF "1.prems"] Some p by simp
    with b have "pos < e" "e \<le> length s" by auto
    with "1.IH" [OF Some p [symmetric]] "1.prems"
    have IH: "spans_from e (length s) (exec_all r s e)" by simp
    show ?thesis
      unfolding exec_all_unfold [OF "1.prems", of s pos]
      using IH b \<open>i < e\<close> Some p by (fastforce simp: spans_from_def)
  qed
qed

text \<open>No match is lost: a position where the expression matches is inside or before a span.\<close>

lemma exec_all_covers:
  assumes "consuming r" "pos \<le> j" "j \<le> length s" "ends r s j \<noteq> []"
  shows "\<exists>(a, b) \<in> set (exec_all r s pos). a \<le> j \<and> j < b"
  using assms
proof (induction r s pos rule: exec_all.induct)
  case (1 r s pos)
  show ?case
  proof (cases "exec_from r s pos")
    case None
    with "1.prems" exec_from_None show ?thesis by blast
  next
    case (Some p)
    obtain i e where p: "p = (i, e)" by force
    note b = exec_from_Some [OF Some [unfolded p]]
    have "i < e" using consumingD [OF "1.prems"(1)] Some p by simp
    have "i \<le> j" using b "1.prems" by (meson not_le)
    note unf = exec_all_unfold [OF "1.prems"(1), of s pos]
    show ?thesis
    proof (cases "j < e")
      case True
      with \<open>i \<le> j\<close> Some p show ?thesis by (simp add: unf)
    next
      case False
      with b \<open>i < e\<close> have "pos < e \<and> e \<le> length s" by auto
      from "1.IH" [OF Some p [symmetric] this] "1.prems" False
      have "\<exists>(a, b) \<in> set (exec_all r s e). a \<le> j \<and> j < b" by simp
      with Some p show ?thesis by (auto simp: unf)
    qed
  qed
qed

section \<open>The language of an expression\<close>

text \<open>The text of a match is in the language of the expression; the assertions match the empty text.\<close>

definition reps_ok :: "nat \<Rightarrow> nat option \<Rightarrow> nat \<Rightarrow> bool" where
  "reps_ok lo hi n \<longleftrightarrow> (case hi of None \<Rightarrow> lo \<le> n | Some h \<Rightarrow> min lo h \<le> n \<and> n \<le> h)"

primrec lang :: "rx \<Rightarrow> string \<Rightarrow> bool" where
  "lang Eps t = (t = [])"
| "lang (Cls p) t = (\<exists>c. t = [c] \<and> p c)"
| "lang (Seq a b) t = (\<exists>u v. t = u @ v \<and> lang a u \<and> lang b v)"
| "lang (Alt a b) t = (lang a t \<or> lang b t)"
| "lang (Rep lo hi r) t =
     (\<exists>us. t = concat us \<and> (\<forall>u \<in> set us. lang r u) \<and> reps_ok lo hi (length us))"
| "lang WordB t = (t = [])"
| "lang Bol t = (t = [])"
| "lang Eol t = (t = [])"

lemma js_slice_join: "i \<le> l \<Longrightarrow> l \<le> j \<Longrightarrow> j \<le> length s \<Longrightarrow> js_slice i l s @ js_slice l j s = js_slice i j s"
proof -
  assume a: "i \<le> l" "l \<le> j" "j \<le> length s"
  have "take j s = take l s @ drop l (take j s)" using a(2) by (metis append_take_drop_id min.absorb1 take_take)
  then have "drop i (take j s) = drop i (take l s) @ drop l (take j s)" using a
    by (metis drop_append diff_is_0_eq drop0 length_take min.absorb2 le_trans)
  then show ?thesis by (simp add: js_slice_def)
qed

lemma rep_ends_lang:
  assumes "\<And>i j. i \<le> length s \<Longrightarrow> j \<in> set (f i) \<Longrightarrow> i \<le> j \<and> j \<le> length s \<and> lang r (js_slice i j s)"
    and "i \<le> length s" "j \<in> set (rep_ends k lo hi f i)"
  shows "lang (Rep lo hi r) (js_slice i j s)"
  using assms(2,3)
proof (induction k arbitrary: lo hi i)
  case 0
  then show ?case by (auto simp: rep_ends.simps js_slice_def reps_ok_def split: if_splits option.splits intro!: exI [of _ "[]"])
next
  case (Suc k)
  show ?case
  proof (cases "j = i \<and> (hi = Some 0 \<or> lo = 0)")
    case True
    then show ?thesis by (auto simp: js_slice_def reps_ok_def split: option.splits intro!: exI [of _ "[]"])
  next
    case False
    then obtain l where l: "l \<in> set (f i)" "j \<in> set (rep_ends k (lo - 1) (map_option (\<lambda>h. h - 1) hi) f l)" "hi \<noteq> Some 0"
      using Suc.prems by (auto simp: rep_ends.simps split: if_splits)
    have b: "i \<le> l" "l \<le> length s" "lang r (js_slice i l s)" using assms(1) [OF Suc.prems(1) l(1)] by auto
    have "l \<le> j \<and> j \<le> length s"
      by (rule rep_ends_bounds [OF _ b(2) l(2)]) (use assms(1) in blast)
    then have "js_slice i j s = js_slice i l s @ js_slice l j s" using b by (simp add: js_slice_join)
    moreover from Suc.IH [OF b(2) l(2)] obtain us where
      us: "js_slice l j s = concat us" "\<forall>u \<in> set us. lang r u" "reps_ok (lo - 1) (map_option (\<lambda>h. h - 1) hi) (length us)"
      unfolding lang.simps by blast
    moreover have "reps_ok lo hi (length (js_slice i l s # us))"
      using us(3) l(3) by (auto simp: reps_ok_def split: option.splits)
    ultimately show ?thesis using b(3) unfolding lang.simps
      by (intro exI [of _ "js_slice i l s # us"]) simp
  qed
qed

lemma ends_lang: "i \<le> length s \<Longrightarrow> j \<in> set (ends r s i) \<Longrightarrow> lang r (js_slice i j s)"
proof (induction r arbitrary: i j)
  case (Seq a b)
  from Seq.prems obtain l where l: "l \<in> set (ends a s i)" "j \<in> set (ends b s l)" by auto
  then have "i \<le> l" "l \<le> length s" "l \<le> j" "j \<le> length s"
    using ends_bounds [OF Seq.prems(1) l(1)] ends_bounds [of l s j b] by auto
  then have "js_slice i j s = js_slice i l s @ js_slice l j s" by (simp add: js_slice_join)
  moreover have "lang a (js_slice i l s)" "lang b (js_slice l j s)" using Seq.IH Seq.prems(1) l \<open>l \<le> length s\<close> by auto
  ultimately show ?case by auto
next
  case (Rep lo hi r)
  have step: "i \<le> j \<and> j \<le> length s \<and> lang r (js_slice i j s)" if "i \<le> length s" "j \<in> set (ends r s i)" for i j
    using ends_bounds [OF that] Rep.IH [OF that] by blast
  have "j \<in> set (rep_ends (Suc (lo + (length s - i))) lo hi (ends r s) i)" using Rep.prems(2) by simp
  from rep_ends_lang [OF step Rep.prems(1) this] show ?case .
qed (auto simp: js_slice_def take_Suc_conv_app_nth split: if_splits)

lemma exec_all_ends: "(a, b) \<in> set (exec_all r s pos) \<Longrightarrow> a \<le> length s \<and> b \<in> set (ends r s a)"
proof (induction r s pos rule: exec_all.induct)
  case (1 r s pos)
  show ?case
  proof (cases "exec_from r s pos")
    case None
    with "1.prems" show ?thesis by (simp add: exec_all.simps [of r s pos])
  next
    case (Some p)
    obtain i e where p: "p = (i, e)" by force
    have "(a, b) = (i, e) \<or> pos < e \<and> e \<le> length s \<and> (a, b) \<in> set (exec_all r s e)"
      using "1.prems" Some p by (simp add: exec_all.simps [of r s pos] split: if_splits)
    then show ?thesis using "1.IH" [OF Some, of i e] p exec_from_Some [OF Some [unfolded p]] by auto
  qed
qed

lemma exec_all_lang: "(a, b) \<in> set (exec_all r s pos) \<Longrightarrow> lang r (js_slice a b s)"
  using exec_all_ends ends_lang by blast


text \<open>The characters that can stand in such a text.\<close>

primrec rx_char :: "rx \<Rightarrow> char \<Rightarrow> bool" where
  "rx_char Eps c = False"
| "rx_char (Cls p) c = p c"
| "rx_char (Seq a b) c = (rx_char a c \<or> rx_char b c)"
| "rx_char (Alt a b) c = (rx_char a c \<or> rx_char b c)"
| "rx_char (Rep lo hi r) c = rx_char r c"
| "rx_char WordB c = False"
| "rx_char Bol c = False"
| "rx_char Eol c = False"

lemma lang_chars: "lang r t \<Longrightarrow> c \<in> set t \<Longrightarrow> rx_char r c"
  by (induction r arbitrary: t) (auto, blast+)

text \<open>An expression of characters, sequences and alternatives matches every text of its language, wherever it stands.\<close>

primrec plain_rx :: "rx \<Rightarrow> bool" where
  "plain_rx Eps = True"
| "plain_rx (Cls p) = True"
| "plain_rx (Seq a b) = (plain_rx a \<and> plain_rx b)"
| "plain_rx (Alt a b) = (plain_rx a \<and> plain_rx b)"
| "plain_rx (Rep lo hi r) = False"
| "plain_rx WordB = False"
| "plain_rx Bol = False"
| "plain_rx Eol = False"

lemma lang_ends: "plain_rx r \<Longrightarrow> lang r t \<Longrightarrow> length p + length t \<in> set (ends r (p @ t @ q) (length p))"
proof (induction r arbitrary: p t q)
  case (Seq a b)
  then obtain u v where t: "t = u @ v" "lang a u" "lang b v" by auto
  have "length p + length u \<in> set (ends a (p @ t @ q) (length p))" using Seq t by simp
  moreover have "length (p @ u) + length v \<in> set (ends b ((p @ u) @ v @ q) (length (p @ u)))" using Seq t by (simp del: append_assoc length_append)
  ultimately show ?case using t by (auto simp: add.assoc intro!: bexI [of _ "length p + length u"])
qed auto

lemma no_match_infix:
  assumes "plain_rx r" "\<not> test r s" "lang r t"
  shows "s \<noteq> p @ t @ q"
proof
  assume s: "s = p @ t @ q"
  from assms(2) have "exec_from r s 0 = None" by (simp only: test_def not_not)
  from exec_from_None [OF this, of "length p"] have "ends r s (length p) = []" by (simp add: s)
  with lang_ends [OF assms(1,3), of p q] s show False by simp
qed

lemma lang_LitI: "lang (LitI s) t \<longleftrightarrow> map loc t = map loc s"
proof (induction s arbitrary: t)
  case (Cons c s)
  have "lang (LitI (c # s)) t \<longleftrightarrow> (\<exists>d u. t = d # u \<and> loc d = loc c \<and> lang (LitI s) u)"
    unfolding LitI.simps lang.simps ChrI_def by (metis append_Cons append_Nil)
  also have "\<dots> \<longleftrightarrow> map loc t = map loc (c # s)" using Cons.IH by (cases t) auto
  finally show ?case .
qed simp

lemma plain_LitI [simp]: "plain_rx (LitI s)"
  by (induction s) (simp_all add: ChrI_def)

end
