(* ===== verification/AnonPools.thy ===== *)
theory AnonPools
  imports JsRegex UiTypes
begin

text \<open>
  The pools of substitute names of the anonymity mode and the choice of a pool
  (\<open>ui/src/lib/anonymity.ts\<close>, lines 29 to 469): what kind of name a device gets from its type
  and operating system, and which names a switch may get from its ports, its power supply and
  its model.
\<close>

section \<open>Pools\<close>

record DestEntry =
  de_name :: string
  de_domain :: string

definition DEST_POOL :: "DestEntry list" where
  "DEST_POOL =
     [\<lparr>de_name = ''Cloudflare'', de_domain = ''cloudflare.com''\<rparr>,
      \<lparr>de_name = ''Netflix'', de_domain = ''netflix.com''\<rparr>,
      \<lparr>de_name = ''Amazon'', de_domain = ''amazon.com''\<rparr>,
      \<lparr>de_name = ''Steam'', de_domain = ''steampowered.com''\<rparr>,
      \<lparr>de_name = ''Akamai'', de_domain = ''akamai.com''\<rparr>,
      \<lparr>de_name = ''Hugging Face'', de_domain = ''huggingface.co''\<rparr>,
      \<lparr>de_name = ''Google'', de_domain = ''google.com''\<rparr>,
      \<lparr>de_name = ''Apple'', de_domain = ''apple.com''\<rparr>,
      \<lparr>de_name = ''Microsoft'', de_domain = ''microsoft.com''\<rparr>,
      \<lparr>de_name = ''Discord'', de_domain = ''discord.com''\<rparr>,
      \<lparr>de_name = ''YouTube'', de_domain = ''youtube.com''\<rparr>,
      \<lparr>de_name = ''GitHub'', de_domain = ''github.com''\<rparr>]"

definition ISP_POOL :: "string list" where
  "ISP_POOL =
     [''Google Fiber'', ''AT&T Fiber'', ''Verizon Fios'', ''Comcast Xfinity'', ''Spectrum'']"

record GeoRow =
  geo_cc :: string
  geo_city :: string
  geo_tz :: string

definition GEO_ROWS :: "GeoRow list" where
  "GEO_ROWS =
     [\<lparr>geo_cc = ''US'', geo_city = ''New York'', geo_tz = ''America/New_York''\<rparr>,
      \<lparr>geo_cc = ''GB'', geo_city = ''London'', geo_tz = ''Europe/London''\<rparr>,
      \<lparr>geo_cc = ''DE'', geo_city = ''Berlin'', geo_tz = ''Europe/Berlin''\<rparr>,
      \<lparr>geo_cc = ''JP'', geo_city = ''Tokyo'', geo_tz = ''Asia/Tokyo''\<rparr>,
      \<lparr>geo_cc = ''FR'', geo_city = ''Paris'', geo_tz = ''Europe/Paris''\<rparr>,
      \<lparr>geo_cc = ''CA'', geo_city = ''Toronto'', geo_tz = ''America/Toronto''\<rparr>,
      \<lparr>geo_cc = ''AU'', geo_city = ''Sydney'', geo_tz = ''Australia/Sydney''\<rparr>,
      \<lparr>geo_cc = ''KR'', geo_city = ''Seoul'', geo_tz = ''Asia/Seoul''\<rparr>]"

definition USER_NAMES :: "string list" where
  "USER_NAMES =
     [''Alex'', ''Sam'', ''Jordan'', ''Riley'', ''Casey'', ''Morgan'', ''Quinn'', ''Avery'',
      ''Taylor'', ''Jamie'', ''Cameron'', ''Drew'', ''Skyler'', ''Reese'', ''Parker'',
      ''Rowan'']"

definition PHONE_NAMES :: "string list" where
  "PHONE_NAMES =
     [''Guest iPhone'', ''Alex iPhone'', ''Pixel 8'', ''Galaxy S24'', ''Work Phone'',
      ''Riley iPhone'', ''Casey Pixel'', ''Jordan Galaxy'', ''Kids iPhone'', ''Office Pixel'',
      ''Backup Phone'', ''Sam Android'', ''Travel iPhone'', ''Morgan Pixel'']"

definition TABLET_NAMES :: "string list" where
  "TABLET_NAMES =
     [''Kitchen iPad'', ''Office iPad'', ''Galaxy Tab'', ''Kids Tablet'', ''Bedroom iPad'',
      ''Guest iPad'', ''Studio Tablet'', ''Den iPad'']"

definition COMPUTER_NAMES :: "string list" where
  "COMPUTER_NAMES =
     [''Office MacBook'', ''Desk PC'', ''ThinkPad'', ''iMac'', ''Mac mini'', ''Mini PC'',
      ''NUC'', ''Gaming PC'', ''Work Laptop'', ''Basement PC'', ''Studio Mac'',
      ''Living Room Mini'', ''Framework Laptop'', ''Home Server PC'', ''Media PC'']"

definition CONSOLE_NAMES :: "string list" where
  "CONSOLE_NAMES =
     [''Living Room PS5'', ''Xbox Series X'', ''Switch'', ''Steam Deck'', ''Xbox'',
      ''PS5 Slim'', ''Retro Pi'', ''Switch Lite'', ''Xbox S'', ''Steam PC'']"

definition TV_NAMES :: "string list" where
  "TV_NAMES =
     [''Living Room TV'', ''Bedroom TV'', ''Office TV'', ''Patio TV'', ''Basement TV'',
      ''Apple TV'', ''Roku'', ''Fire TV'', ''Shield TV'', ''Kitchen TV'', ''Guest TV'']"

definition SMARTHOME_NAMES :: "string list" where
  "SMARTHOME_NAMES =
     [''Hue Bridge'', ''Nest Hub'', ''Echo Dot'', ''Thermostat'', ''Vacuum'', ''Smart Plug'',
      ''Light Strip'', ''Lock'', ''Garage Opener'', ''Sprinkler'', ''Doorbell Chime'',
      ''Leak Sensor'', ''Smoke Hub'', ''Blinds'', ''Irrigation'']"

definition CAMERA_NAMES :: "string list" where
  "CAMERA_NAMES =
     [''Hallway Cam'', ''Doorbell'', ''Driveway Cam'', ''Patio Cam'', ''Nursery Cam'',
      ''Garage Cam'', ''Porch Cam'', ''Backyard Cam'', ''Entry Cam'', ''Side Cam'']"

definition NAS_NAMES :: "string list" where
  "NAS_NAMES =
     [''Nas Box'', ''Synology'', ''TrueNAS'', ''Backup NAS'', ''Studio NAS'', ''Media NAS'',
      ''Lab NAS'']"

definition PRINTER_NAMES :: "string list" where
  "PRINTER_NAMES =
     [''Office Printer'', ''Label Printer'', ''Photo Printer'', ''Basement Printer'']"

definition SPEAKER_NAMES :: "string list" where
  "SPEAKER_NAMES =
     [''Patio Speaker'', ''Homepod'', ''Sonos'', ''Echo Studio'', ''Kitchen Speaker'',
      ''Bedroom Speaker'']"

definition WEARABLE_NAMES :: "string list" where
  "WEARABLE_NAMES =
     [''Apple Watch'', ''Galaxy Watch'', ''Fitness Band'', ''Kids Watch'']"

definition ROUTER_NAMES :: "string list" where
  "ROUTER_NAMES =
     [''Edge Router'', ''Core Router'', ''VPN Router'', ''Travel Router'', ''Lab Router'']"

definition DEVICE_NAMES :: "string list" where
  "DEVICE_NAMES =
     PHONE_NAMES @ TABLET_NAMES @ COMPUTER_NAMES @ CONSOLE_NAMES @ TV_NAMES @ SMARTHOME_NAMES
     @ CAMERA_NAMES @ NAS_NAMES @ PRINTER_NAMES @ SPEAKER_NAMES @ WEARABLE_NAMES
     @ [''Basement Pi'', ''Kitchen Tablet'']"

definition AP_NAMES :: "string list" where
  "AP_NAMES =
     [''Upstairs AP'', ''Downstairs AP'', ''Garage AP'', ''Office AP'', ''Living Room AP'',
      ''Kitchen AP'', ''Patio AP'', ''Bedroom AP'', ''Hallway AP'', ''Basement AP'',
      ''Attic AP'', ''Guest Room AP'', ''Studio AP'', ''Dining Room AP'', ''Family Room AP'',
      ''Media Room AP'', ''Master Bedroom AP'', ''Kids Room AP'', ''Nursery AP'',
      ''Laundry AP'', ''Foyer AP'', ''Landing AP'', ''Workshop AP'', ''Porch AP'',
      ''Backyard AP'', ''Driveway AP'', ''Front Door AP'', ''Upstairs Hall AP'',
      ''Downstairs Hall AP'', ''Office 2 AP'', ''Bedroom 2 AP'', ''Lobby AP'',
      ''Conference AP'']"

definition SWITCH_NAMES :: "string list" where
  "SWITCH_NAMES =
     [''Core Switch'', ''Edge Switch'', ''Access Switch'', ''Distribution Switch'',
      ''Leaf Switch'', ''Spine Switch'', ''ToR Switch'', ''Closet Switch'', ''Office Switch'',
      ''Basement Switch'', ''Garage Switch'', ''Rack Switch'', ''Lab Switch'',
      ''Camera Switch'', ''AP Switch'', ''Utility Switch'', ''Workshop Switch'',
      ''Backbone Switch'']"

definition SWITCH_POE :: "string list" where
  "SWITCH_POE =
     [''PoE Switch'', ''Core PoE'', ''Access PoE'']"

definition SWITCH_SFP :: "string list" where
  "SWITCH_SFP =
     [''Fiber Switch'', ''Aggregation Switch'']"

definition LAN_NAMES :: "string list" where
  "LAN_NAMES =
     [''LAN'', ''IoT'', ''Guest'', ''Trusted'', ''Cameras'', ''Servers'', ''Kids'', ''Lab'',
      ''Mgmt'', ''VoIP'', ''VPN'', ''Media'', ''Office'', ''Printers'', ''Gaming'', ''DMZ'',
      ''Storage'', ''Workshop'', ''Wireless'', ''Wired'', ''Trunk'', ''Peer'']"

definition SSID_NAMES :: "string list" where
  "SSID_NAMES =
     [''Home'', ''Home 5G'', ''IoT'', ''Guest'', ''Office'', ''Cameras'', ''Lab'', ''Outdoor'',
      ''Kids'', ''Media'', ''Mesh'', ''Corp'', ''IoT 2G'', ''Guest 5G'']"

definition GROUP_NAMES :: "string list" where
  "GROUP_NAMES =
     [''Family'', ''Kids'', ''Guests'', ''IoT'', ''Work'', ''Staff'', ''Media'', ''Cameras'',
      ''Servers'', ''Lab'', ''VPN'', ''Phones'', ''Tablets'', ''Streaming'', ''Office'',
      ''Bedroom'', ''Basement'', ''Garage'', ''Trusted'', ''Visitors'', ''Contractors'',
      ''Smart Home'', ''Lighting'', ''HVAC'', ''Printers'', ''Gaming'', ''Speakers'',
      ''Watches'', ''Laptops'', ''Desktops'', ''Storage'', ''Workshop'', ''Patio'',
      ''Nursery'', ''Guest Room'', ''Travel'', ''Admin'', ''Personal'']"

definition BOX_NAMES :: "string list" where
  "BOX_NAMES =
     [''Firewalla'', ''Gateway'', ''Router'', ''Edge Box'', ''Security Gateway'',
      ''Home Gateway'']"

definition VENDORS :: "string list" where
  "VENDORS =
     [''Apple'', ''Samsung'', ''Google'', ''Amazon'', ''Intel'', ''Ubiquiti'', ''TP-Link'',
      ''Sony'', ''Microsoft'', ''Dell'', ''HP'', ''Lenovo'', ''Nintendo'', ''Logitech'',
      ''Philips'', ''Ecobee'', ''Roku'', ''NVIDIA'', ''ASUS'', ''Synology'']"

section \<open>Kinds of names\<close>

datatype NameKind =
    KDevice | KAp | KSwitch | KSsid | KGroup | KUser | KBox | KVendor | KHost | KLan | KPhone
  | KTablet | KComputer | KConsole | KTv | KSmarthome | KNas | KPrinter | KSpeaker | KCamera
  | KWearable | KRouter

text \<open>The text of a kind, as it enters the keys of the name table.\<close>

fun kindText :: "NameKind \<Rightarrow> string" where
  "kindText KDevice = ''device''"
| "kindText KAp = ''ap''"
| "kindText KSwitch = ''switch''"
| "kindText KSsid = ''ssid''"
| "kindText KGroup = ''group''"
| "kindText KUser = ''user''"
| "kindText KBox = ''box''"
| "kindText KVendor = ''vendor''"
| "kindText KHost = ''host''"
| "kindText KLan = ''lan''"
| "kindText KPhone = ''phone''"
| "kindText KTablet = ''tablet''"
| "kindText KComputer = ''computer''"
| "kindText KConsole = ''console''"
| "kindText KTv = ''tv''"
| "kindText KSmarthome = ''smarthome''"
| "kindText KNas = ''nas''"
| "kindText KPrinter = ''printer''"
| "kindText KSpeaker = ''speaker''"
| "kindText KCamera = ''camera''"
| "kindText KWearable = ''wearable''"
| "kindText KRouter = ''router''"

fun NAME_POOLS :: "NameKind \<Rightarrow> string list" where
  "NAME_POOLS KDevice = DEVICE_NAMES"
| "NAME_POOLS KAp = AP_NAMES"
| "NAME_POOLS KSwitch = SWITCH_NAMES"
| "NAME_POOLS KSsid = SSID_NAMES"
| "NAME_POOLS KGroup = GROUP_NAMES"
| "NAME_POOLS KUser = USER_NAMES"
| "NAME_POOLS KBox = BOX_NAMES"
| "NAME_POOLS KHost = BOX_NAMES"
| "NAME_POOLS KVendor = VENDORS"
| "NAME_POOLS KLan = LAN_NAMES"
| "NAME_POOLS KPhone = PHONE_NAMES"
| "NAME_POOLS KTablet = TABLET_NAMES"
| "NAME_POOLS KComputer = COMPUTER_NAMES"
| "NAME_POOLS KConsole = CONSOLE_NAMES"
| "NAME_POOLS KTv = TV_NAMES"
| "NAME_POOLS KSmarthome = SMARTHOME_NAMES"
| "NAME_POOLS KNas = NAS_NAMES"
| "NAME_POOLS KPrinter = PRINTER_NAMES"
| "NAME_POOLS KSpeaker = SPEAKER_NAMES"
| "NAME_POOLS KCamera = CAMERA_NAMES"
| "NAME_POOLS KWearable = WEARABLE_NAMES"
| "NAME_POOLS KRouter = ROUTER_NAMES"

text \<open>\<open>\b(w1|w2|...)\b\<close>\<close>

definition words_rx :: "string list \<Rightarrow> rx" where
  "words_rx ws = Seqs [WordB, Alts (map Lit ws), WordB]"

definition clientNameKind :: "string option \<Rightarrow> string option \<Rightarrow> NameKind" where
  "clientNameKind typ os =
     (let t = replace_all (Plus (Cls (\<lambda>c. c = CHR ''_'' \<or> c = CHR ''-'')))
                (toLowerCase (opt_str typ @ '' '' @ opt_str os)) '' '';
          has = (\<lambda>ws. test (words_rx ws) t)
      in if has [''iphone'', ''android'', ''phone'', ''smartphone'', ''mobile''] then KPhone
         else if has [''ipad'', ''tablet''] then KTablet
         else if has [''macbook'', ''laptop'', ''desktop'', ''windows'', ''macos'', ''linux'',
                ''computer'', ''imac'', ''thinkpad'', ''pc'', ''chrome os''] then KComputer
         else if has [''playstation'', ''xbox'', ''nintendo'', ''steam'', ''console'', ''gaming'',
                ''game console''] then KConsole
         else if has [''tv'', ''television'', ''roku'', ''firetv'', ''apple tv'', ''chromecast'',
                ''media streaming'', ''tvos''] then KTv
         else if has [''nas'', ''synology'', ''qnap'', ''server'', ''unraid'', ''nas and server'']
              then KNas
         else if has [''printer''] then KPrinter
         else if has [''speaker'', ''echo'', ''homepod'', ''sonos'', ''smart speaker'', ''audio'']
              then KSpeaker
         else if has [''camera'', ''doorbell''] then KCamera
         else if has [''watch'', ''wearable''] then KWearable
         else if has [''access point'', ''ap'', ''wifi'', ''uap'', ''wap''] then KAp
         else if has [''switch'', ''usw''] then KSwitch
         else if has [''router'', ''gateway'', ''udm'', ''usg''] then KRouter
         else if has [''iot'', ''plug'', ''bulb'', ''thermostat'', ''vacuum'', ''lock'', ''hue'',
                ''nest'', ''smart'', ''appliance'', ''car''] then KSmarthome
         else KDevice)"

section \<open>Names for a switch\<close>

text \<open>\<open>s.includes(p)\<close> under the \<open>i\<close> flag.\<close>

definition includesI :: "string \<Rightarrow> string \<Rightarrow> bool" where
  "includesI s p = str_includes (toLowerCase s) (toLowerCase p)"

definition poe_port :: "SwitchPort \<Rightarrow> bool" where
  "poe_port p \<longleftrightarrow> truthy (sp_poe_status p)
     \<or> (case sp_poe_w p of None \<Rightarrow> False | Some w \<Rightarrow> w \<noteq> 0) \<or> truthy (sp_poe_mode p)"

text \<open>The number after the port count is looked for in the model and the name.\<close>

definition size_in_text :: "string \<Rightarrow> nat" where
  "size_in_text blob =
     (case exec_from (words_rx [''5'', ''8'', ''16'', ''24'', ''48'']) blob 0 of
        None \<Rightarrow> 0 | Some (a, b) \<Rightarrow> read_nat 10 (js_slice a b blob))"

definition switchNamePool :: "Switch \<Rightarrow> string list" where
  "switchNamePool s =
     (let blob = opt_str (sw_model s) @ '' '' @ opt_str (sw_name s);
          ports = opt_list (sw_ports s);
          poe =
            (if (case sw_poe s of None \<Rightarrow> False
                 | Some q \<Rightarrow> 0 < poe_budget_w q \<or> 0 < poe_active_ports q \<or> 0 < poe_draw_w q)
             then SWITCH_POE
             else if list_ex poe_port ports then SWITCH_POE
             else if includesI blob ''poe'' then SWITCH_POE
             else []);
          sfp =
            (if list_ex (\<lambda>p. sp_sfp p = Some True) ports
                \<or> includesI blob ''sfp'' \<or> includesI blob ''aggregat'' \<or> includesI blob ''fiber''
             then SWITCH_SFP else []);
          n = (if ports \<noteq> [] then length ports else size_in_text blob);
          size =
            (if 0 < n \<and> n \<le> 10 then [''Mini Switch'', ''Desktop Switch'', ''8-Port Switch'']
             else if 10 < n \<and> n \<le> 18 then [''16-Port Switch'']
             else if 18 < n \<and> n \<le> 28 then [''24-Port Switch'']
             else if 28 < n then [''48-Port Switch'']
             else []);
          extra = poe @ sfp @ size
      in if extra \<noteq> [] then SWITCH_NAMES @ extra else SWITCH_NAMES)"

section \<open>The pools hold names\<close>

lemmas pool_defs =
  USER_NAMES_def PHONE_NAMES_def TABLET_NAMES_def COMPUTER_NAMES_def CONSOLE_NAMES_def TV_NAMES_def
  SMARTHOME_NAMES_def CAMERA_NAMES_def NAS_NAMES_def PRINTER_NAMES_def SPEAKER_NAMES_def
  WEARABLE_NAMES_def ROUTER_NAMES_def AP_NAMES_def SWITCH_NAMES_def LAN_NAMES_def SSID_NAMES_def
  GROUP_NAMES_def BOX_NAMES_def VENDORS_def

lemma NAME_POOLS_named: "[] \<notin> set (NAME_POOLS k)" "NAME_POOLS k \<noteq> []"
  by (cases k; simp add: pool_defs DEVICE_NAMES_def)+

lemma switchNamePool_named: "[] \<notin> set (switchNamePool s)" "switchNamePool s \<noteq> []"
  by (auto simp: switchNamePool_def Let_def SWITCH_NAMES_def SWITCH_POE_def SWITCH_SFP_def)

lemma kindText_inj: "kindText j = kindText k \<Longrightarrow> j = k"
  by (cases j; cases k) simp_all

lemma kindText_no_bar: "CHR ''|'' \<notin> set (kindText k)"
  by (cases k) simp_all

end
