(* ===== verification/AnonNames.thy ===== *)
theory AnonNames
  imports AnonNet AnonPools "HOL-Library.State_Monad"
begin

text \<open>
  The table of substitute names (\<open>ui/src/lib/anonymity.ts\<close>, lines 414 to 424 and 621 to 670).
  The module keeps one memo per salt; a call of \<open>fakeName\<close> reads and extends it, so it is a
  program of the state monad over the table. The invariant of the table says that a name is
  given to one original only among the originals of its kind.
\<close>

section \<open>The table\<close>

record NameMemo =
  memo_assigned :: "units \<rightharpoonup> string"
  memo_taken :: "NameKind \<rightharpoonup> string list"

type_synonym Names = "string \<rightharpoonup> NameMemo"

definition empty_memo :: NameMemo where
  "empty_memo = \<lparr>memo_assigned = Map.empty, memo_taken = Map.empty\<rparr>"

definition memoFor :: "string \<Rightarrow> (Names, NameMemo) state" where
  "memoFor salt = do {
     ms \<leftarrow> State_Monad.get;
     case ms salt of
       Some m \<Rightarrow> State_Monad.return m
     | None \<Rightarrow> do {
         State_Monad.set (ms(salt \<mapsto> empty_memo));
         State_Monad.return empty_memo } }"

definition store_memo :: "string \<Rightarrow> NameMemo \<Rightarrow> (Names, unit) state" where
  "store_memo salt m = do { ms \<leftarrow> State_Monad.get; State_Monad.set (ms(salt \<mapsto> m)) }"

definition used_of :: "NameMemo \<Rightarrow> NameKind \<Rightarrow> string list" where
  "used_of m k = (case memo_taken m k of None \<Rightarrow> [] | Some u \<Rightarrow> u)"

section \<open>Choosing a name\<close>

definition key_of :: "NameKind \<Rightarrow> string \<Rightarrow> string \<Rightarrow> units" where
  "key_of kind tag original = units (kindText kind @ ''|'' @ tag @ ''|'') @ or_mark original"

definition pool_for :: "NameKind \<Rightarrow> string list option \<Rightarrow> string list" where
  "pool_for kind pool =
     (case pool of Some p \<Rightarrow> if p \<noteq> [] then p else NAME_POOLS kind | None \<Rightarrow> NAME_POOLS kind)"

definition start_of :: "string \<Rightarrow> NameKind \<Rightarrow> string \<Rightarrow> string \<Rightarrow> nat \<Rightarrow> nat" where
  "start_of salt kind tag original n =
     (if n = 0 then 0
      else unat (fnv (units (salt @ ''|'') @ key_of kind tag original)) mod n)"

text \<open>The first name from the start, going round the pool once, that is not in use.\<close>

definition first_free :: "string list \<Rightarrow> string list \<Rightarrow> nat \<Rightarrow> string option" where
  "first_free names used start =
     find (\<lambda>x. x \<notin> set used)
       (map (\<lambda>step. names ! ((start + step) mod length names)) [0..<length names])"

text \<open>\<open>while (used.has(`${base} ${extra}`)) extra++\<close>\<close>

definition numbered :: "string \<Rightarrow> nat \<Rightarrow> string" where
  "numbered base extra = base @ '' '' @ dec extra"

lemma numbered_inj: "inj (numbered base)"
  by (auto simp: numbered_def inj_def)

function next_extra :: "string list \<Rightarrow> string \<Rightarrow> nat \<Rightarrow> nat" where
  "next_extra used base extra =
     (if numbered base extra \<in> set used then next_extra used base (Suc extra) else extra)"
  by pat_completeness auto
termination
proof (relation "measure (\<lambda>(used, base, extra). card {e. extra \<le> e \<and> numbered base e \<in> set used})")
  fix used :: "string list" and base :: string and extra :: nat
  assume used: "numbered base extra \<in> set used"
  have "finite (numbered base -` set used)"
    by (rule finite_vimageI) (auto intro: numbered_inj)
  then have "finite {e. extra \<le> e \<and> numbered base e \<in> set used}"
    by (rule rev_finite_subset) auto
  moreover have "{e. Suc extra \<le> e \<and> numbered base e \<in> set used} \<subset>
      {e. extra \<le> e \<and> numbered base e \<in> set used}"
    using used by (intro psubsetI) (auto simp: set_eq_iff intro: exI [of _ extra])
  ultimately show "((used, base, Suc extra), used, base, extra) \<in>
      measure (\<lambda>(used, base, extra). card {e. extra \<le> e \<and> numbered base e \<in> set used})"
    by (simp add: psubset_card_mono)
qed simp

declare next_extra.simps [simp del]

definition choose_name :: "string \<Rightarrow> NameKind \<Rightarrow> string \<Rightarrow> string \<Rightarrow> string list \<Rightarrow> string list \<Rightarrow> string"
  where
  "choose_name salt kind tag original names used =
     (let n = length names; start = start_of salt kind tag original n in
      case first_free names used start of
        Some name \<Rightarrow> name
      | None \<Rightarrow>
          let base = or_else (if start < n then names ! start else []) (kindText kind)
          in numbered base (next_extra used base 2))"

definition fakeName ::
  "string \<Rightarrow> NameKind \<Rightarrow> string \<Rightarrow> string \<Rightarrow> string list option \<Rightarrow> (Names, string) state" where
  "fakeName salt kind original tag pool = do {
     let names = pool_for kind pool;
     let key = key_of kind tag original;
     memo \<leftarrow> memoFor salt;
     let hit = opt_str (memo_assigned memo key);
     if hit \<noteq> [] then State_Monad.return hit
     else do {
       let used = used_of memo kind;
       let name = choose_name salt kind tag original names used;
       store_memo salt (memo\<lparr>memo_taken := (memo_taken memo)(kind \<mapsto> used @ [name]),
                              memo_assigned := (memo_assigned memo)(key \<mapsto> name)\<rparr>);
       State_Monad.return name } }"

section \<open>Picks from a pool without a table\<close>

definition pick :: "string \<Rightarrow> string \<Rightarrow> string \<Rightarrow> 'a list \<Rightarrow> 'a" where
  "pick salt kind original pool =
     pool ! (if length pool = 0 then 0
             else unat (fnv (units (salt @ ''|'' @ kind @ ''|'') @ or_mark original)) mod length pool)"

definition fakeDest :: "string \<Rightarrow> string \<Rightarrow> DestEntry" where
  "fakeDest salt original = pick salt ''dest'' original DEST_POOL"

definition fakeISP :: "string \<Rightarrow> string \<Rightarrow> string" where
  "fakeISP salt original = pick salt ''isp'' original ISP_POOL"

definition fakeGeo :: "string \<Rightarrow> string option \<Rightarrow> GeoRow" where
  "fakeGeo salt cc = pick salt ''geo'' (toUpperCase (opt_str cc)) GEO_ROWS"

section \<open>The choice is fresh\<close>

lemma next_extra_fresh: "numbered base (next_extra used base extra) \<notin> set used"
proof (induction used base extra rule: next_extra.induct)
  case (1 used base extra)
  then show ?case
    by (cases "numbered base extra \<in> set used") (simp_all add: next_extra.simps [of used base extra])
qed

lemma first_free_Some:
  assumes "first_free names used start = Some x"
  shows "x \<notin> set used" "x \<in> set names"
proof -
  from assms obtain xs where "x \<in> set xs" and x: "x \<notin> set used"
    and xs: "xs = map (\<lambda>step. names ! ((start + step) mod length names)) [0..<length names]"
    unfolding first_free_def by (metis (no_types, lifting) find_Some_iff nth_mem)
  then obtain step where "x = names ! ((start + step) mod length names)" "step < length names"
    by auto
  then have "x \<in> set names"
    by (metis bot_nat_0.not_eq_extremum less_nat_zero_code mod_less_divisor nth_mem)
  with x show "x \<notin> set used" "x \<in> set names" by auto
qed

text \<open>The pool is exhausted only when every name of it is in use.\<close>

lemma first_free_None:
  assumes "first_free names used start = None"
  shows "set names \<subseteq> set used"
proof
  fix x
  assume "x \<in> set names"
  then obtain j where j: "j < length names" "x = names ! j" by (auto simp: in_set_conv_nth)
  define n where "n = length names"
  define r where "r = start mod n"
  define step where "step = (j + (n - r)) mod n"
  have "0 < n" using j by (auto simp: n_def)
  then have "r < n" by (simp add: r_def)
  have "(start + step) mod n = (r + (j + (n - r))) mod n"
    unfolding step_def r_def by (simp add: mod_simps)
  also have "r + (j + (n - r)) = j + n" using \<open>r < n\<close> by simp
  finally have "(start + step) mod length names = j" using j by (simp add: n_def)
  moreover have "step < length names" using \<open>0 < n\<close> by (simp add: step_def n_def)
  ultimately show "x \<in> set used"
    using assms j by (auto simp: first_free_def find_None_iff)
qed

lemma choose_name_fresh: "choose_name salt kind tag original names used \<notin> set used"
  by (auto simp: choose_name_def Let_def next_extra_fresh dest: first_free_Some split: option.splits)

lemma choose_name_named:
  "[] \<notin> set names \<Longrightarrow> choose_name salt kind tag original names used \<noteq> []"
  by (auto simp: choose_name_def Let_def numbered_def dest: first_free_Some split: option.splits)

lemma choose_name_from_pool:
  "\<not> set names \<subseteq> set used \<Longrightarrow> choose_name salt kind tag original names used \<in> set names"
  by (auto simp: choose_name_def Let_def dest: first_free_Some first_free_None split: option.splits)

section \<open>Programs that keep an invariant and only extend the state\<close>

definition keeps :: "('s \<Rightarrow> bool) \<Rightarrow> ('s \<Rightarrow> 's \<Rightarrow> bool) \<Rightarrow> ('s, 'a) state \<Rightarrow> bool" where
  "keeps ok le m \<longleftrightarrow> (\<forall>s. ok s \<longrightarrow> ok (snd (run_state m s)) \<and> le s (snd (run_state m s)))"

definition yields ::
  "('s \<Rightarrow> bool) \<Rightarrow> ('s \<Rightarrow> 's \<Rightarrow> bool) \<Rightarrow> ('s, 'a) state \<Rightarrow> ('a \<Rightarrow> 's \<Rightarrow> bool) \<Rightarrow> bool" where
  "yields ok le m Q \<longleftrightarrow>
     (\<forall>s a t. ok s \<longrightarrow> run_state m s = (a, t) \<longrightarrow> ok t \<and> le s t \<and> Q a t)"

text \<open>
  The contract between the name table and the programs over it: an invariant and an extension
  order of the states. A program built from parts that meet it meets it.
\<close>

locale state_contract =
  fixes ok :: "'s \<Rightarrow> bool" and le :: "'s \<Rightarrow> 's \<Rightarrow> bool"
  assumes le_refl: "le s s"
    and le_trans: "le s t \<Longrightarrow> le t u \<Longrightarrow> le s u"
begin

lemma keepsI:
  "(\<And>s. ok s \<Longrightarrow> ok (snd (run_state m s)) \<and> le s (snd (run_state m s))) \<Longrightarrow> keeps ok le m"
  by (simp add: keeps_def)

lemma keepsD:
  "keeps ok le m \<Longrightarrow> ok s \<Longrightarrow> run_state m s = (a, t) \<Longrightarrow> ok t \<and> le s t"
  unfolding keeps_def by (metis snd_conv)

lemma keeps_return [intro!]: "keeps ok le (State_Monad.return x)"
  by (simp add: keeps_def le_refl)

lemma keeps_bind [intro]:
  assumes "keeps ok le m" "\<And>x. keeps ok le (f x)"
  shows "keeps ok le (State_Monad.bind m f)"
proof (rule keepsI)
  fix s
  assume "ok s"
  obtain a t where a: "run_state m s = (a, t)" by force
  obtain b u where b: "run_state (f a) t = (b, u)" by force
  from keepsD [OF assms(1) \<open>ok s\<close> a] have "ok t" "le s t" by auto
  with keepsD [OF assms(2) \<open>ok t\<close> b] show
    "ok (snd (run_state (State_Monad.bind m f) s)) \<and> le s (snd (run_state (State_Monad.bind m f) s))"
    by (auto simp: a b intro: le_trans)
qed

lemma keeps_if [intro]: "keeps ok le m \<Longrightarrow> keeps ok le n \<Longrightarrow> keeps ok le (if b then m else n)"
  by simp

lemma keeps_option [intro]:
  "keeps ok le m \<Longrightarrow> (\<And>x. keeps ok le (f x)) \<Longrightarrow> keeps ok le (case xo of None \<Rightarrow> m | Some x \<Rightarrow> f x)"
  by (cases xo) auto

lemma keeps_traverse:
  "(\<And>x. x \<in> set xs \<Longrightarrow> keeps ok le (f x)) \<Longrightarrow> keeps ok le (State_Monad.traverse_list f xs)"
  by (induction xs) auto

text \<open>What a program yields: a postcondition of its value and of the final state.\<close>

lemma yieldsI:
  "(\<And>s a t. ok s \<Longrightarrow> run_state m s = (a, t) \<Longrightarrow> ok t \<and> le s t \<and> Q a t) \<Longrightarrow> yields ok le m Q"
  by (auto simp: yields_def)

lemma yieldsD:
  "yields ok le m Q \<Longrightarrow> ok s \<Longrightarrow> run_state m s = (a, t) \<Longrightarrow> ok t \<and> le s t \<and> Q a t"
  by (auto simp: yields_def)

lemma yields_keeps: "keeps ok le m \<Longrightarrow> yields ok le m (\<lambda>_ _. True)"
  by (auto intro: yieldsI dest: keepsD)

lemma yields_return: "(\<And>t. ok t \<Longrightarrow> Q x t) \<Longrightarrow> yields ok le (State_Monad.return x) Q"
  by (auto simp: yields_def le_refl)

lemma yields_weaken: "yields ok le m P \<Longrightarrow> (\<And>a t. P a t \<Longrightarrow> Q a t) \<Longrightarrow> yields ok le m Q"
  by (auto simp: yields_def)

text \<open>A postcondition that later states keep is available after the rest of the program.\<close>

lemma yields_bind:
  assumes "yields ok le m P" "\<And>a s t. P a s \<Longrightarrow> le s t \<Longrightarrow> P a t"
    "\<And>x. yields ok le (f x) (\<lambda>b t. P x t \<longrightarrow> Q b t)"
  shows "yields ok le (State_Monad.bind m f) Q"
proof (rule yieldsI)
  fix s b u
  assume "ok s" and run: "run_state (State_Monad.bind m f) s = (b, u)"
  obtain a t where a: "run_state m s = (a, t)" by force
  with run have b: "run_state (f a) t = (b, u)" by simp
  from yieldsD [OF assms(1) \<open>ok s\<close> a] have "ok t" "le s t" "P a t" by auto
  with yieldsD [OF assms(3) \<open>ok t\<close> b] assms(2) le_trans show "ok u \<and> le s u \<and> Q b u" by blast
qed

lemma yields_then:
  assumes "keeps ok le m" "\<And>x. yields ok le (f x) Q"
  shows "yields ok le (State_Monad.bind m f) Q"
  by (rule yields_bind [OF yields_keeps [OF assms(1)]]) (simp_all add: assms(2))

lemma yields_traverse:
  assumes "\<And>x. x \<in> set xs \<Longrightarrow> yields ok le (f x) (R x)"
    "\<And>x y s t. R x y s \<Longrightarrow> le s t \<Longrightarrow> R x y t"
  shows "yields ok le (State_Monad.traverse_list f xs) (\<lambda>ys t. list_all2 (\<lambda>x y. R x y t) xs ys)"
  using assms(1)
proof (induction xs)
  case (Cons x xs)
  have rest: "yields ok le (State_Monad.traverse_list f xs) (\<lambda>ys t. list_all2 (\<lambda>x y. R x y t) xs ys)"
    by (rule Cons.IH) (simp add: Cons.prems)
  have mono: "list_all2 (\<lambda>x y. R x y t) xs ys" if "list_all2 (\<lambda>x y. R x y s) xs ys" "le s t" for s t ys
    using that(1) by (rule list_all2_mono) (use assms(2) that(2) in blast)
  show ?case
    unfolding State_Monad.traverse_list.simps
    by (rule yields_bind [OF Cons.prems [of x]], simp, erule (1) assms(2),
        rule yields_bind [OF rest], erule (1) mono, rule yields_return, simp)
qed (simp add: yields_return)

end

section \<open>The invariant of the table\<close>

definition memo_ok :: "NameMemo \<Rightarrow> bool" where
  "memo_ok m \<longleftrightarrow>
     (\<forall>key n. memo_assigned m key = Some n \<longrightarrow>
        n \<noteq> [] \<and> (\<exists>k t orig. key = key_of k t orig \<and> n \<in> set (used_of m k))) \<and>
     (\<forall>k t orig t' orig' n. memo_assigned m (key_of k t orig) = Some n \<and>
        memo_assigned m (key_of k t' orig') = Some n \<longrightarrow> key_of k t orig = key_of k t' orig') \<and>
     (\<forall>k. distinct (used_of m k))"

definition names_ok :: "Names \<Rightarrow> bool" where
  "names_ok ns \<longleftrightarrow> (\<forall>salt m. ns salt = Some m \<longrightarrow> memo_ok m)"

definition assigned_of :: "Names \<Rightarrow> string \<Rightarrow> units \<rightharpoonup> string" where
  "assigned_of ns salt = (case ns salt of None \<Rightarrow> Map.empty | Some m \<Rightarrow> memo_assigned m)"

definition names_le :: "Names \<Rightarrow> Names \<Rightarrow> bool" where
  "names_le ns ns' \<longleftrightarrow> (\<forall>salt. assigned_of ns salt \<subseteq>\<^sub>m assigned_of ns' salt)"

interpretation nt: state_contract names_ok names_le
  by unfold_locales (auto simp: names_le_def intro: map_le_trans)

lemma units_append [simp]: "units (s @ t) = units s @ units t"
  by (simp add: units_def)

lemma units_inj [simp]: "units s = units t \<longleftrightarrow> s = t"
  unfolding units_def by (rule inj_map_eq_map) (simp add: inj_def)

text \<open>The kind of a name can be read off its key.\<close>

lemma key_of_kind: "key_of k t orig = key_of k' t' orig' \<Longrightarrow> k = k'"
proof -
  assume eq: "key_of k t orig = key_of k' t' orig'"
  have tw: "takeWhile (\<lambda>u. u \<noteq> 124) (key_of k t orig) = units (kindText k)" for k t orig
  proof -
    have "124 \<notin> set (units (kindText k))"
      by (cases k) (simp_all add: units_def)
    then have "takeWhile (\<lambda>u. u \<noteq> 124) (units (kindText k) @ 124 # zs) = units (kindText k)" for zs
      by (subst takeWhile_append2) auto
    moreover have "key_of k t orig = units (kindText k) @ 124 # (units (t @ ''|'') @ or_mark orig)"
      by (simp add: key_of_def) (simp add: units_def)
    ultimately show ?thesis by simp
  qed
  from arg_cong [OF eq, of "takeWhile (\<lambda>u. u \<noteq> 124)"] show ?thesis
    by (simp add: tw kindText_inj)
qed

lemma memo_ok_empty: "memo_ok empty_memo"
  by (simp add: memo_ok_def empty_memo_def used_of_def)

lemma memo_ok_extend:
  assumes ok: "memo_ok m" and fresh: "n \<notin> set (used_of m k)" and "n \<noteq> []"
  shows "memo_ok (m\<lparr>memo_taken := (memo_taken m)(k \<mapsto> used_of m k @ [n]),
                    memo_assigned := (memo_assigned m)(key_of k t orig \<mapsto> n)\<rparr>)"
    (is "memo_ok ?m")
proof -
  have used: "used_of ?m j = (if j = k then used_of m k @ [n] else used_of m j)" for j
    by (simp add: used_of_def)
  have old: "memo_assigned m (key_of k t' o') \<noteq> Some n" for t' o'
    using ok fresh by (metis key_of_kind memo_ok_def)
  have "x \<noteq> [] \<and> (\<exists>j t' o'. key = key_of j t' o' \<and> x \<in> set (used_of ?m j))"
    if "memo_assigned ?m key = Some x" for key x
  proof (cases "key = key_of k t orig")
    case True
    with that have "x = n" by simp
    then have "x \<in> set (used_of ?m k)" by (simp add: used)
    with True \<open>x = n\<close> \<open>n \<noteq> []\<close> show ?thesis by blast
  next
    case False
    with that have "memo_assigned m key = Some x" by simp
    with ok obtain j t' o' where "x \<noteq> []" "key = key_of j t' o'" "x \<in> set (used_of m j)"
      unfolding memo_ok_def by blast
    moreover from this have "x \<in> set (used_of ?m j)" by (auto simp: used)
    ultimately show ?thesis by blast
  qed
  moreover have "key_of j t1 o1 = key_of j t2 o2"
    if "memo_assigned ?m (key_of j t1 o1) = Some x" "memo_assigned ?m (key_of j t2 o2) = Some x"
    for j t1 o1 t2 o2 x
    using that ok old
    by (auto simp: memo_ok_def split: if_splits dest!: key_of_kind)
  moreover have "distinct (used_of ?m j)" for j
    using ok fresh by (simp add: used memo_ok_def)
  ultimately show ?thesis unfolding memo_ok_def by blast
qed

section \<open>\<open>fakeName\<close> keeps the invariant\<close>

definition memo_at :: "Names \<Rightarrow> string \<Rightarrow> NameMemo" where
  "memo_at ns salt = (case ns salt of None \<Rightarrow> empty_memo | Some m \<Rightarrow> m)"

lemma memo_at_ok: "names_ok ns \<Longrightarrow> memo_ok (memo_at ns salt)"
  by (auto simp: names_ok_def memo_at_def memo_ok_empty split: option.splits)

lemma assigned_of_memo_at: "assigned_of ns salt = memo_assigned (memo_at ns salt)"
  by (auto simp: assigned_of_def memo_at_def empty_memo_def split: option.splits)

text \<open>A run of \<open>fakeName\<close>, case by case: a known original, or a new one.\<close>

lemma run_fakeName:
  "run_state (fakeName salt kind original tag pool) ns =
     (let m = memo_at ns salt; hit = opt_str (memo_assigned m (key_of kind tag original));
          name = choose_name salt kind tag original (pool_for kind pool) (used_of m kind) in
      if hit \<noteq> [] then (hit, ns(salt \<mapsto> m))
      else (name, ns(salt \<mapsto>
        m\<lparr>memo_taken := (memo_taken m)(kind \<mapsto> used_of m kind @ [name]),
          memo_assigned := (memo_assigned m)(key_of kind tag original \<mapsto> name)\<rparr>)))"
  by (cases "ns salt")
    (simp_all add: fakeName_def memoFor_def store_memo_def memo_at_def Let_def fun_upd_idem)

lemma names_ok_upd: "names_ok ns \<Longrightarrow> memo_ok m \<Longrightarrow> names_ok (ns(salt \<mapsto> m))"
  by (auto simp: names_ok_def)

lemma names_le_upd:
  "memo_assigned (memo_at ns salt) \<subseteq>\<^sub>m memo_assigned m \<Longrightarrow> names_le ns (ns(salt \<mapsto> m))"
  by (auto simp: names_le_def assigned_of_memo_at) (simp add: memo_at_def)

definition named_pool :: "string list option \<Rightarrow> bool" where
  "named_pool pool \<longleftrightarrow> (case pool of None \<Rightarrow> True | Some p \<Rightarrow> [] \<notin> set p)"

lemma pool_for_named: "named_pool pool \<Longrightarrow> [] \<notin> set (pool_for kind pool)"
  by (auto simp: named_pool_def pool_for_def NAME_POOLS_named split: option.splits if_splits)

lemma opt_str_Nil_ok:
  "memo_ok m \<Longrightarrow> opt_str (memo_assigned m key) = [] \<Longrightarrow> memo_assigned m key = None"
  by (cases "memo_assigned m key") (auto simp: opt_str_def memo_ok_def)

lemma keeps_fakeName [intro]:
  assumes "named_pool pool"
  shows "keeps names_ok names_le (fakeName salt kind original tag pool)"
proof (rule nt.keepsI)
  fix ns
  assume ok: "names_ok ns"
  let ?m = "memo_at ns salt"
  let ?key = "key_of kind tag original"
  let ?n = "choose_name salt kind tag original (pool_for kind pool) (used_of ?m kind)"
  note mok = memo_at_ok [OF ok, of salt]
  have new: "memo_ok (?m\<lparr>memo_taken := (memo_taken ?m)(kind \<mapsto> used_of ?m kind @ [?n]),
      memo_assigned := (memo_assigned ?m)(?key \<mapsto> ?n)\<rparr>)"
    by (rule memo_ok_extend [OF mok choose_name_fresh choose_name_named])
      (rule pool_for_named [OF assms])
  have "memo_assigned ?m \<subseteq>\<^sub>m (memo_assigned ?m)(?key \<mapsto> ?n)"
    if "opt_str (memo_assigned ?m ?key) = []"
    using opt_str_Nil_ok [OF mok that] by (auto simp: map_le_def)
  then show "names_ok (snd (run_state (fakeName salt kind original tag pool) ns)) \<and>
      names_le ns (snd (run_state (fakeName salt kind original tag pool) ns))"
    using new ok mok by (auto simp: run_fakeName Let_def intro!: names_ok_upd names_le_upd)
qed

text \<open>After a call the table maps the key to the name that was returned.\<close>

lemma fakeName_assigned:
  assumes "names_ok ns" "run_state (fakeName salt kind original tag pool) ns = (n, ns')"
  shows "assigned_of ns' salt (key_of kind tag original) = Some n"
  using assms
  by (cases "memo_assigned (memo_at ns salt) (key_of kind tag original)")
    (auto simp: run_fakeName Let_def assigned_of_def opt_str_def split: if_splits)

lemma fakeName_known:
  assumes "names_ok ns" "assigned_of ns salt (key_of kind tag original) = Some n"
  shows "run_state (fakeName salt kind original tag pool) ns = (n, ns)"
proof -
  have "n \<noteq> []"
    using memo_at_ok [OF assms(1), of salt] assms(2)
    by (auto simp: memo_ok_def assigned_of_memo_at)
  moreover have "ns salt = Some (memo_at ns salt)"
    using assms(2) by (auto simp: assigned_of_def memo_at_def split: option.splits)
  ultimately show ?thesis
    using assms(2) by (simp add: run_fakeName Let_def assigned_of_memo_at opt_str_def fun_upd_idem)
qed

lemma assigned_inj:
  assumes "names_ok ns" "assigned_of ns salt (key_of k t orig) = Some n"
    "assigned_of ns salt (key_of k t' orig') = Some n"
  shows "key_of k t orig = key_of k t' orig'"
  using memo_at_ok [OF assms(1), of salt] assms(2,3)
  by (auto simp: memo_ok_def assigned_of_memo_at)

lemma names_le_assigned:
  "names_le ns ns' \<Longrightarrow> assigned_of ns salt key = Some n \<Longrightarrow> assigned_of ns' salt key = Some n"
  by (metis domI map_le_def names_le_def)

lemma yields_fakeName:
  "named_pool pool \<Longrightarrow> yields names_ok names_le (fakeName salt kind original tag pool)
     (\<lambda>n ns. assigned_of ns salt (key_of kind tag original) = Some n)"
  by (rule nt.yieldsI) (blast dest: nt.keepsD [OF keeps_fakeName] fakeName_assigned)

section \<open>Sessions of calls\<close>

text \<open>A call of \<open>fakeName\<close>: kind, original, tag and pool.\<close>

type_synonym name_call = "NameKind \<times> string \<times> string \<times> string list option"

definition call_name :: "string \<Rightarrow> name_call \<Rightarrow> (Names, string) state" where
  "call_name salt c = (case c of (kind, original, tag, pool) \<Rightarrow> fakeName salt kind original tag pool)"

definition call_key :: "name_call \<Rightarrow> units" where
  "call_key c = (case c of (kind, original, tag, pool) \<Rightarrow> key_of kind tag original)"

definition call_named :: "name_call \<Rightarrow> bool" where
  "call_named c \<longleftrightarrow> named_pool (snd (snd (snd c)))"

lemma yields_call:
  "call_named c \<Longrightarrow>
     yields names_ok names_le (call_name salt c) (\<lambda>n ns. assigned_of ns salt (call_key c) = Some n)"
  by (cases c) (simp add: call_name_def call_key_def call_named_def yields_fakeName)

lemma run_calls:
  assumes "names_ok ns" "list_all call_named cs"
    "run_state (State_Monad.traverse_list (call_name salt) cs) ns = (out, ns')"
  shows "names_ok ns' \<and> names_le ns ns' \<and>
    list_all2 (\<lambda>c n. assigned_of ns' salt (call_key c) = Some n) cs out"
  by (rule nt.yieldsD [OF nt.yields_traverse assms(1,3)])
    (use assms(2) in \<open>auto simp: list_all_iff intro: yields_call names_le_assigned\<close>)

lemma of_char_lt: "of_char c < (256 :: nat)"
  by (metis nat_of_char_less_256 of_char_eq_iff)

lemma or_mark_inj: "or_mark s = or_mark t \<longleftrightarrow> s = t"
proof -
  have "of_char c \<noteq> (0x2205 :: nat)" for c
    using of_char_lt [of c] by linarith
  then have "units u \<noteq> EMPTY_MARK" for u
    by (cases u) (auto simp: units_def EMPTY_MARK_def)
  from this [of s] this [of t] show ?thesis by (auto simp: or_mark_def)
qed

lemma key_of_original: "key_of k t s = key_of k t s' \<longleftrightarrow> s = s'"
  by (simp add: key_of_def or_mark_inj)

lemma assigned_iff:
  assumes "names_ok ns" "assigned_of ns salt (key_of kind tag a) = Some m"
    "assigned_of ns salt (key_of kind tag b) = Some n"
  shows "m = n \<longleftrightarrow> a = b"
  using assms assigned_inj [OF assms(1,2), of tag b] by (auto simp: key_of_original)

text \<open>C1: over any session of calls, whatever their order and however kinds, tags and pools are
  mixed, two originals of the same kind and tag get the same substitute exactly when they are the
  same: the substitutes are stable and never merge two names.\<close>

theorem names_consistent:
  assumes "names_ok ns" "list_all call_named cs"
    "run_state (State_Monad.traverse_list (call_name salt) cs) ns = (out, ns')"
    "i < length cs" "j < length cs"
    "cs ! i = (kind, original, tag, p)" "cs ! j = (kind, original', tag, q)"
  shows "length out = length cs \<and> (out ! i = out ! j \<longleftrightarrow> original = original')"
proof -
  have ok: "names_ok ns'"
    and all: "list_all2 (\<lambda>c n. assigned_of ns' salt (call_key c) = Some n) cs out"
    using run_calls [OF assms(1-3)] by auto
  have i: "assigned_of ns' salt (key_of kind tag original) = Some (out ! i)"
    using list_all2_nthD [OF all assms(4)] assms(6) by (simp add: call_key_def)
  have j: "assigned_of ns' salt (key_of kind tag original') = Some (out ! j)"
    using list_all2_nthD [OF all assms(5)] assms(7) by (simp add: call_key_def)
  show ?thesis
    using list_all2_lengthD [OF all] assigned_iff [OF ok i j] by simp
qed

theorem names_consistent_witness:
  "let out = fst (run_state (State_Monad.traverse_list (call_name ''k'')
       [(KPhone, ''Ann'', [], None), (KTv, ''Den'', [], None), (KPhone, ''Bob'', [], None),
        (KPhone, ''Ann'', [], None)]) Map.empty) in
   out ! 0 = out ! 3 \<and> out ! 0 \<noteq> out ! 2"
proof -
  let ?cs = "[(KPhone, ''Ann'', [], None), (KTv, ''Den'', [], None), (KPhone, ''Bob'', [], None),
        (KPhone, ''Ann'', [], None)] :: name_call list"
  obtain out ns' where r: "run_state (State_Monad.traverse_list (call_name ''k'') ?cs) Map.empty = (out, ns')"
    by force
  have ok: "names_ok Map.empty" "list_all call_named ?cs"
    by (simp_all add: names_ok_def call_named_def named_pool_def)
  show ?thesis
    using names_consistent [OF ok r, of 0 3] names_consistent [OF ok r, of 0 2] r by simp
qed

lemma used_of_upd:
  "used_of (m\<lparr>memo_taken := (memo_taken m)(k \<mapsto> u), memo_assigned := g\<rparr>) k = u"
  by (simp add: used_of_def)

text \<open>an original that is new to the table gets a name of its pool as long as the pool has a
  name that is not in use; a pool name in use is never given again.\<close>

theorem fakeName_from_pool:
  assumes "assigned_of ns salt (key_of kind tag original) = None"
    "\<not> set (pool_for kind pool) \<subseteq> set (used_of (memo_at ns salt) kind)"
    "run_state (fakeName salt kind original tag pool) ns = (n, ns')"
  shows "n \<in> set (pool_for kind pool) \<and> n \<notin> set (used_of (memo_at ns salt) kind) \<and>
    used_of (memo_at ns' salt) kind = used_of (memo_at ns salt) kind @ [n]"
proof -
  let ?m = "memo_at ns salt"
  let ?n = "choose_name salt kind tag original (pool_for kind pool) (used_of ?m kind)"
  have "n = ?n" and ns': "ns' = ns(salt \<mapsto>
      ?m\<lparr>memo_taken := (memo_taken ?m)(kind \<mapsto> used_of ?m kind @ [n]),
         memo_assigned := (memo_assigned ?m)(key_of kind tag original \<mapsto> n)\<rparr>)"
    using assms(1,3) by (auto simp: run_fakeName Let_def assigned_of_memo_at opt_str_def)
  then have "n \<in> set (pool_for kind pool)" "n \<notin> set (used_of ?m kind)"
    using choose_name_fresh choose_name_from_pool [OF assms(2)] by auto
  moreover have "used_of (memo_at ns' salt) kind = used_of ?m kind @ [n]"
    by (simp add: ns' used_of_upd memo_at_def [of "_(_ := _)"])
  ultimately show ?thesis by blast
qed

theorem fakeName_from_pool_witness:
  "fst (run_state (fakeName ''k'' KSsid ''home'' [] (Some [''Net A'', ''Net B''])) Map.empty)
     \<in> {''Net A'', ''Net B''}"
proof -
  obtain n ns' where r: "run_state (fakeName ''k'' KSsid ''home'' [] (Some [''Net A'', ''Net B'']))
      Map.empty = (n, ns')" by force
  then show ?thesis
    using fakeName_from_pool [of Map.empty "''k''" KSsid "[]" "''home''" "Some [''Net A'', ''Net B'']" n ns']
    by (simp add: assigned_of_def pool_for_def used_of_def memo_at_def empty_memo_def)
qed

end
