(* ===== verification/AnonText.thy ===== *)
theory AnonText
  imports AnonNames
begin

text \<open>
  Rewriting of free text in the anonymity mode (\<open>ui/src/lib/anonymity.ts\<close>, lines 574 to 609
  and 714 to 724): the four expressions are searched one after the other, a match that overlaps
  an earlier span is skipped, and the spans are replaced from left to right.
\<close>

record Span =
  span_start :: nat
  span_end :: nat
  span_repl :: string

definition overlaps :: "Span list \<Rightarrow> nat \<Rightarrow> nat \<Rightarrow> bool" where
  "overlaps spans a b = list_ex (\<lambda>sp. a < span_end sp \<and> span_start sp < b) spans"

definition add_match :: "string \<Rightarrow> (string \<Rightarrow> string) \<Rightarrow> nat \<times> nat \<Rightarrow> Span list \<Rightarrow> Span list" where
  "add_match s fn m spans =
     (case m of (a, b) \<Rightarrow>
        if overlaps spans a b then spans
        else spans @ [\<lparr>span_start = a, span_end = b, span_repl = fn (js_slice a b s)\<rparr>])"

definition add_spans :: "string \<Rightarrow> rx \<Rightarrow> (string \<Rightarrow> string) \<Rightarrow> Span list \<Rightarrow> Span list" where
  "add_spans s re fn spans = fold (add_match s fn) (exec_all re s 0) spans"

section \<open>The four expressions\<close>

definition rx_digit :: rx where
  "rx_digit = Cls is_digit"

definition rx_hex :: rx where
  "rx_hex = Cls is_hex"

text \<open>\<open>/\b(?:\d{1,3}\.){3}\d{1,3}\b/g\<close>\<close>

definition rx_ipv4 :: rx where
  "rx_ipv4 = Seqs [WordB, Rep 3 (Some 3) (Seqs [Rep 1 (Some 3) rx_digit, Chr CHR ''.'']),
                   Rep 1 (Some 3) rx_digit, WordB]"

text \<open>\<open>/\b[0-9a-f]{2}(?::[0-9a-f]{2}){5}\b/gi\<close>\<close>

definition rx_mac :: rx where
  "rx_mac = Seqs [WordB, Rep 2 (Some 2) rx_hex,
                  Rep 5 (Some 5) (Seqs [Chr CHR '':'', Rep 2 (Some 2) rx_hex]), WordB]"

text \<open>\<open>/\b(?:[0-9a-f]{1,4}:){2,7}[0-9a-f:]*\b/gi\<close>\<close>

definition rx_ipv6 :: rx where
  "rx_ipv6 = Seqs [WordB, Rep 2 (Some 7) (Seqs [Rep 1 (Some 4) rx_hex, Chr CHR '':'']),
                   Star (Cls (\<lambda>c. is_hex c \<or> c = CHR '':'')), WordB]"

text \<open>\<open>/\b[a-z0-9](?:[a-z0-9-]{0,61}[a-z0-9])?(?:\.[a-z0-9](?:[a-z0-9-]{0,61}[a-z0-9])?)+\b/gi\<close>\<close>

definition rx_alnum :: rx where
  "rx_alnum = Cls (\<lambda>c. is_alpha c \<or> is_digit c)"

definition rx_label :: rx where
  "rx_label = Seq rx_alnum
     (Opt (Seq (Rep 0 (Some 61) (Cls (\<lambda>c. is_alpha c \<or> is_digit c \<or> c = CHR ''-''))) rx_alnum))"

definition rx_domain :: rx where
  "rx_domain = Seqs [WordB, rx_label, Plus (Seq (Chr CHR ''.'') rx_label), WordB]"

text \<open>\<open>/^[\d.]+$/\<close>\<close>

definition digits_dots :: "string \<Rightarrow> bool" where
  "digits_dots s \<longleftrightarrow> s \<noteq> [] \<and> list_all (\<lambda>c. is_digit c \<or> c = CHR ''.'') s"

definition domain_repl :: "string \<Rightarrow> string \<Rightarrow> string" where
  "domain_repl salt d = (if digits_dots d then d else de_domain (fakeDest salt d))"

section \<open>Rewriting\<close>

definition text_spans :: "string \<Rightarrow> string \<Rightarrow> CidrMap list \<Rightarrow> Span list" where
  "text_spans salt s cidrs =
     (let sp1 = add_spans s rx_ipv4 (\<lambda>ip. fakeIP salt ip cidrs) [];
          sp2 = add_spans s rx_mac (fakeMAC salt) sp1;
          sp3 = add_spans s rx_ipv6 (\<lambda>ip. fakeIP salt ip cidrs) sp2;
          sp4 = add_spans s rx_domain (domain_repl salt) sp3
      in js_sort (\<lambda>a b. int (span_start a) - int (span_start b)) sp4)"

fun render :: "string \<Rightarrow> nat \<Rightarrow> Span list \<Rightarrow> string" where
  "render s i [] = drop i s"
| "render s i (sp # spans) =
     js_slice i (span_start sp) s @ span_repl sp @ render s (span_end sp) spans"

definition rewriteText :: "string \<Rightarrow> string \<Rightarrow> CidrMap list \<Rightarrow> string" where
  "rewriteText salt s cidrs = render s 0 (text_spans salt s cidrs)"

section \<open>The expressions consume text\<close>

lemma rx_consuming:
  "consuming rx_ipv4" "consuming rx_mac" "consuming rx_ipv6" "consuming rx_domain"
  by (rule nonempty_consuming, simp add: rx_ipv4_def rx_mac_def rx_ipv6_def rx_domain_def rx_digit_def
      rx_hex_def rx_label_def rx_alnum_def Chr_def Star_def Plus_def Opt_def)+

section \<open>Spans stay apart\<close>

definition spans_ok :: "nat \<Rightarrow> Span list \<Rightarrow> bool" where
  "spans_ok n spans \<longleftrightarrow>
     (\<forall>sp \<in> set spans. span_start sp < span_end sp \<and> span_end sp \<le> n) \<and>
     pairwise (\<lambda>p q. span_end p \<le> span_start q \<or> span_end q \<le> span_start p) (set spans) \<and>
     distinct spans"

lemma spans_ok_Nil [simp]: "spans_ok n []"
  by (simp add: spans_ok_def)

lemma add_match_ok:
  assumes "spans_ok n spans" "a < b" "b \<le> n"
  shows "spans_ok n (add_match s fn (a, b) spans)"
proof (cases "overlaps spans a b")
  case False
  then have "span_end sp \<le> a \<or> b \<le> span_start sp" if "sp \<in> set spans" for sp
    using that by (force simp: overlaps_def list_ex_iff)
  with False assms show ?thesis
    by (fastforce simp: add_match_def spans_ok_def pairwise_insert)
qed (use assms in \<open>simp add: add_match_def\<close>)

lemma fold_add_match_ok:
  assumes "spans_ok n spans" "\<And>a b. (a, b) \<in> set ms \<Longrightarrow> a < b \<and> b \<le> n"
  shows "spans_ok n (fold (add_match s fn) ms spans)"
  using assms
proof (induction ms arbitrary: spans)
  case (Cons m ms)
  obtain a b where m: "m = (a, b)" by force
  have "a < b" "b \<le> n" using Cons.prems(2) [of a b] m by auto
  then have "spans_ok n (add_match s fn m spans)"
    using Cons.prems(1) by (simp add: add_match_ok m)
  then have "spans_ok n (fold (add_match s fn) ms (add_match s fn m spans))"
    by (rule Cons.IH) (use Cons.prems(2) in auto)
  then show ?case by simp
qed simp

lemma add_spans_ok:
  assumes "consuming re" "spans_ok (length s) spans"
  shows "spans_ok (length s) (add_spans s re fn spans)"
  unfolding add_spans_def
  by (rule fold_add_match_ok [OF assms(2)])
    (use exec_all_spans [OF assms(1), of 0 s] in \<open>auto simp: spans_from_def\<close>)

text \<open>No span is lost, and every match is a span or meets an earlier one.\<close>

lemma add_match_mono: "set spans \<subseteq> set (add_match s fn m spans)"
  by (cases m) (auto simp: add_match_def)

lemma fold_add_match_mono: "set spans \<subseteq> set (fold (add_match s fn) ms spans)"
proof (induction ms arbitrary: spans)
  case (Cons m ms)
  have "set spans \<subseteq> set (add_match s fn m spans)" by (rule add_match_mono)
  also have "\<dots> \<subseteq> set (fold (add_match s fn) ms (add_match s fn m spans))" by (rule Cons.IH)
  finally show ?case by simp
qed simp

lemma add_spans_mono: "set spans \<subseteq> set (add_spans s re fn spans)"
  by (simp add: add_spans_def fold_add_match_mono)

text \<open>Matches of one expression are apart, so without earlier spans each becomes a span.\<close>

lemma fold_add_match_first:
  assumes "sorted_wrt (\<lambda>p q. snd p \<le> fst q) ms" "\<And>a b. (a, b) \<in> set ms \<Longrightarrow> a < b"
    "\<And>sp a b. sp \<in> set spans \<Longrightarrow> (a, b) \<in> set ms \<Longrightarrow> span_end sp \<le> a"
    "(a, b) \<in> set ms"
  shows "\<lparr>span_start = a, span_end = b, span_repl = fn (js_slice a b s)\<rparr>
     \<in> set (fold (add_match s fn) ms spans)"
  using assms
proof (induction ms arbitrary: spans)
  case (Cons m ms)
  obtain c d where m: "m = (c, d)" by force
  let ?new = "\<lparr>span_start = c, span_end = d, span_repl = fn (js_slice c d s)\<rparr>"
  have "\<not> overlaps spans c d"
    using Cons.prems(3) [where a = c and b = d] m by (force simp: overlaps_def list_ex_iff)
  then have step: "add_match s fn m spans = spans @ [?new]"
    by (simp add: add_match_def m)
  show ?case
  proof (cases "(a, b) = m")
    case True
    then show ?thesis
      using fold_add_match_mono [of "spans @ [?new]" s fn ms] m step by auto
  next
    case False
    have "span_end sp \<le> x" if "sp \<in> set (spans @ [?new])" "(x, y) \<in> set ms" for sp x y
      using that Cons.prems(1,3) m by fastforce
    with Cons.IH [of "spans @ [?new]"] Cons.prems False show ?thesis by (simp add: step)
  qed
qed simp

lemma add_spans_first:
  assumes "consuming re" "(a, b) \<in> set (exec_all re s 0)"
  shows "\<lparr>span_start = a, span_end = b, span_repl = fn (js_slice a b s)\<rparr> \<in> set (add_spans s re fn [])"
  unfolding add_spans_def
  by (rule fold_add_match_first)
    (use exec_all_spans [OF assms(1), of 0 s] assms(2) in \<open>auto simp: spans_from_def\<close>)

lemma set_text_spans_ok: "spans_ok (length s) (text_spans salt s cidrs)"
proof -
  have "spans_ok (length s)
     (add_spans s rx_domain (domain_repl salt) (add_spans s rx_ipv6 (\<lambda>ip. fakeIP salt ip cidrs)
       (add_spans s rx_mac (fakeMAC salt) (add_spans s rx_ipv4 (\<lambda>ip. fakeIP salt ip cidrs) []))))"
    by (intro add_spans_ok rx_consuming spans_ok_Nil)
  then show ?thesis
    by (simp add: text_spans_def Let_def spans_ok_def)
qed

interpretation span_order: comparator "\<lambda>a b. int (span_start a) - int (span_start b)"
  by unfold_locales auto

lemma text_spans_sorted: "sorted_wrt (\<lambda>p q. span_end p \<le> span_start q) (text_spans salt s cidrs)"
proof -
  let ?sp = "text_spans salt s cidrs"
  have ok: "spans_ok (length s) ?sp" by (rule set_text_spans_ok)
  have "sorted_wrt (\<lambda>p q. int (span_start p) - int (span_start q) \<le> 0) ?sp"
    unfolding text_spans_def Let_def by (rule span_order.sorted_js_sort)
  then have "sorted_wrt (\<lambda>p q. p \<noteq> q \<and> span_start p \<le> span_start q) ?sp"
    using ok by (auto simp: spans_ok_def sorted_wrt_iff_nth_less
        distinct_conv_nth)
  then show ?thesis
    by (rule sorted_wrt_mono_rel [rotated])
      (use ok in \<open>force simp: spans_ok_def pairwise_def\<close>)
qed

section \<open>Properties of rewriting\<close>

lemma set_text_spans:
  "set (text_spans salt s cidrs) =
     set (add_spans s rx_domain (domain_repl salt) (add_spans s rx_ipv6 (\<lambda>ip. fakeIP salt ip cidrs)
       (add_spans s rx_mac (fakeMAC salt) (add_spans s rx_ipv4 (\<lambda>ip. fakeIP salt ip cidrs) []))))"
  by (simp add: text_spans_def Let_def)

text \<open>A span that meets the interval of a match.\<close>

definition meets :: "Span list \<Rightarrow> nat \<times> nat \<Rightarrow> bool" where
  "meets spans m \<longleftrightarrow> (\<exists>sp \<in> set spans. span_start sp < snd m \<and> fst m < span_end sp)"

lemma meets_mono: "set spans \<subseteq> set spans' \<Longrightarrow> meets spans m \<Longrightarrow> meets spans' m"
  by (auto simp: meets_def)

lemma add_match_meets: "fst m < snd m \<Longrightarrow> meets (add_match s fn m spans) m"
  by (cases m) (auto simp: add_match_def meets_def overlaps_def list_ex_iff)

lemma add_spans_meets:
  assumes "consuming re" "m \<in> set (exec_all re s 0)"
  shows "meets (add_spans s re fn spans) m"
proof -
  have "meets (fold (add_match s fn) ms spans) m" if "m \<in> set ms" "fst m < snd m" for ms
    using that
  proof (induction ms arbitrary: spans)
    case (Cons m' ms)
    show ?case
    proof (cases "m = m'")
      case True
      then show ?thesis
        using meets_mono [OF fold_add_match_mono add_match_meets [OF Cons.prems(2)]] by simp
    qed (use Cons in simp)
  qed simp
  moreover have "fst m < snd m"
    using exec_all_spans [OF assms(1), of 0 s] assms(2) by (auto simp: spans_from_def)
  ultimately show ?thesis using assms(2) by (simp add: add_spans_def)
qed

section \<open>What stands in place of a match\<close>

text \<open>
  What the substitute of an IPv4 address is: in the substitute of a prefix of the table that has the address, or in
  a reserved range. A text of four numbers that is no address stays.
\<close>

definition v4_hidden :: "CidrMap list \<Rightarrow> string \<Rightarrow> string \<Rightarrow> bool" where
  "v4_hidden cidrs t r \<longleftrightarrow>
     (case parseV4 t of
        None \<Rightarrow> r = t
      | Some a \<Rightarrow> \<exists>b. parseV4 r = Some b \<and>
          (if \<exists>m \<in> set cidrs. ipInCIDR (trim t) (cm_orig m)
           then \<exists>m \<in> set cidrs. \<exists>fake. ipInCIDR (trim t) (cm_orig m) \<and> parseCIDR (cm_fake m) = Some fake \<and>
                  b AND v4Mask (cd_plen fake) = cd_net fake
           else if isPrivateV4 a then in_block 24 0x0a000000 b else \<exists>n \<in> set TEST_NET24. in_block 8 n b))"

definition mac_hidden :: "string \<Rightarrow> bool" where
  "mac_hidden r \<longleftrightarrow> (\<exists>bs. parseMAC r = Some bs \<and> length bs = 6 \<and> bs ! 0 mod 4 = 2)"

definition v6_hidden :: "string \<Rightarrow> bool" where
  "v6_hidden r \<longleftrightarrow> startsWith r ''fd00:'' \<or> startsWith r ''2001:db8:''"

definition domain_hidden :: "string \<Rightarrow> string \<Rightarrow> bool" where
  "domain_hidden t r \<longleftrightarrow> (if digits_dots t then r = t else r \<in> de_domain ` set DEST_POOL)"

lemma lang_pair: "lang (Rep 2 (Some 2) rx_hex) u \<longleftrightarrow> mac_pair u"
proof
  assume "lang (Rep 2 (Some 2) rx_hex) u"
  then obtain us where us: "u = concat us" "\<forall>v \<in> set us. \<exists>c. v = [c] \<and> is_hex c" "length us = 2"
    by (auto simp: rx_hex_def reps_ok_def)
  then obtain v w where "us = [v, w]" by (auto simp: length_Suc_conv numeral_2_eq_2)
  with us show "mac_pair u" by (auto simp: mac_pair_def)
next
  assume "mac_pair u"
  then obtain c d where "u = [c, d]" "is_hex c" "is_hex d" by (auto simp: mac_pair_def length_Suc_conv numeral_2_eq_2)
  then show "lang (Rep 2 (Some 2) rx_hex) u" by (auto simp: rx_hex_def reps_ok_def intro!: exI [of _ "[[c], [d]]"])
qed

lemma join_colons: "join '':'' (p # ps) = p @ concat (map (Cons CHR '':'') ps)"
  by (induction ps arbitrary: p) auto

lemma mac_match_parses:
  assumes "lang rx_mac t"
  shows "\<exists>bs. parseMAC t = Some bs"
proof -
  from assms obtain p us where t: "t = p @ concat us" "mac_pair p" "length us = 5"
    and us: "\<forall>u \<in> set us. lang (Seqs [Chr CHR '':'', Rep 2 (Some 2) rx_hex]) u"
    by (auto simp: rx_mac_def reps_ok_def lang_pair simp del: lang.simps(5)
        dest!: iffD1 [OF lang.simps(5) [of 5]])
  have "\<forall>u \<in> set us. \<exists>q. u = CHR '':'' # q \<and> mac_pair q"
    using us by (auto simp: Chr_def lang_pair simp del: lang.simps(5))
  then obtain f where f: "\<forall>u \<in> set us. u = CHR '':'' # f u \<and> mac_pair (f u)" by metis
  then have "map (Cons CHR '':'') (map f us) = us" by (simp add: map_idI)
  then have "t = join '':'' (p # map f us)" by (simp only: join_colons t(1))
  moreover have "list_all mac_pair (p # map f us)" using f t(2) by (auto simp: list_all_iff)
  ultimately show ?thesis using parseMAC_join [of "p # map f us"] t(3) by auto
qed

lemma mac_repl: "lang rx_mac t \<Longrightarrow> mac_hidden (fakeMAC salt t)"
  using mac_match_parses [of t] fakeMAC_local [where mac = t and salt = salt] by (auto simp: mac_hidden_def)

lemma in_trim: "c \<in> set t \<Longrightarrow> \<not> is_ws c \<Longrightarrow> c \<in> set (trim t)"
proof -
  have drop: "c \<in> set xs \<Longrightarrow> \<not> is_ws c \<Longrightarrow> c \<in> set (dropWhile is_ws xs)" for xs by (induction xs) auto
  assume "c \<in> set t" "\<not> is_ws c"
  then show ?thesis using drop [of t] drop [of "rev (dropWhile is_ws t)"] by (simp add: trim_def trimStart_def trimEnd_def)
qed

lemma v6_match_colon:
  assumes "lang rx_ipv6 t"
  shows "CHR '':'' \<in> set t"
proof -
  from assms obtain us v where t: "t = concat us @ v" "2 \<le> length us"
    and us: "\<forall>u \<in> set us. lang (Seqs [Rep 1 (Some 4) rx_hex, Chr CHR '':'']) u"
    by (auto simp: rx_ipv6_def reps_ok_def Star_def simp del: lang.simps(5) dest!: iffD1 [OF lang.simps(5) [of 2]])
  from t(2) obtain u ws where "us = u # ws" by (cases us) auto
  moreover have "CHR '':'' \<in> set u" using us \<open>us = u # ws\<close> by (auto simp: Chr_def)
  ultimately show ?thesis using t(1) by simp
qed

lemma v6_repl_any: "CHR '':'' \<in> set (trim t) \<Longrightarrow> v6_hidden (fakeIP salt t cidrs)"
  by (simp add: fakeIP_def Let_def v6_hidden_def fakeV6_def startsWith_iff)

lemma v6_repl: "lang rx_ipv6 t \<Longrightarrow> v6_hidden (fakeIP salt t cidrs)"
  using in_trim [OF v6_match_colon [of t]] by (simp add: is_ws_def v6_repl_any)

lemma v4_repl_any:
  assumes "\<forall>m \<in> set cidrs. cm_fake m = fakeCIDR salt (cm_orig m)" "CHR '':'' \<notin> set (trim t)"
  shows "v4_hidden cidrs t (fakeIP salt t cidrs)"
proof (cases "parseV4 t")
  case None
  then show ?thesis using assms(2) by (simp add: v4_hidden_def fakeIP_def Let_def parseV4_trim)
next
  case (Some a)
  show ?thesis
  proof (cases "\<exists>m \<in> set cidrs. ipInCIDR (trim t) (cm_orig m)")
    case True
    from fakeIP_moved [OF Some assms(1) True] show ?thesis using Some True by (fastforce simp: v4_hidden_def)
  next
    case False
    then show ?thesis using fakeIP_outside [OF Some, of cidrs salt] Some by (auto simp: v4_hidden_def)
  qed
qed

lemma v4_repl:
  assumes "\<forall>m \<in> set cidrs. cm_fake m = fakeCIDR salt (cm_orig m)" "lang rx_ipv4 t"
  shows "v4_hidden cidrs t (fakeIP salt t cidrs)"
proof -
  have "CHR '':'' \<notin> set t"
    using lang_chars [OF assms(2), of "CHR '':''"] by (auto simp: rx_ipv4_def rx_digit_def Chr_def is_digit_def)
  then have "CHR '':'' \<notin> set (trim t)" unfolding trim_def trimStart_def trimEnd_def by (metis set_dropWhileD set_rev)
  with assms(1) show ?thesis by (rule v4_repl_any)
qed

lemma fakeDest_in: "de_domain (fakeDest salt t) \<in> de_domain ` set DEST_POOL"
proof -
  have "DEST_POOL \<noteq> []" by (simp add: DEST_POOL_def)
  then show ?thesis by (simp add: fakeDest_def pick_def)
qed

lemma domain_repl_hidden: "domain_hidden t (domain_repl salt t)"
  using fakeDest_in by (simp add: domain_hidden_def domain_repl_def)

text \<open>Where a span comes from.\<close>

lemma fold_add_match_from:
  "sp \<in> set (fold (add_match s fn) ms spans) \<Longrightarrow>
     sp \<in> set spans \<or> (span_start sp, span_end sp) \<in> set ms \<and> span_repl sp = fn (js_slice (span_start sp) (span_end sp) s)"
proof (induction ms arbitrary: spans)
  case (Cons m ms)
  then have "sp \<in> set (add_match s fn m spans) \<or>
      (span_start sp, span_end sp) \<in> set ms \<and> span_repl sp = fn (js_slice (span_start sp) (span_end sp) s)" by simp
  then show ?case by (cases m) (auto simp: add_match_def split: if_splits)
qed simp

lemma text_spans_from:
  assumes "sp \<in> set (text_spans salt s cidrs)"
  shows "\<exists>(re, fn) \<in> {(rx_ipv4, \<lambda>ip. fakeIP salt ip cidrs), (rx_mac, fakeMAC salt), (rx_ipv6, \<lambda>ip. fakeIP salt ip cidrs),
      (rx_domain, domain_repl salt)}.
    (span_start sp, span_end sp) \<in> set (exec_all re s 0) \<and> span_repl sp = fn (js_slice (span_start sp) (span_end sp) s)"
proof -
  have step: "sp \<in> set spans \<or> (span_start sp, span_end sp) \<in> set (exec_all re s 0) \<and>
      span_repl sp = fn (js_slice (span_start sp) (span_end sp) s)"
    if "sp \<in> set (add_spans s re fn spans)" for re fn spans
    using that fold_add_match_from unfolding add_spans_def by blast
  let ?from = "\<lambda>re fn. (span_start sp, span_end sp) \<in> set (exec_all re s 0) \<and>
      span_repl sp = fn (js_slice (span_start sp) (span_end sp) s)"
  let ?ip = "\<lambda>ip. fakeIP salt ip cidrs"
  let ?s1 = "add_spans s rx_ipv4 ?ip []"
  let ?s2 = "add_spans s rx_mac (fakeMAC salt) ?s1"
  let ?s3 = "add_spans s rx_ipv6 ?ip ?s2"
  have "sp \<in> set (add_spans s rx_domain (domain_repl salt) ?s3)" using assms by (simp add: set_text_spans)
  then have "sp \<in> set ?s3 \<or> ?from rx_domain (domain_repl salt)" by (rule step)
  moreover have "sp \<in> set ?s2 \<or> ?from rx_ipv6 ?ip" if "sp \<in> set ?s3" using that by (rule step)
  moreover have "sp \<in> set ?s1 \<or> ?from rx_mac (fakeMAC salt)" if "sp \<in> set ?s2" using that by (rule step)
  moreover have "?from rx_ipv4 ?ip" if "sp \<in> set ?s1" using step [OF that] by simp
  ultimately have "?from rx_domain (domain_repl salt) \<or> ?from rx_ipv6 ?ip \<or> ?from rx_mac (fakeMAC salt) \<or> ?from rx_ipv4 ?ip"
    by argo
  then show ?thesis by simp argo
qed

lemma match_met:
  assumes "re \<in> {rx_ipv4, rx_mac, rx_ipv6, rx_domain}" "m \<in> set (exec_all re s 0)"
  shows "meets (text_spans salt s cidrs) m"
proof -
  let ?ip = "\<lambda>ip. fakeIP salt ip cidrs"
  let ?s1 = "add_spans s rx_ipv4 ?ip []"
  let ?s2 = "add_spans s rx_mac (fakeMAC salt) ?s1"
  let ?s3 = "add_spans s rx_ipv6 ?ip ?s2"
  let ?s4 = "add_spans s rx_domain (domain_repl salt) ?s3"
  have sub: "set ?s3 \<subseteq> set ?s4" "set ?s2 \<subseteq> set ?s4" "set ?s1 \<subseteq> set ?s4"
    using add_spans_mono subset_trans by meson+
  have "consuming re" using assms(1) rx_consuming by blast
  then have met: "meets (add_spans s re fn sp) m" for fn sp
    by (rule add_spans_meets [OF _ assms(2)])
  have "meets ?s4 m"
    using assms(1) met [of ?ip "[]"] met [of "fakeMAC salt" ?s1] met [of ?ip ?s2] met [of "domain_repl salt" ?s3]
      meets_mono [OF sub(1)] meets_mono [OF sub(2)] meets_mono [OF sub(3)] by blast
  then show ?thesis by (simp add: meets_def set_text_spans)
qed



lemma js_slice_rest: "a \<le> b \<Longrightarrow> js_slice a b s @ drop b s = drop a s"
  by (simp add: js_slice_def drop_take) (metis append_take_drop_id drop_drop le_add_diff_inverse2)

lemma render_self:
  assumes "sorted_wrt (\<lambda>p q. span_end p \<le> span_start q) spans"
    "\<forall>sp \<in> set spans. i \<le> span_start sp \<and> span_start sp \<le> span_end sp"
  shows "render s i (map (\<lambda>sp. sp\<lparr>span_repl := js_slice (span_start sp) (span_end sp) s\<rparr>) spans) = drop i s"
  using assms
proof (induction spans arbitrary: i)
  case (Cons sp spans)
  have "render s (span_end sp) (map (\<lambda>sp. sp\<lparr>span_repl := js_slice (span_start sp) (span_end sp) s\<rparr>) spans)
      = drop (span_end sp) s"
    by (rule Cons.IH) (use Cons.prems in auto)
  moreover have "js_slice i (span_start sp) s @ js_slice (span_start sp) (span_end sp) s
      @ drop (span_end sp) s = drop i s"
    using Cons.prems(2) by (simp add: js_slice_rest)
  ultimately show ?case by simp
qed simp



end
