(* ===== verification/AnonViews.thy ===== *)
theory AnonViews
  imports AnonText
begin

text \<open>
  The views of the anonymity mode (\<open>ui/src/lib/anonymity.ts\<close>, lines 729 to 1223): for each
  view the server sends, the view with the identifying fields replaced. Names go through the
  table of substitute names, so a view is a program of the state monad over that table, with the
  fields in the order in which the code evaluates them; a view without names is a plain function.
\<close>

section \<open>Optional fields\<close>

text \<open>\<open>x ? f(x) : x\<close> on an optional text, plain and over the table.\<close>

definition if_text :: "(string \<Rightarrow> string) \<Rightarrow> string option \<Rightarrow> string option" where
  "if_text f so = (case so of None \<Rightarrow> None | Some s \<Rightarrow> if s = [] then Some s else Some (f s))"

definition if_text_M ::
  "(string \<Rightarrow> (Names, string) state) \<Rightarrow> string option \<Rightarrow> (Names, string option) state" where
  "if_text_M f so =
     (case so of
        None \<Rightarrow> State_Monad.return None
      | Some s \<Rightarrow> if s = [] then State_Monad.return (Some s)
                  else do { t \<leftarrow> f s; State_Monad.return (Some t) })"

text \<open>\<open>xs?.map(f)\<close> over the table.\<close>

definition opt_list_M ::
  "('a \<Rightarrow> (Names, 'b) state) \<Rightarrow> 'a list option \<Rightarrow> (Names, 'b list option) state" where
  "opt_list_M f xo =
     (case xo of
        None \<Rightarrow> State_Monad.return None
      | Some xs \<Rightarrow> do { ys \<leftarrow> State_Monad.traverse_list f xs; State_Monad.return (Some ys) })"

text \<open>\<open>t ? anon.shiftTS(t) : t\<close>\<close>

definition shift_opt :: "string \<Rightarrow> ts option \<Rightarrow> ts option" where
  "shift_opt salt to = map_option (shiftTS salt) to"

abbreviation name_of :: "string \<Rightarrow> NameKind \<Rightarrow> string \<Rightarrow> (Names, string) state" where
  "name_of salt kind original \<equiv> fakeName salt kind original [] None"

section \<open>Networks\<close>

definition looksLikeMAC :: "string \<Rightarrow> bool" where
  "looksLikeMAC s \<longleftrightarrow>
     (let ps = splitOn CHR '':'' (trim s) in length ps = 6 \<and> list_all mac_pair ps)"

definition COUNTRY_LABEL :: "(string, string) jsmap" where
  "COUNTRY_LABEL =
     [(''US'', ''United States''), (''GB'', ''United Kingdom''), (''DE'', ''Germany''),
      (''JP'', ''Japan''), (''FR'', ''France''), (''CA'', ''Canada''), (''AU'', ''Australia''),
      (''KR'', ''South Korea'')]"

definition wanish :: "NetIface \<Rightarrow> bool" where
  "wanish n \<longleftrightarrow> includesI (opt_str (ni_type n)) ''wan'' \<or> ni_wan_ready n \<noteq> None"

text \<open>\<open>n.subnet || (n.ip ? `${n.ip}/32` : '')\<close>\<close>

definition iface_prefix :: "NetIface \<Rightarrow> string" where
  "iface_prefix n =
     or_else (opt_str (ni_subnet n))
       (if truthy (ni_ip n) then opt_str (ni_ip n) @ ''/32'' else [])"

definition lanCidrsFromNetwork :: "string \<Rightarrow> NetIface list \<Rightarrow> CidrMap list" where
  "lanCidrsFromNetwork salt ifaces =
     concat (map (\<lambda>n. let orig = iface_prefix n in
        if orig = [] \<or> CHR '':'' \<in> set orig then []
        else [\<lparr>cm_orig = orig, cm_fake = fakeCIDR salt orig\<rparr>]) ifaces)"

definition anonymizeIface :: "string \<Rightarrow> CidrMap list \<Rightarrow> NetIface \<Rightarrow> (Names, NetIface) state" where
  "anonymizeIface salt cidrs n = do {
     let orig = iface_prefix n;
     let fake = (if orig \<noteq> [] then map_option cm_fake (find (\<lambda>c. cm_orig c = orig) cidrs)
                 else None);
     desc \<leftarrow> if_text_M (\<lambda>d. if wanish n then State_Monad.return (fakeISP salt d)
                            else name_of salt KLan d) (ni_desc n);
     State_Monad.return (n\<lparr>ni_desc := desc,
       ni_ip := if_text (\<lambda>ip. fakeIP salt ip cidrs) (ni_ip n),
       ni_subnet := (case fake of Some f \<Rightarrow> Some f
                     | None \<Rightarrow> if_text (fakeCIDR salt) (ni_subnet n))\<rparr>) }"

definition anonymizeNetwork :: "string \<Rightarrow> NetIface list \<Rightarrow> (Names, NetIface list) state" where
  "anonymizeNetwork salt ifaces =
     State_Monad.traverse_list (anonymizeIface salt (lanCidrsFromNetwork salt ifaces)) ifaces"

definition anonymizeVirtWans :: "string \<Rightarrow> VirtWAN list \<Rightarrow> VirtWAN list" where
  "anonymizeVirtWans salt ws = map (\<lambda>w. w\<lparr>vw_name := if_text (fakeISP salt) (vw_name w)\<rparr>) ws"

section \<open>VPN\<close>

definition vpn_id :: "string \<Rightarrow> string option \<Rightarrow> string option" where
  "vpn_id salt v = if_text (fakeEID salt) v"

definition vpn_name :: "string \<Rightarrow> string option \<Rightarrow> (Names, string option) state" where
  "vpn_name salt v = if_text_M (name_of salt KGroup) v"

definition vpn_ip :: "string \<Rightarrow> string option \<Rightarrow> string option" where
  "vpn_ip salt v = if_text (\<lambda>x. let fake = fakeIP salt x [] in
     if fake = x then de_domain (fakeDest salt x) else fake) v"

definition vpn_peer :: "string \<Rightarrow> VPNPeer \<Rightarrow> (Names, VPNPeer) state" where
  "vpn_peer salt p = do {
     name \<leftarrow> vpn_name salt (vp_name p);
     State_Monad.return (p\<lparr>vp_name := name, vp_public_key := vpn_id salt (vp_public_key p),
       vp_intf := vpn_id salt (vp_intf p), vp_last_active := shift_opt salt (vp_last_active p)\<rparr>) }"

definition vpn_profile :: "string \<Rightarrow> VPNClientProfile \<Rightarrow> (Names, VPNClientProfile) state" where
  "vpn_profile salt p = do {
     name \<leftarrow> vpn_name salt (vcp_display_name p);
     State_Monad.return (p\<lparr>vcp_profile_id := vpn_id salt (vcp_profile_id p),
       vcp_display_name := name, vcp_remote_ip := vpn_ip salt (vcp_remote_ip p),
       vcp_local_ip := vpn_ip salt (vcp_local_ip p),
       vcp_message := if_text (\<lambda>_. ''VPN status message'') (vcp_message p)\<rparr>) }"

definition anonymizeVPN :: "string \<Rightarrow> VPNInventory \<Rightarrow> (Names, VPNInventory) state" where
  "anonymizeVPN salt v = do {
     host \<leftarrow> if_text_M (name_of salt KHost) (vi_host v);
     wg \<leftarrow> opt_list_M (vpn_peer salt) (vi_wg_peers v);
     awg \<leftarrow> opt_list_M (vpn_peer salt) (vi_awg_peers v);
     clients \<leftarrow> opt_list_M (vpn_profile salt) (vi_wg_clients v);
     fams \<leftarrow> opt_list_M (\<lambda>f. do {
        ps \<leftarrow> opt_list_M (vpn_profile salt) (vcf_profiles f);
        State_Monad.return (f\<lparr>vcf_profiles := ps\<rparr>) }) (vi_client_profiles v);
     vips \<leftarrow> opt_list_M (\<lambda>w. do {
        name \<leftarrow> vpn_name salt (vip_name w);
        State_Monad.return (w\<lparr>vip_uid := vpn_id salt (vip_uid w), vip_name := name,
          vip_ip := vpn_ip salt (vip_ip w)\<rparr>) }) (vi_vips v);
     wans \<leftarrow> opt_list_M (\<lambda>w. do {
        name \<leftarrow> vpn_name salt (vvw_name w);
        State_Monad.return (w\<lparr>vvw_uuid := vpn_id salt (vvw_uuid w), vvw_name := name,
          vvw_wans := map_option (map (fakeEID salt)) (vvw_wans w),
          vvw_conn_state := if_text (\<lambda>s. rewriteText salt s []) (vvw_conn_state w)\<rparr>) })
        (vi_virt_wans v);
     State_Monad.return (v\<lparr>vi_ts := shift_opt salt (vi_ts v), vi_host := host, vi_wg_peers := wg,
       vi_awg_peers := awg, vi_wg_clients := clients, vi_client_profiles := fams,
       vi_vips := vips, vi_virt_wans := wans\<rparr>) }"

section \<open>The box\<close>

fun fake_box_mac :: "string \<Rightarrow> BoxMacEntry \<Rightarrow> BoxMacEntry" where
  "fake_box_mac salt (Plain m) = Plain (fakeMAC salt m)"
| "fake_box_mac salt (Labeled b) = Labeled \<lparr>bm_name = bm_name b, bm_mac = fakeMAC salt (bm_mac b)\<rparr>"

definition anonymizeBox :: "string \<Rightarrow> BoxInfo \<Rightarrow> (Names, BoxInfo) state" where
  "anonymizeBox salt box = do {
     let g = fakeGeo salt (box_country box);
     name \<leftarrow> name_of salt KBox (box_name box);
     State_Monad.return (box\<lparr>box_name := name,
       box_public_ip := if_text (\<lambda>ip. fakeIP salt ip []) (box_public_ip box),
       box_ddns := if_text (\<lambda>d. de_domain (fakeDest salt d)) (box_ddns box),
       box_eid := if_text (fakeEID salt) (box_eid box),
       box_timezone := Some (geo_tz g), box_country := Some (geo_cc g), box_region := Some (geo_city g),
       box_local_domain_suffix :=
         if_text (\<lambda>d. de_domain (fakeDest salt d)) (box_local_domain_suffix box),
       box_macs := map_option (map (fake_box_mac salt)) (box_macs box)\<rparr>) }"

section \<open>Flows\<close>

datatype FlowKind = FlowDevice | FlowDest | FlowRegion

definition flow_geo :: "string \<Rightarrow> FlowKind \<Rightarrow> string option \<Rightarrow> string \<Rightarrow> GeoRow" where
  "flow_geo salt kind country name =
     fakeGeo salt (if truthy country then country
                   else if kind = FlowRegion then Some name else None)"

definition flow_id ::
  "string \<Rightarrow> FlowKind \<Rightarrow> GeoRow \<Rightarrow> CidrMap list \<Rightarrow> string option \<Rightarrow> string option" where
  "flow_id salt kind g cidrs i =
     if_text (\<lambda>x. if looksLikeMAC x then fakeMAC salt x
                  else if kind = FlowRegion then geo_cc g
                  else rewriteText salt x cidrs) i"

definition flow_name ::
  "string \<Rightarrow> FlowKind \<Rightarrow> GeoRow \<Rightarrow> string option \<Rightarrow> string \<Rightarrow> (Names, string) state" where
  "flow_name salt kind g typ name =
     (case kind of
        FlowDevice \<Rightarrow> name_of salt (clientNameKind typ None) name
      | FlowDest \<Rightarrow> State_Monad.return (de_name (fakeDest salt name))
      | FlowRegion \<Rightarrow>
          State_Monad.return (or_else (opt_str (map_of COUNTRY_LABEL (geo_cc g))) (geo_city g)))"

fun fakeFlow :: "string \<Rightarrow> FlowKind \<Rightarrow> CidrMap list \<Rightarrow> RankedFlow \<Rightarrow> (Names, RankedFlow) state"
  and fakeFlows :: "string \<Rightarrow> FlowKind \<Rightarrow> CidrMap list \<Rightarrow> RankedFlow list \<Rightarrow> (Names, RankedFlow list) state"
  and fakeFlowsOpt ::
    "string \<Rightarrow> FlowKind \<Rightarrow> CidrMap list \<Rightarrow> RankedFlow list option \<Rightarrow> (Names, RankedFlow list option) state"
  where
  "fakeFlow salt kind cidrs
     (RankedFlow i name typ dest_ip country region up down bytes devices targets) = do {
     let g = flow_geo salt kind country name;
     let i' = flow_id salt kind g cidrs i;
     name' \<leftarrow> flow_name salt kind g typ name;
     devices' \<leftarrow> fakeFlowsOpt salt FlowDevice cidrs devices;
     targets' \<leftarrow> fakeFlowsOpt salt FlowDest cidrs targets;
     State_Monad.return (RankedFlow i' name' typ
       (if_text (\<lambda>ip. fakeIP salt ip cidrs) dest_ip)
       (if truthy country then Some (geo_cc g) else country)
       (if truthy region then Some (geo_city g) else region)
       up down bytes devices' targets') }"
| "fakeFlows salt kind cidrs [] = State_Monad.return []"
| "fakeFlows salt kind cidrs (f # fs) = do {
     f' \<leftarrow> fakeFlow salt kind cidrs f;
     fs' \<leftarrow> fakeFlows salt kind cidrs fs;
     State_Monad.return (f' # fs') }"
| "fakeFlowsOpt salt kind cidrs None = State_Monad.return None"
| "fakeFlowsOpt salt kind cidrs (Some fs) = do {
     fs' \<leftarrow> fakeFlows salt kind cidrs fs;
     State_Monad.return (Some fs') }"

section \<open>Alarms, devices and snapshots\<close>

definition HIDDEN_MESSAGE :: string where
  "HIDDEN_MESSAGE = ''Alarm details hidden in anonymity mode''"

definition anonymizeAlarm :: "string \<Rightarrow> CidrMap list \<Rightarrow> AlarmSample \<Rightarrow> (Names, AlarmSample) state" where
  "anonymizeAlarm salt cidrs a = do {
     name \<leftarrow> if_text_M (name_of salt KDevice) (al_device_name a);
     State_Monad.return (a\<lparr>al_device_name := name,
       al_device_mac := if_text (fakeMAC salt) (al_device_mac a),
       al_device_ip := if_text (\<lambda>ip. fakeIP salt ip cidrs) (al_device_ip a),
       al_message := if_text (\<lambda>_. HIDDEN_MESSAGE) (al_message a),
       al_timestamp := shift_opt salt (al_timestamp a)\<rparr>) }"

definition anonymizeAlarms ::
  "string \<Rightarrow> AlarmSample list \<Rightarrow> CidrMap list \<Rightarrow> (Names, AlarmSample list) state" where
  "anonymizeAlarms salt alarms cidrs = State_Monad.traverse_list (anonymizeAlarm salt cidrs) alarms"

definition anonymizeDevice :: "string \<Rightarrow> CidrMap list \<Rightarrow> Device \<Rightarrow> (Names, Device) state" where
  "anonymizeDevice salt cidrs d = do {
     let kind = clientNameKind (dev_type d) (dev_os d);
     name \<leftarrow> name_of salt kind (dev_name d);
     hostname \<leftarrow> if_text_M (name_of salt kind) (dev_hostname d);
     vendor \<leftarrow> if_text_M (name_of salt KVendor) (dev_vendor d);
     ssid \<leftarrow> if_text_M (name_of salt KSsid) (dev_ssid d);
     ap_name \<leftarrow> if_text_M (name_of salt KAp) (dev_ap_name d);
     dests \<leftarrow> opt_list_M (fakeFlow salt FlowDest cidrs) (dev_top_dests d);
     State_Monad.return (d\<lparr>dev_mac := fakeMAC salt (dev_mac d), dev_name := name,
       dev_hostname := hostname,
       dev_local_domain := if_text (\<lambda>x. de_domain (fakeDest salt x)) (dev_local_domain d),
       dev_ip := if_text (\<lambda>ip. fakeIP salt ip cidrs) (dev_ip d),
       dev_ipv6 := map_option (map (\<lambda>ip. fakeIP salt ip cidrs)) (dev_ipv6 d),
       dev_vendor := vendor, dev_ssid := ssid,
       dev_ap_mac := if_text (fakeMAC salt) (dev_ap_mac d), dev_ap_name := ap_name,
       dev_last_active_ts := shift_opt salt (dev_last_active_ts d), dev_top_dests := dests\<rparr>) }"

definition anonymizeDevices ::
  "string \<Rightarrow> Device list \<Rightarrow> CidrMap list \<Rightarrow> (Names, Device list) state" where
  "anonymizeDevices salt devs cidrs = State_Monad.traverse_list (anonymizeDevice salt cidrs) devs"

definition anonymizeSnapshot :: "string \<Rightarrow> Snapshot \<Rightarrow> (Names, Snapshot) state" where
  "anonymizeSnapshot salt snap = do {
     let wan = map (\<lambda>(k, v). (k, v\<lparr>wl_name := fakeISP salt (wl_name v)\<rparr>)) (sn_wan snap);
     host \<leftarrow> name_of salt KHost (sn_host snap);
     State_Monad.return (snap\<lparr>sn_ts := shiftTS salt (sn_ts snap), sn_host := host, sn_wan := wan\<rparr>) }"

definition anonymizeLatest :: "string \<Rightarrow> LatestView \<Rightarrow> (Names, LatestView) state" where
  "anonymizeLatest salt view = do {
     snap \<leftarrow> anonymizeSnapshot salt (lv_snapshot view);
     State_Monad.return (view\<lparr>lv_snapshot := snap\<rparr>) }"

definition anonymizeHistory :: "string \<Rightarrow> HistoryPoint list \<Rightarrow> HistoryPoint list" where
  "anonymizeHistory salt points = map (\<lambda>p. p\<lparr>hp_ts := shiftTS salt (hp_ts p)\<rparr>) points"

section \<open>Dashboard\<close>

definition fake_speed_point :: "string \<Rightarrow> SpeedtestPoint \<Rightarrow> SpeedtestPoint" where
  "fake_speed_point salt p = p\<lparr>stp_ts := shiftTS salt (stp_ts p),
     stp_server := if_text (fakeISP salt) (stp_server p),
     stp_location := if_text (fakeISP salt) (stp_location p)\<rparr>"

definition fake_speedtest :: "string \<Rightarrow> SpeedtestWAN \<Rightarrow> SpeedtestWAN" where
  "fake_speedtest salt w = w\<lparr>stw_name := fakeISP salt (stw_name w),
     stw_server := if_text (fakeISP salt) (stw_server w),
     stw_location := if_text (fakeISP salt) (stw_location w),
     stw_points := map_option (map (fake_speed_point salt)) (stw_points w)\<rparr>"

definition fake_dns :: "string \<Rightarrow> CidrMap list \<Rightarrow> DNSHealth \<Rightarrow> DNSHealth" where
  "fake_dns salt cidrs d =
     \<lparr>dh_resolvers = map_option (map (\<lambda>r. r\<lparr>dr_server := rewriteText salt (dr_server r) cidrs,
        dr_wan := if_text (fakeISP salt) (dr_wan r)\<rparr>)) (dh_resolvers d),
      dh_queries = map_option (map (\<lambda>q. q\<lparr>dq_ts := shiftTS salt (dq_ts q)\<rparr>)) (dh_queries d)\<rparr>"

definition anonymizeDashboard :: "string \<Rightarrow> Dashboard \<Rightarrow> CidrMap list \<Rightarrow> (Names, Dashboard) state" where
  "anonymizeDashboard salt dash cidrs = do {
     let t24 = da_transfer_24h dash;
     host \<leftarrow> if_text_M (name_of salt KHost) (da_host dash);
     up \<leftarrow> opt_list_M (fakeFlow salt FlowDevice cidrs) (da_top_upload dash);
     down \<leftarrow> opt_list_M (fakeFlow salt FlowDevice cidrs) (da_top_download dash);
     dup \<leftarrow> opt_list_M (fakeFlow salt FlowDest cidrs) (da_top_dest_upload dash);
     ddown \<leftarrow> opt_list_M (fakeFlow salt FlowDest cidrs) (da_top_dest_download dash);
     regions \<leftarrow> opt_list_M (fakeFlow salt FlowRegion cidrs) (da_top_regions dash);
     State_Monad.return (dash\<lparr>da_ts := shift_opt salt (da_ts dash), da_host := host,
       da_transfer_24h := t24\<lparr>tr_points :=
         map_option (map (\<lambda>p. p\<lparr>bp_ts := shiftTS salt (bp_ts p)\<rparr>)) (tr_points t24)\<rparr>,
       da_monthly_wans :=
         map_option (map (\<lambda>w. w\<lparr>wu_name := fakeISP salt (wu_name w)\<rparr>)) (da_monthly_wans dash),
       da_speedtest := map_option (map (fake_speedtest salt)) (da_speedtest dash),
       da_dns := map_option (fake_dns salt cidrs) (da_dns dash),
       da_top_upload := up, da_top_download := down, da_top_dest_upload := dup,
       da_top_dest_download := ddown, da_top_regions := regions\<rparr>) }"

section \<open>Topology\<close>

definition fakeSwitch :: "string \<Rightarrow> CidrMap list \<Rightarrow> Switch \<Rightarrow> (Names, Switch) state" where
  "fakeSwitch salt cidrs s = do {
     let ap = (sw_kind s = Some ''ap'');
     name \<leftarrow> if_text_M (\<lambda>x. fakeName salt (if ap then KAp else KSwitch) x []
                (if ap then None else Some (switchNamePool s))) (sw_name s);
     State_Monad.return (s\<lparr>sw_mac := fakeMAC salt (sw_mac s), sw_name := name,
       sw_ip := if_text (\<lambda>ip. fakeIP salt ip cidrs) (sw_ip s),
       sw_parent_mac := if_text (fakeMAC salt) (sw_parent_mac s),
       sw_clients := map_option (map (fakeMAC salt)) (sw_clients s),
       sw_ports := map_option (map (\<lambda>p. p\<lparr>sp_clients :=
         map_option (map (fakeMAC salt)) (sp_clients p)\<rparr>)) (sw_ports s)\<rparr>) }"

definition tree_kind :: "string option \<Rightarrow> NameKind" where
  "tree_kind typ = (if typ = Some ''ap'' then KAp else if typ = Some ''box'' then KBox else KSwitch)"

fun fakeTree :: "string \<Rightarrow> CidrMap list \<Rightarrow> TopoNode \<Rightarrow> (Names, TopoNode) state"
  and fakeTrees :: "string \<Rightarrow> CidrMap list \<Rightarrow> TopoNode list \<Rightarrow> (Names, TopoNode list) state"
  where
  "fakeTree salt cidrs (TopoNode mac name ip typ pport cport clients children) = do {
     name' \<leftarrow> if_text_M (name_of salt (tree_kind typ)) name;
     children' \<leftarrow> (case children of
        None \<Rightarrow> State_Monad.return None
      | Some cs \<Rightarrow> do { cs' \<leftarrow> fakeTrees salt cidrs cs; State_Monad.return (Some cs') });
     State_Monad.return (TopoNode (fakeMAC salt mac) name' (if_text (\<lambda>x. fakeIP salt x cidrs) ip) typ
       pport cport (map_option (map (fakeMAC salt)) clients) children') }"
| "fakeTrees salt cidrs [] = State_Monad.return []"
| "fakeTrees salt cidrs (n # ns) = do {
     n' \<leftarrow> fakeTree salt cidrs n;
     ns' \<leftarrow> fakeTrees salt cidrs ns;
     State_Monad.return (n' # ns') }"

definition anonymizeTopo :: "string \<Rightarrow> TopoView \<Rightarrow> CidrMap list \<Rightarrow> (Names, TopoView) state" where
  "anonymizeTopo salt topo cidrs = do {
     host \<leftarrow> if_text_M (name_of salt KHost) (tv_host topo);
     box \<leftarrow> (case tv_box topo of
        None \<Rightarrow> State_Monad.return None
      | Some b \<Rightarrow> do { b' \<leftarrow> anonymizeBox salt b; State_Monad.return (Some b') });
     switches \<leftarrow> opt_list_M (fakeSwitch salt cidrs) (tv_switches topo);
     tree \<leftarrow> opt_list_M (fakeTree salt cidrs) (tv_tree topo);
     State_Monad.return (topo\<lparr>tv_ts := shift_opt salt (tv_ts topo), tv_host := host, tv_box := box,
       tv_switches := switches, tv_tree := tree\<rparr>) }"

section \<open>Wireless\<close>

definition fake_ap :: "string \<Rightarrow> CidrMap list \<Rightarrow> WirelessAP \<Rightarrow> (Names, WirelessAP) state" where
  "fake_ap salt cidrs ap = do {
     name \<leftarrow> if_text_M (name_of salt KAp) (wa_name ap);
     State_Monad.return (ap\<lparr>wa_mac := fakeMAC salt (wa_mac ap), wa_name := name,
       wa_ip := if_text (\<lambda>ip. fakeIP salt ip cidrs) (wa_ip ap),
       wa_uplink := if_text (fakeMAC salt) (wa_uplink ap)\<rparr>) }"

definition fake_wlan :: "string \<Rightarrow> WirelessNetwork \<Rightarrow> (Names, WirelessNetwork) state" where
  "fake_wlan salt n = do {
     name \<leftarrow> name_of salt KSsid (wn_name n);
     ssid \<leftarrow> if_text_M (name_of salt KSsid) (wn_ssid n);
     State_Monad.return (n\<lparr>wn_name := name, wn_ssid := ssid\<rparr>) }"

definition fake_wclient :: "string \<Rightarrow> CidrMap list \<Rightarrow> WirelessClient \<Rightarrow> (Names, WirelessClient) state"
  where
  "fake_wclient salt cidrs c = do {
     let kind = clientNameKind None (wc_os c);
     name \<leftarrow> if_text_M (name_of salt kind) (wc_name c);
     hostname \<leftarrow> if_text_M (name_of salt kind) (wc_hostname c);
     ssid \<leftarrow> if_text_M (name_of salt KSsid) (wc_ssid c);
     ap_name \<leftarrow> if_text_M (name_of salt KAp) (wc_ap_name c);
     State_Monad.return (c\<lparr>wc_mac := fakeMAC salt (wc_mac c), wc_name := name,
       wc_hostname := hostname, wc_ip := if_text (\<lambda>ip. fakeIP salt ip cidrs) (wc_ip c),
       wc_ssid := ssid, wc_ap_mac := if_text (fakeMAC salt) (wc_ap_mac c), wc_ap_name := ap_name\<rparr>) }"

definition anonymizeWireless ::
  "string \<Rightarrow> WirelessView \<Rightarrow> CidrMap list \<Rightarrow> (Names, WirelessView) state" where
  "anonymizeWireless salt wifi cidrs = do {
     let meta = wv_meta wifi;
     site \<leftarrow> if_text_M (name_of salt KGroup) (wm_site meta);
     aps \<leftarrow> State_Monad.traverse_list (fake_ap salt cidrs) (wv_aps wifi);
     nets \<leftarrow> State_Monad.traverse_list (fake_wlan salt) (wv_networks wifi);
     clients \<leftarrow> State_Monad.traverse_list (fake_wclient salt cidrs) (wv_clients wifi);
     State_Monad.return (wifi\<lparr>wv_meta := meta\<lparr>wm_site := site\<rparr>, wv_aps := aps, wv_networks := nets,
       wv_clients := clients\<rparr>) }"

section \<open>Audit and name synchronisation\<close>

definition fakeNameSyncRow :: "string \<Rightarrow> CidrMap list \<Rightarrow> NameSyncRow \<Rightarrow> (Names, NameSyncRow) state" where
  "fakeNameSyncRow salt cidrs r = do {
     fw \<leftarrow> name_of salt KDevice (nsr_firewalla_name r);
     un \<leftarrow> (if nsr_status r = SyncEmpty then State_Monad.return None
        else do {
          u \<leftarrow> fakeName salt KDevice (or_else (opt_str (nsr_unifi_name r)) (nsr_firewalla_name r))
                 ''unifi'' None;
          State_Monad.return (Some u) });
     State_Monad.return (r\<lparr>nsr_mac := fakeMAC salt (nsr_mac r),
       nsr_ip := if_text (\<lambda>ip. fakeIP salt ip cidrs) (nsr_ip r),
       nsr_firewalla_name := fw, nsr_unifi_name := un\<rparr>) }"

text \<open>No row of the audit view but the name rows has an address field.\<close>

definition pending_ap :: "string \<Rightarrow> bool" where
  "pending_ap model \<longleftrightarrow> includesI model ''ap'' \<or> includesI model ''uap'' \<or> includesI model ''wifi''"

definition anonymizeAudit :: "string \<Rightarrow> AuditView \<Rightarrow> CidrMap list \<Rightarrow> (Names, AuditView) state" where
  "anonymizeAudit salt audit cidrs = do {
     names \<leftarrow> State_Monad.traverse_list (fakeNameSyncRow salt cidrs) (snd (au_names audit));
     vlan \<leftarrow> State_Monad.traverse_list (\<lambda>r. do {
        n \<leftarrow> if_text_M (name_of salt KDevice) (var_name r);
        State_Monad.return (r\<lparr>var_mac := fakeMAC salt (var_mac r), var_name := n\<rparr>) })
        (snd (au_vlan audit));
     stp \<leftarrow> State_Monad.traverse_list (\<lambda>r. do {
        n \<leftarrow> if_text_M (name_of salt KSwitch) (sar_name r);
        State_Monad.return (r\<lparr>sar_mac := fakeMAC salt (sar_mac r), sar_name := n\<rparr>) })
        (snd (au_stp audit));
     unknown \<leftarrow> State_Monad.traverse_list (\<lambda>r. do {
        n \<leftarrow> if_text_M (name_of salt KDevice) (uar_name r);
        State_Monad.return (r\<lparr>uar_mac := fakeMAC salt (uar_mac r), uar_name := n\<rparr>) })
        (snd (au_unknown audit));
     offline \<leftarrow> State_Monad.traverse_list (\<lambda>r. do {
        n \<leftarrow> if_text_M (name_of salt (if oar_kind r = OffAp then KAp else KSwitch)) (oar_name r);
        State_Monad.return (r\<lparr>oar_mac := fakeMAC salt (oar_mac r), oar_name := n\<rparr>) })
        (snd (au_offline audit));
     pending \<leftarrow> State_Monad.traverse_list (\<lambda>r. do {
        n \<leftarrow> if_text_M (name_of salt (if pending_ap (opt_str (par_model r)) then KAp else KSwitch))
               (par_name r);
        State_Monad.return (r\<lparr>par_mac := fakeMAC salt (par_mac r), par_name := n\<rparr>) })
        (snd (au_pending audit));
     State_Monad.return \<lparr>au_names = (fst (au_names audit), names),
       au_vlan = (fst (au_vlan audit), vlan), au_stp = (fst (au_stp audit), stp),
       au_unknown = (fst (au_unknown audit), unknown),
       au_offline = (fst (au_offline audit), offline),
       au_pending = (fst (au_pending audit), pending)\<rparr> }"

definition anonymizeNameSync ::
  "string \<Rightarrow> NameSyncRow list \<Rightarrow> CidrMap list \<Rightarrow> (Names, NameSyncRow list) state" where
  "anonymizeNameSync salt rows cidrs = State_Monad.traverse_list (fakeNameSyncRow salt cidrs) rows"

section \<open>Policies, rules and tags\<close>

definition anonymizePolicies :: "string \<Rightarrow> Policy list \<Rightarrow> CidrMap list \<Rightarrow> Policy list" where
  "anonymizePolicies salt ps cidrs =
     map (\<lambda>p. p\<lparr>pol_target := if_text (\<lambda>s. rewriteText salt s cidrs) (pol_target p),
                pol_notes := if_text (\<lambda>s. rewriteText salt s cidrs) (pol_notes p)\<rparr>) ps"

definition fake_rule :: "string \<Rightarrow> CidrMap list \<Rightarrow> FwAppRule \<Rightarrow> FwAppRule" where
  "fake_rule salt cidrs r =
     (let rw = (\<lambda>s. rewriteText salt s cidrs) in
      r\<lparr>fr_target := (if fr_target r = [] then fr_target r else rw (fr_target r)),
        fr_name := if_text rw (fr_name r), fr_notes := if_text rw (fr_notes r),
        fr_scopeLabel := if_text rw (fr_scopeLabel r),
        fr_scope := map_option (map (fakeMAC salt)) (fr_scope r),
        fr_tags := map_option (map rw) (fr_tags r)\<rparr>)"

definition fake_exception :: "string \<Rightarrow> CidrMap list \<Rightarrow> FwAppExceptionRule \<Rightarrow> FwAppExceptionRule" where
  "fake_exception salt cidrs e =
     (let rw = (\<lambda>s. rewriteText salt s cidrs) in
      e\<lparr>fe_target := if_text rw (fe_target e), fe_targetName := if_text rw (fe_targetName e),
        fe_reason := if_text rw (fe_reason e), fe_ifTarget := if_text rw (fe_ifTarget e)\<rparr>)"

definition fake_scope :: "string \<Rightarrow> CidrMap list \<Rightarrow> FwAppScopeChip \<Rightarrow> FwAppScopeChip" where
  "fake_scope salt cidrs s =
     s\<lparr>ch_id :=
        (if ch_kind s = ScopeDevice then fakeMAC salt (ch_id s)
         else if startsWith (ch_id s) ''tag:''
         then ''tag:'' @ rewriteText salt (drop 4 (ch_id s)) cidrs
         else ch_id s),
       ch_label := rewriteText salt (ch_label s) cidrs\<rparr>"

definition anonymizeFwAppRules :: "string \<Rightarrow> FwAppRulesView \<Rightarrow> CidrMap list \<Rightarrow> FwAppRulesView" where
  "anonymizeFwAppRules salt view cidrs =
     view\<lparr>rv_rules := map (fake_rule salt cidrs) (rv_rules view),
          rv_dapRules := Some (map (fake_rule salt cidrs) (opt_list (rv_dapRules view))),
          rv_exceptions := map (fake_exception salt cidrs) (rv_exceptions view),
          rv_scopes := map (fake_scope salt cidrs) (rv_scopes view)\<rparr>"

definition anonymizeTags :: "string \<Rightarrow> Tag list \<Rightarrow> (Names, Tag list) state" where
  "anonymizeTags salt tags = State_Monad.traverse_list (\<lambda>t. do {
     name \<leftarrow> name_of salt (if tag_type t = Some ''user'' then KUser else KGroup) (tag_name t);
     State_Monad.return (t\<lparr>tag_name := name\<rparr>) }) tags"

section \<open>The console, logs, events and modules\<close>

definition anonymizeUnifi :: "string \<Rightarrow> UnifiConsole \<Rightarrow> CidrMap list \<Rightarrow> (Names, UnifiConsole) state" where
  "anonymizeUnifi salt u cidrs = do {
     name \<leftarrow> if_text_M (name_of salt KBox) (uc_name u);
     site \<leftarrow> if_text_M (name_of salt KGroup) (uc_site u);
     State_Monad.return (u\<lparr>uc_name := name, uc_ip := if_text (\<lambda>ip. fakeIP salt ip cidrs) (uc_ip u),
       uc_inform := if_text (\<lambda>s. rewriteText salt s cidrs) (uc_inform u), uc_site := site\<rparr>) }"

record AnonLogLine =
  ll_ts :: ts
  ll_source :: string
  ll_severity :: "string option"
  ll_line :: string

record AnonAgentEvent =
  ae_id :: "int option"
  ae_ts :: ts
  ae_kind :: string
  ae_detail :: "string option"
  ae_from_ver :: "string option"
  ae_to_ver :: "string option"

definition anonymizeLogLines :: "string \<Rightarrow> AnonLogLine list \<Rightarrow> CidrMap list \<Rightarrow> AnonLogLine list" where
  "anonymizeLogLines salt lines cidrs =
     map (\<lambda>l. l\<lparr>ll_ts := shiftTS salt (ll_ts l), ll_line := rewriteText salt (ll_line l) cidrs\<rparr>) lines"

definition anonymizeEnrollCmd :: "string \<Rightarrow> string \<Rightarrow> string" where
  "anonymizeEnrollCmd salt cmd = rewriteText salt cmd []"

definition anonymizeAgentEvents :: "string \<Rightarrow> AnonAgentEvent list \<Rightarrow> AnonAgentEvent list" where
  "anonymizeAgentEvents salt events = map (\<lambda>e. e\<lparr>ae_ts := shiftTS salt (ae_ts e)\<rparr>) events"

definition name_key :: "string \<Rightarrow> bool" where
  "name_key k \<longleftrightarrow> toLowerCase k \<in> {''name'', ''hostname'', ''dns''}"

fun anonymizeControlSnapshot :: "string \<Rightarrow> CidrMap list \<Rightarrow> json \<Rightarrow> (Names, json) state"
  and control_array :: "string \<Rightarrow> CidrMap list \<Rightarrow> json list \<Rightarrow> (Names, json list) state"
  and control_object ::
    "string \<Rightarrow> CidrMap list \<Rightarrow> (string \<times> json) list \<Rightarrow> (Names, (string \<times> json) list) state"
  where
  "anonymizeControlSnapshot salt cidrs JNull = State_Monad.return JNull"
| "anonymizeControlSnapshot salt cidrs (JStr s) = State_Monad.return (JStr (rewriteText salt s cidrs))"
| "anonymizeControlSnapshot salt cidrs (JNum n) = State_Monad.return (JNum n)"
| "anonymizeControlSnapshot salt cidrs (JBool b) = State_Monad.return (JBool b)"
| "anonymizeControlSnapshot salt cidrs (JArr xs) = do {
     ys \<leftarrow> control_array salt cidrs xs; State_Monad.return (JArr ys) }"
| "anonymizeControlSnapshot salt cidrs (JObj kvs) = do {
     out \<leftarrow> control_object salt cidrs kvs; State_Monad.return (JObj out) }"
| "control_array salt cidrs [] = State_Monad.return []"
| "control_array salt cidrs (x # xs) = do {
     y \<leftarrow> anonymizeControlSnapshot salt cidrs x;
     ys \<leftarrow> control_array salt cidrs xs;
     State_Monad.return (y # ys) }"
| "control_object salt cidrs [] = State_Monad.return []"
| "control_object salt cidrs ((k, v) # kvs) = do {
     w \<leftarrow> (case v of
        JStr s \<Rightarrow> if name_key k then do { n \<leftarrow> name_of salt KDevice s; State_Monad.return (JStr n) }
                  else anonymizeControlSnapshot salt cidrs v
      | _ \<Rightarrow> anonymizeControlSnapshot salt cidrs v);
     rest \<leftarrow> control_object salt cidrs kvs;
     State_Monad.return ((k, w) # rest) }"

definition control_snapshot_opt ::
  "string \<Rightarrow> CidrMap list \<Rightarrow> json option \<Rightarrow> (Names, json option) state" where
  "control_snapshot_opt salt cidrs vo =
     (case vo of None \<Rightarrow> State_Monad.return None
      | Some v \<Rightarrow> do { w \<leftarrow> anonymizeControlSnapshot salt cidrs v; State_Monad.return (Some w) })"

definition anonymizeControlEvents ::
  "string \<Rightarrow> ControlEvent list \<Rightarrow> CidrMap list \<Rightarrow> (Names, ControlEvent list) state" where
  "anonymizeControlEvents salt events cidrs = State_Monad.traverse_list (\<lambda>e. do {
     summary \<leftarrow> if_text_M (\<lambda>s. if looksLikeMAC s then State_Monad.return (fakeMAC salt s)
                  else name_of salt KDevice s) (ce_summary e);
     before \<leftarrow> control_snapshot_opt salt cidrs (ce_before e);
     after \<leftarrow> control_snapshot_opt salt cidrs (ce_after e);
     State_Monad.return (e\<lparr>
       ce_ts := (if ce_ts e \<noteq> 0 then ce_ts e + offsetSec salt * 1000 else ce_ts e),
       ce_target := (if ce_target e = [] then ce_target e
         else if looksLikeMAC (ce_target e) then fakeMAC salt (ce_target e)
         else rewriteText salt (ce_target e) cidrs),
       ce_summary := summary,
       ce_error := if_text (\<lambda>s. rewriteText salt s cidrs) (ce_error e),
       ce_before := before, ce_after := after\<rparr>) }) events"

definition anonymizeModules :: "string \<Rightarrow> ModuleInfo list \<Rightarrow> (Names, ModuleInfo list) state" where
  "anonymizeModules salt mods = State_Monad.traverse_list (\<lambda>m. do {
     site \<leftarrow> if_text_M (name_of salt KGroup) (mi_site m);
     State_Monad.return (m\<lparr>mi_site := site\<rparr>) }) mods"

section \<open>Every view keeps the table of names\<close>

lemma named_pool_None [simp]: "named_pool None"
  by (simp add: named_pool_def)

lemma named_pool_switch [simp]: "named_pool (Some (switchNamePool sw))"
  by (simp add: named_pool_def switchNamePool_named)

lemma keeps_if_text:
  "(\<And>s. keeps names_ok names_le (f s)) \<Longrightarrow> keeps names_ok names_le (if_text_M f so)"
  unfolding if_text_M_def by (cases so) auto

lemma keeps_opt_list:
  "(\<And>x. keeps names_ok names_le (f x)) \<Longrightarrow> keeps names_ok names_le (opt_list_M f xo)"
  unfolding opt_list_M_def by (cases xo) (auto intro: nt.keeps_traverse)

lemma keeps_name_of: "keeps names_ok names_le (name_of salt kind original)"
  by (rule keeps_fakeName) simp

lemmas view_intros = nt.keeps_bind nt.keeps_return nt.keeps_if nt.keeps_traverse
  keeps_if_text keeps_opt_list keeps_name_of

lemma keeps_flow_name: "keeps names_ok names_le (flow_name salt kind g t name)"
  unfolding flow_name_def by (cases kind) (simp_all add: view_intros)

lemma keeps_flow:
  "keeps names_ok names_le (fakeFlow salt kind cidrs f)"
  "keeps names_ok names_le (fakeFlows salt kind cidrs fs)"
  "keeps names_ok names_le (fakeFlowsOpt salt kind cidrs fo)"
proof (induction salt kind cidrs f and salt kind cidrs fs and salt kind cidrs fo
    rule: fakeFlow_fakeFlows_fakeFlowsOpt.induct)
  case (1 salt kind cidrs i name ty dest_ip country region up down bytes devices targets)
  then have "keeps names_ok names_le (fakeFlowsOpt salt FlowDevice cidrs devices)"
    "keeps names_ok names_le (fakeFlowsOpt salt FlowDest cidrs targets)" by blast+
  then show ?case
    unfolding fakeFlow.simps Let_def by (intro view_intros keeps_flow_name)
qed (auto intro!: view_intros)

lemma keeps_tree:
  "keeps names_ok names_le (fakeTree salt cidrs n)"
  "keeps names_ok names_le (fakeTrees salt cidrs ns)"
proof (induction salt cidrs n and salt cidrs ns rule: fakeTree_fakeTrees.induct)
  case (1 salt cidrs mac name ip ty pport cport clients children)
  then show ?case
    unfolding fakeTree.simps by (cases children) (auto intro!: view_intros)
qed (auto intro!: view_intros)

lemma keeps_switch: "keeps names_ok names_le (fakeSwitch salt cidrs s)"
  unfolding fakeSwitch_def Let_def by (intro view_intros keeps_fakeName) simp

lemma keeps_box: "keeps names_ok names_le (anonymizeBox salt box)"
  unfolding anonymizeBox_def Let_def by (intro view_intros)

lemma keeps_control:
  "keeps names_ok names_le (anonymizeControlSnapshot salt cidrs v)"
  "keeps names_ok names_le (control_array salt cidrs vs)"
  "keeps names_ok names_le (control_object salt cidrs kvs)"
proof (induction salt cidrs v and salt cidrs vs and salt cidrs kvs
    rule: anonymizeControlSnapshot_control_array_control_object.induct)
  case (10 salt cidrs k v kvs)
  then show ?case
    by (cases v) (auto simp del: anonymizeControlSnapshot.simps intro!: view_intros)
qed (auto intro!: view_intros)

lemma keeps_control_opt: "keeps names_ok names_le (control_snapshot_opt salt cidrs vo)"
  unfolding control_snapshot_opt_def by (cases vo) (auto intro!: view_intros keeps_control)

lemma keeps_vpn:
  "keeps names_ok names_le (vpn_name salt v)" "keeps names_ok names_le (vpn_peer salt p)"
  "keeps names_ok names_le (vpn_profile salt q)"
  unfolding vpn_name_def vpn_peer_def vpn_profile_def by (intro view_intros)+

lemma keeps_devices: "keeps names_ok names_le (anonymizeDevices salt devs cidrs)"
  unfolding anonymizeDevices_def anonymizeDevice_def Let_def by (intro view_intros keeps_flow)

lemma keeps_name_sync: "keeps names_ok names_le (fakeNameSyncRow salt cidrs r)"
  unfolding fakeNameSyncRow_def by (intro view_intros keeps_fakeName) simp

lemma keeps_topo: "keeps names_ok names_le (anonymizeTopo salt topo cidrs)"
  unfolding anonymizeTopo_def
  by (intro view_intros keeps_switch keeps_tree nt.keeps_option keeps_box)


section \<open>Devices\<close>

text \<open>The device with its identifying fields blanked.\<close>

definition device_rest :: "Device \<Rightarrow> Device" where
  "device_rest d = d\<lparr>dev_mac := [], dev_name := [], dev_hostname := None, dev_local_domain := None,
     dev_ip := None, dev_ipv6 := None, dev_vendor := None, dev_ssid := None, dev_ap_mac := None,
     dev_ap_name := None, dev_last_active_ts := None, dev_top_dests := None\<rparr>"

definition device_kind :: "Device \<Rightarrow> NameKind" where
  "device_kind d = clientNameKind (dev_type d) (dev_os d)"

text \<open>A text that is not empty is shown by the name that the table of substitutes has for it.\<close>

definition name_shown :: "Names \<Rightarrow> string \<Rightarrow> NameKind \<Rightarrow> string option \<Rightarrow> string option \<Rightarrow> bool" where
  "name_shown ns salt kind so so' \<longleftrightarrow>
     (if truthy so then so' \<noteq> None \<and> assigned_of ns salt (key_of kind [] (opt_str so)) = so' else so' = so)"

lemma yields_name_shown:
  "yields names_ok names_le (if_text_M (name_of salt kind) so) (\<lambda>so' ns. name_shown ns salt kind so so')"
proof (cases "truthy so")
  case True
  then obtain x where x: "so = Some x" "x \<noteq> []" by (auto simp: truthy_def split: option.splits)
  show ?thesis
    unfolding if_text_M_def x option.case
    by (simp only: x(2) if_False, rule nt.yields_bind [OF yields_fakeName], simp, erule (1) names_le_assigned [rotated],
        rule nt.yields_return) (use x in \<open>simp add: name_shown_def truthy_def opt_str_def\<close>)
next
  case False
  then show ?thesis
    by (cases so) (auto simp: if_text_M_def name_shown_def truthy_def intro: nt.yields_return)
qed

lemma name_shown_mono: "name_shown ns salt kind so so' \<Longrightarrow> names_le ns ns' \<Longrightarrow> name_shown ns' salt kind so so'"
  by (cases so') (auto simp: name_shown_def intro: names_le_assigned)

definition device_shown :: "string \<Rightarrow> CidrMap list \<Rightarrow> Device \<Rightarrow> Device \<Rightarrow> Names \<Rightarrow> bool" where
  "device_shown salt cidrs d d' ns \<longleftrightarrow>
     assigned_of ns salt (key_of (device_kind d) [] (dev_name d)) = Some (dev_name d') \<and>
     name_shown ns salt (device_kind d) (dev_hostname d) (dev_hostname d') \<and>
     name_shown ns salt KVendor (dev_vendor d) (dev_vendor d') \<and>
     name_shown ns salt KSsid (dev_ssid d) (dev_ssid d') \<and>
     name_shown ns salt KAp (dev_ap_name d) (dev_ap_name d') \<and>
     dev_mac d' = fakeMAC salt (dev_mac d) \<and> dev_ap_mac d' = if_text (fakeMAC salt) (dev_ap_mac d) \<and>
     dev_ip d' = if_text (\<lambda>ip. fakeIP salt ip cidrs) (dev_ip d) \<and>
     dev_ipv6 d' = map_option (map (\<lambda>ip. fakeIP salt ip cidrs)) (dev_ipv6 d) \<and>
     dev_local_domain d' = if_text (\<lambda>x. de_domain (fakeDest salt x)) (dev_local_domain d) \<and>
     dev_last_active_ts d' = shift_opt salt (dev_last_active_ts d) \<and> device_rest d' = device_rest d"

lemma yields_device:
  "yields names_ok names_le (anonymizeDevice salt cidrs d) (device_shown salt cidrs d)"
  unfolding anonymizeDevice_def Let_def
  by (rule nt.yields_bind [OF yields_fakeName], simp, erule (1) names_le_assigned [rotated],
      (rule nt.yields_bind [OF yields_name_shown], erule (1) name_shown_mono)+,
      rule nt.yields_then, intro view_intros keeps_flow, rule nt.yields_return)
    (simp add: device_shown_def device_kind_def device_rest_def)

lemma device_shown_mono: "device_shown salt cidrs d d' ns \<Longrightarrow> names_le ns ns' \<Longrightarrow> device_shown salt cidrs d d' ns'"
  by (auto simp: device_shown_def intro: names_le_assigned name_shown_mono)

lemma yields_devices:
  "yields names_ok names_le (anonymizeDevices salt devs cidrs)
     (\<lambda>out ns. list_all2 (\<lambda>d d'. device_shown salt cidrs d d' ns) devs out)"
  unfolding anonymizeDevices_def
  by (rule nt.yields_traverse) (auto intro: yields_device device_shown_mono)

text \<open>The substitute of an address in either notation, and what a field that may be missing shows.\<close>

definition ip_hidden :: "CidrMap list \<Rightarrow> string \<Rightarrow> string \<Rightarrow> bool" where
  "ip_hidden cidrs t r \<longleftrightarrow> (if CHR '':'' \<in> set (trim t) then v6_hidden r else v4_hidden cidrs t r)"

definition field_hidden :: "(string \<Rightarrow> string \<Rightarrow> bool) \<Rightarrow> string option \<Rightarrow> string option \<Rightarrow> bool" where
  "field_hidden P so so' \<longleftrightarrow> (if truthy so then so' \<noteq> None \<and> P (opt_str so) (opt_str so') else so' = so)"

definition mac_field :: "string \<Rightarrow> string \<Rightarrow> bool" where
  "mac_field t r \<longleftrightarrow> (if parseMAC t = None then r = t else mac_hidden r)"

lemma fakeIP_hidden:
  assumes "\<forall>m \<in> set cidrs. cm_fake m = fakeCIDR salt (cm_orig m)"
  shows "ip_hidden cidrs t (fakeIP salt t cidrs)"
  using v4_repl_any [OF assms, of t] by (auto simp: ip_hidden_def v6_repl_any)

lemma fakeMAC_field: "mac_field t (fakeMAC salt t)"
  using fakeMAC_local [where mac = t and salt = salt] by (auto simp: mac_field_def mac_hidden_def)

lemma if_text_hidden: "(\<And>t. P t (f t)) \<Longrightarrow> field_hidden P so (if_text f so)"
  by (auto simp: field_hidden_def if_text_def truthy_def opt_str_def split: option.splits)

text \<open>C7: the list of devices is shown device by device with every identifying field replaced and the others kept. The
  hardware addresses of the device and of its access point become locally administered ones, its IP addresses become
  addresses of reserved ranges or of the substitute of their prefix, its local domain one of the invented destinations,
  its time of last activity is moved; name, host name, vendor, wireless network and access point are shown by the name
  the table of substitutes has for them in their kind, and two devices of a kind have the same shown name exactly when
  they have the same name. Fields that are missing or empty stay so. The list of destinations of a device is not part of this.\<close>

theorem devices_hidden:
  assumes "names_ok ns" "run_state (anonymizeDevices salt devs cidrs) ns = (out, ns')"
    "\<forall>m \<in> set cidrs. cm_fake m = fakeCIDR salt (cm_orig m)"
    "i < length devs" "j < length devs" "device_kind (devs ! i) = device_kind (devs ! j)"
  shows "length out = length devs \<and> device_rest (out ! i) = device_rest (devs ! i) \<and>
    mac_field (dev_mac (devs ! i)) (dev_mac (out ! i)) \<and> field_hidden mac_field (dev_ap_mac (devs ! i)) (dev_ap_mac (out ! i)) \<and>
    field_hidden (ip_hidden cidrs) (dev_ip (devs ! i)) (dev_ip (out ! i)) \<and>
    rel_option (list_all2 (ip_hidden cidrs)) (dev_ipv6 (devs ! i)) (dev_ipv6 (out ! i)) \<and>
    field_hidden (\<lambda>_ r. r \<in> de_domain ` set DEST_POOL) (dev_local_domain (devs ! i)) (dev_local_domain (out ! i)) \<and>
    dev_last_active_ts (out ! i) = shift_opt salt (dev_last_active_ts (devs ! i)) \<and>
    assigned_of ns' salt (key_of (device_kind (devs ! i)) [] (dev_name (devs ! i))) = Some (dev_name (out ! i)) \<and>
    name_shown ns' salt (device_kind (devs ! i)) (dev_hostname (devs ! i)) (dev_hostname (out ! i)) \<and>
    name_shown ns' salt KVendor (dev_vendor (devs ! i)) (dev_vendor (out ! i)) \<and>
    name_shown ns' salt KSsid (dev_ssid (devs ! i)) (dev_ssid (out ! i)) \<and>
    name_shown ns' salt KAp (dev_ap_name (devs ! i)) (dev_ap_name (out ! i)) \<and>
    (dev_name (out ! i) = dev_name (out ! j) \<longleftrightarrow> dev_name (devs ! i) = dev_name (devs ! j))"
proof -
  have ok: "names_ok ns'" and all: "list_all2 (\<lambda>d d'. device_shown salt cidrs d d' ns') devs out"
    using nt.yieldsD [OF yields_devices assms(1,2)] by auto
  have i: "device_shown salt cidrs (devs ! i) (out ! i) ns'" and j: "device_shown salt cidrs (devs ! j) (out ! j) ns'"
    using all assms(4,5) by (auto dest: list_all2_nthD)
  then have same: "dev_name (out ! i) = dev_name (out ! j) \<longleftrightarrow> dev_name (devs ! i) = dev_name (devs ! j)"
    unfolding device_shown_def assms(6) by (elim conjE) (rule assigned_iff [OF ok])
  have "rel_option (list_all2 (ip_hidden cidrs)) ips (map_option (map (\<lambda>ip. fakeIP salt ip cidrs)) ips)" for ips
    using fakeIP_hidden [OF assms(3)] by (cases ips) (auto simp: list_all2_map2 list_all2_same)
  with i same list_all2_lengthD [OF all] show ?thesis
    by (auto simp: device_shown_def fakeMAC_field if_text_hidden fakeIP_hidden [OF assms(3)] fakeDest_in)
qed

lemma names_ok_empty: "names_ok Map.empty"
  by (simp add: names_ok_def)

theorem devices_hidden_witness:
  "let devs = [plain_device ''02:00:00:00:00:01'' ''tv'', plain_device ''02:00:00:00:00:02'' ''pc''];
       out = fst (run_state (anonymizeDevices ''k'' devs []) Map.empty) in
   length out = 2 \<and> dev_name (out ! 0) \<noteq> dev_name (out ! 1)"
proof -
  let ?devs = "[plain_device ''02:00:00:00:00:01'' ''tv'', plain_device ''02:00:00:00:00:02'' ''pc'']"
  obtain out ns' where r: "run_state (anonymizeDevices ''k'' ?devs []) Map.empty = (out, ns')" by force
  have "device_kind (plain_device m n) = device_kind (plain_device m' n')" "dev_name (plain_device m n) = n"
    for m n m' n' by (simp_all add: device_kind_def plain_device_def)
  then have "length out = 2 \<and> dev_name (out ! 0) \<noteq> dev_name (out ! 1)"
    using devices_hidden [OF names_ok_empty r, of 0 1] by simp
  with r show ?thesis by simp
qed

section \<open>Networks\<close>

lemma lan_table: "\<forall>m \<in> set (lanCidrsFromNetwork salt ifaces). cm_fake m = fakeCIDR salt (cm_orig m)"
  by (auto simp: lanCidrsFromNetwork_def Let_def split: if_splits)

lemma lan_member:
  "m \<in> set (lanCidrsFromNetwork salt ifaces) \<longleftrightarrow>
     (\<exists>n \<in> set ifaces. iface_prefix n \<noteq> [] \<and> CHR '':'' \<notin> set (iface_prefix n) \<and>
        m = \<lparr>cm_orig = iface_prefix n, cm_fake = fakeCIDR salt (iface_prefix n)\<rparr>)"
  by (auto simp: lanCidrsFromNetwork_def Let_def)

lemma find_lan:
  assumes "n \<in> set ifaces" "iface_prefix n \<noteq> []" "CHR '':'' \<notin> set (iface_prefix n)"
  shows "map_option cm_fake (find (\<lambda>c. cm_orig c = iface_prefix n) (lanCidrsFromNetwork salt ifaces))
    = Some (fakeCIDR salt (iface_prefix n))"
proof (cases "find (\<lambda>c. cm_orig c = iface_prefix n) (lanCidrsFromNetwork salt ifaces)")
  case None
  have "\<lparr>cm_orig = iface_prefix n, cm_fake = fakeCIDR salt (iface_prefix n)\<rparr>
      \<in> set (lanCidrsFromNetwork salt ifaces)"
    using assms by (auto simp: lan_member)
  with None show ?thesis by (auto simp: find_None_iff)
next
  case (Some m)
  then have m: "m \<in> set (lanCidrsFromNetwork salt ifaces)" "cm_orig m = iface_prefix n"
    by (auto simp: find_Some_iff)
  from bspec [OF lan_table m(1)] m(2) Some show ?thesis by simp
qed

lemma fakeIP_in_fakeCIDR:
  assumes "parseV4 ip = Some a" "\<forall>m \<in> set cidrs. cm_fake m = fakeCIDR salt (cm_orig m)"
    "m \<in> set cidrs" "ipInCIDR (trim ip) (cm_orig m)"
    "\<forall>m' \<in> set cidrs. ipInCIDR (trim ip) (cm_orig m') \<longrightarrow> cm_orig m' = cm_orig m"
  shows "ipInCIDR (fakeIP salt ip cidrs) (fakeCIDR salt (cm_orig m))"
proof -
  from fakeIP_moved [OF assms(1,2)] assms(3,4) obtain m' orig fake b where
    m': "m' \<in> set cidrs" "ipInCIDR (trim ip) (cm_orig m')" and
    f: "parseCIDR (cm_orig m') = Some orig" "parseCIDR (cm_fake m') = Some fake" "cd_plen fake = cd_plen orig"
      "parseV4 (fakeIP salt ip cidrs) = Some b" "b AND v4Mask (cd_plen orig) = cd_net fake"
    by blast
  have "cm_fake m' = fakeCIDR salt (cm_orig m)" using assms(2,5) m' by metis
  with f show ?thesis by (simp add: ipInCIDR_def)
qed

text \<open>C6: an interface whose address lies in its own subnet is shown with an address that lies in
  the subnet it is shown with, provided that no interface of another subnet holds the address.\<close>

theorem network_address_in_subnet:
  assumes "n \<in> set ifaces" "ni_subnet n = Some c" "ni_ip n = Some ip" "CHR '':'' \<notin> set c"
    and own: "ipInCIDR (trim ip) c"
    and others: "\<forall>n' \<in> set ifaces. ipInCIDR (trim ip) (iface_prefix n') \<longrightarrow> iface_prefix n' = c"
    and run: "run_state (anonymizeIface salt (lanCidrsFromNetwork salt ifaces) n) ns = (shown, ns')"
  shows "\<exists>ip' c'. ni_ip shown = Some ip' \<and> ni_subnet shown = Some c' \<and> ipInCIDR ip' c'"
proof -
  let ?lan = "lanCidrsFromNetwork salt ifaces"
  from own obtain a where a: "parseV4 ip = Some a" by (auto simp: ipInCIDR_def split: option.splits)
  have "parseCIDR [] = None" "parseV4 (trim []) = None" by code_simp+
  with own have "c \<noteq> []" "ip \<noteq> []" by (auto simp: ipInCIDR_def split: option.splits)
  then have pre: "iface_prefix n = c" using assms(2) by (simp add: iface_prefix_def or_else_def opt_str_def)
  let ?m = "\<lparr>cm_orig = c, cm_fake = fakeCIDR salt c\<rparr>"
  have m: "?m \<in> set ?lan"
    using assms(1,4) pre \<open>c \<noteq> []\<close> unfolding lan_member by blast
  have one: "\<forall>m' \<in> set ?lan. ipInCIDR (trim ip) (cm_orig m') \<longrightarrow> cm_orig m' = cm_orig ?m"
  proof
    fix m'
    assume "m' \<in> set ?lan"
    then obtain n' where "n' \<in> set ifaces" "cm_orig m' = iface_prefix n'"
      unfolding lan_member by auto
    with others show "ipInCIDR (trim ip) (cm_orig m') \<longrightarrow> cm_orig m' = cm_orig ?m" by simp
  qed
  have "ipInCIDR (fakeIP salt ip ?lan) (fakeCIDR salt c)"
    using fakeIP_in_fakeCIDR [OF a lan_table m _ one] own by simp
  moreover have "ni_ip shown = Some (fakeIP salt ip ?lan)" "ni_subnet shown = Some (fakeCIDR salt c)"
    using run find_lan [OF assms(1), of salt] pre \<open>c \<noteq> []\<close> \<open>ip \<noteq> []\<close> assms(3,4)
    by (auto simp: anonymizeIface_def Let_def if_text_def case_prod_beta)
  ultimately show ?thesis by blast
qed

theorem network_address_in_subnet_witness:
  "let ifaces = [plain_iface ''br0'' ''192.168.1.1'' ''192.168.1.0/24'',
                 plain_iface ''br1'' ''192.168.2.1'' ''192.168.2.0/24''];
       shown = fst (run_state (anonymizeIface ''k'' (lanCidrsFromNetwork ''k'' ifaces) (ifaces ! 1)) Map.empty) in
   \<exists>ip' c'. ni_ip shown = Some ip' \<and> ni_subnet shown = Some c' \<and> ipInCIDR ip' c'"
proof -
  let ?a = "plain_iface ''br0'' ''192.168.1.1'' ''192.168.1.0/24''"
  let ?b = "plain_iface ''br1'' ''192.168.2.1'' ''192.168.2.0/24''"
  obtain shown ns' where r:
    "run_state (anonymizeIface ''k'' (lanCidrsFromNetwork ''k'' [?a, ?b]) ?b) Map.empty = (shown, ns')"
    by force
  have pre: "iface_prefix ?a = ''192.168.1.0/24''" "iface_prefix ?b = ''192.168.2.0/24''"
    by (simp_all add: iface_prefix_def plain_iface_def or_else_def opt_str_def)
  have "ipInCIDR (trim ''192.168.2.1'') ''192.168.2.0/24''"
    "\<not> ipInCIDR (trim ''192.168.2.1'') ''192.168.1.0/24''" by code_simp+
  then have "\<exists>ip' c'. ni_ip shown = Some ip' \<and> ni_subnet shown = Some c' \<and> ipInCIDR ip' c'"
    by (intro network_address_in_subnet [OF _ _ _ _ _ _ r]) (auto simp: pre, simp_all add: plain_iface_def)
  with r show ?thesis by simp
qed

section \<open>Snapshots of controls\<close>

text \<open>A document with its texts blanked.\<close>

fun json_shape :: "json \<Rightarrow> json"
  where
  "json_shape (JStr s) = JStr []"
| "json_shape (JArr xs) = JArr (map json_shape xs)"
| "json_shape (JObj kvs) = JObj (map (\<lambda>kv. (fst kv, json_shape (snd kv))) kvs)"
| "json_shape JNull = JNull"
| "json_shape (JNum n) = JNum n"
| "json_shape (JBool b) = JBool b"

lemma control_shape:
  "json_shape (fst (run_state (anonymizeControlSnapshot salt cidrs v) ns)) = json_shape v"
  "map json_shape (fst (run_state (control_array salt cidrs vs) ns)) = map json_shape vs"
  "map (\<lambda>kv. (fst kv, json_shape (snd kv))) (fst (run_state (control_object salt cidrs kvs) ns)) =
     map (\<lambda>kv. (fst kv, json_shape (snd kv))) kvs"
proof (induction salt cidrs v and salt cidrs vs and salt cidrs kvs arbitrary: ns and ns and ns
    rule: anonymizeControlSnapshot_control_array_control_object.induct)
  case (10 salt cidrs k v kvs)
  then show ?case
    by (cases v) (auto simp: case_prod_beta simp del: anonymizeControlSnapshot.simps split: if_splits)
qed (auto simp: case_prod_beta)

text \<open>the snapshot of a control before and after a change keeps its structure: the same keys in
  the same order, the same numbers, flags and nulls; only texts are replaced.\<close>

theorem control_snapshot_shape:
  "json_shape (fst (run_state (anonymizeControlSnapshot salt cidrs v) ns)) = json_shape v"
  by (rule control_shape)

end
