(* ===== verification/SwitchPort.thy ===== *)
theory SwitchPort
  imports UiTypes
begin

text \<open>
  The index from a device to the switch port it hangs on (\<open>ui/src/lib/switch-port.ts\<close>). Several
  switches may claim a device; the index keeps the deepest one, then the better source, then a
  concrete port, then a port that is no uplink, then the first claim. The order of claims is the
  interface \<open>claim_order\<close>; the container keeps for each key a best claim, whatever the order is.
\<close>

section \<open>Locations\<close>

record PortLoc =
  pl_switchMac :: mac
  pl_switchName :: string
  pl_portId :: string
  pl_uplink :: bool
  pl_clients :: "mac list"
  pl_switchClients :: "mac list"
  pl_label :: string

record Candidate = PortLoc +
  cand_depth :: nat
  cand_sourceRank :: nat

text \<open>The separator is the middle dot U+00B7 between two spaces.\<close>

definition MIDDOT :: string where
  "MIDDOT = '' '' @ [CHR 0xB7] @ '' ''"

definition portLabel :: "string \<Rightarrow> string \<Rightarrow> bool \<Rightarrow> string" where
  "portLabel swName portId uplink =
     (if uplink then swName @ MIDDOT @ ''Uplink'' else swName @ MIDDOT @ portId)"

section \<open>Depth in the tree of switches\<close>

text \<open>The loop from \<open>cur\<close> with the addresses seen so far and the count.\<close>

function depth_from :: "(string, Switch) jsmap \<Rightarrow> string list \<Rightarrow> string \<Rightarrow> nat \<Rightarrow> nat" where
  "depth_from byMac seen cur d =
     (if cur = [] \<or> cur \<in> set seen then d
      else case map_of byMac cur of
        None \<Rightarrow> d
      | Some sw \<Rightarrow>
          (if \<not> truthy (sw_parent_mac sw) then d
           else depth_from byMac (cur # seen) (toUpperCase (opt_str (sw_parent_mac sw))) (d + 1)))"
  by pat_completeness auto
termination
proof (relation "measure (\<lambda>(byMac, seen, cur, d). card (fst ` set byMac - set seen))")
  fix byMac :: "(string, Switch) jsmap" and seen cur and d :: nat and sw
  assume cur: "\<not> (cur = [] \<or> cur \<in> set seen)" and "map_of byMac cur = Some sw"
  then have "cur \<in> fst ` set byMac - set seen"
    by (auto dest!: map_of_SomeD intro: rev_image_eqI)
  then have "fst ` set byMac - set (cur # seen) \<subset> fst ` set byMac - set seen" by auto
  then show "((byMac, cur # seen, toUpperCase (opt_str (sw_parent_mac sw)), d + 1), byMac, seen, cur, d)
      \<in> measure (\<lambda>(byMac, seen, cur, d). card (fst ` set byMac - set seen))"
    by (simp add: psubset_card_mono)
qed simp

declare depth_from.simps [simp del]

definition parentDepth :: "(string, Switch) jsmap \<Rightarrow> string \<Rightarrow> nat" where
  "parentDepth byMac m = depth_from byMac [] (toUpperCase m) 0"

definition sourceRank :: "Switch \<Rightarrow> nat" where
  "sourceRank sw =
     (if sw_source sw = Some ''tplink'' then 2 else if sw_source sw = Some ''unifi'' then 1 else 0)"

definition better :: "Candidate \<Rightarrow> Candidate \<Rightarrow> bool" where
  "better a b =
     (if cand_depth a \<noteq> cand_depth b then cand_depth a > cand_depth b
      else if cand_sourceRank a \<noteq> cand_sourceRank b then cand_sourceRank a > cand_sourceRank b
      else if (pl_portId a \<noteq> []) \<noteq> (pl_portId b \<noteq> []) then pl_portId a \<noteq> []
      else if pl_uplink a \<noteq> pl_uplink b then \<not> pl_uplink a \<and> pl_uplink b
      else False)"

section \<open>The index\<close>

text \<open>One claim, for any order of claims.\<close>

definition offer :: "('c \<Rightarrow> 'c \<Rightarrow> bool) \<Rightarrow> string \<times> 'c \<Rightarrow> (string, 'c) jsmap \<Rightarrow> (string, 'c) jsmap" where
  "offer gt kc best =
     (let key = toUpperCase (fst kc); cand = snd kc in
      if key = [] then best
      else case map_of best key of
        None \<Rightarrow> AList.update key cand best
      | Some prev \<Rightarrow> if gt cand prev then AList.update key cand best else best)"

definition consider_claim ::
  "(string, Candidate) jsmap \<Rightarrow> mac \<Rightarrow> Candidate \<Rightarrow> (string, Candidate) jsmap" where
  "consider_claim best m cand = offer better (m, cand) best"

definition is_uplink :: "Switch \<Rightarrow> SwitchPort \<Rightarrow> bool" where
  "is_uplink sw p \<longleftrightarrow> sp_uplink p = Some True \<or> sw_uplink_port sw = Some (sp_id p)"

definition switch_name :: "Switch \<Rightarrow> string" where
  "switch_name sw = or_else (opt_trim (sw_name sw)) (sw_mac sw)"

definition port_claim :: "(string, Switch) jsmap \<Rightarrow> Switch \<Rightarrow> SwitchPort \<Rightarrow> Candidate" where
  "port_claim byMac sw p =
     \<lparr>pl_switchMac = sw_mac sw, pl_switchName = switch_name sw, pl_portId = sp_id p,
      pl_uplink = is_uplink sw p, pl_clients = map toUpperCase (opt_list (sp_clients p)),
      pl_switchClients = map toUpperCase (opt_list (sw_clients sw)),
      pl_label = portLabel (switch_name sw) (sp_id p) (is_uplink sw p),
      cand_depth = parentDepth byMac (sw_mac sw), cand_sourceRank = sourceRank sw\<rparr>"

definition node_claim :: "(string, Switch) jsmap \<Rightarrow> Switch \<Rightarrow> Candidate" where
  "node_claim byMac sw =
     \<lparr>pl_switchMac = sw_mac sw, pl_switchName = switch_name sw, pl_portId = [], pl_uplink = False,
      pl_clients = map toUpperCase (opt_list (sw_clients sw)),
      pl_switchClients = map toUpperCase (opt_list (sw_clients sw)), pl_label = switch_name sw,
      cand_depth = parentDepth byMac (sw_mac sw), cand_sourceRank = sourceRank sw\<rparr>"

definition index_switch ::
  "(string, Switch) jsmap \<Rightarrow> Switch \<Rightarrow> (string, Candidate) jsmap \<Rightarrow> (string, Candidate) jsmap" where
  "index_switch byMac sw best =
     (let best1 = fold (\<lambda>p best. let loc = port_claim byMac sw p in
            fold (\<lambda>m best. consider_claim best m loc) (pl_clients loc) best) (opt_list (sw_ports sw)) best;
          loc = node_claim byMac sw
      in if pl_switchClients loc \<noteq> []
         then fold (\<lambda>m best. consider_claim best m loc) (pl_switchClients loc) best1
         else best1)"

definition switches_by_mac :: "Switch list \<Rightarrow> (string, Switch) jsmap" where
  "switches_by_mac switches = fold (\<lambda>sw m. AList.update (toUpperCase (sw_mac sw)) sw m) switches []"

definition indexDevicePorts :: "Switch list \<Rightarrow> (string, PortLoc) jsmap" where
  "indexDevicePorts switches =
     (let byMac = switches_by_mac switches;
          best = fold (index_switch byMac) switches []
      in fold (\<lambda>(m, c) out. AList.update m (PortLoc.truncate c) out) best [])"

section \<open>Filters by address\<close>

text \<open>The size of \<open>new Set(xs)\<close> is the number of distinct elements.\<close>

definition sameMacSet :: "mac list \<Rightarrow> mac list \<Rightarrow> bool" where
  "sameMacSet a b =
     (let have_macs = map toUpperCase a in
      length a = length b \<and> length (remdups have_macs) = length a \<and>
      list_all (\<lambda>m. toUpperCase m \<in> set have_macs) b)"

fun describe_ports :: "mac list \<Rightarrow> Switch \<Rightarrow> SwitchPort list \<Rightarrow> string option" where
  "describe_ports macs sw [] = None"
| "describe_ports macs sw (p # ps) =
     (if sameMacSet macs (opt_list (sp_clients p))
      then Some (portLabel (switch_name sw) (sp_id p) (is_uplink sw p))
      else describe_ports macs sw ps)"

fun describe_switches :: "mac list \<Rightarrow> Switch list \<Rightarrow> string option" where
  "describe_switches macs [] = None"
| "describe_switches macs (sw # sws) =
     (if sameMacSet macs (opt_list (sw_clients sw)) then Some (switch_name sw)
      else case describe_ports macs sw (opt_list (sw_ports sw)) of
        Some l \<Rightarrow> Some l
      | None \<Rightarrow> describe_switches macs sws)"

definition describeMacFilter :: "mac list \<Rightarrow> Switch list \<Rightarrow> string" where
  "describeMacFilter macs switches =
     (if length macs = 0 then []
      else case describe_switches macs switches of
        Some l \<Rightarrow> l
      | None \<Rightarrow> dec (length macs) @ '' on switch'')"

definition isWholeSwitchFilter :: "mac list \<Rightarrow> Switch list \<Rightarrow> bool" where
  "isWholeSwitchFilter macs switches \<longleftrightarrow>
     list_ex (\<lambda>sw. sameMacSet macs (opt_list (sw_clients sw))) switches"

section \<open>The interface of an order of claims\<close>

text \<open>The claims for a device.\<close>

definition claims_for :: "string \<Rightarrow> (string \<times> 'c) list \<Rightarrow> (string \<times> 'c) list" where
  "claims_for k claims = filter (\<lambda>mc. k \<noteq> [] \<and> toUpperCase (fst mc) = k) claims"

lemma claims_for_snoc:
  "claims_for k (claims @ [mc]) =
     claims_for k claims @ (if k \<noteq> [] \<and> toUpperCase (fst mc) = k then [mc] else [])"
  by (simp add: claims_for_def)

locale claim_order =
  fixes gt :: "'c \<Rightarrow> 'c \<Rightarrow> bool"
  assumes gt_irrefl: "\<not> gt a a"
    and gt_trans: "gt a b \<Longrightarrow> gt b c \<Longrightarrow> gt a c"
begin

text \<open>What the container holds for a key after a list of claims: one of them that none beats.\<close>

definition best_for :: "(string \<times> 'c) list \<Rightarrow> 'c option \<Rightarrow> bool" where
  "best_for mine c \<longleftrightarrow>
     (case c of
        None \<Rightarrow> mine = []
      | Some c \<Rightarrow> (\<exists>m. (m, c) \<in> set mine) \<and> list_all (\<lambda>mc. \<not> gt (snd mc) c) mine)"

definition best_of :: "(string \<times> 'c) list \<Rightarrow> (string, 'c) jsmap \<Rightarrow> bool" where
  "best_of claims best \<longleftrightarrow> (\<forall>k. best_for (claims_for k claims) (map_of best k))"

lemma best_for_snoc:
  assumes "best_for mine old"
  shows "best_for (mine @ [mc])
    (Some (case old of None \<Rightarrow> snd mc | Some c \<Rightarrow> if gt (snd mc) c then snd mc else c))"
proof (cases old)
  case None
  with assms show ?thesis
    by (cases mc) (simp add: best_for_def gt_irrefl)
next
  case (Some c)
  with assms have c: "\<exists>m. (m, c) \<in> set mine" "\<forall>mc' \<in> set mine. \<not> gt (snd mc') c"
    by (auto simp: best_for_def list_all_iff)
  moreover have "\<not> gt (snd mc') (snd mc)" if "gt (snd mc) c" "mc' \<in> set mine" for mc'
    using c(2) that gt_trans by blast
  ultimately show ?thesis
    using Some by (cases mc) (auto simp: best_for_def list_all_iff gt_irrefl)
qed

lemma best_of_offer:
  assumes "best_of claims best"
  shows "best_of (claims @ [mc]) (offer gt mc best)"
  unfolding best_of_def
proof
  fix k
  have old: "best_for (claims_for k claims) (map_of best k)"
    using assms by (simp add: best_of_def)
  show "best_for (claims_for k (claims @ [mc])) (map_of (offer gt mc best) k)"
  proof (cases "k \<noteq> [] \<and> toUpperCase (fst mc) = k")
    case True
    then have "map_of (offer gt mc best) k =
        Some (case map_of best k of None \<Rightarrow> snd mc | Some c \<Rightarrow> if gt (snd mc) c then snd mc else c)"
      by (auto simp: offer_def Let_def js_map split: option.splits)
    with best_for_snoc [OF old, of mc] True show ?thesis by (simp add: claims_for_snoc)
  next
    case False
    then have "map_of (offer gt mc best) k = map_of best k"
      by (auto simp: offer_def Let_def js_map split: option.splits)
    with old False show ?thesis by (simp only: claims_for_snoc if_False append_Nil2)
  qed
qed

lemma best_of_fold: "best_of claims best \<Longrightarrow> best_of (claims @ rest) (fold (offer gt) rest best)"
proof (induction rest arbitrary: claims best)
  case (Cons kc rest)
  from Cons.IH [OF best_of_offer [OF Cons.prems, of kc]] show ?case by simp
qed simp

lemma best_of_all: "best_of claims (fold (offer gt) claims [])"
  using best_of_fold [of "[]" "[]" claims] by (simp add: best_of_def best_for_def claims_for_def)

end

text \<open>The order of the code is such an order.\<close>

interpretation claims: claim_order better
  by unfold_locales (auto simp: better_def split: if_splits)

section \<open>The index keeps a best claim\<close>

text \<open>The claims of a list of switches, in the order in which the code considers them.\<close>

definition switch_claims :: "(string, Switch) jsmap \<Rightarrow> Switch \<Rightarrow> (mac \<times> Candidate) list" where
  "switch_claims byMac sw =
     concat (map (\<lambda>p. map (\<lambda>m. (m, port_claim byMac sw p)) (map toUpperCase (opt_list (sp_clients p))))
       (opt_list (sw_ports sw))) @
     map (\<lambda>m. (m, node_claim byMac sw)) (map toUpperCase (opt_list (sw_clients sw)))"

definition all_claims :: "Switch list \<Rightarrow> (mac \<times> Candidate) list" where
  "all_claims switches = concat (map (switch_claims (switches_by_mac switches)) switches)"

lemma fold_consider:
  "fold (\<lambda>m best. consider_claim best m c) ms best = fold (offer better) (map (\<lambda>m. (m, c)) ms) best"
  by (induction ms arbitrary: best) (simp_all add: consider_claim_def)

lemma fold_concat_map: "fold f (concat (map g xs)) s = fold (\<lambda>x. fold f (g x)) xs s"
  by (induction xs arbitrary: s) simp_all

lemma index_switch_claims: "index_switch byMac sw best = fold (offer better) (switch_claims byMac sw) best"
proof -
  have "pl_clients (port_claim byMac sw p) = map toUpperCase (opt_list (sp_clients p))" for p
    by (simp add: port_claim_def)
  then show ?thesis
    by (simp add: index_switch_def switch_claims_def Let_def fold_consider fold_concat_map node_claim_def
        comp_def)
qed

lemma index_claims:
  "fold (index_switch (switches_by_mac switches)) switches [] = fold (offer better) (all_claims switches) []"
  by (simp add: all_claims_def fold_concat_map index_switch_claims [abs_def])

lemma distinct_offer:
  "distinct (map fst best) \<Longrightarrow> distinct (map fst (offer gt kc best))"
  by (auto simp: offer_def Let_def distinct_update split: option.splits)

lemma distinct_fold_offer: "distinct (map fst best) \<Longrightarrow> distinct (map fst (fold (offer gt) cs best))"
  by (induction cs arbitrary: best) (auto simp: distinct_offer)

lemma copy_map:
  assumes "distinct (map fst xs)"
  shows "map_of (fold (\<lambda>(m, c) out. AList.update m (f c) out) xs []) k = map_option f (map_of xs k)"
proof -
  have "map_of (fold (\<lambda>(m, c) out. AList.update m (f c) out) xs out) k =
      (case map_of xs k of Some c \<Rightarrow> Some (f c) | None \<Rightarrow> map_of out k)" for out
    using assms
  proof (induction xs arbitrary: out)
    case (Cons x xs)
    obtain m c where x: "x = (m, c)" by force
    from Cons have "map_of (fold (\<lambda>(m, c) out. AList.update m (f c) out) xs (AList.update m (f c) out)) k =
        (case map_of xs k of Some c \<Rightarrow> Some (f c) | None \<Rightarrow> map_of (AList.update m (f c) out) k)"
      by simp
    moreover have "k = m \<Longrightarrow> map_of xs k = None"
      using Cons.prems x by (simp add: map_of_eq_None_iff)
    ultimately show ?case by (auto simp: x js_map split: option.splits)
  qed simp
  then show ?thesis by (simp split: option.splits)
qed

lemma indexDevicePorts_get:
  "map_of (indexDevicePorts switches) k =
     map_option PortLoc.truncate (map_of (fold (offer better) (all_claims switches) []) k)"
  unfolding indexDevicePorts_def Let_def index_claims
  by (rule copy_map) (rule distinct_fold_offer, simp)

text \<open>C10: the index holds an entry for exactly the devices that some switch or port claims, and the
  entry is a claim that no other claim for the device beats (deeper switch, then better source,
  then a concrete port, then no uplink).\<close>

theorem indexDevicePorts_best:
  "case map_of (indexDevicePorts switches) k of
     None \<Rightarrow> claims_for k (all_claims switches) = []
   | Some l \<Rightarrow> \<exists>m c. (m, c) \<in> set (claims_for k (all_claims switches)) \<and> l = PortLoc.truncate c \<and>
       list_all (\<lambda>mc. \<not> better (snd mc) c) (claims_for k (all_claims switches))"
proof -
  have "claims.best_for (claims_for k (all_claims switches))
      (map_of (fold (offer better) (all_claims switches) []) k)"
    using claims.best_of_all [of "all_claims switches"] by (simp add: claims.best_of_def)
  then show ?thesis
    by (auto simp: indexDevicePorts_get claims.best_for_def split: option.splits)
qed

section \<open>Depths\<close>

lemma depth_from_le: "depth_from byMac seen cur d \<le> d + card (fst ` set byMac - set seen)"
proof (induction byMac seen cur d rule: depth_from.induct)
  case (1 byMac seen cur d)
  show ?case
  proof (cases "(cur = [] \<or> cur \<in> set seen) \<or> map_of byMac cur = None")
    case True
    then show ?thesis unfolding depth_from.simps [of byMac seen cur d] by auto
  next
    case False
    then obtain sw where sw: "map_of byMac cur = Some sw" by auto
    then have "cur \<in> fst ` set byMac - set seen"
      using False by (auto dest!: map_of_SomeD intro: rev_image_eqI)
    moreover have "fst ` set byMac - set (cur # seen) = (fst ` set byMac - set seen) - {cur}" by auto
    ultimately have "Suc (card (fst ` set byMac - set (cur # seen))) = card (fst ` set byMac - set seen)"
      by (simp only: card_Suc_Diff1 finite_Diff finite_imageI finite_set)
    then show ?thesis
      using 1 [OF _ sw] False sw unfolding depth_from.simps [of byMac seen cur d] by auto
  qed
qed

text \<open>the depth of a switch is found for every graph of parents, cycles included, and is at most
  the number of switches.\<close>

theorem parentDepth_bound: "parentDepth byMac m \<le> card (fst ` set byMac)"
  using depth_from_le [of byMac "[]" "toUpperCase m" 0] by (simp add: parentDepth_def)

text \<open>Parents that lead away from a switch, with a rank that falls along them.\<close>

definition parents_fall :: "(string, Switch) jsmap \<Rightarrow> (string \<Rightarrow> nat) \<Rightarrow> bool" where
  "parents_fall byMac r \<longleftrightarrow>
     (\<forall>k sw p. map_of byMac k = Some sw \<longrightarrow> sw_parent_mac sw = Some p \<longrightarrow> p \<noteq> [] \<longrightarrow>
        r (toUpperCase p) < r k)"

lemma depth_from_fall:
  assumes "parents_fall byMac r" "\<forall>s \<in> set seen. r cur < r s"
  shows "depth_from byMac seen cur d = d + depth_from byMac [] cur 0"
  using assms(2)
proof (induction "r cur" arbitrary: cur seen d rule: less_induct)
  case less
  have fresh: "cur \<notin> set seen" using less.prems by auto
  show ?case
  proof (cases "cur = [] \<or> map_of byMac cur = None")
    case True
    then show ?thesis by (auto simp: depth_from.simps [of byMac _ cur])
  next
    case False
    then obtain sw where sw: "map_of byMac cur = Some sw" "cur \<noteq> []" by auto
    show ?thesis
    proof (cases "truthy (sw_parent_mac sw)")
      case True
      then obtain p where p: "sw_parent_mac sw = Some p" "p \<noteq> []"
        by (auto simp: truthy_def split: option.splits)
      then have lt: "r (toUpperCase p) < r cur" using assms(1) sw by (auto simp: parents_fall_def)
      have step: "depth_from byMac seen' cur d' = depth_from byMac (cur # seen') (toUpperCase p) (d' + 1)"
        if "cur \<notin> set seen'" for seen' d'
        using that sw p True by (simp add: depth_from.simps [of byMac _ cur] opt_str_def)
      have up: "\<forall>s \<in> set (cur # seen'). r (toUpperCase p) < r s" if "\<forall>s \<in> set seen'. r cur < r s" for seen'
        using that lt by auto
      show ?thesis
        using less.hyps [OF lt up [OF less.prems], of "d + 1"] less.hyps [OF lt, of "[cur]" 1] lt
          step [OF fresh] step [of "[]" 0] by simp
    qed (use sw fresh in \<open>simp add: depth_from.simps [of byMac _ cur]\<close>)
  qed
qed

text \<open>where the parents form no cycle, the depth of a switch is one more than that of its parent,
  and it is 0 for a switch without a parent and for an unknown address.\<close>

theorem parentDepth_step:
  assumes "parents_fall byMac r" "m \<noteq> []"
  shows "parentDepth byMac m =
    (case map_of byMac (toUpperCase m) of
       None \<Rightarrow> 0
     | Some sw \<Rightarrow> if truthy (sw_parent_mac sw) then Suc (parentDepth byMac (opt_str (sw_parent_mac sw))) else 0)"
proof (cases "map_of byMac (toUpperCase m)")
  case None
  then show ?thesis by (simp add: parentDepth_def depth_from.simps [of byMac "[]"])
next
  case (Some sw)
  show ?thesis
  proof (cases "truthy (sw_parent_mac sw)")
    case True
    then obtain p where p: "sw_parent_mac sw = Some p" "p \<noteq> []"
      by (auto simp: truthy_def split: option.splits)
    then have "\<forall>s \<in> set [toUpperCase m]. r (toUpperCase p) < r s"
      using assms(1) Some by (auto simp: parents_fall_def)
    from depth_from_fall [OF assms(1) this, of 1] p True Some assms(2) show ?thesis
      by (simp add: parentDepth_def depth_from.simps [of byMac "[]" "toUpperCase m"] opt_str_def)
  qed (use Some assms(2) in \<open>simp add: parentDepth_def depth_from.simps [of byMac "[]" "toUpperCase m"]\<close>)
qed

theorem parentDepth_step_witness:
  "let byMac = [(''A'', plain_switch ''a'' None), (''B'', plain_switch ''b'' (Some ''a''))] in
   parentDepth byMac ''b'' = Suc (parentDepth byMac ''a'') \<and> parentDepth byMac ''a'' = 0"
proof -
  let ?m = "[(''A'', plain_switch ''a'' None), (''B'', plain_switch ''b'' (Some ''a''))]"
  have up: "toUpperCase ''a'' = ''A''" "toUpperCase ''b'' = ''B''" by code_simp+
  have "parents_fall ?m (\<lambda>k. if k = ''B'' then 1 else 0)"
    by (auto simp: parents_fall_def plain_switch_def up split: if_splits)
  then show ?thesis
    using parentDepth_step [of ?m "\<lambda>k. if k = ''B'' then 1 else 0" "''a''"]
      parentDepth_step [of ?m "\<lambda>k. if k = ''B'' then 1 else 0" "''b''"]
    by (simp add: up truthy_def opt_str_def plain_switch_def)
qed

section \<open>Comparing lists of addresses\<close>

text \<open>on a second list without repetition, \<open>sameMacSet\<close> decides whether the two lists are the
  same set of addresses, each listed once, whatever the order and the case of the letters.\<close>

theorem sameMacSet_sets:
  assumes "distinct (map toUpperCase b)"
  shows "sameMacSet a b \<longleftrightarrow>
    distinct (map toUpperCase a) \<and> set (map toUpperCase a) = set (map toUpperCase b)"
proof -
  let ?a = "map toUpperCase a" and ?b = "map toUpperCase b"
  have eq: "set ?b = set ?a" if "set ?b \<subseteq> set ?a" "length a = length b" "distinct ?a"
    using that assms by (intro card_subset_eq) (simp_all only: distinct_card length_map finite_set)
  have len: "length a = length b" if "set ?a = set ?b" "distinct ?a"
    using that assms by (metis distinct_card length_map)
  have rd: "length (remdups ?a) = length a \<longleftrightarrow> distinct ?a"
    unfolding length_remdups_card_conv using distinct_card [of ?a] card_distinct [of ?a] by auto
  have sub: "list_all (\<lambda>m. toUpperCase m \<in> set ?a) b \<longleftrightarrow> set ?b \<subseteq> set ?a"
    by (auto simp: list_all_iff)
  show ?thesis
    unfolding sameMacSet_def Let_def rd sub using eq len by blast
qed

theorem sameMacSet_sets_witness: "sameMacSet [''aa'', ''BB''] [''bb'', ''AA'']"
proof -
  have "distinct (map toUpperCase [''bb'', ''AA''])" "distinct (map toUpperCase [''aa'', ''BB''])"
    "set (map toUpperCase [''aa'', ''BB'']) = set (map toUpperCase [''bb'', ''AA''])" by code_simp+
  then show ?thesis using sameMacSet_sets [of "[''bb'', ''AA'']" "[''aa'', ''BB'']"] by blast
qed

text \<open>with a repetition in its second list \<open>sameMacSet\<close> is not symmetric and takes two different
  sets of addresses to be the same.\<close>

theorem sameMacSet_repetition:
  "sameMacSet [''A'', ''B''] [''A'', ''A''] \<and> \<not> sameMacSet [''A'', ''A''] [''A'', ''B'']"
  by code_simp

end
