(* ===== verification/Ports.thy ===== *)
theory Ports
  imports JsRegex UiTypes
begin

text \<open>
  Ports of the box (\<open>ui/src/lib/ports.ts\<close>): the numbering of the four jacks, the chips that show
  which jacks an interface uses, and the labels of speeds and WAN modes.
\<close>

record GoldPort =
  gp_n :: nat
  gp_tagged :: bool
  gp_ok :: bool

record PortChip =
  chip_n :: nat
  chip_tagged :: bool
  chip_unused :: bool
  chip_vid :: "int option"

definition goldNic :: "nat \<Rightarrow> string" where
  "goldNic n = (if n = 1 then ''eth3'' else if n = 2 then ''eth2'' else if n = 3 then ''eth1''
     else if n = 4 then ''eth0'' else [])"

text \<open>\<open>s.indexOf(c)\<close>, with None for -1.\<close>

fun indexOf :: "string \<Rightarrow> char \<Rightarrow> nat option" where
  "indexOf [] c = None"
| "indexOf (x # xs) c = (if x = c then Some 0 else map_option Suc (indexOf xs c))"

definition gold_number :: "string \<Rightarrow> nat" where
  "gold_number base = (if base = ''eth3'' then 1 else if base = ''eth2'' then 2
     else if base = ''eth1'' then 3 else if base = ''eth0'' then 4 else 0)"

definition goldPort :: "string \<Rightarrow> GoldPort" where
  "goldPort ifname =
     (let (base, tagged) = (case indexOf ifname CHR ''.'' of
            Some dot \<Rightarrow> (take dot ifname, True) | None \<Rightarrow> (ifname, False));
          n = gold_number base
      in if n = 0 then \<lparr>gp_n = 0, gp_tagged = False, gp_ok = False\<rparr>
         else \<lparr>gp_n = n, gp_tagged = tagged, gp_ok = True\<rparr>)"

text \<open>\<open>parseInt(s, 10)\<close>, with None for NaN.\<close>

definition parseInt10 :: "string \<Rightarrow> int option" where
  "parseInt10 s0 =
     (let s = trimStart s0;
          neg = (s \<noteq> [] \<and> hd s = CHR ''-'');
          body = (if s \<noteq> [] \<and> (hd s = CHR ''-'' \<or> hd s = CHR ''+'') then tl s else s);
          ds = takeWhile is_digit body
      in if ds = [] then None
         else Some (if neg then - int (read_nat 10 ds) else int (read_nat 10 ds)))"

definition chip_list :: "string list option \<Rightarrow> nat option \<Rightarrow> string list" where
  "chip_list intfs vid =
     (case intfs of
        Some (i # is) \<Rightarrow> i # is
      | _ \<Rightarrow> (case vid of
                Some (Suc v) \<Rightarrow> [''eth0.'' @ dec (Suc v), ''eth3.'' @ dec (Suc v)]
              | _ \<Rightarrow> []))"

definition chip_add :: "string \<Rightarrow> (nat, bool \<times> int option) jsmap \<Rightarrow> (nat, bool \<times> int option) jsmap" where
  "chip_add ifname byPort =
     (let gp = goldPort ifname in
      if \<not> gp_ok gp then byPort
      else if gp_tagged gp then
        let vid = (case indexOf ifname CHR ''.'' of
              Some dot \<Rightarrow> parseInt10 (drop (dot + 1) ifname) | None \<Rightarrow> None)
        in AList.update (gp_n gp) (True, vid) byPort
      else if map_of byPort (gp_n gp) = None then AList.update (gp_n gp) (False, None) byPort
      else byPort)"

definition portChips :: "string list option \<Rightarrow> nat option \<Rightarrow> PortChip list" where
  "portChips intfs vid =
     (let byPort = fold chip_add (chip_list intfs vid) [] in
      map (\<lambda>n. case map_of byPort n of
          Some (tagged, v) \<Rightarrow> \<lparr>chip_n = n, chip_tagged = tagged, chip_unused = False, chip_vid = v\<rparr>
        | None \<Rightarrow> \<lparr>chip_n = n, chip_tagged = False, chip_unused = True, chip_vid = None\<rparr>) [1..<5])"

datatype ManagerKind = MHide | MWan | MLan

text \<open>\<open>/^(eth|wlan)\d/\<close>\<close>

definition rx_nic :: rx where
  "rx_nic = Seqs [Bol, Alt (Lit ''eth'') (Lit ''wlan''), Cls is_digit]"

definition managerKind :: "NetIface \<Rightarrow> ManagerKind" where
  "managerKind n =
     (let name = ni_name n in
      if startsWith name ''wg_ap'' \<or> startsWith name ''tun_fwvpn'' then MHide
      else if ni_type n = Some ''wan'' then MWan
      else if test rx_nic name then MHide
      else MLan)"

definition speedLabel :: "int option \<Rightarrow> string" where
  "speedLabel mbps =
     (case mbps of
        None \<Rightarrow> []
      | Some m \<Rightarrow> if m \<le> 0 then [] else if 10000 \<le> m then ''10G'' else if 2500 \<le> m then ''2.5G''
                  else if 1000 \<le> m then ''1G'' else dec_int m @ ''M'')"

definition wanTypeLabel :: "string option \<Rightarrow> string" where
  "wanTypeLabel t =
     (if t = Some ''failover'' \<or> t = Some ''primary_standby'' then ''Failover''
      else if t = Some ''load_balance'' then ''Load balance''
      else if t = Some ''single'' then ''Single''
      else [])"

section \<open>Chips\<close>

text \<open>The last tagged name of a jack decides its chip; without one, the jack is untagged.\<close>

definition chip_spec :: "string list \<Rightarrow> nat \<Rightarrow> (bool \<times> int option) option" where
  "chip_spec names n =
     (let mine = filter (\<lambda>i. gp_ok (goldPort i) \<and> gp_n (goldPort i) = n) names;
          tagged = filter (\<lambda>i. gp_tagged (goldPort i)) mine
      in if mine = [] then None
         else if tagged = [] then Some (False, None)
         else Some (True, parseInt10 (tl (dropWhile (\<lambda>c. c \<noteq> CHR ''.'') (last tagged)))))"

lemma indexOf_drop:
  "indexOf s c = Some k \<Longrightarrow> drop (k + 1) s = tl (dropWhile (\<lambda>d. d \<noteq> c) s)"
  by (induction s arbitrary: k) (auto split: if_splits)

lemma goldPort_tagged: "gp_tagged (goldPort i) \<Longrightarrow> \<exists>k. indexOf i CHR ''.'' = Some k"
  by (auto simp: goldPort_def Let_def split: option.splits if_splits)

lemma chip_add_get:
  "map_of (chip_add i m) n =
     (if gp_ok (goldPort i) \<and> gp_n (goldPort i) = n then
        if gp_tagged (goldPort i)
        then Some (True, parseInt10 (tl (dropWhile (\<lambda>c. c \<noteq> CHR ''.'') i)))
        else (case map_of m n of None \<Rightarrow> Some (False, None) | Some v \<Rightarrow> Some v)
      else map_of m n)"
  using goldPort_tagged [of i] indexOf_drop [of i "CHR ''.''"]
  by (auto simp: chip_add_def Let_def js_map split: option.splits)

lemma chips_get: "map_of (fold chip_add names []) n = chip_spec names n"
proof (induction names rule: rev_induct)
  case (snoc i names)
  then show ?case
    by (simp add: chip_add_get) (auto simp: chip_spec_def Let_def filter_empty_conv)
qed (simp add: chip_spec_def)

text \<open>an interface always has four chips, for the jacks 1 to 4 in order. A jack is unused exactly
  when no interface name belongs to it; it is tagged when one of its names has a VLAN, and shows
  the VLAN of the last such name.\<close>

theorem portChips_spec:
  "portChips intfs vid =
     map (\<lambda>n. case chip_spec (chip_list intfs vid) n of
         None \<Rightarrow> \<lparr>chip_n = n, chip_tagged = False, chip_unused = True, chip_vid = None\<rparr>
       | Some (tagged, v) \<Rightarrow> \<lparr>chip_n = n, chip_tagged = tagged, chip_unused = False, chip_vid = v\<rparr>)
     [1, 2, 3, 4]"
proof -
  have "[1..<5] = [1, 2, 3, 4 :: nat]" by (simp add: upt_rec)
  then show ?thesis
    by (simp add: portChips_def Let_def chips_get split: option.splits)
qed

text \<open>the interface name of each jack is read back as that jack, untagged as it is and tagged with
  a VLAN; no other number has an interface name.\<close>

theorem goldPort_goldNic:
  "goldPort (goldNic n @ (if tag then ''.'' @ dec v else [])) =
     (if n \<in> {1..4} then \<lparr>gp_n = n, gp_tagged = tag, gp_ok = True\<rparr>
      else \<lparr>gp_n = 0, gp_tagged = False, gp_ok = False\<rparr>)"
proof -
  consider "n = 1" | "n = 2" | "n = 3" | "n = 4" | "n \<notin> {1..4}" by fastforce
  then show ?thesis
  proof cases
    case 5
    then have "goldNic n = []" by (auto simp: goldNic_def)
    with 5 show ?thesis by (auto simp: goldPort_def gold_number_def)
  qed (simp_all add: goldNic_def goldPort_def gold_number_def)
qed

end
