(* ===== verification/Json.thy ===== *)
theory Json
  imports UiTypes
begin

text \<open>
  The text of a value and the value of a text: \<open>JSON.stringify\<close> and \<open>JSON.parse\<close> of the language, as the
  code uses them for the preferences it keeps in the browser. A text that is no JSON makes the call
  raise, the value None here. Texts are of Latin-1 characters: an escape \<open>\u\<close> of another
  character is outside the model. \<open>str_num\<close> is the text of a number.
\<close>

section \<open>Text in quotes\<close>

definition json_esc :: "char \<Rightarrow> string" where
  "json_esc c =
     (let n = of_char c :: nat; bs = CHR 0x5C in
      if n = 0x22 then [bs, CHR 0x22]
      else if n = 0x5C then [bs, bs]
      else if n = 8 then [bs, CHR ''b'']
      else if n = 9 then [bs, CHR ''t'']
      else if n = 10 then [bs, CHR ''n'']
      else if n = 12 then [bs, CHR ''f'']
      else if n = 13 then [bs, CHR ''r'']
      else if n < 32 then [bs, CHR ''u'', CHR ''0'', CHR ''0'', digit_char (n div 16), digit_char (n mod 16)]
      else [c])"

definition json_str :: "string \<Rightarrow> string" where
  "json_str s = CHR 0x22 # concat (map json_esc s) @ [CHR 0x22]"

text \<open>The reader of one escaped character, and that it undoes the printer.\<close>

definition unesc :: "string \<Rightarrow> char" where
  "unesc s =
     (let x = s ! 1 in
      if hd s \<noteq> CHR 0x5C then hd s
      else if x = CHR ''b'' then CHR 0x08
      else if x = CHR ''t'' then CHR 0x09
      else if x = CHR ''n'' then CHR 0x0A
      else if x = CHR ''f'' then CHR 0x0C
      else if x = CHR ''r'' then CHR 0x0D
      else if x = CHR ''u'' then char_of (digit_val (s ! 4) * 16 + digit_val (s ! 5))
      else x)"

lemma unesc_esc: "unesc (json_esc c @ r) = c"
proof -
  have code: "of_char c = (of_char d :: nat) \<longleftrightarrow> c = d" for d by simp
  have named: "of_char c = (8 :: nat) \<longleftrightarrow> c = CHR 0x08" "of_char c = (9 :: nat) \<longleftrightarrow> c = CHR 0x09"
    "of_char c = (10 :: nat) \<longleftrightarrow> c = CHR 0x0A" "of_char c = (12 :: nat) \<longleftrightarrow> c = CHR 0x0C"
    "of_char c = (13 :: nat) \<longleftrightarrow> c = CHR 0x0D" "of_char c = (0x22 :: nat) \<longleftrightarrow> c = CHR 0x22"
    "of_char c = (0x5C :: nat) \<longleftrightarrow> c = CHR 0x5C"
    by (simp_all flip: code)
  show ?thesis
  proof (cases "of_char c < (32 :: nat)")
    case True
    then have "digit_val (digit_char (of_char c div 16)) * 16 + digit_val (digit_char (of_char c mod 16))
        = (of_char c :: nat)"
      by (simp add: digit_val_digit_char)
    then show ?thesis
      by (auto simp: json_esc_def unesc_def Let_def named)
  next
    case False
    then show ?thesis
      by (auto simp: json_esc_def unesc_def Let_def named)
  qed
qed

lemma esc_not_quote: "\<exists>x xs. json_esc c = x # xs \<and> x \<noteq> CHR 0x22"
  by (auto simp: json_esc_def Let_def intro: char_eqI)

section \<open>Printing\<close>

fun stringify :: "(rat \<Rightarrow> string) \<Rightarrow> json \<Rightarrow> string"
  and item_texts :: "(rat \<Rightarrow> string) \<Rightarrow> json list \<Rightarrow> string list"
  and member_texts :: "(rat \<Rightarrow> string) \<Rightarrow> (string \<times> json) list \<Rightarrow> string list" where
  "stringify str_num JNull = ''null''"
| "stringify str_num (JBool b) = (if b then ''true'' else ''false'')"
| "stringify str_num (JNum x) = str_num x"
| "stringify str_num (JStr s) = json_str s"
| "stringify str_num (JArr vs) = ''['' @ join '','' (item_texts str_num vs) @ '']''"
| "stringify str_num (JObj ms) = ''{'' @ join '','' (member_texts str_num ms) @ ''}''"
| "item_texts str_num [] = []"
| "item_texts str_num (v # vs) = stringify str_num v # item_texts str_num vs"
| "member_texts str_num [] = []"
| "member_texts str_num ((k, v) # ms) = (json_str k @ '':'' @ stringify str_num v) # member_texts str_num ms"

section \<open>Reading\<close>

definition json_ws :: "char \<Rightarrow> bool" where
  "json_ws c \<longleftrightarrow> c = CHR '' '' \<or> c = CHR 0x09 \<or> c = CHR 0x0A \<or> c = CHR 0x0D"

definition skip_ws :: "string \<Rightarrow> string" where
  "skip_ws s = dropWhile json_ws s"

definition unescape :: "char \<Rightarrow> char option" where
  "unescape e =
     (if e = CHR 0x22 \<or> e = CHR 0x5C \<or> e = CHR ''/'' then Some e
      else if e = CHR ''b'' then Some (CHR 0x08) else if e = CHR ''t'' then Some (CHR 0x09)
      else if e = CHR ''n'' then Some (CHR 0x0A) else if e = CHR ''f'' then Some (CHR 0x0C)
      else if e = CHR ''r'' then Some (CHR 0x0D) else None)"

definition cons_fst :: "'a \<Rightarrow> ('a list \<times> 'b) option \<Rightarrow> ('a list \<times> 'b) option" where
  "cons_fst x r = map_option (\<lambda>(xs, q). (x # xs, q)) r"

fun parse_chars :: "string \<Rightarrow> (string \<times> string) option" where
  "parse_chars [] = None"
| "parse_chars (c # s) =
     (if c = CHR 0x22 then Some ([], s)
      else if c = CHR 0x5C then
        (case s of
           [] \<Rightarrow> None
         | e # s1 \<Rightarrow>
             if e = CHR ''u'' then
               (case s1 of
                  h1 # h2 # h3 # h4 # s2 \<Rightarrow>
                    if h1 = CHR ''0'' \<and> h2 = CHR ''0'' \<and> is_hex h3 \<and> is_hex h4
                    then cons_fst (char_of (digit_val h3 * 16 + digit_val h4)) (parse_chars s2) else None
                | _ \<Rightarrow> None)
             else case unescape e of Some x \<Rightarrow> cons_fst x (parse_chars s1) | None \<Rightarrow> None)
      else if of_char c < (32 :: nat) then None
      else cons_fst c (parse_chars s))"

text \<open>\<open>-?(0|[1-9]\d*)(\.\d+)?([eE][+-]?\d+)?\<close>\<close>

definition read_frac :: "string \<Rightarrow> (string \<times> string) option" where
  "read_frac s =
     (case s of
        c # t \<Rightarrow> if c = CHR ''.'' then (let fs = takeWhile is_digit t in
                   if fs = [] then None else Some (fs, dropWhile is_digit t)) else Some ([], s)
      | [] \<Rightarrow> Some ([], s))"

definition read_exp :: "string \<Rightarrow> (int \<times> string) option" where
  "read_exp s =
     (case s of
        c # t \<Rightarrow>
          if c = CHR ''e'' \<or> c = CHR ''E'' then
            (let (neg, u) = (case t of d # u \<Rightarrow> if d = CHR ''-'' then (True, u) else if d = CHR ''+'' then (False, u) else (False, t)
                             | [] \<Rightarrow> (False, t));
                 es = takeWhile is_digit u; n = int (read_nat 10 es)
             in if es = [] then None else Some (if neg then - n else n, dropWhile is_digit u))
          else Some (0, s)
      | [] \<Rightarrow> Some (0, s))"

definition parse_number :: "string \<Rightarrow> (rat \<times> string) option" where
  "parse_number s =
     (let (neg, s1) = (case s of c # t \<Rightarrow> if c = CHR ''-'' then (True, t) else (False, s) | [] \<Rightarrow> (False, s));
          ds = takeWhile is_digit s1
      in if ds = [] \<or> (1 < length ds \<and> hd ds = CHR ''0'') then None
         else case read_frac (dropWhile is_digit s1) of
           None \<Rightarrow> None
         | Some (fs, s2) \<Rightarrow>
             (case read_exp s2 of
                None \<Rightarrow> None
              | Some (e, s3) \<Rightarrow>
                  let m = scale10 (of_nat (read_nat 10 ds) + of_nat (read_nat 10 fs) / 10 ^ length fs) e
                  in Some (if neg then - m else m, s3)))"

text \<open>Of the members with one name the last one counts, in the place of the first.\<close>

definition collapse :: "(string \<times> json) list \<Rightarrow> (string, json) jsmap" where
  "collapse ms = fold (\<lambda>(k, v) m. AList.update k v m) ms []"

lemma length_skip_ws: "length (skip_ws s) \<le> length s"
  by (simp add: skip_ws_def length_dropWhile_le)

text \<open>
  The tests of the lengths let the recursion end by its form; a value takes at least one character,
  so they always succeed.
\<close>

function parse_value :: "string \<Rightarrow> (json \<times> string) option"
  and parse_items :: "string \<Rightarrow> (json list \<times> string) option"
  and parse_members :: "string \<Rightarrow> ((string \<times> json) list \<times> string) option" where
  "parse_value s =
     (case skip_ws s of
        [] \<Rightarrow> None
      | c # t \<Rightarrow>
          if c = CHR 0x22 then map_option (\<lambda>(x, r). (JStr x, r)) (parse_chars t)
          else if c = CHR ''['' then
            (if skip_ws t \<noteq> [] \<and> hd (skip_ws t) = CHR '']'' then Some (JArr [], tl (skip_ws t))
             else map_option (\<lambda>(vs, r). (JArr vs, r)) (parse_items t))
          else if c = CHR ''{'' then
            (if skip_ws t \<noteq> [] \<and> hd (skip_ws t) = CHR ''}'' then Some (JObj [], tl (skip_ws t))
             else map_option (\<lambda>(ms, r). (JObj (collapse ms), r)) (parse_members t))
          else if startsWith (c # t) ''true'' then Some (JBool True, drop 4 (c # t))
          else if startsWith (c # t) ''false'' then Some (JBool False, drop 5 (c # t))
          else if startsWith (c # t) ''null'' then Some (JNull, drop 4 (c # t))
          else map_option (\<lambda>(x, r). (JNum x, r)) (parse_number (c # t)))"
| "parse_items s =
     (case parse_value s of
        None \<Rightarrow> None
      | Some (v, r) \<Rightarrow>
          (case skip_ws r of
             [] \<Rightarrow> None
           | c # t \<Rightarrow>
               if c = CHR '']'' then Some ([v], t)
               else if c = CHR '','' \<and> length t < length s then cons_fst v (parse_items t)
               else None))"
| "parse_members s =
     (case skip_ws s of
        [] \<Rightarrow> None
      | q # t \<Rightarrow>
          if q \<noteq> CHR 0x22 then None
          else case parse_chars t of
            None \<Rightarrow> None
          | Some (k, r) \<Rightarrow>
              (case skip_ws r of
                 [] \<Rightarrow> None
               | c # u \<Rightarrow>
                   if c = CHR '':'' \<and> length u < length s then
                     (case parse_value u of
                        None \<Rightarrow> None
                      | Some (v, w) \<Rightarrow>
                          (case skip_ws w of
                             [] \<Rightarrow> None
                           | d # x \<Rightarrow>
                               if d = CHR ''}'' then Some ([(k, v)], x)
                               else if d = CHR '','' \<and> length x < length s then cons_fst (k, v) (parse_members x)
                               else None))
                   else None))"
  by pat_completeness auto

termination
proof (relation "measure (\<lambda>a. case a of Inl s \<Rightarrow> 2 * length s | Inr (Inl s) \<Rightarrow> 2 * length s + 1 | Inr (Inr s) \<Rightarrow> 2 * length s + 1)")
  fix s t :: string and c
  assume "skip_ws s = c # t"
  then have "length t < length s" using length_skip_ws [of s] by simp
  then show "(Inr (Inl t), Inl s) \<in> measure (\<lambda>a. case a of Inl s \<Rightarrow> 2 * length s | Inr (Inl s) \<Rightarrow> 2 * length s + 1 | Inr (Inr s) \<Rightarrow> 2 * length s + 1)"
    and "(Inr (Inr t), Inl s) \<in> measure (\<lambda>a. case a of Inl s \<Rightarrow> 2 * length s | Inr (Inl s) \<Rightarrow> 2 * length s + 1 | Inr (Inr s) \<Rightarrow> 2 * length s + 1)"
    by simp_all
qed auto

declare parse_value.simps [simp del] parse_items.simps [simp del] parse_members.simps [simp del]

definition JSON_parse :: "string \<Rightarrow> json option" where
  "JSON_parse s =
     (case parse_value s of Some (v, r) \<Rightarrow> if skip_ws r = [] then Some v else None | None \<Rightarrow> None)"

section \<open>What is printed is read back\<close>

lemma code_named:
  "of_char c = (8 :: nat) \<longleftrightarrow> c = CHR 0x08" "of_char c = (9 :: nat) \<longleftrightarrow> c = CHR 0x09"
  "of_char c = (10 :: nat) \<longleftrightarrow> c = CHR 0x0A" "of_char c = (12 :: nat) \<longleftrightarrow> c = CHR 0x0C"
  "of_char c = (13 :: nat) \<longleftrightarrow> c = CHR 0x0D" "of_char c = (0x22 :: nat) \<longleftrightarrow> c = CHR 0x22"
  "of_char c = (0x5C :: nat) \<longleftrightarrow> c = CHR 0x5C"
proof -
  have code: "of_char c = (of_char d :: nat) \<longleftrightarrow> c = d" for d by simp
  show "of_char c = (8 :: nat) \<longleftrightarrow> c = CHR 0x08" "of_char c = (9 :: nat) \<longleftrightarrow> c = CHR 0x09"
    "of_char c = (10 :: nat) \<longleftrightarrow> c = CHR 0x0A" "of_char c = (12 :: nat) \<longleftrightarrow> c = CHR 0x0C"
    "of_char c = (13 :: nat) \<longleftrightarrow> c = CHR 0x0D" "of_char c = (0x22 :: nat) \<longleftrightarrow> c = CHR 0x22"
    "of_char c = (0x5C :: nat) \<longleftrightarrow> c = CHR 0x5C"
    by (simp_all flip: code)
qed

text \<open>The letter that stands for a character after a backslash.\<close>

definition short_esc :: "(char \<times> char) list" where
  "short_esc = [(CHR 0x22, CHR 0x22), (CHR 0x5C, CHR 0x5C), (CHR 0x08, CHR ''b''), (CHR 0x09, CHR ''t''),
     (CHR 0x0A, CHR ''n''), (CHR 0x0C, CHR ''f''), (CHR 0x0D, CHR ''r'')]"

lemma short_esc_all:
  "list_all (\<lambda>(c, e). json_esc c = [CHR 0x5C, e] \<and> e \<noteq> CHR ''u'' \<and> unescape e = Some c) short_esc"
  by code_simp

lemma parse_short: "e \<noteq> CHR ''u'' \<Longrightarrow> unescape e = Some x \<Longrightarrow> parse_chars (CHR 0x5C # e # t) = cons_fst x (parse_chars t)"
  by simp

lemma parse_esc: "parse_chars (json_esc c @ t) = cons_fst c (parse_chars t)"
proof (cases "c \<in> {CHR 0x22, CHR 0x5C, CHR 0x08, CHR 0x09, CHR 0x0A, CHR 0x0C, CHR 0x0D}")
  case True
  then obtain e where "(c, e) \<in> set short_esc" by (auto simp: short_esc_def)
  then have "json_esc c = [CHR 0x5C, e]" "e \<noteq> CHR ''u''" "unescape e = Some c"
    using short_esc_all by (auto simp: list_all_iff)
  then show ?thesis using parse_short by simp
next
  case plain: False
  show ?thesis
  proof (cases "of_char c < (32 :: nat)")
    case True
    let ?n = "of_char c :: nat"
    have small: "?n div 16 < 2" "?n mod 16 < 16" using True by simp_all
    then have "digit_val (digit_char (?n div 16)) * 16 + digit_val (digit_char (?n mod 16)) = ?n"
      by (simp add: digit_val_digit_char)
    moreover have "is_hex (digit_char (?n div 16))" "is_hex (digit_char (?n mod 16))"
      using small by (simp_all add: is_hex_digit_char)
    ultimately show ?thesis using plain True by (simp add: json_esc_def Let_def code_named)
  next
    case False
    then show ?thesis using plain by (simp add: json_esc_def Let_def code_named)
  qed
qed

lemma parse_quoted: "parse_chars (concat (map json_esc s) @ CHR 0x22 # r) = Some (s, r)"
  by (induction s) (simp_all add: parse_esc cons_fst_def)

text \<open>What may follow a value inside an array or an object.\<close>

definition stops :: "string \<Rightarrow> bool" where
  "stops r \<longleftrightarrow> r = [] \<or> hd r \<in> {CHR '','', CHR '']'', CHR ''}''}"

text \<open>The text of a number is read back as the number.\<close>

definition reads_back :: "(rat \<Rightarrow> string) \<Rightarrow> rat \<Rightarrow> bool" where
  "reads_back str_num x \<longleftrightarrow>
     str_num x \<noteq> [] \<and> (hd (str_num x) = CHR ''-'' \<or> is_digit (hd (str_num x))) \<and>
     (\<forall>r. stops r \<longrightarrow> parse_number (str_num x @ r) = Some (x, r))"

fun printable :: "(rat \<Rightarrow> string) \<Rightarrow> json \<Rightarrow> bool"
  and printable_items :: "(rat \<Rightarrow> string) \<Rightarrow> json list \<Rightarrow> bool"
  and printable_members :: "(rat \<Rightarrow> string) \<Rightarrow> (string \<times> json) list \<Rightarrow> bool" where
  "printable str_num (JNum x) = reads_back str_num x"
| "printable str_num (JArr vs) = printable_items str_num vs"
| "printable str_num (JObj ms) = (distinct (map fst ms) \<and> printable_members str_num ms)"
| "printable str_num _ = True"
| "printable_items str_num [] = True"
| "printable_items str_num (v # vs) = (printable str_num v \<and> printable_items str_num vs)"
| "printable_members str_num [] = True"
| "printable_members str_num ((k, v) # ms) = (printable str_num v \<and> printable_members str_num ms)"

lemma digit_no_mark: "is_digit c \<Longrightarrow> \<not> json_ws c \<and> c \<noteq> CHR 0x22 \<and> c \<noteq> CHR ''['' \<and> c \<noteq> CHR ''{'' \<and>
    c \<noteq> CHR '']'' \<and> c \<noteq> CHR ''}'' \<and> c \<noteq> CHR ''t'' \<and> c \<noteq> CHR ''f'' \<and> c \<noteq> CHR ''n''"
  by (auto simp: is_digit_def json_ws_def)

lemma number_start: "c = CHR ''-'' \<or> is_digit c \<Longrightarrow> \<not> json_ws c \<and> c \<noteq> CHR 0x22 \<and> c \<noteq> CHR ''['' \<and>
    c \<noteq> CHR ''{'' \<and> c \<noteq> CHR '']'' \<and> c \<noteq> CHR ''}'' \<and> c \<noteq> CHR ''t'' \<and> c \<noteq> CHR ''f'' \<and> c \<noteq> CHR ''n''"
  by (erule disjE, simp add: json_ws_def, simp only: digit_no_mark simp_thms not_False_eq_True)

text \<open>A printed value begins with a character that is no white space and closes nothing.\<close>

lemma stringify_start:
  assumes "printable str_num v"
  shows "\<exists>c cs. stringify str_num v = c # cs \<and> \<not> json_ws c \<and> c \<noteq> CHR '']'' \<and> c \<noteq> CHR ''}''"
proof (cases v)
  case (JNum x)
  with assms obtain c cs where "str_num x = c # cs" "c = CHR ''-'' \<or> is_digit c"
    by (cases "str_num x") (auto simp: reads_back_def)
  then have "stringify str_num v = c # cs" "\<not> json_ws c \<and> c \<noteq> CHR '']'' \<and> c \<noteq> CHR ''}''"
    using JNum number_start [of c] by simp_all
  then show ?thesis by blast
qed (simp_all add: json_ws_def json_str_def)

lemma skip_start: "\<not> json_ws c \<Longrightarrow> skip_ws (c # s) = c # s"
  by (simp add: skip_ws_def)

lemma skip_stringify [simp]: "printable str_num v \<Longrightarrow> skip_ws (stringify str_num v @ r) = stringify str_num v @ r"
  using stringify_start [of str_num v] by (auto simp: skip_start)

lemma skip_marks [simp]:
  "skip_ws (CHR '','' # s) = CHR '','' # s" "skip_ws (CHR '']'' # s) = CHR '']'' # s"
  "skip_ws (CHR ''}'' # s) = CHR ''}'' # s" "skip_ws (CHR '':'' # s) = CHR '':'' # s"
  "skip_ws (CHR ''['' # s) = CHR ''['' # s" "skip_ws (CHR ''{'' # s) = CHR ''{'' # s"
  "skip_ws (CHR 0x22 # s) = CHR 0x22 # s" "skip_ws [] = []"
  by (simp_all add: skip_ws_def json_ws_def)

lemma collapse_distinct: "distinct (map fst ms) \<Longrightarrow> collapse ms = ms"
proof -
  have "fold (\<lambda>(k, v) m. AList.update k v m) ms m = m @ ms" if "distinct (map fst (m @ ms))" for m
    using that
  proof (induction ms arbitrary: m)
    case (Cons kv ms)
    obtain k v where kv: "kv = (k, v)" by force
    have "AList.update k v m = m @ [(k, v)]" if "k \<notin> fst ` set m" for m
      using that by (induction m) auto
    then show ?case using Cons.IH [of "m @ [kv]"] Cons.prems kv by auto
  qed simp
  from this [of "[]"] show "distinct (map fst ms) \<Longrightarrow> collapse ms = ms" by (simp add: collapse_def)
qed

lemma join_more: "join sep (x # y # ys) = x @ sep @ join sep (y # ys)"
  by simp

lemma join_items:
  "join '','' (item_texts str_num (v # vs)) @ CHR '']'' # r =
     stringify str_num v @ (if vs = [] then CHR '']'' # r else CHR '','' # join '','' (item_texts str_num vs) @ CHR '']'' # r)"
  by (cases vs) simp_all

lemma join_members:
  "join '','' (member_texts str_num ((k, v) # ms)) @ CHR ''}'' # r =
     CHR 0x22 # concat (map json_esc k) @ CHR 0x22 # CHR '':'' # stringify str_num v @
       (if ms = [] then CHR ''}'' # r else CHR '','' # join '','' (member_texts str_num ms) @ CHR ''}'' # r)"
proof (cases ms)
  case (Cons kv ms')
  then show ?thesis by (cases kv) (simp add: json_str_def)
qed (simp add: json_str_def)

lemma parse_num_value:
  assumes "reads_back str_num x" "stops r"
  shows "parse_value (str_num x @ r) = Some (JNum x, r)"
proof -
  obtain c cs where c: "str_num x = c # cs" "c = CHR ''-'' \<or> is_digit c"
    using assms(1) by (cases "str_num x") (auto simp: reads_back_def)
  note start = number_start [OF c(2)]
  have "parse_number (c # cs @ r) = Some (x, r)" using assms c(1) by (simp add: reads_back_def)
  then show ?thesis using start
    unfolding parse_value.simps [of "str_num x @ r"] by (simp add: c(1) skip_start startsWith_def)
qed

lemma parse_printed:
  shows "printable str_num v \<Longrightarrow> stops r \<Longrightarrow> parse_value (stringify str_num v @ r) = Some (v, r)"
    and "printable_items str_num vs \<Longrightarrow> vs \<noteq> [] \<Longrightarrow>
      parse_items (join '','' (item_texts str_num vs) @ CHR '']'' # r) = Some (vs, r)"
    and "printable_members str_num ms \<Longrightarrow> ms \<noteq> [] \<Longrightarrow>
      parse_members (join '','' (member_texts str_num ms) @ CHR ''}'' # r) = Some (ms, r)"
proof (induction str_num v and str_num vs and str_num ms arbitrary: r and r and r
    rule: stringify_item_texts_member_texts.induct)
  case (1 str_num)
  then show ?case by (simp add: parse_value.simps [of "_ # _"] skip_start json_ws_def startsWith_def)
next
  case (2 str_num b)
  then show ?case by (cases b) (simp_all add: parse_value.simps [of "_ # _"] skip_start json_ws_def startsWith_def)
next
  case (3 str_num x)
  then show ?case by (simp add: parse_num_value)
next
  case (4 str_num s)
  then show ?case by (simp add: parse_value.simps [of "_ # _"] json_str_def parse_quoted)
next
  case (5 str_num vs)
  show ?case
  proof (cases vs)
    case Nil
    then show ?thesis by (simp add: parse_value.simps [of "_ # _"])
  next
    case (Cons v vs')
    let ?t = "join '','' (item_texts str_num vs) @ CHR '']'' # r"
    have items: "printable_items str_num vs" using "5.prems" by simp
    with Cons have "printable str_num v" by simp
    then have "skip_ws ?t = ?t" "?t \<noteq> []" "hd ?t \<noteq> CHR '']''"
      unfolding Cons join_items using stringify_start [of str_num v] by auto
    then show ?thesis
      using "5.IH" [OF items, of r] Cons by (simp add: parse_value.simps [of "_ # _"])
  qed
next
  case (6 str_num ms)
  show ?case
  proof (cases ms)
    case Nil
    then show ?thesis by (simp add: parse_value.simps [of "_ # _"])
  next
    case (Cons kv ms')
    let ?t = "join '','' (member_texts str_num ms) @ CHR ''}'' # r"
    obtain k v where kv: "kv = (k, v)" by force
    have members: "printable_members str_num ms" "distinct (map fst ms)" using "6.prems" by simp_all
    have "skip_ws ?t = ?t" "?t \<noteq> []" "hd ?t \<noteq> CHR ''}''"
      unfolding Cons kv join_members by simp_all
    then show ?thesis
      using "6.IH" [OF members(1), of r] Cons collapse_distinct [OF members(2)]
      by (simp add: parse_value.simps [of "_ # _"])
  qed
next
  case (8 str_num v vs)
  let ?rest = "if vs = [] then CHR '']'' # r else CHR '','' # join '','' (item_texts str_num vs) @ CHR '']'' # r"
  have v: "parse_value (stringify str_num v @ ?rest) = Some (v, ?rest)"
    using "8.prems" by (intro "8.IH"(1)) (simp_all add: stops_def)
  show ?case
  proof (cases "vs = []")
    case True
    then show ?thesis using v by (simp add: parse_items.simps [of "_ @ _"])
  next
    case False
    have "parse_items (join '','' (item_texts str_num vs) @ CHR '']'' # r) = Some (vs, r)"
      using "8.prems" False by (intro "8.IH"(2)) simp_all
    then show ?thesis
      unfolding join_items using v False by (simp add: parse_items.simps [of "_ @ _"] cons_fst_def)
  qed
next
  case (10 str_num k v ms)
  let ?rest = "if ms = [] then CHR ''}'' # r else CHR '','' # join '','' (member_texts str_num ms) @ CHR ''}'' # r"
  have v: "parse_value (stringify str_num v @ ?rest) = Some (v, ?rest)"
    using "10.prems" by (intro "10.IH"(1)) (simp_all add: stops_def)
  show ?case
  proof (cases "ms = []")
    case True
    then show ?thesis
      unfolding join_members using v by (simp add: parse_members.simps [of "_ # _"] parse_quoted)
  next
    case False
    have "parse_members (join '','' (member_texts str_num ms) @ CHR ''}'' # r) = Some (ms, r)"
      using "10.prems" False by (intro "10.IH"(2)) simp_all
    then show ?thesis
      unfolding join_members using v False by (simp add: parse_members.simps [of "_ # _"] parse_quoted cons_fst_def)
  qed
qed simp_all

lemma parse_stringify: "printable str_num v \<Longrightarrow> JSON_parse (stringify str_num v) = Some v"
  using parse_printed(1) [of str_num v "[]"] by (simp add: JSON_parse_def stops_def)

text \<open>The decimal text of a natural number is read back.\<close>

lemma radix_no_zero: "2 \<le> b \<Longrightarrow> b \<le> 10 \<Longrightarrow> 0 < n \<Longrightarrow> hd (radix b n) \<noteq> CHR ''0''"
proof (induction b n rule: radix.induct)
  case (1 b n)
  have zero: "digit_char d = CHR ''0'' \<longleftrightarrow> d = 0" if "d < 10" for d
  proof -
    have "digit_char 0 = CHR ''0''" by code_simp
    then show ?thesis using digit_val_digit_char [of d] digit_val_digit_char [of 0] that by auto
  qed
  show ?case
  proof (cases "n < b")
    case True
    then show ?thesis using 1 zero [of n] by (simp add: radix.simps [of b n])
  next
    case False
    then have "0 < n div b" using 1 by (simp add: div_greater_zero_iff)
    with False 1 show ?thesis by (simp add: radix.simps [of b n])
  qed
qed

lemma reads_back_dec: "str_num (of_nat n) = dec n \<Longrightarrow> reads_back str_num (of_nat n)"
proof -
  assume as_dec: "str_num (of_nat n) = dec n"
  have digits: "c \<in> set (dec n) \<Longrightarrow> is_digit c" for c
    using dec_digits [of n] by (simp add: list_all_iff)
  have "parse_number (dec n @ r) = Some (of_nat n, r)" if "stops r" for r
  proof -
    have stop: "r = [] \<or> \<not> is_digit (hd r) \<and> hd r \<noteq> CHR ''.'' \<and> hd r \<noteq> CHR ''e'' \<and> hd r \<noteq> CHR ''E''"
      using that by (auto simp: stops_def is_digit_def)
    then have run: "takeWhile is_digit (dec n @ r) = dec n" "dropWhile is_digit (dec n @ r) = r"
      using digits by (cases r; simp add: takeWhile_append dropWhile_append)+
    have "\<not> (1 < length (dec n) \<and> hd (dec n) = CHR ''0'')"
      using radix_no_zero [of 10 n] by (cases "n = 0") (simp_all add: dec_def radix.simps [of 10 0])
    moreover have "(case dec n @ r of c # t \<Rightarrow> if c = CHR ''-'' then (True, t) else (False, dec n @ r)
        | [] \<Rightarrow> (False, dec n @ r)) = (False, dec n @ r)"
      using digits [of "hd (dec n)"] by (cases "dec n") (auto simp: is_digit_def)
    moreover have "read_nat 10 [] = 0" by (simp add: read_nat_def)
    moreover have "read_frac r = Some ([], r)" "read_exp r = Some (0, r)"
      using stop by (auto simp: read_frac_def read_exp_def split: list.splits)
    ultimately show ?thesis
      using run by (simp add: parse_number_def Let_def scale10_def)
  qed
  moreover have "is_digit (hd (dec n))" by (simp add: digits)
  ultimately show ?thesis by (simp add: reads_back_def as_dec)
qed

end
