(* ===== verification/NavStack.thy ===== *)
theory NavStack
  imports Json
begin

text \<open>
  Navigation (\<open>ui/src/lib/nav.ts\<close>, \<open>navigation-scroll.ts\<close>, \<open>navigation-view-state.tsx\<close> and the list
  of \<open>navigation-items.ts\<close>): the stack of frames, the text that identifies a stack, the state
  machine that remembers the scroll position of the views that are left, and the cache of view
  preferences. A stack is an array with an identity of its own, so the machine sees a pair of an
  identity and the frames.
\<close>

section \<open>Frames and stacks\<close>

datatype NavTag = NavGroup | NavUser | NavDevice

datatype NavFrame =
    FTab Tab
  | FLan string string
  | FGroup string string "NavTag option"
  | FPorts "mac list" string
  | FAp mac string
  | FSsid string string
  | FDevice mac string
  | FRegion string string
  | FTopoSwitch mac string
  | FTopoPort mac string string
  | FTopoBox string
  | FTopoGold nat string

fun kind_of :: "NavFrame \<Rightarrow> string" where
  "kind_of (FTab _) = ''tab''"
| "kind_of (FLan _ _) = ''lan''"
| "kind_of (FGroup _ _ _) = ''group''"
| "kind_of (FPorts _ _) = ''ports''"
| "kind_of (FAp _ _) = ''ap''"
| "kind_of (FSsid _ _) = ''ssid''"
| "kind_of (FDevice _ _) = ''device''"
| "kind_of (FRegion _ _) = ''region''"
| "kind_of (FTopoSwitch _ _) = ''topo-switch''"
| "kind_of (FTopoPort _ _ _) = ''topo-port''"
| "kind_of (FTopoBox _) = ''topo-box''"
| "kind_of (FTopoGold _ _) = ''topo-gold''"

definition tabOf :: "NavFrame list \<Rightarrow> Tab" where
  "tabOf stack = (case stack of FTab t # _ \<Rightarrow> t | _ \<Rightarrow> TMetrics)"

definition pushFrame :: "NavFrame list \<Rightarrow> NavFrame \<Rightarrow> NavFrame list" where
  "pushFrame stack frame = stack @ [frame]"

definition popTo :: "NavFrame list \<Rightarrow> int \<Rightarrow> NavFrame list" where
  "popTo stack index = (if index < 0 then take 1 stack else take (nat (index + 1)) stack)"

definition resetTab :: "Tab \<Rightarrow> NavFrame list" where
  "resetTab tab = [FTab tab]"

text \<open>The loop from the last frame down.\<close>

fun find_down :: "NavFrame list \<Rightarrow> string \<Rightarrow> nat \<Rightarrow> NavFrame option" where
  "find_down stack kind 0 = None"
| "find_down stack kind (Suc i) =
     (if kind_of (stack ! i) = kind then Some (stack ! i) else find_down stack kind i)"

definition findLast :: "NavFrame list \<Rightarrow> string \<Rightarrow> NavFrame option" where
  "findLast stack kind = find_down stack kind (length stack)"

fun crumbLabel :: "NavFrame \<Rightarrow> (Tab \<Rightarrow> string) \<Rightarrow> string" where
  "crumbLabel (FTab t) tabLabel = tabLabel t"
| "crumbLabel (FLan _ l) tabLabel = l"
| "crumbLabel (FGroup _ l _) tabLabel = l"
| "crumbLabel (FPorts _ l) tabLabel = l"
| "crumbLabel (FAp _ l) tabLabel = l"
| "crumbLabel (FSsid _ l) tabLabel = l"
| "crumbLabel (FDevice _ l) tabLabel = l"
| "crumbLabel (FRegion _ l) tabLabel = l"
| "crumbLabel (FTopoSwitch _ l) tabLabel = l"
| "crumbLabel (FTopoPort _ _ l) tabLabel = l"
| "crumbLabel (FTopoBox l) tabLabel = l"
| "crumbLabel (FTopoGold _ l) tabLabel = l"

definition NAV :: "(Tab \<times> string) list" where
  "NAV = [(TMetrics, ''Metrics''), (TInventory, ''Inventory''), (TNetwork, ''Network''),
     (TTopology, ''Topology''), (TWireless, ''Wireless''), (TAudit, ''Audit''),
     (THistory, ''History''), (TDevices, ''Devices''), (TAlarms, ''Alarms''), (TRules, ''Rules''),
     (TGroups, ''Groups''), (TLogs, ''Logs'')]"

section \<open>The text of a stack\<close>

text \<open>\<open>JSON.stringify\<close> on lists of text and whole numbers.\<close>

definition json_strs :: "string list \<Rightarrow> string" where
  "json_strs ss = ''['' @ join '','' (map json_str ss) @ '']''"

fun tab_id :: "Tab \<Rightarrow> string" where
  "tab_id TMetrics = ''metrics''"
| "tab_id TInventory = ''inventory''"
| "tab_id TNetwork = ''network''"
| "tab_id TTopology = ''topology''"
| "tab_id TWireless = ''wireless''"
| "tab_id TAudit = ''audit''"
| "tab_id THistory = ''history''"
| "tab_id TDevices = ''devices''"
| "tab_id TAlarms = ''alarms''"
| "tab_id TRules = ''rules''"
| "tab_id TGroups = ''groups''"
| "tab_id TLogs = ''logs''"
| "tab_id TSettings = ''settings''"
| "tab_id TDebug = ''debug''"
| "tab_id TLegacy = ''legacy''"

fun tag_id_text :: "NavTag \<Rightarrow> string" where
  "tag_id_text NavGroup = ''group''"
| "tag_id_text NavUser = ''user''"
| "tag_id_text NavDevice = ''device''"

text \<open>The fields of a frame but its label, with their values as text, in the order of the object.\<close>

fun identity :: "NavFrame \<Rightarrow> (string \<times> string) list" where
  "identity (FTab t) = [(''tab'', json_str (tab_id t))]"
| "identity (FLan u _) = [(''uuid'', json_str u)]"
| "identity (FGroup i _ t) = (''id'', json_str i) #
     (case t of None \<Rightarrow> [] | Some t \<Rightarrow> [(''tagType'', json_str (tag_id_text t))])"
| "identity (FPorts ms _) = [(''macs'', json_strs ms)]"
| "identity (FAp m _) = [(''mac'', json_str m)]"
| "identity (FSsid k _) = [(''key'', json_str k)]"
| "identity (FDevice m _) = [(''mac'', json_str m)]"
| "identity (FRegion cc _) = [(''cc'', json_str cc)]"
| "identity (FTopoSwitch m _) = [(''mac'', json_str m)]"
| "identity (FTopoPort m p _) = [(''mac'', json_str m), (''port'', json_str p)]"
| "identity (FTopoBox _) = []"
| "identity (FTopoGold n _) = [(''n'', dec n)]"

definition json_field :: "string \<times> string \<Rightarrow> string" where
  "json_field kv = json_str (fst kv) @ '':'' @ snd kv"

definition json_frame :: "NavFrame \<Rightarrow> string" where
  "json_frame f =
     ''{'' @ join '','' (map json_field ((''kind'', json_str (kind_of f)) # identity f)) @ ''}''"

definition navigationKey :: "NavFrame list \<Rightarrow> string" where
  "navigationKey stack = ''['' @ join '','' (map json_frame stack) @ '']''"

definition isNavigationReturn :: "NavFrame list \<Rightarrow> NavFrame list \<Rightarrow> bool" where
  "isNavigationReturn previous target \<longleftrightarrow>
     length target < length previous \<and>
     navigationKey (take (length target) previous) = navigationKey target"

section \<open>The scroll machine\<close>

record Position =
  pos_x :: int
  pos_y :: int
  pos_contentX :: int
  pos_contentY :: int

definition TOP :: Position where
  "TOP = \<lparr>pos_x = 0, pos_y = 0, pos_contentX = 0, pos_contentY = 0\<rparr>"

type_synonym stack_ref = "nat \<times> NavFrame list"

record Scroll =
  sc_previous :: stack_ref
  sc_position :: Position
  sc_positions :: "(string, Position) jsmap"
  sc_scrolled :: "Position list"

definition scroll_init :: "stack_ref \<Rightarrow> Scroll" where
  "scroll_init st = \<lparr>sc_previous = st, sc_position = TOP, sc_positions = [], sc_scrolled = []\<rparr>"

text \<open>
  The layout effect that runs after a render with a stack; \<open>sc_scrolled\<close> lists the positions to
  which the window was sent, the latest first.
\<close>

definition scroll_effect :: "stack_ref \<Rightarrow> bool \<Rightarrow> Scroll \<Rightarrow> Scroll" where
  "scroll_effect st enabled s =
     (if \<not> enabled then s
      else
        let old = sc_previous s; oldKey = navigationKey (snd old); key = navigationKey (snd st) in
        if oldKey \<noteq> key \<or> (fst old \<noteq> fst st \<and> length (snd st) = 1) then
          let positions = AList.update oldKey (sc_position s) (sc_positions s);
              returning = isNavigationReturn (snd old) (snd st);
              target = (if returning
                        then (case map_of positions key of Some p \<Rightarrow> p | None \<Rightarrow> TOP)
                        else TOP);
              positions' = (if length (snd st) = 1 \<and> \<not> returning then [] else positions)
          in s\<lparr>sc_previous := st, sc_position := target, sc_positions := positions',
               sc_scrolled := target # sc_scrolled s\<rparr>
        else s)"

text \<open>The listeners read the position of the window.\<close>

definition scroll_capture :: "Position \<Rightarrow> Scroll \<Rightarrow> Scroll" where
  "scroll_capture p s = s\<lparr>sc_position := p\<rparr>"

datatype ScrollEvent = Render stack_ref bool | Capture Position

inductive scroll_step :: "Scroll \<Rightarrow> ScrollEvent \<Rightarrow> Scroll \<Rightarrow> bool" where
  render: "scroll_step s (Render st enabled) (scroll_effect st enabled s)"
| capture: "scroll_step s (Capture p) (scroll_capture p s)"

inductive scroll_run :: "Scroll \<Rightarrow> ScrollEvent list \<Rightarrow> Scroll \<Rightarrow> bool" where
  idle: "scroll_run s [] s"
| step: "scroll_step s e s' \<Longrightarrow> scroll_run s' es s'' \<Longrightarrow> scroll_run s (e # es) s''"

inductive_cases scroll_step_RenderE: "scroll_step s (Render st enabled) s'"
inductive_cases scroll_step_CaptureE: "scroll_step s (Capture p) s'"
inductive_cases scroll_run_NilE: "scroll_run s [] s'"
inductive_cases scroll_run_ConsE: "scroll_run s (e # es) s'"

section \<open>View preferences\<close>

text \<open>The value of a preference at mount, and its update, on the cache of a navigation.\<close>

definition view_initial :: "(string, 'v) jsmap option \<Rightarrow> string \<Rightarrow> 'v \<Rightarrow> 'v" where
  "view_initial cache key initial =
     (case cache of
        None \<Rightarrow> initial
      | Some m \<Rightarrow> (case map_of m key of Some v \<Rightarrow> v | None \<Rightarrow> initial))"

definition view_update ::
  "string \<Rightarrow> ('v \<Rightarrow> 'v) \<Rightarrow> (string, 'v) jsmap option \<times> 'v \<Rightarrow> (string, 'v) jsmap option \<times> 'v" where
  "view_update key action s =
     (case s of (cache, current) \<Rightarrow>
        let nxt = action current in (map_option (AList.update key nxt) cache, nxt))"

section \<open>The text identifies the stack\<close>

text \<open>A frame without its label.\<close>

fun unlabelled :: "NavFrame \<Rightarrow> NavFrame" where
  "unlabelled (FTab t) = FTab t"
| "unlabelled (FLan u _) = FLan u []"
| "unlabelled (FGroup i _ t) = FGroup i [] t"
| "unlabelled (FPorts ms _) = FPorts ms []"
| "unlabelled (FAp m _) = FAp m []"
| "unlabelled (FSsid k _) = FSsid k []"
| "unlabelled (FDevice m _) = FDevice m []"
| "unlabelled (FRegion cc _) = FRegion cc []"
| "unlabelled (FTopoSwitch m _) = FTopoSwitch m []"
| "unlabelled (FTopoPort m p _) = FTopoPort m p []"
| "unlabelled (FTopoBox _) = FTopoBox []"
| "unlabelled (FTopoGold n _) = FTopoGold n []"

text \<open>
  A printer whose texts can be told apart from what follows them; \<open>g\<close> is the part of the value
  that the text determines.
\<close>

definition prefix_code :: "('a \<Rightarrow> 'b) \<Rightarrow> ('a \<Rightarrow> string) \<Rightarrow> bool" where
  "prefix_code g pr \<longleftrightarrow> (\<forall>x y r s. pr x @ r = pr y @ s \<longrightarrow> g x = g y \<and> r = s)"

lemma prefix_codeI:
  "(\<And>x y r s. pr x @ r = pr y @ s \<Longrightarrow> g x = g y \<and> r = s) \<Longrightarrow> prefix_code g pr"
  unfolding prefix_code_def by blast

lemma prefix_codeD: "prefix_code g pr \<Longrightarrow> pr x @ r = pr y @ s \<Longrightarrow> g x = g y \<and> r = s"
  unfolding prefix_code_def by blast

lemma esc_code: "prefix_code id json_esc"
  by (rule prefix_codeI) (metis id_apply same_append_eq unesc_esc)

text \<open>Texts in quotes.\<close>

lemma quoted_code:
  "concat (map json_esc s) @ CHR 0x22 # r = concat (map json_esc t) @ CHR 0x22 # r' \<Longrightarrow> s = t \<and> r = r'"
proof (induction s arbitrary: t)
  case Nil
  then show ?case using esc_not_quote [of "hd t"] by (cases t) auto
next
  case (Cons c s)
  show ?case
  proof (cases t)
    case Nil
    with Cons.prems esc_not_quote [of c] show ?thesis by auto
  next
    case t: (Cons d t')
    from Cons.prems t have "json_esc c @ concat (map json_esc s) @ CHR 0x22 # r =
        json_esc d @ concat (map json_esc t') @ CHR 0x22 # r'" by simp
    from prefix_codeD [OF esc_code this] Cons.IH [of t'] t show ?thesis by simp
  qed
qed

lemma str_code: "prefix_code id json_str"
proof (rule prefix_codeI)
  fix s t r r'
  assume "json_str s @ r = json_str t @ r'"
  then have "concat (map json_esc s) @ CHR 0x22 # r = concat (map json_esc t) @ CHR 0x22 # r'"
    by (simp add: json_str_def)
  from quoted_code [OF this] show "id s = id t \<and> r = r'" by simp
qed

text \<open>A list in brackets whose items begin with a character that closes no list.\<close>

definition json_list :: "('a \<Rightarrow> string) \<Rightarrow> 'a list \<Rightarrow> string" where
  "json_list pr xs = ''['' @ join '','' (map pr xs) @ '']''"

lemma join_Cons:
  "join '','' (map pr (x # xs)) @ r = pr x @ (if xs = [] then r else CHR '','' # join '','' (map pr xs) @ r)"
  by (cases xs) simp_all

lemma items_code:
  assumes "prefix_code g pr" "\<And>x. \<exists>c cs. pr x = c # cs \<and> c \<noteq> CHR '']''"
  shows "join '','' (map pr xs) @ CHR '']'' # r = join '','' (map pr ys) @ CHR '']'' # r' \<Longrightarrow>
    map g xs = map g ys \<and> r = r'"
proof (induction xs arbitrary: ys)
  case Nil
  then show ?case
    using join_Cons [of pr "hd ys" "tl ys" "CHR '']'' # r'"] assms(2) [of "hd ys"] by (cases ys) auto
next
  case (Cons x xs)
  show ?case
  proof (cases ys)
    case Nil
    with Cons.prems join_Cons [of pr x xs "CHR '']'' # r"] assms(2) [of x] show ?thesis by auto
  next
    case ys: (Cons y ys')
    with Cons.prems have "pr x @ (if xs = [] then CHR '']'' # r else CHR '','' # join '','' (map pr xs) @ CHR '']'' # r) =
        pr y @ (if ys' = [] then CHR '']'' # r' else CHR '','' # join '','' (map pr ys') @ CHR '']'' # r')"
      by (simp only: join_Cons)
    from prefix_codeD [OF assms(1) this] Cons.IH [of ys'] ys show ?thesis by (auto split: if_splits)
  qed
qed

lemma list_code:
  assumes "prefix_code g pr" "\<And>x. \<exists>c cs. pr x = c # cs \<and> c \<noteq> CHR '']''"
  shows "prefix_code (map g) (json_list pr)"
proof (rule prefix_codeI)
  fix xs ys r r'
  assume "json_list pr xs @ r = json_list pr ys @ r'"
  then have "join '','' (map pr xs) @ CHR '']'' # r = join '','' (map pr ys) @ CHR '']'' # r'"
    by (simp add: json_list_def)
  from items_code [OF assms this] show "map g xs = map g ys \<and> r = r'" .
qed

lemma strs_code: "prefix_code (map id) json_strs"
proof -
  have "\<exists>c cs. json_str s = c # cs \<and> c \<noteq> CHR '']''" for s by (simp add: json_str_def)
  moreover have "json_strs = json_list json_str" by (simp add: fun_eq_iff json_strs_def json_list_def)
  ultimately show ?thesis using list_code [OF str_code] by simp
qed

lemma dec_code:
  assumes "dec m @ CHR ''}'' # r = dec n @ CHR ''}'' # s"
  shows "m = n"
proof -
  have "takeWhile is_digit (dec k @ CHR ''}'' # t) = dec k" for k t
    using dec_digits [of k] by (simp add: list_all_iff is_digit_def [of "CHR ''}''"])
  from arg_cong [OF assms, of "takeWhile is_digit"] this show ?thesis by simp
qed

text \<open>
  The part of the text of a frame after its kind: a frame is determined by its kind and this part.
\<close>

definition json_rest :: "NavFrame \<Rightarrow> string" where
  "json_rest f = concat (map (\<lambda>kv. CHR '','' # json_field kv) (identity f)) @ ''}''"

lemma json_frame_rest:
  "json_frame f = ''{'' @ json_str ''kind'' @ '':'' @ json_str (kind_of f) @ json_rest f"
proof -
  have "join '','' (x # xs) = x @ concat (map (\<lambda>y. CHR '','' # y) xs)" for x and xs :: "string list"
    by (induction xs arbitrary: x) simp_all
  then show ?thesis by (simp add: json_frame_def json_rest_def json_field_def comp_def)
qed

lemma tab_id_inj: "tab_id s = tab_id t \<Longrightarrow> s = t"
  by (cases s; cases t) simp_all

lemma tag_id_inj: "tag_id_text s = tag_id_text t \<Longrightarrow> s = t"
  by (cases s; cases t) simp_all

lemmas code_eqs = prefix_codeD [OF str_code] prefix_codeD [OF strs_code]

lemma rest_code:
  assumes "kind_of f = kind_of g" "json_rest f @ r = json_rest g @ s"
  shows "unlabelled f = unlabelled g"
  using assms
  by (cases f; cases g)
    (auto simp: json_rest_def json_field_def dest!: code_eqs dest: dec_code tab_id_inj tag_id_inj
      split: option.splits)

lemma frame_code: "prefix_code unlabelled json_frame"
proof (rule prefix_codeI)
  fix f g r s
  assume "json_frame f @ r = json_frame g @ s"
  then have "json_str (kind_of f) @ json_rest f @ r = json_str (kind_of g) @ json_rest g @ s"
    by (simp add: json_frame_rest)
  from prefix_codeD [OF str_code this] have k: "kind_of f = kind_of g" "json_rest f @ r = json_rest g @ s"
    by simp_all
  from rest_code [OF this] have u: "unlabelled f = unlabelled g" .
  have "json_rest f = json_rest (unlabelled f)" for f by (cases f) (simp_all add: json_rest_def)
  with u k(2) show "unlabelled f = unlabelled g \<and> r = s" by (metis same_append_eq)
qed

lemma navigationKey_unlabelled: "navigationKey s = navigationKey t \<longleftrightarrow> map unlabelled s = map unlabelled t"
proof
  have key: "navigationKey = json_list json_frame"
    by (simp add: fun_eq_iff navigationKey_def json_list_def)
  have "\<exists>c cs. json_frame f = c # cs \<and> c \<noteq> CHR '']''" for f by (simp add: json_frame_rest)
  note code = list_code [OF frame_code this]
  assume "navigationKey s = navigationKey t"
  with prefix_codeD [OF code, of s "[]" t "[]"] show "map unlabelled s = map unlabelled t"
    by (simp add: key)
next
  have "json_frame f = json_frame (unlabelled f)" for f by (cases f) (simp_all add: json_frame_def)
  then have "map json_frame s = map json_frame (map unlabelled s)" for s by simp
  moreover assume "map unlabelled s = map unlabelled t"
  ultimately show "navigationKey s = navigationKey t" unfolding navigationKey_def by metis
qed

text \<open>two stacks have the same key exactly when they are the same frame by frame up to their
  labels: a renamed device or group does not change the key, every other difference does.\<close>

theorem navigationKey_eq: "navigationKey s = navigationKey t \<longleftrightarrow> map unlabelled s = map unlabelled t"
  by (rule navigationKey_unlabelled)

section \<open>Stacks\<close>

lemma popTo_take: "\<exists>n. popTo stack i = take n stack \<and> 0 < n"
  by (auto simp: popTo_def intro: exI [of _ 1] exI [of _ "nat (i + 1)"])

text \<open>going back to an entry of the path keeps a beginning of the stack and the tab it belongs to,
  and it is recognised as a return exactly when frames are left.\<close>

theorem popTo_return:
  "prefix (popTo stack i) stack \<and> tabOf (popTo stack i) = tabOf stack \<and>
   (isNavigationReturn stack (popTo stack i) \<longleftrightarrow> popTo stack i \<noteq> stack)"
proof -
  obtain n where n: "popTo stack i = take n stack" "0 < n" using popTo_take by blast
  have "tabOf (take n stack) = tabOf stack"
    using n(2) by (cases stack; cases n) (auto simp: tabOf_def split: NavFrame.splits)
  moreover have "isNavigationReturn stack (take n stack) \<longleftrightarrow> take n stack \<noteq> stack"
    by (auto simp: isNavigationReturn_def min_def)
  ultimately show ?thesis using n by (simp add: take_is_prefix)
qed

lemma find_down_spec:
  "i \<le> length stack \<Longrightarrow> find_down stack kind i = find (\<lambda>f. kind_of f = kind) (rev (take i stack))"
  by (induction i) (auto simp: take_Suc_conv_app_nth)

text \<open>\<open>findLast\<close> returns the frame of the kind that is nearest to the end of the stack: no frame
  after it has the kind; and nothing only when no frame has it.\<close>

theorem findLast_spec:
  "case findLast stack kind of
     None \<Rightarrow> kind \<notin> kind_of ` set stack
   | Some f \<Rightarrow> \<exists>before after. stack = before @ f # after \<and> kind_of f = kind \<and> kind \<notin> kind_of ` set after"
proof -
  have f: "findLast stack kind = find (\<lambda>f. kind_of f = kind) (rev stack)"
    by (simp add: findLast_def find_down_spec)
  show ?thesis
  proof (cases "findLast stack kind")
    case None
    with f have "find (\<lambda>f. kind_of f = kind) (rev stack) = None" by simp
    then have "\<forall>x \<in> set stack. kind_of x \<noteq> kind" by (simp add: find_None_iff)
    with None show ?thesis by auto
  next
    case (Some x)
    then obtain j where j: "j < length (rev stack)" "x = rev stack ! j" "kind_of x = kind"
      "\<forall>k < j. kind_of (rev stack ! k) \<noteq> kind"
      using f by (auto simp: find_Some_iff)
    have "rev stack = take j (rev stack) @ x # drop (Suc j) (rev stack)"
      using j(1,2) by (simp add: id_take_nth_drop)
    then have "stack = rev (drop (Suc j) (rev stack)) @ x # rev (take j (rev stack))"
      by (metis append.assoc append_Cons append_Nil rev.simps(2) rev_append rev_rev_ident)
    moreover have "kind_of y \<noteq> kind" if "y \<in> set (take j (rev stack))" for y
      using that j(1,4) by (auto simp: in_set_conv_nth)
    then have "kind \<notin> kind_of ` set (rev (take j (rev stack)))" by auto
    ultimately have "\<exists>before after. stack = before @ x # after \<and> kind_of x = kind \<and>
        kind \<notin> kind_of ` set after" using j(3) by metis
    with Some show ?thesis by simp
  qed
qed

section \<open>Scrolling\<close>

text \<open>A stack that lies strictly above another one.\<close>

definition above :: "NavFrame list \<Rightarrow> NavFrame list \<Rightarrow> bool" where
  "above a b \<longleftrightarrow> length a < length b \<and> map unlabelled (take (length a) b) = map unlabelled a"

definition away :: "NavFrame list \<Rightarrow> ScrollEvent \<Rightarrow> bool" where
  "away a e = (case e of Render st enabled \<Rightarrow> enabled \<longrightarrow> above a (snd st) | Capture _ \<Rightarrow> True)"

lemma above_key: "above a b \<Longrightarrow> navigationKey b \<noteq> navigationKey a"
  unfolding navigationKey_unlabelled above_def by (metis length_map less_irrefl)

lemma above_return:
  "above a b \<Longrightarrow> map unlabelled a' = map unlabelled a \<Longrightarrow> isNavigationReturn b a'"
  unfolding isNavigationReturn_def navigationKey_unlabelled above_def by (metis length_map)

text \<open>The position of a view stays stored while the views above it are visited.\<close>

definition stored :: "NavFrame list \<Rightarrow> Position \<Rightarrow> Scroll \<Rightarrow> bool" where
  "stored a p s \<longleftrightarrow> above a (snd (sc_previous s)) \<and> map_of (sc_positions s) (navigationKey a) = Some p"

lemma stored_effect:
  assumes "stored a p s" "a \<noteq> []" "above a (snd st)"
  shows "stored a p (scroll_effect st enabled s)"
proof -
  have "length (snd st) \<noteq> 1" using assms(2,3) by (cases a) (auto simp: above_def)
  moreover have "navigationKey (snd (sc_previous s)) \<noteq> navigationKey a"
    using assms(1) above_key by (simp add: stored_def)
  ultimately show ?thesis
    using assms by (auto simp: stored_def scroll_effect_def Let_def js_map)
qed

lemma stored_run:
  "scroll_run s es s' \<Longrightarrow> stored a p s \<Longrightarrow> a \<noteq> [] \<Longrightarrow> list_all (away a) es \<Longrightarrow> stored a p s'"
proof (induction rule: scroll_run.induct)
  case (step s e s' es s'')
  have "stored a p s'"
    using step.hyps(1)
  proof cases
    case (render st enabled)
    show ?thesis
    proof (cases enabled)
      case True
      with render step.prems stored_effect [OF step.prems(1,2), of st enabled] show ?thesis
        by (simp add: away_def)
    qed (use render step.prems in \<open>simp add: scroll_effect_def\<close>)
  qed (use step.prems in \<open>simp add: stored_def scroll_capture_def\<close>)
  with step show ?case by simp
qed simp

text \<open>C14: a view that is left for a view above it is found again where it was left: after any visits
  of views above it and any scrolling there, the return to it sends the window to the position
  it had when it was left.\<close>

theorem scroll_restored:
  assumes "snd (sc_previous s) = a" "a \<noteq> []" "sc_position s = p"
    and leave: "scroll_step s (Render st True) s1" "above a (snd st)"
    and visits: "scroll_run s1 es s2" "list_all (away a) es"
    and again: "scroll_step s2 (Render st' True) s3" "map unlabelled (snd st') = map unlabelled a"
  shows "hd (sc_scrolled s3) = p \<and> sc_position s3 = p \<and> sc_previous s3 = st'"
proof -
  have "length (snd st) \<noteq> 1" using assms(2,5) by (cases a) (auto simp: above_def)
  moreover have "s1 = scroll_effect st True s" using leave(1) by (auto elim: scroll_step_RenderE)
  ultimately have "stored a p s1"
    using assms(1,3,5) above_key [OF assms(5)]
    by (auto simp: stored_def scroll_effect_def Let_def js_map)
  then have st2: "stored a p s2" using stored_run visits assms(2) by blast
  have "s3 = scroll_effect st' True s2" using again(1) by (auto elim: scroll_step_RenderE)
  moreover have key: "navigationKey (snd st') = navigationKey a"
    using again(2) by (simp add: navigationKey_unlabelled)
  moreover have "isNavigationReturn (snd (sc_previous s2)) (snd st')"
    "navigationKey (snd (sc_previous s2)) \<noteq> navigationKey a"
    using st2 above_return [OF _ again(2)] above_key by (auto simp: stored_def)
  ultimately show ?thesis
    using st2 by (simp add: stored_def scroll_effect_def Let_def js_map)
qed

theorem scroll_restored_witness:
  "let p = \<lparr>pos_x = 0, pos_y = 420, pos_contentX = 0, pos_contentY = 7\<rparr>;
       a = [FTab TDevices, FGroup ''1'' ''Lab'' None];
       b = a @ [FDevice ''00:00:00:00:00:01'' ''Test device''];
       s1 = scroll_effect (1, b) True (scroll_capture p (scroll_init (0, a)));
       s3 = scroll_effect (2, a) True (scroll_capture TOP s1)
   in hd (sc_scrolled s3) = p"
proof -
  let ?p = "\<lparr>pos_x = 0, pos_y = 420, pos_contentX = 0, pos_contentY = 7\<rparr>"
  let ?a = "[FTab TDevices, FGroup ''1'' ''Lab'' None]"
  let ?b = "?a @ [FDevice ''00:00:00:00:00:01'' ''Test device'']"
  let ?s = "scroll_capture ?p (scroll_init (0, ?a))"
  let ?s1 = "scroll_effect (1, ?b) True ?s"
  let ?s2 = "scroll_capture TOP ?s1"
  have "scroll_run ?s1 [Capture TOP] ?s2" by (blast intro: scroll_run.intros scroll_step.intros)
  then have "hd (sc_scrolled (scroll_effect (2, ?a) True ?s2)) = ?p"
    using scroll_restored [of ?s ?a ?p "(1, ?b)" ?s1 "[Capture TOP]" ?s2 "(2, ?a)"]
    by (simp add: scroll_capture_def [of ?p] scroll_init_def above_def away_def scroll_step.intros)
  then show ?thesis by (simp only: Let_def)
qed

end
