(* ===== verification/Format.thy ===== *)
theory Format
  imports JsRegex UiTypes
begin

text \<open>
  Texts for figures, times, names and tags (\<open>ui/src/lib/format.ts\<close>, \<open>alarms.ts\<close>, \<open>maker.ts\<close>). A
  number of the language is a rational, NaN or an infinity; printing a fraction as the language
  does (\<open>String\<close>) and the printing that depends on the locale (\<open>toLocaleString\<close>) are parameters.
  The em dash U+2014 stands as its three bytes in UTF-8.
\<close>

definition EM_DASH :: string where
  "EM_DASH = [CHR 0xE2, CHR 0x80, CHR 0x94]"

section \<open>Figures\<close>

text \<open>\<open>Math.round\<close>, and \<open>x.toFixed(f)\<close> for numbers below 10 to the 21.\<close>

definition js_round :: "rat \<Rightarrow> int" where
  "js_round x = \<lfloor>x + 1 / 2\<rfloor>"

definition to_fixed_abs :: "nat \<Rightarrow> rat \<Rightarrow> string" where
  "to_fixed_abs f x =
     (let n = nat \<lfloor>x * 10 ^ f + 1 / 2\<rfloor> in
      if f = 0 then dec n
      else dec (n div 10 ^ f) @ ''.'' @ padStart f CHR ''0'' (dec (n mod 10 ^ f)))"

definition toFixed :: "nat \<Rightarrow> rat \<Rightarrow> string" where
  "toFixed f x = (if x < 0 then ''-'' @ to_fixed_abs f (- x) else to_fixed_abs f x)"

definition inf_text :: "bool \<Rightarrow> string" where
  "inf_text pos = (if pos then ''Infinity'' else ''-Infinity'')"

definition fmtBytes :: "jsnum option \<Rightarrow> string" where
  "fmtBytes v =
     (case v of
        None \<Rightarrow> EM_DASH
      | Some NaN \<Rightarrow> EM_DASH
      | Some (Inf p) \<Rightarrow> inf_text p @ '' TB''
      | Some (Num x) \<Rightarrow>
          if 10 ^ 12 \<le> \<bar>x\<bar> then toFixed 2 (x / 10 ^ 12) @ '' TB''
          else if 10 ^ 9 \<le> \<bar>x\<bar> then toFixed 2 (x / 10 ^ 9) @ '' GB''
          else if 10 ^ 6 \<le> \<bar>x\<bar> then toFixed 2 (x / 10 ^ 6) @ '' MB''
          else if 10 ^ 3 \<le> \<bar>x\<bar> then toFixed 1 (x / 10 ^ 3) @ '' KB''
          else dec_int (js_round x) @ '' B'')"

definition fmtCount :: "(jsnum \<Rightarrow> string) \<Rightarrow> jsnum option \<Rightarrow> string" where
  "fmtCount toLocaleString v =
     (case v of
        None \<Rightarrow> EM_DASH
      | Some NaN \<Rightarrow> EM_DASH
      | Some (Inf p) \<Rightarrow> toLocaleString (Inf p)
      | Some (Num x) \<Rightarrow> toLocaleString (Num (of_int (js_round x))))"

definition fmtMbps :: "jsnum option \<Rightarrow> string" where
  "fmtMbps v =
     (case v of
        None \<Rightarrow> EM_DASH
      | Some NaN \<Rightarrow> EM_DASH
      | Some (Inf p) \<Rightarrow> inf_text p
      | Some (Num x) \<Rightarrow> if 100 \<le> x then toFixed 0 x else if 10 \<le> x then toFixed 1 x else toFixed 2 x)"

text \<open>\<open>s.replace(/\.0$/, '')\<close>\<close>

definition strip_dot0 :: "string \<Rightarrow> string" where
  "strip_dot0 s = (if 2 \<le> length s \<and> drop (length s - 2) s = ''.0'' then take (length s - 2) s else s)"

definition fmtPlanMbps :: "(rat \<Rightarrow> string) \<Rightarrow> jsnum option \<Rightarrow> string" where
  "fmtPlanMbps num_text v =
     (case v of
        None \<Rightarrow> EM_DASH
      | Some NaN \<Rightarrow> EM_DASH
      | Some (Inf p) \<Rightarrow> if p then inf_text p @ '' Gbps'' else EM_DASH
      | Some (Num x) \<Rightarrow>
          if x \<le> 0 then EM_DASH
          else if 1000 \<le> x then
            let g = x / 1000 in
            (if of_int \<lfloor>g\<rfloor> = g then dec_int \<lfloor>g\<rfloor> else strip_dot0 (num_text g)) @ '' Gbps''
          else dec_int (js_round x) @ '' Mbps'')"

definition falsy_num :: "jsnum option \<Rightarrow> bool" where
  "falsy_num v \<longleftrightarrow> v = None \<or> v = Some NaN \<or> v = Some (Num 0)"

definition fmtPlan :: "(rat \<Rightarrow> string) \<Rightarrow> jsnum option \<Rightarrow> jsnum option \<Rightarrow> string" where
  "fmtPlan num_text down up =
     (if falsy_num down \<and> falsy_num up then []
      else fmtPlanMbps num_text down @ '' / '' @ fmtPlanMbps num_text up)"

definition fmtTime :: "(int \<Rightarrow> string) \<Rightarrow> ts \<Rightarrow> string" where
  "fmtTime date_text t = (if t = 0 then EM_DASH else date_text (t * 1000))"

definition cpuBusy :: "jsnum option \<Rightarrow> rat" where
  "cpuBusy idle =
     (case idle of
        None \<Rightarrow> 0
      | Some NaN \<Rightarrow> 0
      | Some (Inf p) \<Rightarrow> if p then 0 else 100
      | Some (Num i) \<Rightarrow> max 0 (min 100 (100 - i)))"

datatype Tone = ToneOk | ToneWarn | ToneBad

definition cpuTone :: "rat \<Rightarrow> Tone" where
  "cpuTone pct = (if 90 \<le> pct then ToneBad else if 70 \<le> pct then ToneWarn else ToneOk)"

definition fmtRelative :: "ts \<Rightarrow> int \<Rightarrow> string" where
  "fmtRelative tsSec nowMs =
     (let diff = nowMs - tsSec * 1000 in
      if diff < 0 then ''now''
      else if diff < MIN_MS then dec_int (max 1 (diff div 1000)) @ ''s''
      else if diff < HOUR_MS then dec_int (diff div MIN_MS) @ ''m''
      else if diff < DAY_MS then dec_int (diff div HOUR_MS) @ ''h''
      else if diff < 7 * DAY_MS then dec_int (diff div DAY_MS) @ ''d''
      else if diff < 30 * DAY_MS then dec_int (diff div (7 * DAY_MS)) @ ''w''
      else dec_int (diff div (30 * DAY_MS)) @ ''mo'')"

section \<open>Devices, interfaces and load\<close>

definition preferredName :: "Device \<Rightarrow> string" where
  "preferredName d =
     or_else (or_else (trim (dev_name d)) (opt_trim (dev_local_domain d))) (dev_mac d)"

definition ONLINE_WINDOW_SEC :: int where
  "ONLINE_WINDOW_SEC = 15 * 60"

text \<open>\<open>nowMs / 1000 - d.last_active_ts < ONLINE_WINDOW_SEC\<close>, multiplied by 1000.\<close>

definition deviceOnline :: "Device \<Rightarrow> int \<Rightarrow> bool" where
  "deviceOnline d nowMs =
     (case dev_last_active_ts d of
        None \<Rightarrow> False
      | Some t \<Rightarrow> t \<noteq> 0 \<and> nowMs - t * 1000 < ONLINE_WINDOW_SEC * 1000)"

definition ifaceLabel :: "string \<Rightarrow> NetIface list \<Rightarrow> (string, WANLink) jsmap option \<Rightarrow> string" where
  "ifaceLabel name network wan =
     (case Option.bind wan (\<lambda>m. map_of m name) of
        Some w \<Rightarrow> if wl_name w \<noteq> [] then wl_name w @ '' ('' @ name @ '')''
                  else (case find (\<lambda>x. ni_name x = name) network of
                          Some n \<Rightarrow> if truthy (ni_desc n) then opt_str (ni_desc n) @ '' ('' @ name @ '')'' else name
                        | None \<Rightarrow> name)
      | None \<Rightarrow> (case find (\<lambda>x. ni_name x = name) network of
                   Some n \<Rightarrow> if truthy (ni_desc n) then opt_str (ni_desc n) @ '' ('' @ name @ '')'' else name
                 | None \<Rightarrow> name))"

datatype LoadLevel = LoadOk | LoadElevated | LoadHigh

record LoadPressure =
  lp_level :: LoadLevel
  lp_label :: string
  lp_pct :: "rat option"
  lp_cores :: "nat option"

definition loadPressure :: "Load \<Rightarrow> LoadPressure" where
  "loadPressure load =
     (let cores = (case ld_cores load of Some (Suc c) \<Rightarrow> Some (Suc c) | _ \<Rightarrow> None);
          pct = map_option (\<lambda>c. ld_m1 load / of_nat c * 100) cores
      in case pct of
           Some p \<Rightarrow>
             if 100 \<le> p then \<lparr>lp_level = LoadHigh, lp_label = ''High'', lp_pct = pct, lp_cores = cores\<rparr>
             else if 70 \<le> p then \<lparr>lp_level = LoadElevated, lp_label = ''Elevated'', lp_pct = pct, lp_cores = cores\<rparr>
             else \<lparr>lp_level = LoadOk, lp_label = ''Normal'', lp_pct = pct, lp_cores = cores\<rparr>
         | None \<Rightarrow>
             if 3 \<le> ld_m1 load then \<lparr>lp_level = LoadHigh, lp_label = ''High'', lp_pct = None, lp_cores = None\<rparr>
             else if 3 / 2 \<le> ld_m1 load
             then \<lparr>lp_level = LoadElevated, lp_label = ''Elevated'', lp_pct = None, lp_cores = None\<rparr>
             else \<lparr>lp_level = LoadOk, lp_label = ''Normal'', lp_pct = None, lp_cores = None\<rparr>)"

section \<open>Tags and labels\<close>

text \<open>\<open>/^[0-9a-f]{8}-[0-9a-f]{4}-[0-9a-f]{4}-[0-9a-f]{4}-[0-9a-f]{12}$/i\<close>\<close>

definition rx_uuid :: rx where
  "rx_uuid =
     (let h = (\<lambda>n. Rep n (Some n) (Cls is_hex)); d = Chr CHR ''-'' in
      Seqs [Bol, h 8, d, h 4, d, h 4, d, h 4, d, h 12, Eol])"

definition formatTagName :: "Tag \<Rightarrow> string" where
  "formatTagName t =
     (let name = or_else (trim (tag_name t)) (tag_id t) in
      if test rx_uuid name then ''group '' @ tag_id t else name)"

definition affiliatedUserByGroup :: "Tag list \<Rightarrow> (string, Tag) jsmap" where
  "affiliatedUserByGroup tags =
     fold (\<lambda>t out.
       if tag_type t \<noteq> Some ''user'' then out
       else let af = opt_trim (tag_affiliated_tag t) in
         if af \<noteq> [] then AList.update af t out else out) tags []"

definition resolveTagName :: "Tag \<Rightarrow> (string, Tag) jsmap \<Rightarrow> string" where
  "resolveTagName t afUsers =
     (case map_of afUsers (tag_id t) of Some user \<Rightarrow> formatTagName user | None \<Rightarrow> formatTagName t)"

definition netLabel :: "NetIface \<Rightarrow> string" where
  "netLabel n = or_else (opt_trim (ni_desc n)) (ni_name n)"

definition DAP_LABEL :: "(string, string) jsmap" where
  "DAP_LABEL = [(''learning'', ''Learning''), (''optimizing'', ''Optimizing''), (''active'', ''Active''),
     (''not_applicable'', ''Not applicable''), (''disabled'', ''Disabled'')]"

definition dapLabel :: "string option \<Rightarrow> string" where
  "dapLabel status =
     (if \<not> truthy status then []
      else or_else (opt_str (map_of DAP_LABEL (opt_str status))) (opt_str status))"

section \<open>Alarms, tags of a host and makers\<close>

definition alarmCountLimited :: "string option \<Rightarrow> int \<Rightarrow> bool" where
  "alarmCountLimited source n \<longleftrightarrow> source = Some ''fw-app-get'' \<and> 500 \<le> n"

definition formatAlarmCount :: "int \<Rightarrow> bool \<Rightarrow> string" where
  "formatAlarmCount n limited = dec_int n @ (if limited then ''+'' else [])"

definition hostTagsAdd :: "string list \<Rightarrow> string \<Rightarrow> string list" where
  "hostTagsAdd tags i = (if i \<in> set tags then tags else tags @ [i])"

definition hostTagsRemove :: "string list \<Rightarrow> string \<Rightarrow> string list" where
  "hostTagsRemove tags i = filter (\<lambda>t. t \<noteq> i) tags"

datatype Maker = MkFirewalla | MkUnifi | MkTplink

fun makerLogo :: "Maker \<Rightarrow> string" where
  "makerLogo MkFirewalla = ''/logos/firewalla.png''"
| "makerLogo MkUnifi = ''/logos/unifi.png''"
| "makerLogo MkTplink = ''/logos/tplink.png''"

fun makerLabel :: "Maker \<Rightarrow> string" where
  "makerLabel MkFirewalla = ''Firewalla''"
| "makerLabel MkUnifi = ''UniFi''"
| "makerLabel MkTplink = ''TP-Link''"

definition switchMaker :: "string option \<Rightarrow> string option \<Rightarrow> string option \<Rightarrow> string option \<Rightarrow> Maker option" where
  "switchMaker source model name vendor =
     (if source = Some ''unifi'' then Some MkUnifi
      else if source = Some ''tplink'' then Some MkTplink
      else if test (Seqs [Bol, LitI ''fwsw'']) (opt_str model) \<or> test (LitI ''firewalla'') (opt_str model)
           \<or> test (LitI ''firewalla'') (opt_str name) then Some MkFirewalla
      else let v = toLowerCase (opt_str vendor) in
        if test (Alts [Lit ''ubiquiti'', Lit ''unifi'', Seqs [WordB, Lit ''ui'', WordB]]) v then Some MkUnifi
        else if test (Lit ''firewalla'') v then Some MkFirewalla
        else if test (Seqs [Lit ''tp'', Opt (Chr CHR ''-''), Lit ''link'']) v then Some MkTplink
        else None)"

section \<open>Properties\<close>

text \<open>An age in milliseconds as a whole number of units.\<close>

definition in_units :: "int \<Rightarrow> int \<Rightarrow> int \<Rightarrow> int \<Rightarrow> bool" where
  "in_units n unit limit age \<longleftrightarrow>
     1 \<le> n \<and> n < limit \<and> n * unit \<le> max unit age \<and> age < (n + 1) * unit"

lemma div_bounds:
  fixes u age :: int
  assumes "0 < u"
  shows "age div u * u \<le> age" "age < (age div u + 1) * u"
proof -
  have "0 \<le> age mod u" "age mod u < u" "age = age div u * u + age mod u"
    "(age div u + 1) * u = age div u * u + u"
    using assms by (simp_all add: distrib_right)
  then show "age div u * u \<le> age" "age < (age div u + 1) * u" by linarith+
qed

lemma in_units_div:
  assumes "0 < u" "u \<le> age" "age < L * u"
  shows "in_units (age div u) u L age"
proof -
  note fl = div_bounds [OF assms(1), of age]
  have "1 \<le> age div u" using assms(1,2) by (simp add: pos_imp_zdiv_pos_iff int_one_le_iff_zero_less)
  moreover have "age div u < L"
    using assms(1,3) fl(1) mult_right_mono [of L "age div u" u] by linarith
  ultimately show ?thesis using fl by (auto simp: in_units_def)
qed

text \<open>the age of an event is shown in the unit that fits: the number shown is the age in the unit,
  rounded down, it is at least 1 and stays below the next unit (60 seconds, 60 minutes, 24
  hours, 7 days, 5 weeks); only an age under a second is shown as one second.\<close>

theorem fmtRelative_unit:
  assumes "tsSec * 1000 \<le> nowMs"
  shows "\<exists>n unit limit suffix. fmtRelative tsSec nowMs = dec_int n @ suffix \<and>
    in_units n unit limit (nowMs - tsSec * 1000) \<and>
    (suffix, unit, limit) \<in> {(''s'', 1000, 60), (''m'', 60000, 60), (''h'', 3600000, 24),
       (''d'', 86400000, 7), (''w'', 604800000, 5), (''mo'', 2592000000, n + 1)}"
proof -
  define diff where "diff = nowMs - tsSec * 1000"
  have d: "0 \<le> diff" using assms by (simp add: diff_def)
  have eq: "fmtRelative tsSec nowMs =
     (if diff < 60000 then dec_int (max 1 (diff div 1000)) @ ''s''
      else if diff < 3600000 then dec_int (diff div 60000) @ ''m''
      else if diff < 86400000 then dec_int (diff div 3600000) @ ''h''
      else if diff < 604800000 then dec_int (diff div 86400000) @ ''d''
      else if diff < 2592000000 then dec_int (diff div 604800000) @ ''w''
      else dec_int (diff div 2592000000) @ ''mo'')"
    using d by (simp add: fmtRelative_def Let_def ms_units diff_def [symmetric])
  have shown: ?thesis if "fmtRelative tsSec nowMs = dec_int n @ suffix" "in_units n unit limit diff"
      "(suffix, unit, limit) \<in> {(''s'', 1000, 60), (''m'', 60000, 60), (''h'', 3600000, 24),
       (''d'', 86400000, 7), (''w'', 604800000, 5), (''mo'', 2592000000, n + 1)}" for n unit limit suffix
    using that unfolding diff_def by blast
  consider "diff < 1000" | "1000 \<le> diff" "diff < 60000" | "60000 \<le> diff" "diff < 3600000"
    | "3600000 \<le> diff" "diff < 86400000" | "86400000 \<le> diff" "diff < 604800000"
    | "604800000 \<le> diff" "diff < 2592000000" | "2592000000 \<le> diff"
    by linarith
  then show ?thesis
  proof cases
    case 1
    with d show ?thesis
      by (intro shown [of 1 "''s''" 1000 60]) (simp_all add: eq in_units_def div_pos_pos_trivial)
  next
    case 2
    with in_units_div [of 1000 diff 60] show ?thesis
      by (intro shown [of "diff div 1000" "''s''" 1000 60]) (simp_all add: eq in_units_def max_def)
  next
    case 3
    with in_units_div [of 60000 diff 60] show ?thesis
      by (intro shown [of "diff div 60000" "''m''" 60000 60]) (simp_all add: eq)
  next
    case 4
    with in_units_div [of 3600000 diff 24] show ?thesis
      by (intro shown [of "diff div 3600000" "''h''" 3600000 24]) (simp_all add: eq)
  next
    case 5
    with in_units_div [of 86400000 diff 7] show ?thesis
      by (intro shown [of "diff div 86400000" "''d''" 86400000 7]) (simp_all add: eq)
  next
    case 6
    with in_units_div [of 604800000 diff 5] show ?thesis
      by (intro shown [of "diff div 604800000" "''w''" 604800000 5]) (simp_all add: eq)
  next
    case 7
    have "diff < (diff div 2592000000 + 1) * 2592000000" by (rule div_bounds) simp
    with 7 in_units_div [of 2592000000 diff "diff div 2592000000 + 1"] show ?thesis
      by (intro shown [of "diff div 2592000000" "''mo''" 2592000000 "diff div 2592000000 + 1"])
        (simp_all add: eq)
  qed
qed

theorem fmtRelative_unit_witness:
  "\<exists>n unit limit suffix. fmtRelative 100 7300000 = dec_int n @ suffix \<and>
    in_units n unit limit 7200000 \<and>
    (suffix, unit, limit) \<in> {(''s'', 1000, 60), (''m'', 60000, 60), (''h'', 3600000, 24),
       (''d'', 86400000, 7), (''w'', 604800000, 5), (''mo'', 2592000000, n + 1)}"
  using fmtRelative_unit [of 100 7300000] by simp

text \<open>The last user of the list that is affiliated with a group.\<close>

definition owner_of :: "Tag list \<Rightarrow> string \<Rightarrow> Tag option" where
  "owner_of tags g =
     find (\<lambda>t. tag_type t = Some ''user'' \<and> opt_trim (tag_affiliated_tag t) = g) (rev tags)"

lemma affiliated_get:
  assumes "g \<noteq> []"
  shows "map_of (affiliatedUserByGroup tags) g = owner_of tags g"
proof (induction tags rule: rev_induct)
  case (snoc t tags)
  then show ?case
    using assms
    by (auto simp: affiliatedUserByGroup_def owner_of_def Let_def js_map)
qed (simp add: affiliatedUserByGroup_def owner_of_def)

text \<open>a group that belongs to a user is shown under the name of that user (of the last one, if
  several users claim it), every other tag under its own name.\<close>

theorem resolveTagName_owner:
  assumes "tag_id t \<noteq> []"
  shows "resolveTagName t (affiliatedUserByGroup tags) =
    formatTagName (case owner_of tags (tag_id t) of Some user \<Rightarrow> user | None \<Rightarrow> t)"
  using affiliated_get [OF assms, of tags] by (simp add: resolveTagName_def split: option.splits)

theorem resolveTagName_owner_witness:
  "resolveTagName \<lparr>tag_id = ''7'', tag_name = ''g7'', tag_type = Some ''group'', tag_affiliated_tag = None\<rparr>
     (affiliatedUserByGroup [\<lparr>tag_id = ''3'', tag_name = ''Ann'', tag_type = Some ''user'',
        tag_affiliated_tag = Some '' 7''\<rparr>]) = ''Ann''"
proof -
  let ?t = "\<lparr>tag_id = ''7'', tag_name = ''g7'', tag_type = Some ''group'', tag_affiliated_tag = None\<rparr>"
  let ?u = "\<lparr>tag_id = ''3'', tag_name = ''Ann'', tag_type = Some ''user'', tag_affiliated_tag = Some '' 7''\<rparr>"
  have "opt_trim (Some '' 7'') = ''7''" "formatTagName ?u = ''Ann''" by code_simp+
  then show ?thesis
    using resolveTagName_owner [of ?t "[?u]"] by (simp add: owner_of_def)
qed

end
