(* ===== verification/DeviceSearch.thy ===== *)
theory DeviceSearch
  imports Format SwitchPort
begin

text \<open>
  Search and filters of the device list (\<open>ui/src/lib/device-search.ts\<close>, \<open>device-col-filter.ts\<close>, the
  columns of \<open>device-cols.ts\<close> and the filter of \<open>device-active.ts\<close>). A query is free text with fields
  \<open>Label:value\<close>; the comparison of texts by locale is the parameter \<open>lc\<close>.
\<close>

section \<open>Fields\<close>

datatype SearchKey =
  SDevice | SUser | SGroup | SStatus | SDapstatus | SNetwork | SSwitch | SPort | SIp | SMac | SManufacturer

fun key_text :: "SearchKey \<Rightarrow> string" where
  "key_text SDevice = ''device''"
| "key_text SUser = ''user''"
| "key_text SGroup = ''group''"
| "key_text SStatus = ''status''"
| "key_text SDapstatus = ''dapstatus''"
| "key_text SNetwork = ''network''"
| "key_text SSwitch = ''switch''"
| "key_text SPort = ''port''"
| "key_text SIp = ''ip''"
| "key_text SMac = ''mac''"
| "key_text SManufacturer = ''manufacturer''"

record SearchField =
  sf_key :: SearchKey
  sf_label :: string
  sf_hint :: string

definition SEARCH_FIELDS :: "SearchField list" where
  "SEARCH_FIELDS =
     [\<lparr>sf_key = SDevice, sf_label = ''Device'', sf_hint = ''Any device connected to your box''\<rparr>,
      \<lparr>sf_key = SUser, sf_label = ''User'', sf_hint = ''Any user created by you''\<rparr>,
      \<lparr>sf_key = SGroup, sf_label = ''Group'', sf_hint = ''Any group created by you''\<rparr>,
      \<lparr>sf_key = SStatus, sf_label = ''Status'', sf_hint = ''Online or Offline''\<rparr>,
      \<lparr>sf_key = SDapstatus, sf_label = ''DAPStatus'', sf_hint = ''Learning, Optimizing, Active, or N/A''\<rparr>,
      \<lparr>sf_key = SNetwork, sf_label = ''Network'', sf_hint = ''Any network created by you''\<rparr>,
      \<lparr>sf_key = SSwitch, sf_label = ''Switch'', sf_hint = ''Managed switch name''\<rparr>,
      \<lparr>sf_key = SPort, sf_label = ''Port'', sf_hint = ''Switch port number''\<rparr>,
      \<lparr>sf_key = SIp, sf_label = ''IP'', sf_hint = ''Device IP address''\<rparr>,
      \<lparr>sf_key = SMac, sf_label = ''MAC'', sf_hint = ''Device MAC address''\<rparr>,
      \<lparr>sf_key = SManufacturer, sf_label = ''Manufacturer'', sf_hint = ''Device manufacturer''\<rparr>]"

definition LABEL_BY_KEY :: "SearchKey \<Rightarrow> string" where
  "LABEL_BY_KEY k = (case find (\<lambda>f. sf_key f = k) SEARCH_FIELDS of Some f \<Rightarrow> sf_label f | None \<Rightarrow> [])"

definition all_keys :: "SearchKey list" where
  "all_keys = map sf_key SEARCH_FIELDS"

text \<open>The key with a given lower-case text.\<close>

definition key_of_text :: "string \<Rightarrow> SearchKey" where
  "key_of_text s = (case find (\<lambda>k. key_text k = s) all_keys of Some k \<Rightarrow> k | None \<Rightarrow> SDevice)"

record FieldValue =
  fv_key :: SearchKey
  fv_value :: string

record ParsedQuery =
  pq_fields :: "FieldValue list"
  pq_text :: string

section \<open>Reading a query\<close>

text \<open>\<open>device|user|group|dapstatus|status|network|switch|port|ip|mac|manufacturer\<close> without case.\<close>

definition rx_names :: rx where
  "rx_names = Alts [LitI ''device'', LitI ''user'', LitI ''group'', LitI ''dapstatus'', LitI ''status'',
     LitI ''network'', LitI ''switch'', LitI ''port'', LitI ''ip'', LitI ''mac'', LitI ''manufacturer'']"

text \<open>\<open>/(^|\s)(device|...|manufacturer):/gi\<close>\<close>

definition KEY_RE :: rx where
  "KEY_RE = Seqs [Alt Bol (Cls is_ws), rx_names, Chr CHR '':'']"

text \<open>
  A match is a space or nothing, a key and a colon: the first group has length 1 exactly when the
  match begins with a space.
\<close>

definition query_part :: "string \<Rightarrow> nat \<times> nat \<Rightarrow> nat \<times> SearchKey" where
  "query_part raw m =
     (case m of (a, b) \<Rightarrow>
        let start = (if is_ws (raw ! a) then a + 1 else a) in
        (start, key_of_text (toLowerCase (js_slice start (b - 1) raw))))"

text \<open>The loop over the parts, with the text and the fields so far and the cursor.\<close>

fun query_loop ::
  "string \<Rightarrow> (nat \<times> SearchKey) list \<Rightarrow> string \<Rightarrow> FieldValue list \<Rightarrow> nat \<Rightarrow> string \<times> FieldValue list" where
  "query_loop raw [] text fs cursor = (text @ drop cursor raw, fs)"
| "query_loop raw ((start, key) # ps) text fs cursor =
     (let valueStart = start + length (key_text key) + 1;
          valueEnd = (case ps of (s, _) # _ \<Rightarrow> s | [] \<Rightarrow> length raw)
      in query_loop raw ps (text @ js_slice cursor start raw)
           (fs @ [\<lparr>fv_key = key, fv_value = trim (js_slice valueStart valueEnd raw)\<rparr>]) valueEnd)"

text \<open>\<open>s.replace(/\s+/g, ' ')\<close>\<close>

function squeeze :: "string \<Rightarrow> string" where
  "squeeze [] = []"
| "squeeze (c # s) =
     (if is_ws c then CHR '' '' # squeeze (dropWhile is_ws s) else c # squeeze s)"
  by pat_completeness auto
termination
  by (relation "measure length") (auto simp: less_Suc_eq_le length_dropWhile_le)

definition parseDeviceQuery :: "string \<Rightarrow> ParsedQuery" where
  "parseDeviceQuery raw =
     (let parts = map (query_part raw) (exec_all KEY_RE raw 0);
          (text, fields) = query_loop raw parts [] [] 0
      in \<lparr>pq_fields = fields, pq_text = trim (squeeze text)\<rparr>)"

section \<open>Completing a query\<close>

datatype LastToken = TokField SearchKey string | TokPrefix string

text \<open>\<open>s.lastIndexOf(t)\<close>, with None for -1.\<close>

definition lastIndexOf :: "string \<Rightarrow> string \<Rightarrow> nat option" where
  "lastIndexOf s t = find (\<lambda>i. take (length t) (drop i s) = t) (rev [0..<length s + 1])"

definition rx_space_key :: rx where
  "rx_space_key = Seqs [Cls is_ws, rx_names, Chr CHR '':'']"

text \<open>\<open>/(?:^|\s)([a-z]*)$/i.exec(raw)?.[1] ?? ''\<close>\<close>

definition rx_word_end :: rx where
  "rx_word_end = Seqs [Alt Bol (Cls is_ws), Star (Cls is_alpha), Eol]"

definition word_end :: "string \<Rightarrow> string" where
  "word_end raw =
     (case exec_from rx_word_end raw 0 of
        None \<Rightarrow> []
      | Some (a, b) \<Rightarrow> js_slice (if a < length raw \<and> is_ws (raw ! a) then a + 1 else a) b raw)"

definition lastToken :: "string \<Rightarrow> LastToken" where
  "lastToken raw =
     (let fields = pq_fields (parseDeviceQuery raw);
          trimmed = trimEnd raw;
          prefix = TokPrefix (toLowerCase (word_end raw))
      in if fields = [] then prefix
         else
           let key = fv_key (last fields); label = LABEL_BY_KEY key in
           case lastIndexOf (toLowerCase trimmed) (toLowerCase label @ '':'') of
             None \<Rightarrow> prefix
           | Some k \<Rightarrow>
               let after = drop (k + length label + 1) trimmed in
               if \<not> test rx_space_key ('' '' @ after) then
                 if raw \<noteq> [] \<and> is_ws (last raw) \<and> trim after \<noteq> [] then TokPrefix []
                 else TokField key (trim after)
               else prefix)"

text \<open>\<open>raw.replace(/[a-z]*$/i, t)\<close>\<close>

definition replace_word_end :: "string \<Rightarrow> string \<Rightarrow> string" where
  "replace_word_end raw t = rev (dropWhile is_alpha (rev raw)) @ t"

definition applyField :: "string \<Rightarrow> string \<Rightarrow> string" where
  "applyField raw label =
     (case lastToken raw of
        TokPrefix (c # cs) \<Rightarrow> replace_word_end raw (label @ '':'')
      | _ \<Rightarrow> let base = trimEnd raw in
             if base \<noteq> [] then base @ '' '' @ label @ '':'' else label @ '':'')"

definition applyValue :: "string \<Rightarrow> string \<Rightarrow> string" where
  "applyValue raw val =
     (case lastToken raw of
        TokField key _ \<Rightarrow>
          let label = LABEL_BY_KEY key in
          (case lastIndexOf (toLowerCase raw) (toLowerCase label @ '':'') of
             None \<Rightarrow> raw
           | Some k \<Rightarrow> take k raw @ label @ '':'' @ val @ '' '')
      | TokPrefix _ \<Rightarrow> raw)"

definition serializeQuery :: "string \<Rightarrow> FieldValue list \<Rightarrow> string" where
  "serializeQuery text fs =
     (let tokens = map (\<lambda>f. LABEL_BY_KEY (fv_key f) @ '':'' @ fv_value f) (filter (\<lambda>f. fv_value f \<noteq> []) fs)
      in join '' '' ((if text \<noteq> [] then [text] else []) @ tokens) @ (if tokens \<noteq> [] then '' '' else []))"

definition setSearchField :: "string \<Rightarrow> SearchKey \<Rightarrow> string \<Rightarrow> string" where
  "setSearchField raw key val =
     (let parsed = parseDeviceQuery raw in
      serializeQuery (pq_text parsed)
        (filter (\<lambda>f. fv_key f \<noteq> key) (pq_fields parsed) @ [\<lparr>fv_key = key, fv_value = val\<rparr>]))"

definition clearSearchFields :: "string \<Rightarrow> SearchKey list \<Rightarrow> string" where
  "clearSearchFields raw ks =
     (let parsed = parseDeviceQuery raw in
      serializeQuery (pq_text parsed) (filter (\<lambda>f. fv_key f \<notin> set ks) (pq_fields parsed)))"

section \<open>Matching\<close>

definition includesFold :: "string option \<Rightarrow> string \<Rightarrow> bool" where
  "includesFold hay needle \<longleftrightarrow>
     needle = [] \<or> str_includes (toLowerCase (opt_str hay)) (toLowerCase needle)"

record SearchCtx =
  cx_nowMs :: int
  cx_uuidToNet :: "(string, NetIface) jsmap"
  cx_labelTag :: "string \<Rightarrow> string \<Rightarrow> string"
  cx_portOf :: "(string, PortLoc) jsmap option"

definition lan_of :: "SearchCtx \<Rightarrow> Device \<Rightarrow> NetIface option" where
  "lan_of ctx d =
     (if truthy (dev_intf_uuid d) then map_of (cx_uuidToNet ctx) (opt_str (dev_intf_uuid d)) else None)"

definition port_of :: "SearchCtx \<Rightarrow> Device \<Rightarrow> PortLoc option" where
  "port_of ctx d = Option.bind (cx_portOf ctx) (\<lambda>m. map_of m (toUpperCase (dev_mac d)))"

definition groups_of :: "SearchCtx \<Rightarrow> Device \<Rightarrow> string list" where
  "groups_of ctx d = map (\<lambda>i. cx_labelTag ctx i ''group'') (opt_list (dev_tag_ids d))"

definition users_of :: "SearchCtx \<Rightarrow> Device \<Rightarrow> string list" where
  "users_of ctx d = map (\<lambda>i. cx_labelTag ctx i ''user'') (opt_list (dev_user_tag_ids d))"

definition online_text :: "SearchCtx \<Rightarrow> Device \<Rightarrow> string" where
  "online_text ctx d = (if deviceOnline d (cx_nowMs ctx) then ''online'' else ''offline'')"

definition dap_text :: "Device \<Rightarrow> string option" where
  "dap_text d = map_option dap_status (dev_dap d)"

definition haystack :: "SearchCtx \<Rightarrow> Device \<Rightarrow> string" where
  "haystack ctx d =
     toLowerCase (join '' '' (filter (\<lambda>s. s \<noteq> [])
       ([preferredName d, opt_str (dev_ip d), dev_mac d, opt_str (dev_vendor d)] @ groups_of ctx d @ users_of ctx d @
        [opt_str (Option.bind (lan_of ctx d) ni_desc), opt_str (map_option ni_name (lan_of ctx d)),
         online_text ctx d, opt_str (dap_text d), dapLabel (dap_text d)])))"

fun field_matches :: "SearchCtx \<Rightarrow> Device \<Rightarrow> SearchKey \<Rightarrow> string \<Rightarrow> bool" where
  "field_matches ctx d SDevice v = includesFold (Some (preferredName d)) v"
| "field_matches ctx d SUser v = list_ex (\<lambda>n. includesFold (Some n) v) (users_of ctx d)"
| "field_matches ctx d SGroup v = list_ex (\<lambda>n. includesFold (Some n) v) (groups_of ctx d)"
| "field_matches ctx d SStatus v = includesFold (Some (online_text ctx d)) v"
| "field_matches ctx d SDapstatus v =
     (includesFold (dap_text d) v \<or> includesFold (Some (dapLabel (dap_text d))) v)"
| "field_matches ctx d SNetwork v =
     (includesFold (Option.bind (lan_of ctx d) ni_desc) v \<or> includesFold (map_option ni_name (lan_of ctx d)) v)"
| "field_matches ctx d SSwitch v = includesFold (map_option pl_switchName (port_of ctx d)) v"
| "field_matches ctx d SPort v =
     (includesFold (map_option pl_portId (port_of ctx d)) v \<or>
      includesFold (map_option pl_label (port_of ctx d)) v \<or>
      (case port_of ctx d of Some l \<Rightarrow> if pl_uplink l then includesFold (Some ''uplink'') v else False
       | None \<Rightarrow> False))"
| "field_matches ctx d SIp v =
     (includesFold (dev_ip d) v \<or> list_ex (\<lambda>a. includesFold (Some a) v) (opt_list (dev_ipv6 d)))"
| "field_matches ctx d SMac v = includesFold (Some (dev_mac d)) v"
| "field_matches ctx d SManufacturer v =
     includesFold (Some (or_else (opt_str (dev_vendor d)) ''Unknown'')) v"

definition deviceMatchesSearch :: "Device \<Rightarrow> string \<Rightarrow> SearchCtx \<Rightarrow> bool" where
  "deviceMatchesSearch d raw ctx =
     (let q = parseDeviceQuery raw in
      if pq_text q \<noteq> [] \<and> \<not> str_includes (haystack ctx d) (toLowerCase (pq_text q)) then False
      else list_all (\<lambda>f. fv_value f = [] \<or> field_matches ctx d (fv_key f) (fv_value f)) (pq_fields q))"

section \<open>Columns and their filters\<close>

datatype DeviceColId =
  CName | CGroup | CStatus | CDap | CLearned | CTrusted | CBlocked | CIp | CPort | CNetwork | CIpv6
  | CMac | CVendor | CDownload | CUpload

definition DEVICE_COLS :: "(DeviceColId \<times> string \<times> bool) list" where
  "DEVICE_COLS =
     [(CName, ''Device'', True), (CGroup, ''User/Group'', False), (CStatus, ''Status'', False),
      (CDap, ''DAP Status'', False), (CLearned, ''Learned Flows'', False),
      (CTrusted, ''Trusted Flows'', False), (CBlocked, ''Blocked Flows'', False),
      (CIp, ''IP Address'', False), (CPort, ''Port'', False), (CNetwork, ''Network'', False),
      (CIpv6, ''IPv6 Addresses'', False), (CMac, ''MAC Address'', False),
      (CVendor, ''Manufacturer'', False), (CDownload, ''Download'', False), (CUpload, ''Upload'', False)]"

fun colFilterKeys :: "DeviceColId \<Rightarrow> SearchKey list" where
  "colFilterKeys CName = [SDevice]"
| "colFilterKeys CGroup = [SUser, SGroup]"
| "colFilterKeys CStatus = [SStatus]"
| "colFilterKeys CDap = [SDapstatus]"
| "colFilterKeys CIp = [SIp]"
| "colFilterKeys CIpv6 = [SIp]"
| "colFilterKeys CNetwork = [SNetwork]"
| "colFilterKeys CPort = [SSwitch, SPort]"
| "colFilterKeys CMac = [SMac]"
| "colFilterKeys CVendor = [SManufacturer]"
| "colFilterKeys _ = []"

definition uniq_loop :: "FieldValue list \<Rightarrow> string list \<times> FieldValue list" where
  "uniq_loop items =
     fold (\<lambda>it (seen, out).
       let k = key_text (fv_key it) @ '':'' @ toLowerCase (fv_value it) in
       if k \<in> set seen then (seen, out) else (seen @ [k], out @ [it])) items ([], [])"

definition uniq :: "(string \<Rightarrow> string \<Rightarrow> int) \<Rightarrow> FieldValue list \<Rightarrow> FieldValue list" where
  "uniq lc items = js_sort (\<lambda>a b. lc (fv_value a) (fv_value b)) (snd (uniq_loop items))"

definition add_opt :: "SearchKey \<Rightarrow> string \<Rightarrow> FieldValue list" where
  "add_opt key val = (let v = trim val in if v \<noteq> [] then [\<lparr>fv_key = key, fv_value = v\<rparr>] else [])"

fun col_options :: "SearchCtx \<Rightarrow> DeviceColId \<Rightarrow> Device \<Rightarrow> FieldValue list" where
  "col_options ctx CName d = add_opt SDevice (preferredName d)"
| "col_options ctx CGroup d =
     concat (map (add_opt SUser) (users_of ctx d)) @ concat (map (add_opt SGroup) (groups_of ctx d))"
| "col_options ctx CDap d =
     (case dev_dap d of Some p \<Rightarrow> add_opt SDapstatus (dapLabel (Some (dap_status p))) | None \<Rightarrow> [])"
| "col_options ctx CIp d = add_opt SIp (opt_str (dev_ip d))"
| "col_options ctx CIpv6 d = concat (map (add_opt SIp) (opt_list (dev_ipv6 d)))"
| "col_options ctx CNetwork d = (case lan_of ctx d of Some n \<Rightarrow> add_opt SNetwork (netLabel n) | None \<Rightarrow> [])"
| "col_options ctx CPort d =
     (case port_of ctx d of
        Some l \<Rightarrow> add_opt SSwitch (pl_switchName l) @ add_opt SPort (if pl_uplink l then ''Uplink'' else pl_portId l)
      | None \<Rightarrow> [])"
| "col_options ctx CMac d = add_opt SMac (dev_mac d)"
| "col_options ctx CVendor d = add_opt SManufacturer (or_else (opt_str (dev_vendor d)) ''Unknown'')"
| "col_options ctx _ d = []"

definition colFilterOptions ::
  "(string \<Rightarrow> string \<Rightarrow> int) \<Rightarrow> DeviceColId \<Rightarrow> Device list \<Rightarrow> SearchCtx \<Rightarrow> FieldValue list" where
  "colFilterOptions lc i devices ctx =
     (if i \<in> {CLearned, CTrusted, CBlocked, CDownload, CUpload} then []
      else if i = CStatus then uniq lc (add_opt SStatus ''Online'' @ add_opt SStatus ''Offline'')
      else uniq lc (concat (map (col_options ctx i) devices)))"

section \<open>Active devices\<close>

definition catalogHasActiveStamp :: "Device list \<Rightarrow> bool" where
  "catalogHasActiveStamp devices = list_ex (\<lambda>d. dev_active d \<noteq> None) devices"

definition filterDevicesByActive :: "Device list \<Rightarrow> bool \<Rightarrow> Device list" where
  "filterDevicesByActive devices showInactive =
     (if showInactive \<or> \<not> catalogHasActiveStamp devices then devices
      else filter (\<lambda>d. dev_active d = Some True) devices)"

definition inactiveDeviceCount :: "Device list \<Rightarrow> nat" where
  "inactiveDeviceCount devices =
     (if \<not> catalogHasActiveStamp devices then 0
      else fold (\<lambda>d n. n + (if dev_active d = Some True then 0 else 1)) devices 0)"

section \<open>Filter options\<close>

text \<open>The interface of a comparison by locale: it orders texts totally.\<close>

locale collation =
  fixes lc :: "string \<Rightarrow> string \<Rightarrow> int"
  assumes lc_total: "lc s t \<le> 0 \<or> lc t s \<le> 0"
    and lc_trans: "lc s t \<le> 0 \<Longrightarrow> lc t u \<le> 0 \<Longrightarrow> lc s u \<le> 0"
begin

lemma by_text: "comparator (\<lambda>a b. lc (f a) (f b))"
  by unfold_locales (use lc_total lc_trans in blast)+

end

text \<open>The order of the code units is one.\<close>

fun nats_compare :: "nat list \<Rightarrow> nat list \<Rightarrow> int" where
  "nats_compare [] [] = 0"
| "nats_compare [] (_ # _) = - 1"
| "nats_compare (_ # _) [] = 1"
| "nats_compare (c # s) (d # t) = (if c < d then - 1 else if d < c then 1 else nats_compare s t)"

definition unit_compare :: "string \<Rightarrow> string \<Rightarrow> int" where
  "unit_compare s t = nats_compare (map of_char s) (map of_char t)"

lemma nats_compare_total: "nats_compare s t \<le> 0 \<or> nats_compare t s \<le> 0"
  by (induction s t rule: nats_compare.induct) auto

lemma nats_compare_trans: "nats_compare s t \<le> 0 \<Longrightarrow> nats_compare t u \<le> 0 \<Longrightarrow> nats_compare s u \<le> 0"
proof (induction s t arbitrary: u rule: nats_compare.induct)
  case 1
  then show ?case by simp
next
  case (2 d t)
  then show ?case by (cases u) simp_all
next
  case (4 c s d t)
  show ?case
  proof (cases u)
    case (Cons e v)
    with "4.prems" have "c \<le> d" "d \<le> e" by (auto split: if_splits)
    with "4.prems" "4.IH" [of v] Cons show ?thesis by (auto split: if_splits)
  qed (use "4.prems" in simp)
qed simp

interpretation units_order: collation unit_compare
  by unfold_locales (auto simp: unit_compare_def nats_compare_total intro: nats_compare_trans)

definition opt_key :: "FieldValue \<Rightarrow> string" where
  "opt_key it = key_text (fv_key it) @ '':'' @ toLowerCase (fv_value it)"

lemma uniq_loop_inv:
  "distinct (map opt_key (snd (uniq_loop items))) \<and>
   set (fst (uniq_loop items)) = opt_key ` set items \<and>
   set (snd (uniq_loop items)) \<subseteq> set items \<and>
   opt_key ` set (snd (uniq_loop items)) = opt_key ` set items"
proof (induction items rule: rev_induct)
  case (snoc it items)
  obtain seen out where so: "uniq_loop items = (seen, out)" by force
  have "uniq_loop (items @ [it]) =
      (if opt_key it \<in> set seen then (seen, out) else (seen @ [opt_key it], out @ [it]))"
    using so by (simp add: uniq_loop_def opt_key_def Let_def)
  with snoc so show ?case by auto
qed (simp add: uniq_loop_def)

text \<open>the options of a column have each key and text once, up to the case of letters, every item
  is represented, and they are in the order of the locale.\<close>

theorem uniq_options:
  assumes "collation lc"
  shows "distinct (map opt_key (uniq lc items)) \<and> set (uniq lc items) \<subseteq> set items \<and>
    opt_key ` set (uniq lc items) = opt_key ` set items \<and>
    sorted_wrt (\<lambda>a b. lc (fv_value a) (fv_value b) \<le> 0) (uniq lc items)"
  using uniq_loop_inv [of items] comparator.sorted_js_sort [OF collation.by_text [OF assms, of fv_value]]
  by (simp add: uniq_def)

theorem uniq_options_witness:
  "let items = [\<lparr>fv_key = SGroup, fv_value = ''Lab''\<rparr>, \<lparr>fv_key = SGroup, fv_value = ''lab''\<rparr>] in
   distinct (map opt_key (uniq unit_compare items)) \<and>
   sorted_wrt (\<lambda>a b. unit_compare (fv_value a) (fv_value b) \<le> 0) (uniq unit_compare items)"
  using uniq_options [OF units_order.collation_axioms] by (simp add: Let_def)

lemma trim_infix: "\<exists>a b. s = a @ trim s @ b"
proof -
  have "t = trimEnd t @ rev (takeWhile is_ws (rev t))" for t
    unfolding trimEnd_def by (metis rev_append rev_rev_ident takeWhile_dropWhile_id)
  moreover have "s = takeWhile is_ws s @ trimStart s" by (simp add: trimStart_def)
  ultimately show ?thesis unfolding trim_def by metis
qed

lemma includesFold_trim: "includesFold (Some s) (trim s)"
proof -
  obtain a b where "s = a @ trim s @ b" using trim_infix by blast
  then have "toLowerCase s = toLowerCase a @ toLowerCase (trim s) @ toLowerCase b"
    by (metis map_append toLowerCase_def)
  then show ?thesis
    unfolding includesFold_def opt_str_def str_includes_iff by auto
qed

lemma any_includes_trim:
  assumes "x \<in> set xs"
  shows "list_ex (\<lambda>n. includesFold (Some n) (trim x)) xs"
  unfolding list_ex_iff using assms by (rule bexI [rotated]) (rule includesFold_trim)

lemma add_opt_iff: "it \<in> set (add_opt k s) \<longleftrightarrow> it = \<lparr>fv_key = k, fv_value = trim s\<rparr> \<and> trim s \<noteq> []"
  by (auto simp: add_opt_def Let_def)

lemma includesFold_Some: "so = Some s \<Longrightarrow> includesFold so (trim s)"
  by (simp add: includesFold_trim)

lemma includesFold_desc:
  "trim (opt_str so) \<noteq> [] \<Longrightarrow> includesFold so (trim (opt_str so))"
  by (cases so) (simp_all add: opt_str_def includesFold_trim)

lemma col_option_matches:
  assumes "it \<in> set (col_options ctx i d)"
  shows "field_matches ctx d (fv_key it) (fv_value it) \<and> fv_key it \<in> set (colFilterKeys i)"
proof -
  note [simp] = add_opt_iff includesFold_trim includesFold_desc
  show ?thesis
  proof (cases i)
    case CDap
    with assms obtain p where "dev_dap d = Some p" by (cases "dev_dap d") auto
    then show ?thesis using CDap assms by (auto simp: dap_text_def)
  next
    case CNetwork
    with assms obtain n where "lan_of ctx d = Some n" by (cases "lan_of ctx d") auto
    then show ?thesis
      using CNetwork assms by (auto simp: netLabel_def or_else_def opt_trim_def split: if_splits)
  next
    case CPort
    with assms obtain l where l: "port_of ctx d = Some l" by (cases "port_of ctx d") auto
    have "includesFold (Some ''uplink'') (trim ''Uplink'')" by code_simp
    then show ?thesis
      using CPort assms l by (auto split: if_splits)
  next
    case CGroup
    then consider x where "x \<in> set (users_of ctx d)" "it = \<lparr>fv_key = SUser, fv_value = trim x\<rparr>"
      | x where "x \<in> set (groups_of ctx d)" "it = \<lparr>fv_key = SGroup, fv_value = trim x\<rparr>"
      using assms by auto
    then show ?thesis
      using CGroup by cases (simp_all add: any_includes_trim)
  next
    case CIpv6
    then obtain x where "x \<in> set (opt_list (dev_ipv6 d))" "it = \<lparr>fv_key = SIp, fv_value = trim x\<rparr>"
      using assms by auto
    then show ?thesis
      using CIpv6 by (simp add: any_includes_trim)
  next
    case CIp
    then show ?thesis using assms by auto
  qed (use assms in auto)
qed

definition key_query :: "SearchKey \<Rightarrow> string \<Rightarrow> string" where
  "key_query k v = LABEL_BY_KEY k @ '':'' @ v @ '' ''"

lemma label_table [simp]:
  "LABEL_BY_KEY SDevice = ''Device''" "LABEL_BY_KEY SUser = ''User''" "LABEL_BY_KEY SGroup = ''Group''"
  "LABEL_BY_KEY SStatus = ''Status''" "LABEL_BY_KEY SDapstatus = ''DAPStatus''" "LABEL_BY_KEY SNetwork = ''Network''"
  "LABEL_BY_KEY SSwitch = ''Switch''" "LABEL_BY_KEY SPort = ''Port''" "LABEL_BY_KEY SIp = ''IP''"
  "LABEL_BY_KEY SMac = ''MAC''" "LABEL_BY_KEY SManufacturer = ''Manufacturer''"
  by (simp_all add: LABEL_BY_KEY_def SEARCH_FIELDS_def)

lemma label_lower: "toLowerCase (LABEL_BY_KEY k) = key_text k"
  by (cases k; simp only: label_table key_text.simps; code_simp)

lemma label_facts:
  "key_of_text (key_text k) = k" "LABEL_BY_KEY k \<noteq> []" "\<forall>c \<in> set (LABEL_BY_KEY k). \<not> is_ws c \<and> c \<noteq> CHR '':''"
  "lang rx_names (LABEL_BY_KEY k)"
  subgoal by (cases k) (simp_all add: key_of_text_def all_keys_def SEARCH_FIELDS_def)
  subgoal by (cases k) simp_all
  subgoal by (cases k; simp only: label_table; code_simp)
  subgoal using label_lower [of k] by (cases k) (simp_all only: rx_names_def Alts.simps lang.simps lang_LitI label_table key_text.simps toLowerCase_def, code_simp+)
  done


lemma plain_names: "plain_rx rx_names" "plain_rx rx_space_key" "plain_rx (Seq rx_names (Chr CHR '':''))"
  by (simp_all add: rx_names_def rx_space_key_def Chr_def del: LitI.simps)

lemma name_has_no_sep: "lang rx_names t \<Longrightarrow> c \<in> set t \<Longrightarrow> \<not> is_ws c \<and> c \<noteq> CHR '':''"
proof -
  assume t: "lang rx_names t" "c \<in> set t"
  then obtain k where "map loc t = map loc (key_text k)"
    unfolding rx_names_def Alts.simps lang.simps lang_LitI by (metis key_text.simps)
  then have "loc c \<in> loc ` set (key_text k)" using t(2) by (metis image_eqI list.set_map)
  moreover have "list_all (\<lambda>d. is_lower d \<and> loc d = d) (key_text k)" by (cases k; hypsubst; code_simp)
  ultimately have "is_lower (loc c)" by (auto simp: list_all_iff)
  moreover have "\<not> is_lower (loc c)" if "is_ws c \<or> c = CHR '':''" using that by (auto simp: is_ws_def is_lower_def loc_def is_upper_def)
  ultimately show ?thesis by blast
qed

lemma key_query_head:
  assumes "e \<in> set (ends KEY_RE (LABEL_BY_KEY k @ '':'' @ v) 0)"
  shows "e = Suc (length (LABEL_BY_KEY k))"
proof -
  let ?q = "LABEL_BY_KEY k @ '':'' @ v"
  have "e \<le> length ?q" using ends_bounds [OF _ assms] by simp
  have "lang KEY_RE (take e ?q)" using ends_lang [OF _ assms] by (simp add: js_slice_def)
  then obtain u n where t: "take e ?q = (u @ n) @ '':''" "u = [] \<or> (\<exists>c. u = [c] \<and> is_ws c)" "lang rx_names n"
    by (auto simp: KEY_RE_def Chr_def)
  then have "\<forall>c \<in> set (u @ n). c \<noteq> CHR '':''" using name_has_no_sep by (auto simp: is_ws_def)
  then have "takeWhile (\<lambda>c. c \<noteq> CHR '':'') (take e ?q @ drop e ?q) = u @ n" unfolding t by (simp add: takeWhile_append2)
  then have "takeWhile (\<lambda>c. c \<noteq> CHR '':'') ?q = u @ n" unfolding append_take_drop_id .
  moreover have "takeWhile (\<lambda>c. c \<noteq> CHR '':'') ?q = LABEL_BY_KEY k"
    using label_facts(3) [of k] by (simp add: takeWhile_append2)
  ultimately have "u @ n = LABEL_BY_KEY k" by simp
  moreover have "length (take e ?q) = e" using \<open>e \<le> length ?q\<close> by simp
  ultimately show ?thesis unfolding t by simp
qed

lemma key_query_rest:
  assumes "\<not> test rx_space_key v" "length l + 1 \<le> j"
  shows "ends KEY_RE (l @ '':'' @ v @ '' '') j = []"
proof (rule ccontr)
  let ?q = "l @ '':'' @ v @ '' ''"
  assume "ends KEY_RE ?q j \<noteq> []"
  then obtain e where e: "e \<in> set (ends KEY_RE ?q j)" by (cases "ends KEY_RE ?q j") auto
  then have k: "e \<in> set (ends rx_space_key ?q j)" using assms(2) by (simp add: KEY_RE_def rx_space_key_def)
  then have j: "j \<le> length ?q" by (auto simp: rx_space_key_def split: if_splits)
  from ends_lang [OF j k] have t: "lang rx_space_key (js_slice j e ?q)" .
  then obtain t' where t': "js_slice j e ?q = t' @ '':''" by (auto simp: rx_space_key_def Chr_def)
  have "drop j ?q = js_slice j e ?q @ drop e ?q" using ends_bounds [OF j k]
    by (simp only: js_slice_def drop_take) (metis append_take_drop_id drop_drop le_add_diff_inverse2)
  moreover have "drop j ?q = drop (j - length l - 1) (v @ '' '')" using assms(2) by (simp add: drop_Cons')
  moreover have "v @ '' '' = take (j - length l - 1) (v @ '' '') @ drop (j - length l - 1) (v @ '' '')" by (rule append_take_drop_id [symmetric])
  ultimately obtain p d where v: "v @ '' '' = p @ (t' @ '':'') @ d" using t' by metis
  have "d \<noteq> []" using v by (auto dest: arg_cong [of _ _ last])
  then have "v = p @ (t' @ '':'') @ butlast d" using arg_cong [OF v, of butlast] by (simp add: butlast_append)
  then show False using no_match_infix [OF plain_names(2) assms(1) t] t' by metis
qed

lemma key_query_matches: "\<not> test rx_space_key v \<Longrightarrow>
    exec_all KEY_RE (key_query k v) 0 = [(0, Suc (length (LABEL_BY_KEY k)))]"
proof -
  assume v: "\<not> test rx_space_key v"
  let ?L = "LABEL_BY_KEY k" and ?q = "key_query k v"
  have q: "?q = (?L @ '':'') @ v @ '' ''" by (simp add: key_query_def)
  have mem: "Suc (length ?L) \<in> set (ends KEY_RE ?q 0)"
  proof -
    have "lang (Chr CHR '':'') '':''" by (simp add: Chr_def)
    then have "lang (Seq rx_names (Chr CHR '':'')) (?L @ '':'')" using label_facts(4) [of k] unfolding lang.simps by blast
    from lang_ends [OF plain_names(3) this, of "[]" "v @ '' ''"]
    have "Suc (length ?L) \<in> set (ends (Seq rx_names (Chr CHR '':'')) ?q 0)" by (simp add: q)
    then show ?thesis by (simp add: KEY_RE_def)
  qed
  obtain e es where e: "ends KEY_RE ?q 0 = e # es" using mem by (cases "ends KEY_RE ?q 0") auto
  moreover have "e = Suc (length ?L)" using e key_query_head [of e k "v @ '' ''"] by (simp add: key_query_def)
  ultimately have first: "exec_from KEY_RE ?q 0 = Some (0, Suc (length ?L))" by (simp add: exec_from.simps [of _ _ 0])
  have "exec_from KEY_RE ?q (Suc (length ?L)) = None"
  proof (rule ccontr)
    assume "exec_from KEY_RE ?q (Suc (length ?L)) \<noteq> None"
    then obtain i e where "exec_from KEY_RE ?q (Suc (length ?L)) = Some (i, e)" by auto
    from exec_from_Some [OF this] show False using key_query_rest [OF v, of ?L i] by (auto simp: key_query_def)
  qed
  with first show ?thesis
    by (simp add: exec_all.simps [of _ _ 0] exec_all.simps [of _ _ "Suc (length ?L)"] q)
qed

lemma setSearchField_Nil: "v \<noteq> [] \<Longrightarrow> setSearchField [] k v = key_query k v"
proof -
  have "exec_all KEY_RE [] 0 = []" by code_simp
  then have "parseDeviceQuery [] = \<lparr>pq_fields = [], pq_text = []\<rparr>" by (simp add: parseDeviceQuery_def trim_def trimStart_def trimEnd_def)
  then show "v \<noteq> [] \<Longrightarrow> ?thesis" by (simp add: setSearchField_def serializeQuery_def key_query_def)
qed

lemma trim_space [simp]: "trim (v @ '' '') = trim v"
proof (cases "\<forall>c \<in> set v. is_ws c")
  case True
  then have "dropWhile is_ws v = []" "dropWhile is_ws (v @ '' '') = []" by (simp_all add: is_ws_def)
  then show ?thesis by (simp only: trim_def trimStart_def)
next
  case False
  then show ?thesis by (auto simp: trim_def trimStart_def trimEnd_def dropWhile_append1 is_ws_def)
qed

lemma parse_key_query:
  assumes "trim v = v" "\<not> test rx_space_key v"
  shows "parseDeviceQuery (key_query k v) = \<lparr>pq_fields = [\<lparr>fv_key = k, fv_value = v\<rparr>], pq_text = []\<rparr>"
proof -
  let ?L = "LABEL_BY_KEY k" and ?q = "key_query k v"
  have "\<not> is_ws (?q ! 0)" using label_facts(2,3) [of k] by (cases ?L) (auto simp: key_query_def)
  then have part: "query_part ?q (0, Suc (length ?L)) = (0, k)"
    using label_facts(1) by (simp add: query_part_def Let_def key_query_def js_slice_def label_lower)
  have "length (key_text k) = length ?L" by (metis label_lower length_case(2))
  then have "js_slice (length (key_text k) + 1) (length ?q) ?q = v @ '' ''" by (simp add: js_slice_def key_query_def)
  moreover have "trim (v @ '' '') = v" using assms(1) by simp
  ultimately show ?thesis using key_query_matches [OF assms(2), of k] part
    by (simp add: parseDeviceQuery_def Let_def js_slice_def trim_def trimStart_def trimEnd_def)
qed

lemma key_query_search:
  assumes "trim v = v" "v \<noteq> []" "\<not> test rx_space_key v"
  shows "deviceMatchesSearch d (setSearchField [] k v) ctx = field_matches ctx d k v"
  using assms by (simp add: setSearchField_Nil parse_key_query deviceMatchesSearch_def Let_def)

lemma status_match:
  assumes "v = ''Online'' \<or> v = ''Offline''"
  shows "field_matches ctx d SStatus v \<longleftrightarrow> deviceOnline d (cx_nowMs ctx) = (v = ''Online'')"
proof -
  have "includesFold (Some ''online'') ''Online''" "\<not> includesFold (Some ''online'') ''Offline''"
    "includesFold (Some ''offline'') ''Offline''" "\<not> includesFold (Some ''offline'') ''Online''" by code_simp+
  then show ?thesis using assms by (auto simp: online_text_def)
qed

lemma colFilterOptions_from:
  assumes "it \<in> set (colFilterOptions lc i devices ctx)"
  shows "trim (fv_value it) = fv_value it \<and> fv_value it \<noteq> [] \<and> fv_key it \<in> set (colFilterKeys i) \<and>
    (if i = CStatus then fv_key it = SStatus \<and> (fv_value it = ''Online'' \<or> fv_value it = ''Offline'')
     else \<exists>d \<in> set devices. field_matches ctx d (fv_key it) (fv_value it))"
proof (cases "i = CStatus")
  case True
  have "trim ''Online'' = ''Online''" "trim ''Offline'' = ''Offline''" by code_simp+
  then show ?thesis using assms True uniq_loop_inv [of "add_opt SStatus ''Online'' @ add_opt SStatus ''Offline''"]
    by (auto simp: colFilterOptions_def uniq_def add_opt_iff)
next
  case False
  let ?items = "concat (map (col_options ctx i) devices)"
  have "it \<in> set (uniq lc ?items)" using assms False by (simp add: colFilterOptions_def split: if_splits)
  then have "it \<in> set ?items" using uniq_loop_inv [of ?items] by (auto simp: uniq_def)
  then obtain d where d: "d \<in> set devices" "it \<in> set (col_options ctx i d)" by auto
  then have "trim (fv_value it) = fv_value it \<and> fv_value it \<noteq> []"
    by (cases i) (auto simp: add_opt_iff split: option.splits)
  with False d col_option_matches show ?thesis by metis
qed



text \<open>hiding the inactive devices leaves out exactly the number that is announced, and with the
  inactive devices shown nothing is left out.\<close>

theorem inactive_count:
  "length (filterDevicesByActive devices False) + inactiveDeviceCount devices = length devices \<and>
   filterDevicesByActive devices True = devices"
proof -
  have "length (filter (\<lambda>d. dev_active d = Some True) devices) +
      fold (\<lambda>d n. n + (if dev_active d = Some True then 0 else 1)) devices k = length devices + k" for k
    by (induction devices arbitrary: k) auto
  from this [of 0] show ?thesis
    by (simp add: filterDevicesByActive_def inactiveDeviceCount_def)
qed

end
