(* ===== verification/DeviceGroup.thy ===== *)
theory DeviceGroup
  imports DeviceSearch
begin

text \<open>
  Grouping of the rows of the device list (\<open>ui/src/lib/device-group.ts\<close>): rows are put into buckets
  by switch port, network, tag or status, and the buckets are sorted, with the rest last.
\<close>

datatype DeviceGroupBy = ByPort | ByLan | ByTag | ByOnline

text \<open>The choice \<open>none\<close> is the value None.\<close>

definition DEVICE_GROUP_BY_OPTIONS :: "(DeviceGroupBy option \<times> string) list" where
  "DEVICE_GROUP_BY_OPTIONS =
     [(None, ''None''), (Some ByPort, ''Port''), (Some ByLan, ''LAN''), (Some ByTag, ''Tag''),
      (Some ByOnline, ''Online'')]"

datatype MemberKind = MemberUser | MemberGroup

record Membership =
  mb_id :: string
  mb_name :: string
  mb_kind :: "MemberKind option"

record GroupLan =
  gl_uuid :: "string option"
  gl_label :: string

record GroupLoc =
  lo_switchMac :: mac
  lo_switchName :: string
  lo_portId :: string
  lo_label :: string
  lo_clients :: "mac list"

record DeviceGroupFields =
  gf_online :: bool
  gf_membership :: "Membership option"
  gf_lan :: "GroupLan option"
  gf_loc :: "GroupLoc option"

record 'r DeviceRowGroup =
  rg_key :: string
  rg_label :: string
  rg_clients :: "mac list"
  rg_lanUuid :: "string option"
  rg_tagId :: "string option"
  rg_tagType :: "MemberKind option"
  rg_rows :: "'r list"

record 'r Bucket = "'r DeviceRowGroup" +
  bk_order :: rat
  bk_sortName :: string

definition other_bucket :: "rat \<Rightarrow> 'r Bucket" where
  "other_bucket order = \<lparr>rg_key = ''_'', rg_label = ''Other'', rg_clients = [], rg_lanUuid = None,
     rg_tagId = None, rg_tagType = None, rg_rows = [], bk_order = order, bk_sortName = []\<rparr>"

definition port_order :: "string \<Rightarrow> rat" where
  "port_order portId = (case js_Number portId of Num r \<Rightarrow> r | _ \<Rightarrow> 999)"

text \<open>The bucket of a row, without rows.\<close>

fun bucketFor :: "DeviceGroupFields \<Rightarrow> DeviceGroupBy \<Rightarrow> 'r Bucket" where
  "bucketFor row ByPort =
     (case gf_loc row of
        None \<Rightarrow> other_bucket 9999
      | Some l \<Rightarrow> \<lparr>rg_key = lo_switchMac l @ '':'' @ lo_portId l, rg_label = lo_label l,
          rg_clients = lo_clients l, rg_lanUuid = None, rg_tagId = None, rg_tagType = None,
          rg_rows = [], bk_order = port_order (lo_portId l), bk_sortName = lo_switchName l\<rparr>)"
| "bucketFor row ByLan =
     (case gf_lan row of
        None \<Rightarrow> other_bucket 1
      | Some l \<Rightarrow>
          if \<not> truthy (gl_uuid l) then other_bucket 1
          else let u = opt_str (gl_uuid l); label = or_else (gl_label l) u in
            \<lparr>rg_key = u, rg_label = label, rg_clients = [], rg_lanUuid = Some u, rg_tagId = None,
             rg_tagType = None, rg_rows = [], bk_order = 0, bk_sortName = label\<rparr>)"
| "bucketFor row ByTag =
     (case gf_membership row of
        None \<Rightarrow> other_bucket 1
      | Some m \<Rightarrow> \<lparr>rg_key = mb_id m, rg_label = mb_name m, rg_clients = [], rg_lanUuid = None,
          rg_tagId = Some (mb_id m), rg_tagType = mb_kind m, rg_rows = [], bk_order = 0,
          bk_sortName = mb_name m\<rparr>)"
| "bucketFor row ByOnline =
     (if gf_online row
      then \<lparr>rg_key = ''online'', rg_label = ''Online'', rg_clients = [], rg_lanUuid = None,
            rg_tagId = None, rg_tagType = None, rg_rows = [], bk_order = 0, bk_sortName = ''Online''\<rparr>
      else \<lparr>rg_key = ''offline'', rg_label = ''Offline'', rg_clients = [], rg_lanUuid = None,
            rg_tagId = None, rg_tagType = None, rg_rows = [], bk_order = 1, bk_sortName = ''Offline''\<rparr>)"

definition add_row ::
  "('r \<Rightarrow> DeviceGroupFields) \<Rightarrow> DeviceGroupBy \<Rightarrow> 'r \<Rightarrow> (string, 'r Bucket) jsmap \<Rightarrow> (string, 'r Bucket) jsmap" where
  "add_row fields_of gb row buckets =
     (let parts = bucketFor (fields_of row) gb;
          g = (case map_of buckets (rg_key parts) of Some g \<Rightarrow> g | None \<Rightarrow> parts)
      in AList.update (rg_key parts) (g\<lparr>rg_rows := rg_rows g @ [row]\<rparr>) buckets)"

definition group_cmp :: "(string \<Rightarrow> string \<Rightarrow> int) \<Rightarrow> 'r Bucket \<Rightarrow> 'r Bucket \<Rightarrow> int" where
  "group_cmp lc a b =
     (if rg_key a = ''_'' then 1
      else if rg_key b = ''_'' then - 1
      else if bk_order a \<noteq> bk_order b then (if bk_order a < bk_order b then - 1 else 1)
      else let byName = lc (bk_sortName a) (bk_sortName b) in
        if byName \<noteq> 0 then byName else lc (rg_label a) (rg_label b))"

definition sorted_buckets ::
  "(string \<Rightarrow> string \<Rightarrow> int) \<Rightarrow> 'r list \<Rightarrow> DeviceGroupBy \<Rightarrow> ('r \<Rightarrow> DeviceGroupFields) \<Rightarrow> 'r Bucket list" where
  "sorted_buckets lc rows gb fields_of =
     js_sort (group_cmp lc) (map snd (fold (add_row fields_of gb) rows []))"

definition groupDeviceRows ::
  "(string \<Rightarrow> string \<Rightarrow> int) \<Rightarrow> 'r list \<Rightarrow> DeviceGroupBy option \<Rightarrow> ('r \<Rightarrow> DeviceGroupFields)
     \<Rightarrow> 'r DeviceRowGroup list" where
  "groupDeviceRows lc rows groupBy fields_of =
     (case groupBy of
        None \<Rightarrow> [\<lparr>rg_key = ''all'', rg_label = [], rg_clients = [], rg_lanUuid = None, rg_tagId = None,
                  rg_tagType = None, rg_rows = rows\<rparr>]
      | Some gb \<Rightarrow> map DeviceRowGroup.truncate (sorted_buckets lc rows gb fields_of))"

section \<open>The buckets partition the rows\<close>

definition row_key :: "('r \<Rightarrow> DeviceGroupFields) \<Rightarrow> DeviceGroupBy \<Rightarrow> 'r \<Rightarrow> string" where
  "row_key fields_of gb row = rg_key (bucketFor (fields_of row) gb :: 'r Bucket)"

definition buckets_ok ::
  "('r \<Rightarrow> DeviceGroupFields) \<Rightarrow> DeviceGroupBy \<Rightarrow> 'r list \<Rightarrow> (string, 'r Bucket) jsmap \<Rightarrow> bool" where
  "buckets_ok fields_of gb rows buckets \<longleftrightarrow>
     distinct (map fst buckets) \<and> fst ` set buckets = row_key fields_of gb ` set rows \<and>
     (\<forall>k g. (k, g) \<in> set buckets \<longrightarrow>
        rg_key g = k \<and> rg_rows g = filter (\<lambda>r. row_key fields_of gb r = k) rows)"

lemma bucketFor_rows: "rg_rows (bucketFor row gb) = []"
  by (cases gb) (simp_all add: other_bucket_def Let_def split: option.split)

lemma update_cases:
  assumes "(k, g) \<in> set (AList.update j v m)" "distinct (map fst m)"
  shows "k = j \<and> g = v \<or> k \<noteq> j \<and> (k, g) \<in> set m"
proof -
  have "map_of (AList.update j v m) k = Some g"
    using assms by (simp add: distinct_update)
  then show ?thesis by (auto simp: js_map split: if_splits dest: map_of_SomeD)
qed

lemma add_row_ok:
  fixes row :: 'r
  assumes "buckets_ok fields_of gb rows buckets"
  shows "buckets_ok fields_of gb (rows @ [row]) (add_row fields_of gb row buckets)"
proof -
  let ?k = "row_key fields_of gb row"
  define parts :: "'r Bucket" where "parts = bucketFor (fields_of row) gb"
  define g where "g = (case map_of buckets ?k of Some g \<Rightarrow> g | None \<Rightarrow> parts)"
  have new: "add_row fields_of gb row buckets = AList.update ?k (g\<lparr>rg_rows := rg_rows g @ [row]\<rparr>) buckets"
    unfolding add_row_def Let_def g_def parts_def row_key_def ..
  have dist: "distinct (map fst buckets)" and dom: "fst ` set buckets = row_key fields_of gb ` set rows"
    and each: "\<And>k g. (k, g) \<in> set buckets \<Longrightarrow> rg_key g = k \<and> rg_rows g = filter (\<lambda>r. row_key fields_of gb r = k) rows"
    using assms by (auto simp: buckets_ok_def)
  have g: "rg_key g = ?k \<and> rg_rows g = filter (\<lambda>r. row_key fields_of gb r = ?k) rows"
  proof (cases "map_of buckets ?k")
    case None
    then have "?k \<notin> row_key fields_of gb ` set rows"
      using dom by (metis map_of_eq_None_iff)
    then have "filter (\<lambda>r. row_key fields_of gb r = ?k) rows = []"
      unfolding filter_empty_conv by (metis imageI)
    with None show ?thesis by (simp add: g_def parts_def bucketFor_rows row_key_def)
  next
    case (Some h)
    then show ?thesis using each [OF map_of_SomeD [OF Some]] by (simp add: g_def)
  qed
  have "fst ` set (add_row fields_of gb row buckets) = row_key fields_of gb ` set (rows @ [row])"
    unfolding new by (simp add: js_map dom)
  moreover have "rg_key h = k \<and> rg_rows h = filter (\<lambda>r. row_key fields_of gb r = k) (rows @ [row])"
    if "(k, h) \<in> set (add_row fields_of gb row buckets)" for k h
    using update_cases [OF that [unfolded new] dist] g each by auto
  ultimately show ?thesis
    using dist by (simp add: buckets_ok_def new distinct_update)
qed

lemma fold_add_row_ok: "buckets_ok fields_of gb rows (fold (add_row fields_of gb) rows [])"
proof (induction rows rule: rev_induct)
  case Nil
  show ?case by (simp add: buckets_ok_def)
next
  case (snoc row rows)
  from add_row_ok [OF this] show ?case by simp
qed

lemma bucket_keys: "map rg_key (map snd (fold (add_row fields_of gb) rows [])) =
    map fst (fold (add_row fields_of gb) rows [])"
  using fold_add_row_ok [of fields_of gb rows] by (auto simp: buckets_ok_def)

lemma truncate_fields [simp]:
  "rg_key (DeviceRowGroup.truncate b) = rg_key b" "rg_rows (DeviceRowGroup.truncate b) = rg_rows b"
  by (simp_all add: DeviceRowGroup.truncate_def)

lemma set_sorted_buckets:
  "set (sorted_buckets lc rows gb fields_of) = snd ` set (fold (add_row fields_of gb) rows [])"
  by (simp add: sorted_buckets_def)

lemma groups_partition:
  "let groups = groupDeviceRows lc rows (Some gb) fields_of in
   distinct (map rg_key groups) \<and> set (map rg_key groups) = row_key fields_of gb ` set rows \<and>
   list_all (\<lambda>g. rg_rows g \<noteq> [] \<and> rg_rows g = filter (\<lambda>r. row_key fields_of gb r = rg_key g) rows) groups"
proof -
  let ?b = "fold (add_row fields_of gb) rows []"
  let ?groups = "groupDeviceRows lc rows (Some gb) fields_of"
  have ok: "buckets_ok fields_of gb rows ?b" by (rule fold_add_row_ok)
  have keys: "map rg_key ?groups = map rg_key (sorted_buckets lc rows gb fields_of)"
    by (simp add: groupDeviceRows_def)
  have "distinct (map rg_key ?groups)"
    unfolding keys sorted_buckets_def distinct_js_sort bucket_keys using ok by (simp add: buckets_ok_def)
  moreover have dom: "set (map rg_key ?groups) = row_key fields_of gb ` set rows"
  proof -
    have "set (map rg_key ?groups) = rg_key ` snd ` set ?b"
      unfolding keys by (simp add: set_sorted_buckets)
    also have "\<dots> = fst ` set ?b"
      using arg_cong [OF bucket_keys [of fields_of gb rows], of set] by (simp add: image_image)
    finally show ?thesis using ok by (simp add: buckets_ok_def)
  qed
  moreover have "rg_rows g \<noteq> [] \<and> rg_rows g = filter (\<lambda>r. row_key fields_of gb r = rg_key g) rows"
    if "g \<in> set ?groups" for g
  proof -
    from that obtain k b where "(k, b) \<in> set ?b" "g = DeviceRowGroup.truncate b"
      by (auto simp: groupDeviceRows_def set_sorted_buckets)
    then have rows: "rg_rows g = filter (\<lambda>r. row_key fields_of gb r = rg_key g) rows"
      using ok by (auto simp: buckets_ok_def)
    moreover have "rg_key g \<in> row_key fields_of gb ` set rows" using that dom by auto
    ultimately show ?thesis by (auto simp: filter_empty_conv)
  qed
  then have "list_all (\<lambda>g. rg_rows g \<noteq> [] \<and>
      rg_rows g = filter (\<lambda>r. row_key fields_of gb r = rg_key g) rows) ?groups"
    by (simp only: list_all_iff) blast
  ultimately show ?thesis by (simp only: Let_def)
qed

text \<open>grouping loses no row and repeats none: the groups have different keys, their keys are those
  of the rows, and each group holds exactly the rows of its key, at least one, in their order.\<close>

theorem groupDeviceRows_partition:
  "let groups = groupDeviceRows lc rows (Some gb) fields_of in
   distinct (map rg_key groups) \<and> set (map rg_key groups) = row_key fields_of gb ` set rows \<and>
   list_all (\<lambda>g. rg_rows g \<noteq> [] \<and> rg_rows g = filter (\<lambda>r. row_key fields_of gb r = rg_key g) rows) groups"
  by (rule groups_partition)

section \<open>The rest comes last\<close>

text \<open>The comparison, with two groups of the rest equal; there is at most one.\<close>

definition group_cmp_eq :: "(string \<Rightarrow> string \<Rightarrow> int) \<Rightarrow> 'r Bucket \<Rightarrow> 'r Bucket \<Rightarrow> int" where
  "group_cmp_eq lc a b = (if rg_key a = ''_'' \<and> rg_key b = ''_'' then 0 else group_cmp lc a b)"

lemma insert_cmp_cong:
  "(\<And>y. y \<in> set ys \<Longrightarrow> cmp x y = cmp' x y) \<Longrightarrow> insert_cmp cmp x ys = insert_cmp cmp' x ys"
  by (induction ys) auto

lemma js_sort_cong:
  assumes "distinct (map f xs)" "\<And>x y. f x \<noteq> f y \<Longrightarrow> cmp x y = cmp' x y"
  shows "js_sort cmp xs = js_sort cmp' xs"
  using assms(1)
proof (induction xs)
  case (Cons x xs)
  have "insert_cmp cmp x (js_sort cmp' xs) = insert_cmp cmp' x (js_sort cmp' xs)"
    by (rule insert_cmp_cong, rule assms(2)) (use Cons.prems in force)
  with Cons show ?case by simp
qed simp

text \<open>A comparison of texts that also tells equal texts apart from different ones.\<close>

locale strict_collation = collation lc for lc :: "string \<Rightarrow> string \<Rightarrow> int" +
  assumes lc_sym: "lc s t = 0 \<longleftrightarrow> lc t s = 0"
    and lc_neg: "lc s t < 0 \<longleftrightarrow> 0 < lc t s"
begin

lemma lex_trans:
  assumes "lc a b < 0 \<or> lc a b = 0 \<and> lc a' b' \<le> 0" "lc b c < 0 \<or> lc b c = 0 \<and> lc b' c' \<le> 0"
  shows "lc a c < 0 \<or> lc a c = 0 \<and> lc a' c' \<le> 0"
proof (cases "lc a c = 0")
  case True
  have le: "lc a b \<le> 0" "lc b c \<le> 0" using assms by auto
  have "lc c a \<le> 0" using True lc_sym [of a c] by simp
  with le have "lc b a \<le> 0" "lc c b \<le> 0" using lc_trans by blast+
  then have "\<not> lc a b < 0" "\<not> lc b c < 0" by (simp_all add: lc_neg)
  with assms have "lc a' b' \<le> 0" "lc b' c' \<le> 0" by auto
  with True show ?thesis using lc_trans by blast
next
  case False
  have "lc a b \<le> 0" "lc b c \<le> 0" using assms by auto
  then have "lc a c \<le> 0" using lc_trans by blast
  with False show ?thesis by simp
qed

definition named_le :: "'r Bucket \<Rightarrow> 'r Bucket \<Rightarrow> bool" where
  "named_le a b \<longleftrightarrow> lc (bk_sortName a) (bk_sortName b) < 0 \<or>
     lc (bk_sortName a) (bk_sortName b) = 0 \<and> lc (rg_label a) (rg_label b) \<le> 0"

lemma named_le_trans: "named_le a b \<Longrightarrow> named_le b c \<Longrightarrow> named_le a c"
  unfolding named_le_def by (rule lex_trans)

lemma named_le_total: "named_le a b \<or> named_le b a"
  unfolding named_le_def
  using lc_total [of "rg_label a" "rg_label b"] lc_neg [of "bk_sortName a" "bk_sortName b"]
    lc_sym [of "bk_sortName a" "bk_sortName b"] by linarith

lemma group_le:
  "group_cmp_eq lc a b \<le> 0 \<longleftrightarrow>
     rg_key b = ''_'' \<or> (rg_key a \<noteq> ''_'' \<and>
       (bk_order a < bk_order b \<or> bk_order a = bk_order b \<and> named_le a b))"
  by (auto simp: group_cmp_eq_def group_cmp_def Let_def named_le_def)

lemma group_comparator: "comparator (group_cmp_eq lc)"
proof
  fix a b c :: "'r Bucket"
  show "group_cmp_eq lc a b \<le> 0 \<or> group_cmp_eq lc b a \<le> 0"
    unfolding group_le using named_le_total [of a b] by auto
  assume "group_cmp_eq lc a b \<le> 0" "group_cmp_eq lc b c \<le> 0"
  then show "group_cmp_eq lc a c \<le> 0"
    unfolding group_le using named_le_trans [of a b c] by auto
qed

end

interpretation units_strict: strict_collation unit_compare
proof unfold_locales
  have "nats_compare s t = - nats_compare t s" for s t
    by (induction s t rule: nats_compare.induct) auto
  then have neg: "unit_compare s t = - unit_compare t s" for s t
    unfolding unit_compare_def by blast
  show "unit_compare s t = 0 \<longleftrightarrow> unit_compare t s = 0" for s t using neg [of s t] by simp
  show "unit_compare s t < 0 \<longleftrightarrow> 0 < unit_compare t s" for s t using neg [of s t] by simp
qed

lemma sorted_buckets_eq:
  "sorted_buckets lc rows gb fields_of =
     js_sort (group_cmp_eq lc) (map snd (fold (add_row fields_of gb) rows []))"
  unfolding sorted_buckets_def
proof (rule js_sort_cong)
  show "distinct (map rg_key (map snd (fold (add_row fields_of gb) rows [])))"
    unfolding bucket_keys using fold_add_row_ok [of fields_of gb rows] by (simp add: buckets_ok_def)
qed (auto simp: group_cmp_eq_def)

text \<open>the groups are in order: first by the number of the port (or the status), then by name and by
  label in the order of the locale, and the group of the rows without a place is the last one.\<close>

theorem groups_sorted:
  assumes "strict_collation lc"
  shows "sorted_wrt (\<lambda>a b. rg_key a \<noteq> ''_'' \<and> (rg_key b = ''_'' \<or> bk_order a < bk_order b \<or>
      bk_order a = bk_order b \<and> (lc (bk_sortName a) (bk_sortName b) < 0 \<or>
        lc (bk_sortName a) (bk_sortName b) = 0 \<and> lc (rg_label a) (rg_label b) \<le> 0)))
    (sorted_buckets lc rows gb fields_of)"
proof -
  let ?s = "sorted_buckets lc rows gb fields_of"
  have "sorted_wrt (\<lambda>a b. group_cmp_eq lc a b \<le> 0) ?s"
    unfolding sorted_buckets_eq
    by (rule comparator.sorted_js_sort [OF strict_collation.group_comparator [OF assms]])
  moreover have "distinct (map rg_key ?s)"
    unfolding sorted_buckets_def distinct_js_sort bucket_keys
    using fold_add_row_ok [of fields_of gb rows] by (simp add: buckets_ok_def)
  ultimately have "sorted_wrt (\<lambda>a b. rg_key a \<noteq> rg_key b \<and> group_cmp_eq lc a b \<le> 0) ?s"
    by (auto simp: sorted_wrt_iff_nth_less distinct_conv_nth)
  then show ?thesis
    by (rule sorted_wrt_mono_rel [rotated]) (auto simp: strict_collation.group_le [OF assms] strict_collation.named_le_def [OF assms])
qed

theorem groups_sorted_witness:
  "let fields_of = (\<lambda>row :: bool. \<lparr>gf_online = row, gf_membership = None, gf_lan = None, gf_loc = None\<rparr>) in
   sorted_wrt (\<lambda>a b. rg_key a \<noteq> ''_'' \<and> (rg_key b = ''_'' \<or> bk_order a < bk_order b \<or>
      bk_order a = bk_order b \<and> (unit_compare (bk_sortName a) (bk_sortName b) < 0 \<or>
        unit_compare (bk_sortName a) (bk_sortName b) = 0 \<and> unit_compare (rg_label a) (rg_label b) \<le> 0)))
    (sorted_buckets unit_compare [False, True] ByOnline fields_of)"
  using groups_sorted [OF units_strict.strict_collation_axioms] by (simp only: Let_def)

end
