(* ===== verification/Prefs.thy ===== *)
theory Prefs
  imports NavStack AnonNet
begin

text \<open>
  Preferences kept in the browser (\<open>ui/src/lib/view-mode.ts\<close>, \<open>anonymity-on.ts\<close> and the last part of
  \<open>device-active.ts\<close>). The storage of the browser may refuse to be read or written; a call then
  raises, and the code falls back to a default. Every operation takes the storage and returns it.
\<close>

section \<open>Storage\<close>

datatype StorageError = SecurityError | QuotaExceeded

record Storage =
  ls_items :: "(string, string) jsmap"
  ls_blocked :: bool
  ls_full :: bool

definition getItem :: "string \<Rightarrow> Storage \<Rightarrow> StorageError + string option" where
  "getItem k s = (if ls_blocked s then Inl SecurityError else Inr (map_of (ls_items s) k))"

definition setItem :: "string \<Rightarrow> string \<Rightarrow> Storage \<Rightarrow> StorageError + Storage" where
  "setItem k v s =
     (if ls_blocked s then Inl SecurityError
      else if ls_full s then Inl QuotaExceeded
      else Inr (s\<lparr>ls_items := AList.update k v (ls_items s)\<rparr>))"

definition removeItem :: "string \<Rightarrow> Storage \<Rightarrow> StorageError + Storage" where
  "removeItem k s = (if ls_blocked s then Inl SecurityError else Inr (s\<lparr>ls_items := AList.delete k (ls_items s)\<rparr>))"

text \<open>\<open>try { localStorage.setItem(k, v) } catch {}\<close>\<close>

definition try_set :: "string \<Rightarrow> string \<Rightarrow> Storage \<Rightarrow> Storage" where
  "try_set k v s = (case setItem k v s of Inr s' \<Rightarrow> s' | Inl _ \<Rightarrow> s)"

section \<open>Inactive devices\<close>

definition SHOW_INACTIVE_KEY :: string where
  "SHOW_INACTIVE_KEY = ''fireproxy.devices.showInactive''"

definition loadShowInactive :: "Storage \<Rightarrow> bool" where
  "loadShowInactive s = (case getItem SHOW_INACTIVE_KEY s of Inr v \<Rightarrow> v = Some ''1'' | Inl _ \<Rightarrow> False)"

definition saveShowInactive :: "bool \<Rightarrow> Storage \<Rightarrow> Storage" where
  "saveShowInactive on s = try_set SHOW_INACTIVE_KEY (if on then ''1'' else ''0'') s"

section \<open>View modes\<close>

definition VIEW_PREFIX :: string where
  "VIEW_PREFIX = ''fireproxy.view.''"

fun mode_text :: "ViewMode \<Rightarrow> string" where
  "mode_text Visual = ''visual''"
| "mode_text ListMode = ''list''"

definition loadViewMode :: "Tab \<Rightarrow> Storage \<Rightarrow> ViewMode" where
  "loadViewMode tab s =
     (case getItem (VIEW_PREFIX @ tab_id tab) s of
        Inr v \<Rightarrow> if v = Some ''list'' then ListMode else if v = Some ''visual'' then Visual else Visual
      | Inl _ \<Rightarrow> Visual)"

definition saveViewMode :: "Tab \<Rightarrow> ViewMode \<Rightarrow> Storage \<Rightarrow> Storage" where
  "saveViewMode tab mode s = try_set (VIEW_PREFIX @ tab_id tab) (mode_text mode) s"

definition loadAllViewModes :: "Tab list \<Rightarrow> Storage \<Rightarrow> (Tab, ViewMode) jsmap" where
  "loadAllViewModes tabs s = fold (\<lambda>tab out. AList.update tab (loadViewMode tab s) out) tabs []"

section \<open>The anonymity switch\<close>

definition ON_KEY :: string where
  "ON_KEY = ''fireproxy.anonymity.on''"

definition SALT_KEY :: string where
  "SALT_KEY = ''fireproxy.anonymity.salt''"

definition isAnonymityOn :: "Storage \<Rightarrow> bool" where
  "isAnonymityOn s = (case getItem ON_KEY s of Inr v \<Rightarrow> v = Some ''1'' | Inl _ \<Rightarrow> False)"

text \<open>The second part of the result is the list of events sent to the window.\<close>

definition setAnonymityOn :: "bool \<Rightarrow> Storage \<Rightarrow> Storage \<times> string list" where
  "setAnonymityOn on s = (try_set ON_KEY (if on then ''1'' else ''0'') s, [''fireproxy-anonymity''])"

text \<open>The sixteen random bytes are an argument.\<close>

definition anonymitySalt :: "8 word list \<Rightarrow> Storage \<Rightarrow> Storage \<times> string" where
  "anonymitySalt buf s =
     (case getItem SALT_KEY s of
        Inl _ \<Rightarrow> (s, ''dev-salt-not-random'')
      | Inr v \<Rightarrow>
          if truthy v \<and> 16 \<le> length (opt_str v) then (s, opt_str v)
          else
            let salt = concat (map (\<lambda>b. hex2 (unat b)) buf) in
            (case setItem SALT_KEY salt s of
               Inr s' \<Rightarrow> (s', salt)
             | Inl _ \<Rightarrow> (s, ''dev-salt-not-random'')))"

section \<open>Properties\<close>

definition usable :: "Storage \<Rightarrow> bool" where
  "usable s \<longleftrightarrow> \<not> ls_blocked s \<and> \<not> ls_full s"

lemma getItem_try_set:
  "usable s \<Longrightarrow> getItem k (try_set j v s) = (if k = j then Inr (Some v) else getItem k s)"
  by (simp add: usable_def getItem_def try_set_def setItem_def js_map)

lemma usable_try_set [simp]: "usable (try_set k v s) = usable s"
  by (simp add: usable_def try_set_def setItem_def)

text \<open>The keys of the preferences are apart.\<close>

lemma key_apart:
  "ON_KEY \<noteq> SHOW_INACTIVE_KEY" "SHOW_INACTIVE_KEY \<noteq> ON_KEY"
  "VIEW_PREFIX @ t \<noteq> ON_KEY" "ON_KEY \<noteq> VIEW_PREFIX @ t" "VIEW_PREFIX @ t \<noteq> SHOW_INACTIVE_KEY"
  "VIEW_PREFIX @ t = VIEW_PREFIX @ u \<longleftrightarrow> t = u"
  by (simp_all add: ON_KEY_def SHOW_INACTIVE_KEY_def VIEW_PREFIX_def)

text \<open>in a storage that can be written, every preference is read back as it was saved, and saving
  one leaves the others as they are.\<close>

theorem prefs_round_trip:
  assumes "usable s"
  shows "loadShowInactive (saveShowInactive on s) = on \<and>
    isAnonymityOn (fst (setAnonymityOn on s)) = on \<and>
    loadViewMode u (saveViewMode t mode s) = (if tab_id u = tab_id t then mode else loadViewMode u s) \<and>
    isAnonymityOn (saveViewMode t mode s) = isAnonymityOn s \<and>
    loadViewMode u (fst (setAnonymityOn on s)) = loadViewMode u s"
  using assms
  by (cases mode)
    (auto simp: loadShowInactive_def saveShowInactive_def isAnonymityOn_def setAnonymityOn_def
      loadViewMode_def saveViewMode_def getItem_try_set key_apart)

theorem prefs_round_trip_witness:
  "let s = \<lparr>ls_items = [], ls_blocked = False, ls_full = False\<rparr> in
   loadViewMode TDevices (saveViewMode TDevices ListMode s) = ListMode \<and>
   isAnonymityOn (fst (setAnonymityOn True s))"
  using prefs_round_trip [of "\<lparr>ls_items = [], ls_blocked = False, ls_full = False\<rparr>" True TDevices TDevices ListMode]
  by (simp add: usable_def)

lemma length_salt: "16 \<le> length buf \<Longrightarrow> 16 \<le> length (concat (map (\<lambda>b. hex2 (unat (b :: 8 word))) buf))"
proof -
  have two: "2 \<le> length (hex2 n)" for n by (simp add: hex2_def)
  have "2 * length buf \<le> length (concat (map (\<lambda>b. hex2 (unat (b :: 8 word))) buf))"
  proof (induction buf)
    case (Cons b buf)
    then show ?case using two [of "unat b"] by simp
  qed simp
  then show "16 \<le> length buf \<Longrightarrow> ?thesis" by simp
qed

text \<open>the salt of the anonymity mode is made once: whatever the random source gives at later calls,
  they return the salt of the first call and leave the storage alone, so that substitutes stay
  the same from one visit to the next.\<close>

theorem salt_stable:
  assumes "\<not> ls_blocked s" "\<not> ls_full s" "length buf = 16"
  shows "let (s1, salt) = anonymitySalt buf s in anonymitySalt buf' s1 = (s1, salt) \<and> 16 \<le> length salt"
proof (cases "truthy (map_of (ls_items s) SALT_KEY) \<and> 16 \<le> length (opt_str (map_of (ls_items s) SALT_KEY))")
  case True
  then show ?thesis using assms by (simp add: anonymitySalt_def getItem_def)
next
  case False
  let ?salt = "concat (map (\<lambda>b. hex2 (unat b)) buf)"
  have len: "16 \<le> length ?salt" using length_salt assms(3) by simp
  then have "?salt \<noteq> []" by (metis list.size(3) not_numeral_le_zero)
  with False assms len show ?thesis
    by (auto simp: anonymitySalt_def getItem_def setItem_def js_map truthy_def opt_str_def Let_def)
qed

theorem salt_stable_witness:
  "let s = \<lparr>ls_items = [], ls_blocked = False, ls_full = False\<rparr>;
       (s1, salt) = anonymitySalt (replicate 16 7) s in
   anonymitySalt (replicate 16 9) s1 = (s1, salt)"
  using salt_stable [of "\<lparr>ls_items = [], ls_blocked = False, ls_full = False\<rparr>" "replicate 16 7" "replicate 16 9"]
  by (simp add: Let_def case_prod_beta)

end
