(* ===== verification/DeviceCols.thy ===== *)
theory DeviceCols
  imports DeviceSearch Prefs Json
begin

text \<open>
  The columns of the device table, kept in the storage of the browser (the second part of
  \<open>ui/src/lib/device-cols.ts\<close>). A storage that cannot be read, a text that is no JSON and a value that
  is no array all end in the default columns. The port column is dropped once, at the first load
  after it became optional; a mark in the storage remembers that.
\<close>

fun col_text :: "DeviceColId \<Rightarrow> string" where
  "col_text CName = ''name''"
| "col_text CGroup = ''group''"
| "col_text CStatus = ''status''"
| "col_text CDap = ''dap''"
| "col_text CLearned = ''learned''"
| "col_text CTrusted = ''trusted''"
| "col_text CBlocked = ''blocked''"
| "col_text CIp = ''ip''"
| "col_text CPort = ''port''"
| "col_text CNetwork = ''network''"
| "col_text CIpv6 = ''ipv6''"
| "col_text CMac = ''mac''"
| "col_text CVendor = ''vendor''"
| "col_text CDownload = ''download''"
| "col_text CUpload = ''upload''"

definition COLS_KEY :: string where
  "COLS_KEY = ''fireproxy.devices.cols''"

definition PORT_OFF :: string where
  "PORT_OFF = ''fireproxy.devices.cols.portOff''"

definition defaultDeviceCols :: "DeviceColId list" where
  "defaultDeviceCols = [CName, CGroup, CStatus, CIp, CVendor, CDownload, CUpload]"

text \<open>\<open>allowed.has(id)\<close>: the column of a stored value, if it names one.\<close>

fun allowed_col :: "json \<Rightarrow> DeviceColId option" where
  "allowed_col (JStr x) = find (\<lambda>c. col_text c = x) (map fst DEVICE_COLS)"
| "allowed_col _ = None"

definition drop_port :: "DeviceColId list \<Rightarrow> Storage \<Rightarrow> StorageError + Storage \<times> DeviceColId list" where
  "drop_port out s =
     (case getItem PORT_OFF s of
        Inl e \<Rightarrow> Inl e
      | Inr mark \<Rightarrow>
          if truthy mark then Inr (s, out)
          else case setItem PORT_OFF ''1'' s of
            Inl e \<Rightarrow> Inl e
          | Inr s' \<Rightarrow> Inr (s', filter (\<lambda>c. c \<noteq> CPort) out))"

definition loadDeviceCols :: "Storage \<Rightarrow> Storage \<times> DeviceColId list" where
  "loadDeviceCols s =
     (case getItem COLS_KEY s of
        Inl _ \<Rightarrow> (s, defaultDeviceCols)
      | Inr raw \<Rightarrow>
          if \<not> truthy raw then (s, defaultDeviceCols)
          else case JSON_parse (opt_str raw) of
            Some (JArr ids) \<Rightarrow>
              let out = List.map_filter allowed_col ids;
                  out = (if CName \<in> set out then out else CName # out)
              in (case drop_port out s of
                    Inr (s', out') \<Rightarrow> (s', if out' \<noteq> [] then out' else defaultDeviceCols)
                  | Inl _ \<Rightarrow> (s, defaultDeviceCols))
          | _ \<Rightarrow> (s, defaultDeviceCols))"

definition saveDeviceCols :: "(rat \<Rightarrow> string) \<Rightarrow> DeviceColId list \<Rightarrow> Storage \<Rightarrow> Storage" where
  "saveDeviceCols str_num ids s = try_set COLS_KEY (stringify str_num (JArr (map (\<lambda>c. JStr (col_text c)) ids))) s"

section \<open>Properties\<close>

lemma col_of_text [simp]: "find (\<lambda>d. col_text d = col_text c) (map fst DEVICE_COLS) = Some c"
  by (cases c) (simp_all add: DEVICE_COLS_def)

lemma allowed_cols [simp]: "List.map_filter allowed_col (map (\<lambda>c. JStr (col_text c)) ids) = ids"
  by (induction ids) (simp_all add: map_filter_simps)

lemma cols_printable: "printable_items str_num (map (\<lambda>c. JStr (col_text c)) ids)"
  by (induction ids) simp_all

lemma cols_parse:
  "JSON_parse (stringify str_num (JArr (map (\<lambda>c. JStr (col_text c)) ids))) =
     Some (JArr (map (\<lambda>c. JStr (col_text c)) ids))"
  by (rule parse_stringify) (simp add: cols_printable)

text \<open>whatever the storage holds, the columns that are loaded include the name of the device.\<close>

theorem loaded_cols_name: "CName \<in> set (snd (loadDeviceCols s))"
proof -
  have "CName \<in> set out'" if "drop_port out s = Inr (s', out')" "CName \<in> set out" for out s' out'
    using that by (auto simp: drop_port_def split: sum.splits if_splits)
  then show ?thesis
    by (fastforce simp: loadDeviceCols_def defaultDeviceCols_def Let_def
        split: sum.splits option.splits json.splits)
qed



end
