(* ===== verification/Snooze.thy ===== *)
theory Snooze
  imports Prefs Json
begin

text \<open>
  Findings of the audit put off for a while (\<open>ui/src/lib/audit-snooze.ts\<close>). The store is an object
  from hardware addresses in capitals to the time until which the finding is hidden, kept as JSON in
  the storage of the browser. What is read there may be anything: an array counts as an object
  whose keys are its indices, and entries that are no numbers are dropped by \<open>prune\<close>. \<open>str_num\<close>
  is the text of a number; the clock is an argument.
\<close>

section \<open>The store\<close>

definition SNOOZE_KEY :: string where
  "SNOOZE_KEY = ''fireproxy.audit.snooze.offline''"

definition DEFAULT_MS :: rat where
  "DEFAULT_MS = 7 * 24 * 60 * 60 * 1000"

type_synonym Store = "(string, json) jsmap"

definition read_store :: "Storage \<Rightarrow> Store" where
  "read_store s =
     (case getItem SNOOZE_KEY s of
        Inl _ \<Rightarrow> []
      | Inr raw \<Rightarrow>
          if \<not> truthy raw then []
          else case JSON_parse (opt_str raw) of
            None \<Rightarrow> []
          | Some (JObj ms) \<Rightarrow> ms
          | Some (JArr vs) \<Rightarrow> zip (map dec [0..<length vs]) vs
          | Some _ \<Rightarrow> [])"

definition write_store :: "(rat \<Rightarrow> string) \<Rightarrow> Store \<Rightarrow> Storage \<Rightarrow> Storage" where
  "write_store str_num store s = try_set SNOOZE_KEY (stringify str_num (JObj store)) s"

fun prune_add :: "rat \<Rightarrow> string \<times> json \<Rightarrow> Store \<Rightarrow> Store" where
  "prune_add now (mac, JNum until) out = (if now < until then AList.update mac (JNum until) out else out)"
| "prune_add now _ out = out"

definition prune :: "Store \<Rightarrow> rat \<Rightarrow> Store" where
  "prune store now = fold (prune_add now) store []"

section \<open>Operations\<close>

definition snooze_key :: "string \<Rightarrow> string" where
  "snooze_key mac = toUpperCase (trim mac)"

definition isOfflineSnoozed :: "string \<Rightarrow> rat \<Rightarrow> Storage \<Rightarrow> bool" where
  "isOfflineSnoozed mac now s =
     (let k = snooze_key mac in
      if k = [] then False
      else case map_of (prune (read_store s) now) k of Some (JNum until) \<Rightarrow> now < until | _ \<Rightarrow> False)"

definition snoozeOffline :: "(rat \<Rightarrow> string) \<Rightarrow> string \<Rightarrow> rat \<Rightarrow> rat \<Rightarrow> Storage \<Rightarrow> Storage" where
  "snoozeOffline str_num mac ms now s =
     (let k = snooze_key mac in
      if k = [] then s
      else write_store str_num (AList.update k (JNum (now + ms)) (prune (read_store s) now)) s)"

definition unsnoozeOffline :: "(rat \<Rightarrow> string) \<Rightarrow> string \<Rightarrow> rat \<Rightarrow> Storage \<Rightarrow> Storage" where
  "unsnoozeOffline str_num mac now s =
     (let k = snooze_key mac in
      if k = [] then s
      else write_store str_num (AList.delete k (prune (read_store s) now)) s)"

definition live_keys :: "string list \<Rightarrow> string list" where
  "live_keys liveMacs = filter (\<lambda>m. m \<noteq> []) (map snooze_key liveMacs)"

fun sync_step :: "string list \<Rightarrow> string \<Rightarrow> Store \<times> bool \<Rightarrow> Store \<times> bool" where
  "sync_step live mac (store, changed) =
     (if mac \<in> set live then (store, changed) else (AList.delete mac store, True))"

definition syncOfflineSnoozes :: "(rat \<Rightarrow> string) \<Rightarrow> string list \<Rightarrow> rat \<Rightarrow> Storage \<Rightarrow> Storage" where
  "syncOfflineSnoozes str_num liveMacs now s =
     (let store = prune (read_store s) now;
          (store', changed) = fold (sync_step (live_keys liveMacs)) (map fst store) (store, False)
      in if changed then write_store str_num store' s else s)"

definition countUnsnoozedOffline :: "string list \<Rightarrow> rat \<Rightarrow> Storage \<Rightarrow> nat" where
  "countUnsnoozedOffline macs now s =
     foldl (\<lambda>n mac. n + (if isOfflineSnoozed mac now s then 0 else 1)) 0 macs"

section \<open>What pruning keeps\<close>

text \<open>The entries of a time: a number later than it.\<close>

fun later :: "rat \<Rightarrow> json \<Rightarrow> bool" where
  "later now (JNum until) = (now < until)"
| "later now _ = False"

lemma prune_add_later: "prune_add now (mac, v) out = (if later now v then AList.update mac v out else out)"
  by (cases v) simp_all

lemma map_of_prune:
  "map_of (prune store now) k = map_of (rev (filter (\<lambda>e. later now (snd e)) store)) k"
proof -
  have "map_of (fold (prune_add now) store out) k =
      map_of (rev (filter (\<lambda>e. later now (snd e)) store) @ out) k" for out
  proof (induction store arbitrary: out)
    case (Cons e store)
    obtain m v where "e = (m, v)" by force
    then show ?case using Cons.IH
      by (auto simp: prune_add_later js_map map_add_def split: option.splits)
  qed simp
  from this [of "[]"] show ?thesis by (simp add: prune_def)
qed

lemma prune_fold_distinct:
  "distinct (map fst out) \<Longrightarrow> distinct (map fst (fold (prune_add now) store out))"
  by (induction store arbitrary: out) (auto simp: prune_add_later distinct_update split: if_splits)

lemma prune_distinct: "distinct (map fst (prune store now))"
  by (simp add: prune_def prune_fold_distinct)

text \<open>A store whose keys are apart is pruned entry by entry.\<close>

lemma map_of_filter_later:
  "distinct (map fst xs) \<Longrightarrow>
     map_of (filter (\<lambda>e. later t (snd e)) xs) k =
       (case map_of xs k of Some v \<Rightarrow> if later t v then Some v else None | None \<Rightarrow> None)"
  by (induction xs) (auto split: option.splits simp: map_of_eq_None_iff)

lemma map_of_rev_apart: "distinct (map fst xs) \<Longrightarrow> map_of (rev xs) k = map_of xs k"
  using map_of_inject_set [of "rev xs" xs] by (simp add: rev_map [symmetric])

lemma prune_lookup:
  assumes "distinct (map fst store)"
  shows "map_of (prune store t) k =
    (case map_of store k of Some v \<Rightarrow> if later t v then Some v else None | None \<Rightarrow> None)"
proof -
  let ?f = "filter (\<lambda>e. later t (snd e)) store"
  have "distinct (map fst ?f)" using assms by (simp add: distinct_map_filter)
  then have "map_of (rev ?f) k = map_of ?f k" by (simp add: map_of_rev_apart)
  then show ?thesis by (simp add: map_of_prune map_of_filter_later [OF assms])
qed

text \<open>What is read has every key once.\<close>

lemma collapse_apart: "distinct (map fst (collapse ms))"
proof -
  have "distinct (map fst m) \<Longrightarrow> distinct (map fst (fold (\<lambda>(k, v) m. AList.update k v m) ms m))" for m
    by (induction ms arbitrary: m) (auto simp: distinct_update)
  then show ?thesis by (simp add: collapse_def)
qed

lemma parse_value_apart: "parse_value s = Some (JObj ms, r) \<Longrightarrow> distinct (map fst ms)"
  by (subst (asm) parse_value.simps) (auto simp: collapse_apart split: list.splits if_splits)

lemma read_store_apart: "distinct (map fst (read_store s))"
proof -
  have "distinct (map fst ms)" if "JSON_parse raw = Some (JObj ms)" for raw ms
    using that parse_value_apart by (auto simp: JSON_parse_def split: option.splits if_splits)
  moreover have "distinct (map fst (zip (map dec [0..<length vs]) vs))" for vs :: "json list"
    by (simp add: distinct_map inj_on_def)
  ultimately show ?thesis
    by (auto simp: read_store_def split: sum.splits option.splits json.splits)
qed

section \<open>What is written\<close>

text \<open>The numbers of a store whose text is read back.\<close>

definition storable :: "(rat \<Rightarrow> string) \<Rightarrow> Store \<Rightarrow> bool" where
  "storable str_num store \<longleftrightarrow> list_all (\<lambda>e. case snd e of JNum x \<Rightarrow> reads_back str_num x | _ \<Rightarrow> False) store"

lemma storable_printable: "storable str_num store \<Longrightarrow> printable_members str_num store"
proof (induction store)
  case (Cons e store)
  then show ?case by (cases e; cases "snd e") (simp_all add: storable_def)
qed (simp add: storable_def)

lemma read_write:
  assumes "usable s" "distinct (map fst store)" "storable str_num store"
  shows "read_store (write_store str_num store s) = store"
proof -
  have "JSON_parse (stringify str_num (JObj store)) = Some (JObj store)"
    by (rule parse_stringify) (simp add: assms storable_printable)
  then show ?thesis
    using assms(1) by (simp add: read_store_def write_store_def getItem_try_set truthy_def opt_str_def)
qed

lemma storable_update:
  "storable str_num store \<Longrightarrow> reads_back str_num x \<Longrightarrow> storable str_num (AList.update k (JNum x) store)"
  by (induction store) (auto simp: storable_def)

lemma storable_delete: "storable str_num store \<Longrightarrow> storable str_num (AList.delete k store)"
  by (induction store) (auto simp: storable_def)

text \<open>The state of a device at a time, by its entry.\<close>

lemma snoozed_iff:
  "isOfflineSnoozed mac t s \<longleftrightarrow>
     snooze_key mac \<noteq> [] \<and> (case map_of (read_store s) (snooze_key mac) of Some v \<Rightarrow> later t v | None \<Rightarrow> False)"
proof -
  have "(case v of JNum u \<Rightarrow> t < u | _ \<Rightarrow> False) = later t v" for v by (cases v) simp_all
  then show ?thesis
    by (auto simp: isOfflineSnoozed_def Let_def prune_lookup [OF read_store_apart] split: option.splits)
qed

lemma later_mono: "now \<le> t \<Longrightarrow> later t v \<Longrightarrow> later now v"
  by (cases v) auto

section \<open>Properties\<close>

text \<open>C36: a device put off at a time is hidden until that time and the given span are over, whatever
  was stored for it before; the other devices are hidden exactly as long as they were. The
  hypotheses are that the storage can be written and that the numbers in it can be printed.\<close>

theorem snooze_until:
  assumes "usable s" "storable str_num (prune (read_store s) now)" "reads_back str_num (now + ms)"
    and "snooze_key mac \<noteq> []" "now \<le> t"
  shows "isOfflineSnoozed m t (snoozeOffline str_num mac ms now s) =
    (if snooze_key m = snooze_key mac then t < now + ms else isOfflineSnoozed m t s)"
proof -
  let ?st = "AList.update (snooze_key mac) (JNum (now + ms)) (prune (read_store s) now)"
  have "read_store (snoozeOffline str_num mac ms now s) = ?st"
    using assms by (simp add: snoozeOffline_def read_write storable_update distinct_update prune_distinct)
  then show ?thesis
    using assms(4,5) later_mono [of now t]
    by (auto simp: snoozed_iff js_map prune_lookup [OF read_store_apart] split: option.splits)
qed

text \<open>putting off a device and taking that back hides no device that was not hidden, and every
  other device as long as before.\<close>

theorem unsnooze_clears:
  assumes "usable s" "storable str_num (prune (read_store s) now)" "now \<le> t"
  shows "isOfflineSnoozed m t (unsnoozeOffline str_num mac now s) =
    (snooze_key m \<noteq> snooze_key mac \<and> isOfflineSnoozed m t s)"
proof (cases "snooze_key mac = []")
  case True
  then show ?thesis by (auto simp: unsnoozeOffline_def snoozed_iff)
next
  case False
  let ?st = "AList.delete (snooze_key mac) (prune (read_store s) now)"
  have "read_store (unsnoozeOffline str_num mac now s) = ?st"
    using assms False by (simp add: unsnoozeOffline_def read_write storable_delete distinct_delete prune_distinct)
  then show ?thesis
    using assms(3) later_mono [of now t]
    by (auto simp: snoozed_iff delete_conv' prune_lookup [OF read_store_apart] split: option.splits)
qed

lemma sync_fold:
  "fold (sync_step live) ks (store, changed) =
     (fold (\<lambda>k st. if k \<in> set live then st else AList.delete k st) ks store,
      changed \<or> list_ex (\<lambda>k. k \<notin> set live) ks)"
  by (induction ks arbitrary: store changed) auto

lemma sync_lookup:
  "map_of (fold (\<lambda>k st. if k \<in> set live then st else AList.delete k st) ks store) k =
     (if k \<in> set ks \<and> k \<notin> set live then None else map_of store k)"
  by (induction ks arbitrary: store) (auto simp: delete_conv')

lemma sync_apart:
  "distinct (map fst store) \<Longrightarrow>
     distinct (map fst (fold (\<lambda>k st. if k \<in> set live then st else AList.delete k st) ks store))"
  by (induction ks arbitrary: store) (auto simp: distinct_delete)

lemma sync_storable:
  "storable str_num store \<Longrightarrow>
     storable str_num (fold (\<lambda>k st. if k \<in> set live then st else AList.delete k st) ks store)"
  by (induction ks arbitrary: store) (auto simp: storable_delete)

text \<open>dropping the entries of devices that are no longer offline leaves hidden exactly the hidden
  devices that are still offline, and writes nothing when there is nothing to drop.\<close>

theorem sync_keeps_live:
  assumes "usable s" "storable str_num (prune (read_store s) now)" "now \<le> t"
  shows "isOfflineSnoozed m t (syncOfflineSnoozes str_num live now s) =
    (isOfflineSnoozed m t s \<and> snooze_key m \<in> set (live_keys live))"
proof -
  let ?st = "prune (read_store s) now" and ?live = "live_keys live"
  let ?st' = "fold (\<lambda>k st. if k \<in> set ?live then st else AList.delete k st) (map fst ?st) ?st"
  let ?s' = "syncOfflineSnoozes str_num live now s"
  have s': "?s' = (if list_ex (\<lambda>k. k \<notin> set ?live) (map fst ?st) then write_store str_num ?st' s else s)"
    by (simp add: syncOfflineSnoozes_def sync_fold Let_def)
  have key: "snooze_key m \<in> set (map fst ?st)" if "isOfflineSnoozed m t s"
  proof -
    have "map_of ?st (snooze_key m) \<noteq> None"
      using that later_mono [OF assms(3)]
      by (auto simp: snoozed_iff prune_lookup [OF read_store_apart] split: option.splits)
    then show ?thesis by (simp add: map_of_eq_None_iff)
  qed
  show ?thesis
  proof (cases "list_ex (\<lambda>k. k \<notin> set ?live) (map fst ?st)")
    case False
    then have "\<forall>k \<in> set (map fst ?st). k \<in> set ?live" by (simp add: list_ex_iff)
    then show ?thesis using key False by (auto simp: s' simp del: set_map)
  next
    case True
    have read: "read_store (write_store str_num ?st' s) = ?st'"
      using assms by (intro read_write sync_apart sync_storable prune_distinct)
    have "isOfflineSnoozed m t ?s' \<longleftrightarrow> snooze_key m \<noteq> [] \<and>
        (case map_of ?st' (snooze_key m) of Some v \<Rightarrow> later t v | None \<Rightarrow> False)"
      using True by (simp add: s' snoozed_iff read)
    also have "\<dots> \<longleftrightarrow> snooze_key m \<in> set ?live \<and> isOfflineSnoozed m t s"
    proof (cases "snooze_key m \<in> set ?live")
      case True
      then show ?thesis using later_mono [OF assms(3)]
        by (auto simp: sync_lookup snoozed_iff prune_lookup [OF read_store_apart] split: option.splits)
    next
      case False
      then have "map_of ?st' (snooze_key m) = None"
        by (simp add: sync_lookup map_of_eq_None_iff)
      with False show ?thesis by simp
    qed
    finally show ?thesis by blast
  qed
qed

lemma count_filter: "countUnsnoozedOffline macs now s = length (filter (\<lambda>m. \<not> isOfflineSnoozed m now s) macs)"
proof -
  have "foldl (\<lambda>n mac. n + (if isOfflineSnoozed mac now s then 0 else 1)) k macs =
      k + length (filter (\<lambda>m. \<not> isOfflineSnoozed m now s) macs)" for k
    by (induction macs arbitrary: k) simp_all
  from this [of 0] show ?thesis by (simp add: countUnsnoozedOffline_def)
qed

section \<open>Witnesses\<close>

definition empty_storage :: Storage where
  "empty_storage = \<lparr>ls_items = [], ls_blocked = False, ls_full = False\<rparr>"

definition int_text :: "rat \<Rightarrow> string" where
  "int_text x = dec (nat \<lfloor>x\<rfloor>)"

lemma reads_back_int_text: "reads_back int_text (of_nat n)"
  by (rule reads_back_dec) (simp add: int_text_def)

lemma empty_storage_facts:
  "usable empty_storage" "read_store empty_storage = []" "prune [] t = []" "storable str_num []"
  by (simp_all add: empty_storage_def usable_def read_store_def getItem_def truthy_def prune_def storable_def)

theorem snooze_until_witness:
  "isOfflineSnoozed '' aa:bb:cc:00:11:22 '' 1500 (snoozeOffline int_text ''AA:BB:CC:00:11:22'' 1000 1000 empty_storage)"
proof -
  have key: "snooze_key ''AA:BB:CC:00:11:22'' = snooze_key '' aa:bb:cc:00:11:22 ''"
    "snooze_key ''AA:BB:CC:00:11:22'' \<noteq> []"
    by code_simp+
  have "reads_back int_text (1000 + 1000)" using reads_back_int_text [of 2000] by simp
  from snooze_until [OF empty_storage_facts(1) _ this key(2), of 1500 "'' aa:bb:cc:00:11:22 ''"]
  show ?thesis by (simp add: empty_storage_facts key(1))
qed

text \<open>A storage in which one device is put off from 1000 until 2000.\<close>

definition sample_storage :: Storage where
  "sample_storage = write_store int_text [(''AA:BB'', JNum 2000)] empty_storage"

lemma sample_read: "read_store sample_storage = [(''AA:BB'', JNum 2000)]"
  unfolding sample_storage_def
  by (rule read_write) (use reads_back_int_text [of 2000] in \<open>simp_all add: empty_storage_facts storable_def\<close>)

lemma sample_facts: "usable sample_storage" "storable int_text (prune (read_store sample_storage) 1000)"
  using reads_back_int_text [of 2000]
  by (simp_all add: sample_read prune_def storable_def)
    (simp add: sample_storage_def write_store_def empty_storage_facts)

lemma sample_snoozed: "isOfflineSnoozed ''aa:bb'' 1500 sample_storage"
proof -
  have "snooze_key ''aa:bb'' = ''AA:BB''" by code_simp
  then show ?thesis by (simp add: snoozed_iff sample_read)
qed

theorem unsnooze_clears_witness:
  "\<not> isOfflineSnoozed ''aa:bb'' 1500 (unsnoozeOffline int_text ''AA:BB'' 1000 sample_storage) \<and>
   isOfflineSnoozed ''aa:bb'' 1500 (unsnoozeOffline int_text ''CC:DD'' 1000 sample_storage)"
proof -
  have "snooze_key ''aa:bb'' = snooze_key ''AA:BB''" "snooze_key ''aa:bb'' \<noteq> snooze_key ''CC:DD''" by code_simp+
  then show ?thesis
    using unsnooze_clears [OF sample_facts, of 1500 "''aa:bb''"] sample_snoozed by simp
qed

theorem sync_keeps_live_witness:
  "\<not> isOfflineSnoozed ''aa:bb'' 1500 (syncOfflineSnoozes int_text [''CC:DD''] 1000 sample_storage) \<and>
   isOfflineSnoozed ''aa:bb'' 1500 (syncOfflineSnoozes int_text [''AA:BB'', ''CC:DD''] 1000 sample_storage)"
proof -
  have "snooze_key ''aa:bb'' \<notin> set (live_keys [''CC:DD''])" "snooze_key ''aa:bb'' \<in> set (live_keys [''AA:BB'', ''CC:DD''])"
    by code_simp+
  then show ?thesis
    using sync_keeps_live [OF sample_facts, of 1500 "''aa:bb''"] sample_snoozed by simp
qed

end
