(* ===== verification/Rules.thy ===== *)
theory Rules
  imports Format SwitchPort
begin

text \<open>
  The rules view (\<open>ui/src/tabs/RulesTab.tsx\<close>, lines 62 to 277): the tables of sections, actions and
  kinds of match, the filter of the rules by scope, the summary of hits and the texts of a rule.
\<close>

section \<open>Tables\<close>

definition SECTIONS :: "(FwAppRuleSection \<times> string) list" where
  "SECTIONS = [(SecAllow, ''Allow''), (SecBlock, ''Block''), (SecDisturb, ''Disturb''),
     (SecTimelimit, ''Timelimit''), (SecOther, ''Other'')]"

definition CREATE_ACTIONS :: "(string \<times> string \<times> string) list" where
  "CREATE_ACTIONS = [(''allow'', ''Allow'', ''rule.create.allow''), (''block'', ''Block'', ''rule.create.block''),
     (''timelimit'', ''Time Limit'', ''rule.create.timelimit'')]"

record MatchKind =
  mk_id :: string
  mk_label :: string
  mk_type :: string
  mk_ready :: bool

definition MATCH_KINDS :: "MatchKind list" where
  "MATCH_KINDS =
     [\<lparr>mk_id = ''dns'', mk_label = ''Domain'', mk_type = ''dns'', mk_ready = True\<rparr>,
      \<lparr>mk_id = ''ip'', mk_label = ''IP Address'', mk_type = ''ip'', mk_ready = True\<rparr>,
      \<lparr>mk_id = ''iprange'', mk_label = ''IP Address Range'', mk_type = ''ip'', mk_ready = True\<rparr>,
      \<lparr>mk_id = ''country'', mk_label = ''Region'', mk_type = ''country'', mk_ready = True\<rparr>,
      \<lparr>mk_id = ''category'', mk_label = ''Category'', mk_type = ''category'', mk_ready = True\<rparr>,
      \<lparr>mk_id = ''app'', mk_label = ''App'', mk_type = ''app'', mk_ready = False\<rparr>,
      \<lparr>mk_id = ''targetlist'', mk_label = ''Target List'', mk_type = ''category'', mk_ready = False\<rparr>,
      \<lparr>mk_id = ''remotePort'', mk_label = ''Remote Port'', mk_type = ''remotePort'', mk_ready = False\<rparr>,
      \<lparr>mk_id = ''localPort'', mk_label = ''Local Port'', mk_type = ''localPort'', mk_ready = False\<rparr>,
      \<lparr>mk_id = ''device'', mk_label = ''Device'', mk_type = ''mac'', mk_ready = True\<rparr>,
      \<lparr>mk_id = ''intranet'', mk_label = ''Local Network'', mk_type = ''intranet'', mk_ready = False\<rparr>,
      \<lparr>mk_id = ''internet'', mk_label = ''Internet'', mk_type = ''internet'', mk_ready = False\<rparr>]"

definition MATCH_GROUPS :: "(string \<times> string list) list" where
  "MATCH_GROUPS =
     [(''App'', [''app'', ''targetlist'']),
      (''Network'', [''dns'', ''ip'', ''iprange'', ''remotePort'', ''localPort'', ''country'']),
      (''Device'', [''device'', ''intranet'', ''internet'']),
      (''Category'', [''category''])]"

definition SYSTEM_CATEGORIES :: "(string \<times> string) list" where
  "SYSTEM_CATEGORIES =
     [(''games'', ''All Gaming Sites''), (''social'', ''All Social Sites''), (''av'', ''All Video Sites''),
      (''porn'', ''All Porn Sites''), (''p2p'', ''All P2P Sites''), (''gamble'', ''All Gambling Sites''),
      (''shopping'', ''All Shopping Sites''), (''vpn'', ''All VPN Sites''),
      (''violence'', ''All Violence Sites''), (''drugs'', ''All Drugs & Alcohol Sites'')]"

definition APP_LABELS :: "(string, string) jsmap" where
  "APP_LABELS =
     [(''amznvideo'', ''Amazon Prime''), (''discord'', ''Discord''), (''disneyplus'', ''Disney+''),
      (''facebook'', ''Facebook''), (''fortnite'', ''Fortnite''), (''googlemeet'', ''Google Meet''),
      (''hulu'', ''Hulu''), (''instagram'', ''Instagram''), (''lol'', ''League of Legends''),
      (''msteams'', ''Microsoft Teams''), (''netflix'', ''Netflix''), (''roblox'', ''Roblox''),
      (''snapchat'', ''Snapchat''), (''tiktok'', ''TikTok''), (''twitch'', ''Twitch''), (''twitter'', ''X''),
      (''webex'', ''Webex''), (''youtube'', ''YouTube''), (''zoom'', ''Zoom'')]"

definition DAP_SCOPE_ID :: string where
  "DAP_SCOPE_ID = ''__dap__''"

section \<open>Scopes\<close>

definition tag_of :: "string \<Rightarrow> string" where
  "tag_of s = (if startsWith s ''tag:'' then drop 4 s else s)"

definition scopeTagId :: "FwAppScopeChip \<Rightarrow> string" where
  "scopeTagId scope = tag_of (ch_id scope)"

definition ruleMatchesScope :: "FwAppRule \<Rightarrow> FwAppScopeChip option \<Rightarrow> bool" where
  "ruleMatchesScope rule chip =
     (case chip of
        None \<Rightarrow> True
      | Some c \<Rightarrow>
          if ch_kind c = ScopeAll \<or> ch_id c = ''all'' then True
          else if ch_kind c = ScopeDevice then
            list_ex (\<lambda>m. toUpperCase m = toUpperCase (ch_id c)) (opt_list (fr_scope rule))
          else list_ex (\<lambda>t. tag_of t = tag_of (ch_id c) \<or> t = ch_id c) (opt_list (fr_tags rule)))"

definition ruleHaystack :: "FwAppRule \<Rightarrow> string" where
  "ruleHaystack r =
     toLowerCase (join '' '' (filter (\<lambda>s. s \<noteq> [])
       [fr_target r, opt_str (fr_name r), opt_str (fr_notes r), opt_str (fr_scopeLabel r), fr_type r,
        fr_action r, fr_id r]))"

section \<open>Hits and times\<close>

definition fmtHits :: "int \<Rightarrow> string" where
  "fmtHits n =
     (if 1000000 \<le> n then toFixed 1 (of_int n / 1000000) @ ''M''
      else if 10000 \<le> n then dec_int (js_round (of_int n / 1000)) @ ''k''
      else if 1000 \<le> n then toFixed 1 (of_int n / 1000) @ ''k''
      else dec_int n)"

text \<open>\<open>/^\d+(\.\d+)?$/\<close>\<close>

definition rx_epoch :: rx where
  "rx_epoch = Seqs [Bol, Plus (Cls is_digit), Opt (Seq (Chr CHR ''.'') (Plus (Cls is_digit))), Eol]"

definition isEpochish :: "string \<Rightarrow> bool" where
  "isEpochish s = test rx_epoch (trim s)"

text \<open>
  A time that is a number or text; a date of the language ends 8.64e15 milliseconds after the epoch,
  and its printing by locale is the parameter \<open>date_text\<close>.
\<close>

datatype RawTime = TimeText string | TimeNum jsnum

definition fmtTs :: "(rat \<Rightarrow> string) \<Rightarrow> RawTime option \<Rightarrow> string option" where
  "fmtTs date_text raw =
     (case raw of
        None \<Rightarrow> None
      | Some (TimeText []) \<Rightarrow> None
      | Some r \<Rightarrow>
          (case (case r of TimeNum n \<Rightarrow> n | TimeText s \<Rightarrow> js_Number s) of
             Num n \<Rightarrow> if n \<le> 0 then None
                      else if 8640000000000000 < n * 1000 then None
                      else Some (date_text (n * 1000))
           | _ \<Rightarrow> None))"

definition fmtHitBadge :: "(rat \<Rightarrow> string) \<Rightarrow> FwAppRule \<Rightarrow> string" where
  "fmtHitBadge date_text r =
     (if fr_hitCount r = 0 \<and> (case fr_lastHitTs r of None \<Rightarrow> True | Some t \<Rightarrow> t = 0) then ''0''
      else
        let n = fmtHits (fr_hitCount r);
            when_text = opt_str (fmtTs date_text (map_option (\<lambda>t. TimeNum (Num (of_int t))) (fr_lastHitTs r)))
        in if when_text \<noteq> [] then n @ MIDDOT @ when_text else n)"

definition directionLabel :: "FwAppRule \<Rightarrow> string" where
  "directionLabel r =
     (let dir = toLowerCase (or_else (opt_str (fr_trafficDirection r)) (opt_str (fr_direction r))) in
      if dir = ''outbound'' \<or> dir = ''out'' then ''Outbound only''
      else if dir = ''inbound'' \<or> dir = ''in'' then ''Inbound only''
      else if dir = ''bidirection'' \<or> dir = ''both'' then ''Both directions''
      else ''Always'')"

definition scheduleLabel :: "FwAppRule \<Rightarrow> string" where
  "scheduleLabel r =
     (let raw = opt_trim (fr_activatedTime r) in if raw = [] \<or> isEpochish raw then ''Always'' else raw)"

definition fmtQuotaMinutes :: "jsnum option \<Rightarrow> string option" where
  "fmtQuotaMinutes mins =
     (case mins of
        Some (Num x) \<Rightarrow>
          if x \<le> 0 then None
          else
            let h = \<lfloor>x / 60\<rfloor>; m = js_round (x - 60 * of_int \<lfloor>x / 60\<rfloor>) in
            if 0 < h \<and> 0 < m then Some (dec_int h @ ''h '' @ dec_int m @ ''m'')
            else if 0 < h then Some (dec_int h @ ''h'')
            else Some (dec_int m @ ''m'')
      | _ \<Rightarrow> None)"

definition fmtDayWindow :: "jsnum option \<Rightarrow> string option" where
  "fmtDayWindow off =
     (case off of
        Some (Num x) \<Rightarrow>
          if x < 0 then None
          else
            let sec = nat \<lfloor>x\<rfloor> mod 86400;
                hh = padStart 2 CHR ''0'' (dec (sec div 3600));
                mm = padStart 2 CHR ''0'' (dec (sec mod 3600 div 60))
            in Some (hh @ '':'' @ mm)
      | _ \<Rightarrow> None)"

definition timelimitWhen :: "FwAppRule \<Rightarrow> string option" where
  "timelimitWhen r =
     (let num = map_option (\<lambda>i. Num (of_int i));
          q = opt_str (fmtQuotaMinutes (num (fr_thresholdMinutes r)));
          w = opt_str (fmtDayWindow (num (fr_offsetSeconds r)));
          parts = (if q \<noteq> [] then [''Quota '' @ q @ ''/day''] else []) @ (if w \<noteq> [] then [''from '' @ w] else [])
      in if parts \<noteq> [] then Some (join MIDDOT parts) else None)"

definition metaLine :: "FwAppRule \<Rightarrow> string" where
  "metaLine r =
     (let general =
            (let direction = directionLabel r; schedule = scheduleLabel r in
             if direction = ''Always'' then schedule
             else if schedule = ''Always'' then direction
             else direction @ MIDDOT @ schedule)
      in if fr_section r = SecTimelimit
         then (case timelimitWhen r of Some w \<Rightarrow> if w \<noteq> [] then w else general | None \<Rightarrow> general)
         else general)"

definition looksLikeUUID :: "string \<Rightarrow> bool" where
  "looksLikeUUID s = test rx_uuid (trim s)"

definition matchingLabel :: "FwAppRule \<Rightarrow> string" where
  "matchingLabel r =
     (let kind = trim (fr_type r);
          target = or_else (trim (or_else (opt_str (fr_name r)) (fr_target r))) EM_DASH
      in if kind = [] then target else toUpperCase kind @ '' '' @ target)"

section \<open>The summary\<close>

definition hub_add :: "FwAppRule \<Rightarrow> FwAppRulesHub \<Rightarrow> FwAppRulesHub" where
  "hub_add r hub =
     (let n = fr_hitCount r; hub1 = hub\<lparr>hub_totalHits := hub_totalHits hub + n\<rparr> in
      if fr_section r = SecAllow
      then hub1\<lparr>hub_allowCount := hub_allowCount hub1 + 1, hub_allowHits := hub_allowHits hub1 + n\<rparr>
      else if fr_section r = SecBlock
      then hub1\<lparr>hub_blockCount := hub_blockCount hub1 + 1, hub_blockHits := hub_blockHits hub1 + n\<rparr>
      else hub1)"

definition hubFromRules :: "FwAppRule list \<Rightarrow> FwAppRulesHub" where
  "hubFromRules rules =
     fold hub_add rules \<lparr>hub_totalRules = int (length rules), hub_totalHits = 0, hub_allowHits = 0,
       hub_blockHits = 0, hub_allowCount = 0, hub_blockCount = 0\<rparr>"

section \<open>Properties\<close>

definition section_rules :: "FwAppRuleSection \<Rightarrow> FwAppRule list \<Rightarrow> FwAppRule list" where
  "section_rules sec rules = filter (\<lambda>r. fr_section r = sec) rules"

lemma hub_fold:
  "fold hub_add rules hub =
     hub\<lparr>hub_totalHits := hub_totalHits hub + sum_list (map fr_hitCount rules),
         hub_allowHits := hub_allowHits hub + sum_list (map fr_hitCount (section_rules SecAllow rules)),
         hub_blockHits := hub_blockHits hub + sum_list (map fr_hitCount (section_rules SecBlock rules)),
         hub_allowCount := hub_allowCount hub + int (length (section_rules SecAllow rules)),
         hub_blockCount := hub_blockCount hub + int (length (section_rules SecBlock rules))\<rparr>"
  by (induction rules arbitrary: hub) (simp_all add: hub_add_def section_rules_def Let_def)

text \<open>the summary counts the rules and adds up the hits of all rules, of the rules that allow and of
  the rules that block, as the sums over those rules.\<close>

theorem hubFromRules_sums:
  "hubFromRules rules =
     \<lparr>hub_totalRules = int (length rules), hub_totalHits = sum_list (map fr_hitCount rules),
      hub_allowHits = sum_list (map fr_hitCount (section_rules SecAllow rules)),
      hub_blockHits = sum_list (map fr_hitCount (section_rules SecBlock rules)),
      hub_allowCount = int (length (section_rules SecAllow rules)),
      hub_blockCount = int (length (section_rules SecBlock rules))\<rparr>"
  by (simp add: hubFromRules_def hub_fold)

text \<open>A text of two digits, and the number it shows.\<close>

lemma two_digits:
  assumes "n < 100"
  shows "length (padStart 2 CHR ''0'' (dec n)) = 2" "read_nat 10 (padStart 2 CHR ''0'' (dec n)) = n"
proof -
  have "n div 10 < 10" using assms by (simp add: div_less_iff_less_mult)
  then have "length (dec n) \<le> 2"
    unfolding dec_def by (subst radix.simps, simp, subst radix.simps, simp)
  then show "length (padStart 2 CHR ''0'' (dec n)) = 2" by simp
  have "read_nat 10 (replicate k CHR ''0'' @ s) = read_nat 10 s" for k s
    by (induction k) (simp_all add: read_nat_def digit_val_def)
  then show "read_nat 10 (padStart 2 CHR ''0'' (dec n)) = n"
    by (simp add: padStart_def)
qed

text \<open>the start of a daily window is shown as a time of the day: two digits for the hour below 24,
  a colon and two digits for the minute below 60, which give back the offset rounded down to a
  minute within the day.\<close>

theorem fmtDayWindow_clock:
  "\<exists>hh mm. fmtDayWindow (Some (Num (of_nat sec))) = Some (hh @ '':'' @ mm) \<and>
     length hh = 2 \<and> length mm = 2 \<and> read_nat 10 hh < 24 \<and> read_nat 10 mm < 60 \<and>
     3600 * read_nat 10 hh + 60 * read_nat 10 mm = sec mod 86400 div 60 * 60"
proof -
  define s where "s = sec mod 86400"
  let ?hh = "padStart 2 CHR ''0'' (dec (s div 3600))"
  let ?mm = "padStart 2 CHR ''0'' (dec (s mod 3600 div 60))"
  have "s < 86400" by (simp add: s_def)
  then have h: "s div 3600 < 24" by (simp add: div_less_iff_less_mult)
  have m: "s mod 3600 div 60 < 60" by (simp add: div_less_iff_less_mult)
  have "s mod 3600 div 60 = s div 60 mod 60" "s div 3600 = s div 60 div 60"
    using mod_mult2_eq [of s 60 60] div_mult2_eq [of s 60 60] by simp_all
  moreover have "3600 * (x div 60) + 60 * (x mod 60) = x * 60" for x :: nat
    using div_mult_mod_eq [of x 60] by linarith
  ultimately have "3600 * (s div 3600) + 60 * (s mod 3600 div 60) = s div 60 * 60" by simp
  moreover have "fmtDayWindow (Some (Num (of_nat sec))) = Some (?hh @ '':'' @ ?mm)"
    by (simp add: fmtDayWindow_def s_def Let_def)
  moreover have "length ?hh = 2" "read_nat 10 ?hh = s div 3600"
    by (rule two_digits, use h in simp)+
  moreover have "length ?mm = 2" "read_nat 10 ?mm = s mod 3600 div 60"
    by (rule two_digits, use m in simp)+
  ultimately show ?thesis using h m unfolding s_def [symmetric] by metis
qed

end
