(* ===== verification/VRackParse.thy ===== *)
theory VRackParse
  imports DeviceSearch
begin

text \<open>
  The catalogue of faceplates (\<open>ui/src/vrack/types.ts\<close>, \<open>parse.ts\<close>, \<open>catalog.ts\<close>): the types of a
  product and of its blocks, the expansion of port ranges, and the parser that reads a product from
  a parsed YAML document. Raised errors are values of \<open>ParseError\<close>. The text of a number
  (\<open>String\<close>) is the parameter \<open>str_num\<close>, as in the formatting theory.
\<close>

section \<open>Types\<close>

datatype VRackMaker = VUnifi | VFirewalla | VTplink | VOther string

datatype VRackType = TSwitch | TAp | TBox | TOther string

datatype Rail = High | Center | Low

datatype NumberSide = Above | Below

datatype Order = Columns | Rows

datatype Side = SideLeft | SideRight

record Kit =
  kit_scale_px_per_in :: rat
  kit_u_width_in :: rat
  kit_u_height_in :: rat
  kit_screen_diagonal_in :: rat
  kit_rj45_width_in :: rat
  kit_sfp_width_mm :: rat
  kit_sfp_height_mm :: rat
  kit_keystone_width_in :: rat

record Rj45Block =
  rj_rail :: "Rail option"
  rj_order :: "Order option"
  rj_odds :: "Rail option"
  rj_bank :: "rat option"
  rj_ports :: string
  rj_numbers :: "NumberSide option"
  rj_gap :: "rat option"
  rj_lead :: "rat option"

record SfpBlock =
  sfp_cols :: rat
  sfp_order :: Order
  sfp_ports :: "string list"
  sfp_numbers_high :: "NumberSide option"
  sfp_numbers_low :: "NumberSide option"
  sfp_rail :: "Rail option"
  sfp_gap :: "rat option"

datatype BlockDef =
    BScreen
  | BBadge
  | BTrailer
  | BKeystone Side Rail int
  | BRj45 Rj45Block
  | BSfp SfpBlock

datatype Align = AlignLeft | AlignCenter | AlignRight

record ProductDef =
  pd_manufacturer :: VRackMaker
  pd_type :: VRackType
  pd_product :: string
  pd_models :: "string list"
  pd_ru :: rat
  pd_shelf :: bool
  pd_width_in :: "rat option"
  pd_height_in :: "rat option"
  pd_align :: "Align option"
  pd_ear_in :: "rat option"
  pd_window_in :: "rat option"
  pd_blocks :: "BlockDef list"
  pd_source :: string

datatype ParseError =
    MustBeNumber string
  | NeedsIdentity string
  | UnknownBlock "string option" string
  | PortsNotList string
  | KitMissing

type_synonym 'a parsed = "ParseError + 'a"

text \<open>A raised error ends the computation.\<close>

definition bind_parsed :: "'a parsed \<Rightarrow> ('a \<Rightarrow> 'b parsed) \<Rightarrow> 'b parsed" where
  "bind_parsed r f = (case r of Inl e \<Rightarrow> Inl e | Inr x \<Rightarrow> f x)"

lemma bind_parsed_simps [simp]: "bind_parsed (Inl e) f = Inl e" "bind_parsed (Inr x) f = f x"
  by (simp_all add: bind_parsed_def)

section \<open>Reading values\<close>

fun obj :: "json option \<Rightarrow> (string, json) jsmap" where
  "obj (Some (JObj m)) = m"
| "obj _ = []"

fun arr :: "json option \<Rightarrow> json list" where
  "arr (Some (JArr xs)) = xs"
| "arr _ = []"

fun jstr :: "json option \<Rightarrow> string option" where
  "jstr (Some (JStr s)) = (if trim s \<noteq> [] then Some (trim s) else None)"
| "jstr _ = None"

fun jnum :: "json option \<Rightarrow> string \<Rightarrow> rat parsed" where
  "jnum (Some (JNum x)) path = Inr x"
| "jnum _ path = Inl (MustBeNumber path)"

text \<open>\<open>typeof v === 'number' ? v : undefined\<close>\<close>

fun opt_num :: "json option \<Rightarrow> rat option" where
  "opt_num (Some (JNum x)) = Some x"
| "opt_num _ = None"

definition num_or :: "json option \<Rightarrow> rat \<Rightarrow> rat" where
  "num_or v d = (case opt_num v of Some x \<Rightarrow> x | None \<Rightarrow> d)"

definition is_text :: "json option \<Rightarrow> string \<Rightarrow> bool" where
  "is_text v s \<longleftrightarrow> v = Some (JStr s)"

definition opt_rail :: "json option \<Rightarrow> Rail option" where
  "opt_rail v = (if is_text v ''high'' then Some High else if is_text v ''center'' then Some Center
     else if is_text v ''low'' then Some Low else None)"

definition rail :: "json option \<Rightarrow> Rail \<Rightarrow> Rail" where
  "rail v fallback = (case opt_rail v of Some r \<Rightarrow> r | None \<Rightarrow> fallback)"

definition opt_side :: "json option \<Rightarrow> NumberSide option" where
  "opt_side v = (if is_text v ''above'' then Some Above else if is_text v ''below'' then Some Below else None)"

definition side :: "json option \<Rightarrow> NumberSide \<Rightarrow> NumberSide" where
  "side v fallback = (case opt_side v of Some s \<Rightarrow> s | None \<Rightarrow> fallback)"

section \<open>Port ranges\<close>

text \<open>
  \<open>/^(\d+)\s*-\s*(\d+)$/\<close>: the digits, the dash with white space around it, and the digits. A part
  that has this form is cut at its dash.
\<close>

definition range_of :: "string \<Rightarrow> (nat \<times> nat) option" where
  "range_of part =
     (case splitOn CHR ''-'' part of
        [a, b] \<Rightarrow>
          let x = trimEnd a; y = trimStart b in
          if all_digits x \<and> all_digits y then Some (read_nat 10 x, read_nat 10 y) else None
      | _ \<Rightarrow> None)"

text \<open>The loop that counts from one end to the other, upwards or downwards.\<close>

definition count_range :: "nat \<Rightarrow> nat \<Rightarrow> nat list" where
  "count_range a b = (if a \<le> b then [a..<Suc b] else rev [b..<Suc a])"

definition expand_part :: "string \<Rightarrow> string list" where
  "expand_part part = (case range_of part of Some (a, b) \<Rightarrow> map dec (count_range a b) | None \<Rightarrow> [part])"

definition expandPorts :: "string \<Rightarrow> string list" where
  "expandPorts spec =
     concat (map expand_part (filter (\<lambda>s. s \<noteq> []) (map trim (splitOn CHR '','' spec))))"

text \<open>\<open>String(v)\<close> of a value of the document.\<close>

fun json_text :: "(rat \<Rightarrow> string) \<Rightarrow> json \<Rightarrow> string"
  and json_items :: "(rat \<Rightarrow> string) \<Rightarrow> json list \<Rightarrow> string list" where
  "json_text str_num JNull = ''null''"
| "json_text str_num (JBool b) = (if b then ''true'' else ''false'')"
| "json_text str_num (JNum x) = str_num x"
| "json_text str_num (JStr s) = s"
| "json_text str_num (JArr xs) = join '','' (json_items str_num xs)"
| "json_text str_num (JObj m) = ''[object Object]''"
| "json_items str_num [] = []"
| "json_items str_num (v # vs) = (if v = JNull then [] else json_text str_num v) # json_items str_num vs"

definition expand_list :: "(rat \<Rightarrow> string) \<Rightarrow> json list \<Rightarrow> string list" where
  "expand_list str_num spec = filter (\<lambda>s. s \<noteq> []) (map (\<lambda>v. trim (json_text str_num v)) spec)"

section \<open>Blocks and products\<close>

definition parse_keystone :: "(string, json) jsmap \<Rightarrow> BlockDef" where
  "parse_keystone ob =
     BKeystone (if is_text (map_of ob ''side'') ''right'' then SideRight else SideLeft)
       (rail (map_of ob ''rail'') Center)
       (case opt_num (map_of ob ''slots'') of
          Some n \<Rightarrow> if 0 < n then \<lfloor>n\<rfloor> else 8
        | None \<Rightarrow> 8)"

definition opt_order :: "json option \<Rightarrow> Order option" where
  "opt_order v = (if is_text v ''columns'' then Some Columns else if is_text v ''rows'' then Some Rows else None)"

definition parse_rj45 :: "(rat \<Rightarrow> string) \<Rightarrow> (string, json) jsmap \<Rightarrow> BlockDef" where
  "parse_rj45 str_num ob =
     (let order = opt_order (map_of ob ''order'') in
      BRj45 \<lparr>rj_rail = (case opt_rail (map_of ob ''rail'') of
                          Some r \<Rightarrow> Some r
                        | None \<Rightarrow> if order = Some Columns then None else Some Low),
             rj_order = order,
             rj_odds = (if is_text (map_of ob ''odds'') ''high'' then Some High
                        else if is_text (map_of ob ''odds'') ''low'' then Some Low else None),
             rj_bank = opt_num (map_of ob ''bank''),
             rj_ports = (case map_of ob ''ports'' of
                           Some (JStr s) \<Rightarrow> s
                         | v \<Rightarrow> join '','' (expand_list str_num (arr v))),
             rj_numbers = Some (side (map_of ob ''numbers'') Below),
             rj_gap = opt_num (map_of ob ''gap''),
             rj_lead = opt_num (map_of ob ''lead'')\<rparr>)"

text \<open>
  Numbers of an SFP block are read from an object; an array of the document has no such keys. The
  ports are text or an array; for any other value the call \<open>spec.split\<close> raises.
\<close>

definition parse_sfp :: "(rat \<Rightarrow> string) \<Rightarrow> (string, json) jsmap \<Rightarrow> string \<Rightarrow> BlockDef parsed" where
  "parse_sfp str_num ob path =
     (let nums = obj (map_of ob ''numbers'');
          block = (\<lambda>ports. BSfp \<lparr>sfp_cols = num_or (map_of ob ''cols'') 2,
            sfp_order = (if is_text (map_of ob ''order'') ''rows'' then Rows else Columns),
            sfp_ports = ports,
            sfp_numbers_high = Some (side (map_of nums ''high'') Above),
            sfp_numbers_low = Some (side (map_of nums ''low'') Below),
            sfp_rail = opt_rail (map_of ob ''rail''),
            sfp_gap = opt_num (map_of ob ''gap'')\<rparr>)
      in case map_of ob ''ports'' of
           Some (JStr s) \<Rightarrow> Inr (block (expandPorts s))
         | Some (JArr xs) \<Rightarrow> Inr (block (expand_list str_num xs))
         | _ \<Rightarrow> Inl (PortsNotList path))"

definition parseBlock :: "(rat \<Rightarrow> string) \<Rightarrow> json \<Rightarrow> string \<Rightarrow> BlockDef parsed" where
  "parseBlock str_num raw path =
     (let ob = obj (Some raw); kind = jstr (map_of ob ''kind'') in
      if kind = Some ''screen'' then Inr BScreen
      else if kind = Some ''badge'' then Inr BBadge
      else if kind = Some ''trailer'' then Inr BTrailer
      else if kind = Some ''keystone'' then Inr (parse_keystone ob)
      else if kind = Some ''rj45'' then Inr (parse_rj45 str_num ob)
      else if kind = Some ''sfp'' then parse_sfp str_num ob path
      else Inl (UnknownBlock kind path))"

text \<open>Blocks are read in their order; the first error is raised.\<close>

fun parse_blocks :: "(rat \<Rightarrow> string) \<Rightarrow> string \<Rightarrow> nat \<Rightarrow> json list \<Rightarrow> BlockDef list parsed" where
  "parse_blocks str_num source i [] = Inr []"
| "parse_blocks str_num source i (b # bs) =
     bind_parsed (parseBlock str_num b (source @ '' blocks['' @ dec i @ '']'')) (\<lambda>x.
       bind_parsed (parse_blocks str_num source (Suc i) bs) (\<lambda>xs. Inr (x # xs)))"

text \<open>
  \<open>/catalog\/([^/]+)\/([^/]+)\/([^/]+)\.ya?ml$/\<close> on the path with slashes: the last three parts of the
  path, below a part that ends in \<open>catalog\<close>.
\<close>

definition strip_yaml :: "string \<Rightarrow> string option" where
  "strip_yaml f =
     (if endsWith f ''.yaml'' \<and> 5 < length f then Some (take (length f - 5) f)
      else if endsWith f ''.yml'' \<and> 4 < length f then Some (take (length f - 4) f)
      else None)"

definition fromPath :: "string \<Rightarrow> (string \<times> string \<times> string) option" where
  "fromPath source =
     (case rev (splitOn CHR ''/'' (map (\<lambda>c. if c = CHR 0x5C then CHR ''/'' else c) source)) of
        f # t # m # c # _ \<Rightarrow>
          (if endsWith c ''catalog'' \<and> m \<noteq> [] \<and> t \<noteq> []
           then case strip_yaml f of Some p \<Rightarrow> Some (m, t, p) | None \<Rightarrow> None
           else None)
      | _ \<Rightarrow> None)"

definition maker_of :: "string \<Rightarrow> VRackMaker" where
  "maker_of s = (if s = ''unifi'' then VUnifi else if s = ''firewalla'' then VFirewalla
     else if s = ''tplink'' then VTplink else VOther s)"

definition type_of :: "string \<Rightarrow> VRackType" where
  "type_of s = (if s = ''switch'' then TSwitch else if s = ''ap'' then TAp else if s = ''box'' then TBox
     else TOther s)"

definition opt_align :: "json option \<Rightarrow> Align option" where
  "opt_align v = (if is_text v ''left'' then Some AlignLeft else if is_text v ''right'' then Some AlignRight
     else if is_text v ''center'' then Some AlignCenter else None)"

text \<open>\<open>a ?? b\<close>\<close>

definition coalesce :: "'a option \<Rightarrow> 'a option \<Rightarrow> 'a option" where
  "coalesce a b = (case a of Some x \<Rightarrow> Some x | None \<Rightarrow> b)"

definition product_models :: "(rat \<Rightarrow> string) \<Rightarrow> (string, json) jsmap \<Rightarrow> string \<Rightarrow> string list" where
  "product_models str_num ob product =
     (let models = expand_list str_num (arr (map_of (obj (map_of ob ''match'')) ''model''))
      in if models = [] then [product] else models)"

definition parseProduct :: "(rat \<Rightarrow> string) \<Rightarrow> json \<Rightarrow> string \<Rightarrow> ProductDef parsed" where
  "parseProduct str_num raw source =
     (let ob = obj (Some raw); inferred = fromPath source;
          manufacturer = coalesce (jstr (map_of ob ''manufacturer'')) (map_option fst inferred);
          type = coalesce (jstr (map_of ob ''type'')) (map_option (\<lambda>(m, t, p). t) inferred);
          product = coalesce (jstr (map_of ob ''product'')) (map_option (\<lambda>(m, t, p). p) inferred)
      in if \<not> truthy manufacturer \<or> \<not> truthy type \<or> \<not> truthy product then Inl (NeedsIdentity source)
         else bind_parsed (parse_blocks str_num source 0 (arr (map_of ob ''blocks''))) (\<lambda>blocks. Inr
             \<lparr>pd_manufacturer = maker_of (opt_str manufacturer), pd_type = type_of (opt_str type),
              pd_product = opt_str product, pd_models = product_models str_num ob (opt_str product),
              pd_ru = num_or (map_of ob ''ru'') 1, pd_shelf = is_text (map_of ob ''form'') ''shelf'',
              pd_width_in = opt_num (map_of ob ''width_in''), pd_height_in = opt_num (map_of ob ''height_in''),
              pd_align = opt_align (map_of ob ''align''), pd_ear_in = opt_num (map_of ob ''ear_in''),
              pd_window_in = opt_num (map_of ob ''window_in''), pd_blocks = blocks, pd_source = source\<rparr>))"

section \<open>Kit and catalogue\<close>

definition non_null :: "json option \<Rightarrow> json option" where
  "non_null v = (if v = Some JNull then None else v)"

definition parseKit :: "json \<Rightarrow> Kit parsed" where
  "parseKit raw =
     (let ob = obj (Some raw); u = obj (map_of ob ''u'');
          screen = obj (coalesce (non_null (map_of ob ''screen'')) (map_of ob ''lcm''));
          rj45 = obj (map_of ob ''rj45''); sfp = obj (map_of ob ''sfp''); keystone = obj (map_of ob ''keystone'')
      in bind_parsed (jnum (map_of ob ''scale_px_per_in'') ''kit.scale_px_per_in'') (\<lambda>scale.
         bind_parsed (jnum (map_of u ''width_in'') ''kit.u.width_in'') (\<lambda>uw.
         bind_parsed (jnum (map_of u ''height_in'') ''kit.u.height_in'') (\<lambda>uh.
         bind_parsed (jnum (map_of screen ''diagonal_in'') ''kit.screen.diagonal_in'') (\<lambda>sd.
         bind_parsed (jnum (map_of rj45 ''width_in'') ''kit.rj45.width_in'') (\<lambda>rw.
         bind_parsed (jnum (map_of sfp ''width_mm'') ''kit.sfp.width_mm'') (\<lambda>sw.
           Inr \<lparr>kit_scale_px_per_in = scale, kit_u_width_in = uw, kit_u_height_in = uh,
                kit_screen_diagonal_in = sd, kit_rj45_width_in = rw, kit_sfp_width_mm = sw,
                kit_sfp_height_mm = num_or (map_of sfp ''height_mm'') (85 / 10),
                kit_keystone_width_in = num_or (map_of keystone ''width_in'') (58 / 100)\<rparr>)))))))"

text \<open>The loop over the files of the catalogue; \<open>yaml\<close> stands for the parser of the library.\<close>

record Catalog =
  cat_kit :: Kit
  cat_products :: "ProductDef list"

definition is_kit :: "string \<Rightarrow> bool" where
  "is_kit path \<longleftrightarrow> endsWith path ''kit.yaml'' \<and> \<not> str_includes path ''/unifi/'' \<and>
     \<not> str_includes path ''/firewalla/'' \<and> \<not> str_includes path ''/tplink/''"

fun load_files ::
  "(rat \<Rightarrow> string) \<Rightarrow> (string \<Rightarrow> json) \<Rightarrow> (string \<times> string) list \<Rightarrow> Kit option \<Rightarrow> ProductDef list
     \<Rightarrow> (Kit option \<times> ProductDef list) parsed" where
  "load_files str_num yaml [] kit products = Inr (kit, products)"
| "load_files str_num yaml ((path, raw) # files) kit products =
     (if is_kit path
      then bind_parsed (parseKit (yaml raw)) (\<lambda>k. load_files str_num yaml files (Some k) products)
      else bind_parsed (parseProduct str_num (yaml raw) path)
             (\<lambda>p. load_files str_num yaml files kit (products @ [p])))"

definition loadCatalog ::
  "(rat \<Rightarrow> string) \<Rightarrow> (string \<Rightarrow> json) \<Rightarrow> (string \<times> string) list \<Rightarrow> Catalog parsed" where
  "loadCatalog str_num yaml files =
     bind_parsed (load_files str_num yaml files None []) (\<lambda>(kit, products).
       case kit of None \<Rightarrow> Inl KitMissing
       | Some k \<Rightarrow> Inr \<lparr>cat_kit = k, cat_products = products\<rparr>)"

section \<open>Port ranges are read back\<close>

text \<open>The texts that a range or a single port is written with.\<close>

fun item_text :: "nat \<times> nat option \<Rightarrow> string" where
  "item_text (a, None) = dec a"
| "item_text (a, Some b) = dec a @ ''-'' @ dec b"

fun item_ports :: "nat \<times> nat option \<Rightarrow> nat list" where
  "item_ports (a, None) = [a]"
| "item_ports (a, Some b) = count_range a b"

lemma dec_no: "\<not> is_digit c \<Longrightarrow> c \<notin> set (dec n)"
  using dec_digits [of n] by (auto simp: list_all_iff)

lemma sep_not_digit [simp]: "\<not> is_digit CHR ''-''" "\<not> is_digit CHR '',''"
  by (simp_all add: is_digit_def)

lemma digits_trim_ends:
  assumes "list_all is_digit s"
  shows "trimEnd s = s" "trimStart s = s"
proof -
  have ws: "\<not> is_ws c" if "c \<in> set s" for c using assms that by (auto simp: list_all_iff dest: digit_plain)
  then have "dropWhile is_ws (rev s) = rev s" by (cases s rule: rev_cases) simp_all
  moreover have "dropWhile is_ws s = s" using ws by (cases s) simp_all
  ultimately show "trimEnd s = s" "trimStart s = s" by (simp_all add: trimEnd_def trimStart_def)
qed

lemma range_of_item [simp]:
  "range_of (dec a) = None" "range_of (dec a @ ''-'' @ dec b) = Some (a, b)"
proof -
  show "range_of (dec a) = None"
    by (simp add: range_of_def splitOn_no_sep [OF dec_no])
  have "splitOn CHR ''-'' (dec a @ ''-'' @ dec b) = [dec a, dec b]"
    by (simp add: splitOn_append [OF dec_no] splitOn_no_sep [OF dec_no])
  then show "range_of (dec a @ ''-'' @ dec b) = Some (a, b)"
    by (simp add: range_of_def Let_def digits_trim_ends)
qed

lemma expand_item: "expand_part (item_text it) = map dec (item_ports it)"
  by (cases it rule: item_text.cases) (simp_all add: expand_part_def del: append.simps)

lemma trim_item [simp]: "trim (item_text it) = item_text it"
proof -
  have d: "\<not> is_ws (hd (dec n)) \<and> \<not> is_ws (last (dec n))" for n
    using dec_digits [of n] by (auto simp: list_all_iff dest: digit_plain intro: hd_in_set last_in_set)
  show ?thesis by (cases it rule: item_text.cases) (auto intro!: trim_clean simp: d)
qed

lemma item_plain: "item_text it \<noteq> []" "CHR '','' \<notin> set (item_text it)"
  by (cases it rule: item_text.cases; simp add: dec_no)+

lemma splitOn_join_items: "items \<noteq> [] \<Longrightarrow> splitOn CHR '','' (join '','' (map item_text items)) = map item_text items"
proof (induction items)
  case (Cons it items)
  then show ?case by (cases items) (simp_all add: splitOn_no_sep splitOn_append item_plain(2))
qed simp

text \<open>the port list of a block is read as it is written: ranges count upwards or downwards from one
  end to the other, both included, and single ports and ranges keep their order.\<close>

theorem expandPorts_reads:
  "expandPorts (join '','' (map item_text items)) = map dec (concat (map item_ports items))"
proof (cases "items = []")
  case True
  then show ?thesis by (simp add: expandPorts_def)
next
  case False
  have "map trim (map item_text items) = map item_text items" by (simp add: comp_def)
  moreover have "filter (\<lambda>s. s \<noteq> []) (map item_text items) = map item_text items"
    by (simp add: filter_id_conv item_plain(1))
  ultimately show ?thesis
    by (simp add: expandPorts_def splitOn_join_items [OF False] comp_def expand_item map_concat)
qed

section \<open>When a product is accepted\<close>

definition block_known :: "json \<Rightarrow> bool" where
  "block_known raw =
     (let ob = obj (Some raw); kind = jstr (map_of ob ''kind'') in
      kind \<in> Some ` {''screen'', ''badge'', ''trailer'', ''keystone'', ''rj45''} \<or>
      kind = Some ''sfp'' \<and> (case map_of ob ''ports'' of Some (JStr _) \<Rightarrow> True | Some (JArr _) \<Rightarrow> True | _ \<Rightarrow> False))"

lemma parseBlock_known: "(\<exists>b. parseBlock str_num raw path = Inr b) \<longleftrightarrow> block_known raw"
  by (auto simp: parseBlock_def block_known_def parse_sfp_def Let_def split: option.splits json.splits)

lemma bind_parsed_Inr: "(\<exists>y. bind_parsed r f = Inr y) \<longleftrightarrow> (\<exists>x y. r = Inr x \<and> f x = Inr y)"
  by (cases r) auto

lemma parse_blocks_known: "(\<exists>bs. parse_blocks str_num source i raws = Inr bs) \<longleftrightarrow> list_all block_known raws"
proof (induction raws arbitrary: i)
  case (Cons raw raws)
  have "(\<exists>bs. parse_blocks str_num source i (raw # raws) = Inr bs) \<longleftrightarrow>
      (\<exists>b. parseBlock str_num raw (source @ '' blocks['' @ dec i @ '']'') = Inr b) \<and>
      (\<exists>bs. parse_blocks str_num source (Suc i) raws = Inr bs)"
    by (auto simp: bind_parsed_Inr)
  then show ?case by (simp add: Cons parseBlock_known del: parse_blocks.simps)
qed simp

text \<open>The name of a product, from the document or from its path.\<close>

definition identity_of :: "json \<Rightarrow> string \<Rightarrow> string option list" where
  "identity_of raw source =
     map (\<lambda>(key, get). coalesce (jstr (map_of (obj (Some raw)) key)) (map_option get (fromPath source)))
       [(''manufacturer'', fst), (''type'', \<lambda>(m, t, p). t), (''product'', \<lambda>(m, t, p). p)]"

text \<open>a document of the catalogue is accepted if and only if the manufacturer, the type and the
  product are known from the document or its path and every block has a kind the engine draws, with
  a list of ports for an SFP block; otherwise the parser raises.\<close>

theorem parseProduct_accepts:
  "(\<exists>p. parseProduct str_num raw source = Inr p) \<longleftrightarrow>
     list_all truthy (identity_of raw source) \<and>
     list_all block_known (arr (map_of (obj (Some raw)) ''blocks''))"
  unfolding parse_blocks_known [of str_num source 0, symmetric]
  by (auto simp: parseProduct_def identity_of_def Let_def bind_parsed_Inr)

section \<open>Accepted products are well formed\<close>

fun block_ok :: "BlockDef \<Rightarrow> bool" where
  "block_ok (BKeystone s r n) \<longleftrightarrow> 0 \<le> n"
| "block_ok (BRj45 b) \<longleftrightarrow> rj_numbers b \<noteq> None \<and> (rj_order b = Some Columns \<or> rj_rail b \<noteq> None)"
| "block_ok (BSfp b) \<longleftrightarrow> sfp_numbers_high b \<noteq> None \<and> sfp_numbers_low b \<noteq> None \<and> [] \<notin> set (sfp_ports b)"
| "block_ok _ \<longleftrightarrow> True"

lemma expand_not_empty: "[] \<notin> set (expandPorts s)" "[] \<notin> set (expand_list str_num xs)"
  by (auto simp: expandPorts_def expand_part_def expand_list_def eq_commute [of "[]"] split: option.splits prod.splits)

lemma parseBlock_ok: "parseBlock str_num raw path = Inr b \<Longrightarrow> block_ok b"
  by (auto simp: parseBlock_def Let_def parse_keystone_def parse_rj45_def parse_sfp_def expand_not_empty
      split: if_splits option.splits json.splits)

lemma parse_blocks_ok:
  "parse_blocks str_num source i raws = Inr bs \<Longrightarrow> length bs = length raws \<and> list_all block_ok bs"
proof (induction raws arbitrary: i bs)
  case (Cons raw raws)
  then show ?case by (auto simp: bind_parsed_def parseBlock_ok split: sum.splits)
qed simp

text \<open>C13: an accepted product has a model to match, one block for each block of the document, and
  blocks the engine can draw: no negative number of keystones, a rail for a bank in rows, sides for
  the numbers, and no empty port name.\<close>

theorem parseProduct_ok:
  assumes "parseProduct str_num raw source = Inr p"
  shows "pd_models p \<noteq> [] \<and> length (pd_blocks p) = length (arr (map_of (obj (Some raw)) ''blocks'')) \<and>
    list_all block_ok (pd_blocks p)"
proof -
  obtain bs where "parse_blocks str_num source 0 (arr (map_of (obj (Some raw)) ''blocks'')) = Inr bs"
    and "pd_blocks p = bs" "pd_models p = product_models str_num (obj (Some raw)) (pd_product p)"
    using assms by (auto simp: parseProduct_def Let_def bind_parsed_def split: if_splits sum.splits)
  then show ?thesis using parse_blocks_ok by (auto simp: product_models_def Let_def)
qed

definition sample_product :: json where
  "sample_product = JObj [(''manufacturer'', JStr ''unifi''), (''type'', JStr ''switch''), (''product'', JStr ''flex''),
     (''blocks'', JArr [JObj [(''kind'', JStr ''badge'')],
        JObj [(''kind'', JStr ''rj45''), (''order'', JStr ''columns''), (''ports'', JStr ''1-4'')]])]"

theorem parseProduct_ok_witness:
  "case parseProduct (\<lambda>_. []) sample_product ''flex.yaml'' of
     Inl _ \<Rightarrow> False
   | Inr p \<Rightarrow> pd_models p \<noteq> [] \<and> length (pd_blocks p) = 2 \<and> list_all block_ok (pd_blocks p)"
proof -
  have "\<exists>p. parseProduct (\<lambda>_. []) sample_product ''flex.yaml'' = Inr p"
  proof (cases "parseProduct (\<lambda>_. []) sample_product ''flex.yaml''")
    case (Inl e)
    have "case parseProduct (\<lambda>_. []) sample_product ''flex.yaml'' of Inl _ \<Rightarrow> False | Inr _ \<Rightarrow> True" by code_simp
    with Inl show ?thesis by simp
  qed simp
  then obtain p where p: "parseProduct (\<lambda>_. []) sample_product ''flex.yaml'' = Inr p" ..
  have "length (arr (map_of (obj (Some sample_product)) ''blocks'')) = 2" by code_simp
  with parseProduct_ok [OF p] p show ?thesis by simp
qed

end
