(* ===== verification/Topology.thy ===== *)
theory Topology
  imports Format SwitchPort Ports
begin

text \<open>
  The topology view (the functions of \<open>ui/src/tabs/TopologyTab.tsx\<close> that compute): the order of the
  nodes, the rows of the tree of switches with the orphans nested under their parents, bonded
  ports, the layout of the jacks, and the labels. The set of addresses that the walk has seen is
  shared by the calls of the code, so it is passed through; the comparison by locale is \<open>lc\<close>.
\<close>

section \<open>Order of ports and nodes\<close>

record PortRank =
  pr_rank :: nat
  pr_num :: rat
  pr_rest :: string

definition portRank :: "string option \<Rightarrow> PortRank" where
  "portRank s =
     (let v = trim (opt_str s) in
      if v = [] then \<lparr>pr_rank = 2, pr_num = 0, pr_rest = []\<rparr>
      else case js_Number v of
        Num n \<Rightarrow> \<lparr>pr_rank = 0, pr_num = n, pr_rest = []\<rparr>
      | _ \<Rightarrow> \<lparr>pr_rank = 1, pr_num = 0, pr_rest = toLowerCase v\<rparr>)"

definition sign_diff :: "rat \<Rightarrow> rat \<Rightarrow> int" where
  "sign_diff a b = (if a < b then - 1 else if b < a then 1 else 0)"

definition cmpPort :: "(string \<Rightarrow> string \<Rightarrow> int) \<Rightarrow> string option \<Rightarrow> string option \<Rightarrow> int" where
  "cmpPort lc a b =
     (let ra = portRank a; rb = portRank b in
      if pr_rank ra \<noteq> pr_rank rb then int (pr_rank ra) - int (pr_rank rb)
      else if pr_num ra \<noteq> pr_num rb then sign_diff (pr_num ra) (pr_num rb)
      else lc (pr_rest ra) (pr_rest rb))"

text \<open>\<open>x || y\<close> on results of comparisons.\<close>

definition or_cmp :: "int \<Rightarrow> int \<Rightarrow> int" where
  "or_cmp x y = (if x \<noteq> 0 then x else y)"

definition node_name :: "TopoNode \<Rightarrow> string" where
  "node_name n = or_else (opt_str (tn_name n)) (tn_mac n)"

definition sortedTopo :: "(string \<Rightarrow> string \<Rightarrow> int) \<Rightarrow> TopoNode list option \<Rightarrow> TopoNode list" where
  "sortedTopo lc nodes =
     js_sort (\<lambda>a b. or_cmp (cmpPort lc (tn_parent_port a) (tn_parent_port b)) (lc (node_name a) (node_name b)))
       (opt_list nodes)"

text \<open>\<open>Number(a) - Number(b) || a.localeCompare(b)\<close>; NaN counts as false.\<close>

definition cmp_id :: "(string \<Rightarrow> string \<Rightarrow> int) \<Rightarrow> string \<Rightarrow> string \<Rightarrow> int" where
  "cmp_id lc a b = or_cmp (num_diff (js_Number a) (js_Number b)) (lc a b)"

section \<open>Rows of the tree\<close>

record TopoRow =
  row_sw :: Switch
  row_depth :: nat
  row_gold :: GoldPort

definition row_of :: "Switch \<Rightarrow> nat \<Rightarrow> TopoRow" where
  "row_of sw depth = \<lparr>row_sw = sw, row_depth = depth, row_gold = goldPort (opt_str (sw_parent_nic sw))\<rparr>"

definition row_mac :: "TopoRow \<Rightarrow> string" where
  "row_mac r = toUpperCase (sw_mac (row_sw r))"

lemma size_js_sort: "size_list f (js_sort cmp xs) = size_list f xs"
proof -
  have "size_list f ys = sum_mset (image_mset f (mset ys)) + length ys" for ys
    by (induction ys) auto
  then show ?thesis by simp
qed

lemma size_children: "size_list size (sortedTopo lc (tn_children n)) \<le> size n"
  by (cases n) (auto simp: sortedTopo_def size_js_sort opt_list_def split: option.splits)

text \<open>The walk over a sorted list of nodes, with the addresses seen so far.\<close>

function walk_nodes ::
  "(string \<Rightarrow> string \<Rightarrow> int) \<Rightarrow> (string, Switch) jsmap \<Rightarrow> TopoNode list \<Rightarrow> nat \<Rightarrow> string list
     \<Rightarrow> TopoRow list \<times> string list" where
  "walk_nodes lc byMac [] depth seen = ([], seen)"
| "walk_nodes lc byMac (n # ns) depth seen =
     (let (out, seen1) =
        (if tn_type n = Some ''box''
         then walk_nodes lc byMac (sortedTopo lc (tn_children n)) 0 seen
         else case map_of byMac (toUpperCase (tn_mac n)) of
           Some sw \<Rightarrow>
             if toUpperCase (sw_mac sw) \<notin> set seen then
               let (kids, seen2) = walk_nodes lc byMac (sortedTopo lc (tn_children n)) (depth + 1)
                                     (seen @ [toUpperCase (sw_mac sw)])
               in (row_of sw depth # kids, seen2)
             else walk_nodes lc byMac (sortedTopo lc (tn_children n)) depth seen
         | None \<Rightarrow> walk_nodes lc byMac (sortedTopo lc (tn_children n)) depth seen);
        (rest, seen3) = walk_nodes lc byMac ns depth seen1
      in (out @ rest, seen3))"
  by pat_completeness auto
termination
  by (relation "measure (\<lambda>(lc, byMac, nodes, depth, seen). size_list size nodes)")
    (auto simp: less_Suc_eq_le intro: trans_le_add1 [OF size_children])

definition walkTopo ::
  "(string \<Rightarrow> string \<Rightarrow> int) \<Rightarrow> TopoNode list option \<Rightarrow> nat \<Rightarrow> string list \<Rightarrow> (string, Switch) jsmap
     \<Rightarrow> TopoRow list \<times> string list" where
  "walkTopo lc nodes depth seen byMac = walk_nodes lc byMac (sortedTopo lc nodes) depth seen"

section \<open>Orphans\<close>

text \<open>The index of the first element with a property.\<close>

fun findIndex :: "('a \<Rightarrow> bool) \<Rightarrow> 'a list \<Rightarrow> nat option" where
  "findIndex p [] = None"
| "findIndex p (x # xs) = (if p x then Some 0 else map_option Suc (findIndex p xs))"

text \<open>The row of a switch goes to the end of the rows below its parent.\<close>

definition nest_at :: "Switch \<Rightarrow> nat \<Rightarrow> TopoRow list \<Rightarrow> TopoRow list" where
  "nest_at sw idx rows =
     (let depth = row_depth (rows ! idx) + 1;
          k = idx + 1 + length (takeWhile (\<lambda>r. depth \<le> row_depth r) (drop (idx + 1) rows))
      in take k rows @ [row_of sw depth] @ drop k rows)"

definition nest_one ::
  "Switch \<Rightarrow> TopoRow list \<times> string list \<times> bool \<Rightarrow> TopoRow list \<times> string list \<times> bool" where
  "nest_one sw st =
     (case st of (rows, seen, grew) \<Rightarrow>
        let m = toUpperCase (sw_mac sw) in
        if m \<in> set seen \<or> \<not> truthy (sw_parent_mac sw) then (rows, seen, grew)
        else case findIndex (\<lambda>r. row_mac r = toUpperCase (opt_str (sw_parent_mac sw))) rows of
          None \<Rightarrow> (rows, seen, grew)
        | Some idx \<Rightarrow> (nest_at sw idx rows, seen @ [m], True))"

definition nest_pass ::
  "Switch list \<Rightarrow> TopoRow list \<Rightarrow> string list \<Rightarrow> TopoRow list \<times> string list \<times> bool" where
  "nest_pass switches rows seen = fold nest_one switches (rows, seen, False)"

definition unseen :: "Switch list \<Rightarrow> string list \<Rightarrow> string set" where
  "unseen switches seen = (\<lambda>sw. toUpperCase (sw_mac sw)) ` set switches - set seen"

lemma finite_unseen [simp]: "finite (unseen switches seen)"
  by (simp add: unseen_def)

text \<open>A pass that nests a switch has one address less to find.\<close>

lemma nest_fold_unseen:
  assumes "fold nest_one sws (rows, seen, grew) = (rows', seen', grew')" "set sws \<subseteq> set switches"
  shows "set seen \<subseteq> set seen' \<and> (grew' \<longrightarrow> grew \<or> card (unseen switches seen') < card (unseen switches seen))"
  using assms
proof (induction sws arbitrary: rows seen grew)
  case (Cons sw sws)
  obtain rows1 seen1 grew1 where one: "nest_one sw (rows, seen, grew) = (rows1, seen1, grew1)"
    by (metis prod_cases3)
  with Cons.prems have "fold nest_one sws (rows1, seen1, grew1) = (rows', seen', grew')" by simp
  from Cons.IH [OF this] Cons.prems(2)
  have ih: "set seen1 \<subseteq> set seen'"
    "grew' \<longrightarrow> grew1 \<or> card (unseen switches seen') < card (unseen switches seen1)" by auto
  consider "seen1 = seen" "grew1 = grew"
    | "seen1 = seen @ [toUpperCase (sw_mac sw)]" "toUpperCase (sw_mac sw) \<notin> set seen"
    using one by (auto simp: nest_one_def Let_def split: if_splits option.splits)
  then show ?case
  proof cases
    case 2
    let ?m = "toUpperCase (sw_mac sw)"
    have "?m \<in> unseen switches seen" using 2 Cons.prems(2) by (auto simp: unseen_def)
    moreover have "?m \<notin> unseen switches seen'" "unseen switches seen' \<subseteq> unseen switches seen"
      using ih(1) 2 by (auto simp: unseen_def)
    ultimately have "card (unseen switches seen') < card (unseen switches seen)"
      by (intro psubset_card_mono) auto
    with ih 2 show ?thesis by auto
  qed (use ih in auto)
qed simp

lemma nest_pass_unseen:
  assumes "nest_pass switches rows seen = (rows', seen', True)"
  shows "card (unseen switches seen') < card (unseen switches seen)"
  using nest_fold_unseen [OF assms [unfolded nest_pass_def] subset_refl] by simp

function nest_loop :: "Switch list \<Rightarrow> TopoRow list \<Rightarrow> string list \<Rightarrow> TopoRow list \<times> string list" where
  "nest_loop switches rows seen =
     (case nest_pass switches rows seen of (rows', seen', grew) \<Rightarrow>
        if grew then nest_loop switches rows' seen' else (rows', seen'))"
  by pat_completeness auto
termination
  by (relation "measure (\<lambda>(switches, rows, seen). card (unseen switches seen))")
    (auto intro: nest_pass_unseen [OF sym])

declare nest_loop.simps [simp del]

definition nest_rest :: "Switch \<Rightarrow> TopoRow list \<times> string list \<Rightarrow> TopoRow list \<times> string list" where
  "nest_rest sw st =
     (case st of (rows, seen) \<Rightarrow>
        if toUpperCase (sw_mac sw) \<in> set seen then (rows, seen)
        else (rows @ [row_of sw 0], seen @ [toUpperCase (sw_mac sw)]))"

definition nestOrphans :: "TopoRow list \<Rightarrow> Switch list \<Rightarrow> string list \<Rightarrow> TopoRow list \<times> string list" where
  "nestOrphans rows switches seen = fold nest_rest switches (nest_loop switches rows seen)"

text \<open>The rows and the roots that \<open>TopoTree\<close> shows.\<close>

definition topo_rows ::
  "(string \<Rightarrow> string \<Rightarrow> int) \<Rightarrow> TopoNode list option \<Rightarrow> Switch list \<Rightarrow> (string, Switch) jsmap \<Rightarrow> TopoRow list" where
  "topo_rows lc nodes switches byMac =
     (let (rows, seen) = walkTopo lc nodes 0 [] byMac in fst (nestOrphans rows switches seen))"

definition topo_roots :: "(string \<Rightarrow> string \<Rightarrow> int) \<Rightarrow> TopoRow list \<Rightarrow> TopoRow list" where
  "topo_roots lc rows =
     (let inTree = map row_mac rows;
          root = (\<lambda>r. \<not> truthy (sw_parent_mac (row_sw r)) \<or>
                      toUpperCase (opt_str (sw_parent_mac (row_sw r))) \<notin> set inTree);
          place = (\<lambda>r. Some (or_else (opt_str (sw_parent_port (row_sw r))) (opt_str (sw_parent_nic (row_sw r)))))
      in js_sort (\<lambda>a b. cmpPort lc (place a) (place b)) (filter root rows))"

section \<open>Every switch has one row\<close>

lemma row_mac_of [simp]: "row_mac (row_of sw d) = toUpperCase (sw_mac sw)"
  by (simp add: row_mac_def row_of_def)

lemma row_sw_of [simp]: "row_sw (row_of sw d) = sw"
  by (simp add: row_of_def)

lemma walk_nodes_seen:
  assumes "walk_nodes lc byMac nodes depth seen = (rows, seen')"
  shows "seen' = seen @ map row_mac rows \<and> (distinct seen \<longrightarrow> distinct seen') \<and>
    row_sw ` set rows \<subseteq> ran (map_of byMac)"
  using assms
proof (induction lc byMac nodes depth seen arbitrary: rows seen' rule: walk_nodes.induct)
  case (2 lc byMac n ns depth seen)
  let ?kids = "sortedTopo lc (tn_children n)"
  obtain rest seen1 out where r: "walk_nodes lc byMac ns depth seen1 = (rest, seen')" "rows = out @ rest"
    and o: "(if tn_type n = Some ''box''
         then walk_nodes lc byMac ?kids 0 seen
         else case map_of byMac (toUpperCase (tn_mac n)) of
           Some sw \<Rightarrow>
             if toUpperCase (sw_mac sw) \<notin> set seen then
               let (kids, seen2) = walk_nodes lc byMac ?kids (depth + 1) (seen @ [toUpperCase (sw_mac sw)])
               in (row_of sw depth # kids, seen2)
             else walk_nodes lc byMac ?kids depth seen
         | None \<Rightarrow> walk_nodes lc byMac ?kids depth seen) = (out, seen1)" (is "?first = _")
    using "2.prems" by (auto simp: Let_def split: prod.splits)
  have out: "seen1 = seen @ map row_mac out \<and> (distinct seen \<longrightarrow> distinct seen1) \<and>
      row_sw ` set out \<subseteq> ran (map_of byMac)"
  proof (cases "tn_type n = Some ''box''")
    case True
    with o have "walk_nodes lc byMac ?kids 0 seen = (out, seen1)" by simp
    from "2.IH"(1) [OF True this] show ?thesis .
  next
    case box: False
    show ?thesis
    proof (cases "map_of byMac (toUpperCase (tn_mac n))")
      case None
      with o box have "walk_nodes lc byMac ?kids depth seen = (out, seen1)" by simp
      from "2.IH"(2) [OF box None this] show ?thesis .
    next
      case (Some sw)
      show ?thesis
      proof (cases "toUpperCase (sw_mac sw) \<in> set seen")
        case True
        with o box Some have "walk_nodes lc byMac ?kids depth seen = (out, seen1)" by simp
        from "2.IH"(4) [OF box Some _ this] True show ?thesis by blast
      next
        case False
        obtain kids where k: "out = row_of sw depth # kids"
          "walk_nodes lc byMac ?kids (depth + 1) (seen @ [toUpperCase (sw_mac sw)]) = (kids, seen1)"
          using o box Some False by (auto split: prod.splits)
        have "sw \<in> ran (map_of byMac)" using Some by (rule ranI)
        with "2.IH"(3) [OF box Some False k(2)] False k(1) show ?thesis
          by auto blast
      qed
    qed
  qed
  have rest: "seen' = seen1 @ map row_mac rest \<and> (distinct seen1 \<longrightarrow> distinct seen') \<and>
      row_sw ` set rest \<subseteq> ran (map_of byMac)"
    by (rule "2.IH"(5) [OF o [symmetric] refl r(1)])
  have "seen' = seen @ map row_mac rows" using rest out r(2) by simp
  moreover have "distinct seen \<longrightarrow> distinct seen'" using rest out by blast
  moreover have "row_sw ` set rows \<subseteq> ran (map_of byMac)" using rest out r(2) by (simp add: image_Un)
  ultimately show ?case by blast
qed simp

text \<open>The rows list each address once, and they are the addresses seen.\<close>

definition rows_seen :: "TopoRow list \<Rightarrow> string list \<Rightarrow> bool" where
  "rows_seen rows seen \<longleftrightarrow> distinct (map row_mac rows) \<and> set (map row_mac rows) = set seen"

lemma mset_nest_at: "mset (map row_mac (nest_at sw idx rows)) = add_mset (toUpperCase (sw_mac sw)) (mset (map row_mac rows))"
proof -
  have "mset (map f (take k xs)) + mset (map f (drop k xs)) = mset (map f xs)" for f :: "TopoRow \<Rightarrow> string" and k xs
    by (metis append_take_drop_id map_append mset_append)
  then show ?thesis by (simp add: nest_at_def Let_def del: mset_map)
qed

lemma rows_seen_add:
  assumes "rows_seen rows seen" "m \<notin> set seen" "mset (map row_mac rows') = add_mset m (mset (map row_mac rows))"
  shows "rows_seen rows' (seen @ [m])"
proof -
  have "distinct (map row_mac rows')"
    using assms unfolding rows_seen_def by (metis distinct.simps(2) mset.simps(2) mset_eq_imp_distinct_iff)
  moreover have "set (map row_mac rows') = insert m (set (map row_mac rows))"
    using arg_cong [OF assms(3), of set_mset] by simp
  ultimately show ?thesis using assms(1) by (auto simp: rows_seen_def)
qed

lemma rows_seen_one:
  assumes "rows_seen rows seen" "nest_one sw (rows, seen, grew) = (rows', seen', grew')"
  shows "rows_seen rows' seen' \<and> set seen' \<subseteq> insert (toUpperCase (sw_mac sw)) (set seen)"
proof -
  consider "rows' = rows" "seen' = seen"
    | idx where "rows' = nest_at sw idx rows" "seen' = seen @ [toUpperCase (sw_mac sw)]" "toUpperCase (sw_mac sw) \<notin> set seen"
    using assms(2) by (auto simp: nest_one_def Let_def split: if_splits option.splits)
  then show ?thesis
    by cases (use assms(1) rows_seen_add [OF assms(1) _ mset_nest_at] in auto)
qed

abbreviation sw_macs :: "Switch list \<Rightarrow> string set" where
  "sw_macs switches \<equiv> (\<lambda>sw. toUpperCase (sw_mac sw)) ` set switches"

lemma rows_seen_pass:
  assumes "rows_seen rows seen" "fold nest_one sws (rows, seen, grew) = (rows', seen', grew')"
  shows "rows_seen rows' seen' \<and> set seen' \<subseteq> set seen \<union> sw_macs sws"
  using assms
proof (induction sws arbitrary: rows seen grew)
  case (Cons sw sws)
  obtain rows1 seen1 grew1 where one: "nest_one sw (rows, seen, grew) = (rows1, seen1, grew1)"
    by (metis prod_cases3)
  have "rows_seen rows1 seen1 \<and> set seen1 \<subseteq> insert (toUpperCase (sw_mac sw)) (set seen)"
    by (rule rows_seen_one [OF Cons.prems(1) one])
  moreover have "fold nest_one sws (rows1, seen1, grew1) = (rows', seen', grew')"
    using Cons.prems(2) one by simp
  ultimately show ?case using Cons.IH [of rows1 seen1 grew1] by auto
qed simp

lemma rows_seen_loop:
  assumes "rows_seen rows seen" "nest_loop switches rows seen = (rows', seen')"
  shows "rows_seen rows' seen' \<and> set seen' \<subseteq> set seen \<union> sw_macs switches \<and> set seen \<subseteq> set seen'"
  using assms
proof (induction switches rows seen rule: nest_loop.induct)
  case (1 switches rows seen)
  obtain rows1 seen1 grew where p: "nest_pass switches rows seen = (rows1, seen1, grew)"
    by (metis prod_cases3)
  then have pass: "fold nest_one switches (rows, seen, False) = (rows1, seen1, grew)"
    by (simp add: nest_pass_def)
  have one: "rows_seen rows1 seen1" "set seen1 \<subseteq> set seen \<union> sw_macs switches" "set seen \<subseteq> set seen1"
    using rows_seen_pass [OF "1.prems"(1) pass] nest_fold_unseen [OF pass subset_refl] by auto
  show ?case
  proof (cases grew)
    case True
    then have "nest_loop switches rows1 seen1 = (rows', seen')"
      using "1.prems"(2) p by (simp add: nest_loop.simps [of switches rows seen])
    from "1.IH" [OF p [symmetric] refl True one(1) this] one show ?thesis by auto
  next
    case False
    then have "rows' = rows1" "seen' = seen1"
      using "1.prems"(2) p by (simp_all add: nest_loop.simps [of switches rows seen])
    with one show ?thesis by simp
  qed
qed

lemma rows_seen_rest:
  assumes "rows_seen rows seen" "fold nest_rest sws (rows, seen) = (rows', seen')"
  shows "rows_seen rows' seen' \<and> set seen' = set seen \<union> sw_macs sws"
  using assms
proof (induction sws arbitrary: rows seen)
  case (Cons sw sws)
  let ?m = "toUpperCase (sw_mac sw)"
  show ?case
  proof (cases "?m \<in> set seen")
    case True
    with Cons.prems have "fold nest_rest sws (rows, seen) = (rows', seen')" by (simp add: nest_rest_def [of sw])
    from Cons.IH [OF Cons.prems(1) this] True show ?thesis by auto
  next
    case False
    with Cons.prems have f: "fold nest_rest sws (rows @ [row_of sw 0], seen @ [?m]) = (rows', seen')"
      by (simp add: nest_rest_def [of sw])
    have "rows_seen (rows @ [row_of sw 0]) (seen @ [?m])"
      by (rule rows_seen_add [OF Cons.prems(1) False]) simp
    from Cons.IH [OF this f] show ?thesis by auto
  qed
qed simp

lemma topo_rows_set:
  assumes "\<forall>sw \<in> ran (map_of byMac). toUpperCase (sw_mac sw) \<in> sw_macs switches"
  shows "distinct (map row_mac (topo_rows lc nodes switches byMac)) \<and>
    set (map row_mac (topo_rows lc nodes switches byMac)) = sw_macs switches"
proof -
  obtain rows seen where w: "walkTopo lc nodes 0 [] byMac = (rows, seen)" by force
  have ws: "seen = map row_mac rows" "distinct seen" "row_sw ` set rows \<subseteq> ran (map_of byMac)"
    using walk_nodes_seen [OF w [unfolded walkTopo_def]] by auto
  have known: "set seen \<subseteq> sw_macs switches"
    using ws(1,3) assms by (auto simp: row_mac_def)
  obtain rows1 seen1 where l: "nest_loop switches rows seen = (rows1, seen1)" by force
  have "rows_seen rows seen" using ws by (simp add: rows_seen_def)
  note loop = rows_seen_loop [OF this l]
  obtain rows2 seen2 where r: "fold nest_rest switches (rows1, seen1) = (rows2, seen2)" by force
  have "rows_seen rows2 seen2 \<and> set seen2 = set seen1 \<union> sw_macs switches"
    using rows_seen_rest [OF _ r] loop by blast
  moreover have "topo_rows lc nodes switches byMac = rows2"
    by (simp add: topo_rows_def w nestOrphans_def l r)
  ultimately show ?thesis using loop known by (auto simp: rows_seen_def)
qed

text \<open>the tree of switches loses no switch and repeats none, whatever the tree of nodes holds,
  whether parents are missing or form cycles: the rows have the addresses of the switches, each
  once.\<close>

theorem topo_rows_complete:
  assumes "\<forall>sw \<in> ran (map_of byMac). toUpperCase (sw_mac sw) \<in> sw_macs switches"
  shows "distinct (map row_mac (topo_rows lc nodes switches byMac)) \<and>
    set (map row_mac (topo_rows lc nodes switches byMac)) = sw_macs switches"
  by (rule topo_rows_set [OF assms])

theorem topo_rows_complete_witness:
  "let a = plain_switch ''aa'' (Some ''BB''); b = plain_switch ''bb'' (Some ''AA'');
       rows = topo_rows (\<lambda>x y. 0) None [a, b] [(''AA'', a), (''BB'', b)]
   in distinct (map row_mac rows) \<and> set (map row_mac rows) = {''AA'', ''BB''}"
proof -
  define a where "a = plain_switch ''aa'' (Some ''BB'')"
  define b where "b = plain_switch ''bb'' (Some ''AA'')"
  have macs: "toUpperCase (sw_mac a) = ''AA''" "toUpperCase (sw_mac b) = ''BB''"
    by (simp_all add: a_def b_def plain_switch_def, code_simp+)
  have "\<forall>sw \<in> ran (map_of [(''AA'', a), (''BB'', b)]). toUpperCase (sw_mac sw) \<in> sw_macs [a, b]"
    by (auto simp: ran_def split: if_splits)
  from topo_rows_complete [OF this, of "\<lambda>x y. 0" None] show ?thesis
    by (simp add: Let_def a_def [symmetric] b_def [symmetric] macs)
qed

section \<open>Orphans go below their parents\<close>

text \<open>the row of a switch whose parent has a row is put into the block of rows below that parent:
  it is one level deeper than the parent, every row between the two is at least as deep, and the
  rows around it keep their order.\<close>

theorem nest_at_below_parent:
  assumes "idx < length rows"
  shows "\<exists>before block after. rows = before @ [rows ! idx] @ block @ after \<and>
    nest_at sw idx rows = before @ [rows ! idx] @ block @ [row_of sw (row_depth (rows ! idx) + 1)] @ after \<and>
    list_all (\<lambda>r. row_depth (rows ! idx) < row_depth r) block"
proof -
  let ?d = "row_depth (rows ! idx) + 1"
  let ?tail = "drop (idx + 1) rows"
  let ?block = "takeWhile (\<lambda>r. ?d \<le> row_depth r) ?tail"
  let ?after = "drop (length ?block) ?tail"
  have tail: "?tail = ?block @ ?after" by (metis append_take_drop_id takeWhile_eq_take)
  have rows: "rows = take idx rows @ [rows ! idx] @ ?block @ ?after"
    using id_take_nth_drop [OF assms] tail by (metis Suc_eq_plus1 append_Cons append_Nil)
  define k where "k = idx + 1 + length ?block"
  have "k = length (take idx rows @ [rows ! idx] @ ?block)" using assms by (simp add: k_def)
  moreover have "rows = (take idx rows @ [rows ! idx] @ ?block) @ ?after" using rows by simp
  ultimately have "take k rows = take idx rows @ [rows ! idx] @ ?block" "drop k rows = ?after"
    by (metis append_eq_conv_conj)+
  then have "nest_at sw idx rows = take idx rows @ [rows ! idx] @ ?block @ [row_of sw ?d] @ ?after"
    by (simp add: nest_at_def Let_def k_def)
  moreover have "list_all (\<lambda>r. row_depth (rows ! idx) < row_depth r) ?block"
    by (auto simp: list_all_iff dest!: set_takeWhileD)
  ultimately show ?thesis using rows by blast
qed

theorem nest_at_below_parent_witness:
  "let a = row_of (plain_switch ''AA'' None) 0; b = row_of (plain_switch ''BB'' (Some ''AA'')) 1;
       c = row_of (plain_switch ''CC'' None) 0; d = plain_switch ''DD'' (Some ''AA'')
   in (0 :: nat) < length [a, b, c] \<and> nest_at d 0 [a, b, c] = [a, b, row_of d 1, c] \<and>
      (\<exists>before block after. [a, b, c] = before @ [[a, b, c] ! 0] @ block @ after \<and>
         nest_at d 0 [a, b, c] = before @ [[a, b, c] ! 0] @ block @ [row_of d (row_depth ([a, b, c] ! 0) + 1)] @ after)"
proof -
  define a where "a = row_of (plain_switch ''AA'' None) 0"
  define b where "b = row_of (plain_switch ''BB'' (Some ''AA'')) 1"
  define c where "c = row_of (plain_switch ''CC'' None) 0"
  have "nest_at d 0 [a, b, c] = [a, b, row_of d 1, c]" for d
    by (simp add: nest_at_def a_def b_def c_def row_of_def)
  with nest_at_below_parent [of 0 "[a, b, c]" "plain_switch ''DD'' (Some ''AA'')"] show ?thesis
    unfolding Let_def a_def [symmetric] b_def [symmetric] c_def [symmetric] by fastforce
qed

end
