(* ===== verification/VRackEngine.thy ===== *)
theory VRackEngine
  imports VRackParse Topology
begin

text \<open>
  The layout engine of the faceplates (\<open>ui/src/vrack/engine.ts\<close>): the search for the product of a
  switch, and the placing of jacks, screen, badge and keystones. Lengths are rationals: the code
  computes with doubles, the model with the decimal constants it writes. The catalogue is an
  argument. An SFP block with zero columns makes the code divide by zero; such a block is outside
  the model.
\<close>

section \<open>Finding a product\<close>

definition rackFaceWidth :: "Kit \<Rightarrow> rat" where
  "rackFaceWidth kit = kit_u_width_in kit * kit_scale_px_per_in kit"

text \<open>\<open>s.toLowerCase().replace(/[^a-z0-9]+/g, '')\<close>\<close>

definition normModel :: "string \<Rightarrow> string" where
  "normModel s = filter (\<lambda>c. is_lower c \<or> is_digit c) (toLowerCase s)"

definition alias_matches :: "string \<Rightarrow> string \<Rightarrow> bool" where
  "alias_matches k a \<longleftrightarrow> k = a \<or> (8 \<le> length a \<and> str_includes k a) \<or> (8 \<le> length k \<and> str_includes a k)"

definition product_matches :: "VRackMaker option \<Rightarrow> VRackType \<Rightarrow> string list \<Rightarrow> ProductDef \<Rightarrow> bool" where
  "product_matches manufacturer type keys p \<longleftrightarrow>
     (manufacturer = None \<or> manufacturer = Some (pd_manufacturer p)) \<and> pd_type p = type \<and>
     list_ex (\<lambda>k. list_ex (alias_matches k) (map normModel (pd_product p # pd_models p))) keys"

definition findProduct ::
  "ProductDef list \<Rightarrow> VRackMaker option \<Rightarrow> VRackType \<Rightarrow> string option \<Rightarrow> string option \<Rightarrow> ProductDef option" where
  "findProduct products manufacturer type model name =
     find (product_matches manufacturer type
             (map (\<lambda>s. normModel (opt_str s)) (filter truthy [model, name]))) products"

section \<open>Placed parts\<close>

datatype JackKind = JRj45 | JSfp

record PlacedJack =
  pj_id :: string
  pj_kind :: JackKind
  pj_rail :: Rail
  pj_numbers :: NumberSide
  pj_x :: rat
  pj_y :: rat
  pj_w :: rat
  pj_h :: rat

record Bay =
  bay_x :: rat
  bay_width :: rat

record Square =
  sq_x :: rat
  sq_y :: rat
  sq_w :: rat
  sq_h :: rat

record ResolvedFaceplate =
  rf_def :: ProductDef
  rf_width :: rat
  rf_height :: rat
  rf_chassis :: Bay
  rf_extension :: "Bay option"
  rf_window :: "Bay option"
  rf_screen :: "Square option"
  rf_badge :: "Square option"
  rf_jacks :: "PlacedJack list"
  rf_keystones :: "Square list"

record Guide =
  g_y :: rat
  g_size :: rat

definition railY :: "Rail \<Rightarrow> rat \<Rightarrow> rat \<Rightarrow> Guide \<Rightarrow> rat" where
  "railY r jackH height guide =
     (case r of Center \<Rightarrow> (height - jackH) / 2 | High \<Rightarrow> g_y guide | Low \<Rightarrow> g_y guide + g_size guide - jackH)"

text \<open>\<open>n % 2 === 1\<close>: the remainder has the sign of the number.\<close>

definition rj45ColumnRail :: "string \<Rightarrow> Rail option \<Rightarrow> Rail \<times> NumberSide" where
  "rj45ColumnRail i odds =
     (let odd = (case js_Number i of Num n \<Rightarrow> 0 \<le> n \<and> n - 2 * of_int \<lfloor>n / 2\<rfloor> = 1 | _ \<Rightarrow> True) in
      if odds = Some High then (if odd then (High, Above) else (Low, Below))
      else if odd then (Low, Below) else (High, Above))"

text \<open>Slices of \<open>n\<close> elements, where \<open>n\<close> need not be whole; the calls have \<open>n\<close> positive or nothing to cut.\<close>

function chunk_from :: "'a list \<Rightarrow> rat \<Rightarrow> rat \<Rightarrow> 'a list list" where
  "chunk_from xs i n =
     (if 0 < n \<and> i < of_nat (length xs)
      then js_slice (nat \<lfloor>i\<rfloor>) (nat \<lfloor>i + n\<rfloor>) xs # chunk_from xs (i + n) n
      else [])"
  by pat_completeness auto
termination
proof (relation "measure (\<lambda>(xs, i, n). nat \<lceil>(of_nat (length xs) - i) / n\<rceil>)", simp)
  fix xs :: "'a list" and i n :: rat
  assume "0 < n \<and> i < of_nat (length xs)"
  then have "0 < (of_nat (length xs) - i) / n" "(of_nat (length xs) - (i + n)) / n = (of_nat (length xs) - i) / n - 1"
    by (simp_all add: field_simps)
  then show "((xs, i + n, n), (xs, i, n)) \<in> measure (\<lambda>(xs, i, n). nat \<lceil>(of_nat (length xs) - i) / n\<rceil>)"
    by (simp add: nat_less_iff zero_less_ceiling)
qed

declare chunk_from.simps [simp del]

definition chunk :: "'a list \<Rightarrow> rat \<Rightarrow> 'a list list" where
  "chunk xs n = chunk_from xs 0 n"

text \<open>\<open>Math.SQRT2\<close>, the double.\<close>

definition SQRT2 :: rat where
  "SQRT2 = 6369051672525773 / 4503599627370496"

definition min_list_rat :: "rat list \<Rightarrow> rat" where
  "min_list_rat xs = fold min (tl xs) (hd xs)"

section \<open>Sizes of a faceplate\<close>

record Geo =
  ge_shelf :: bool
  ge_height :: rat
  ge_width :: rat
  ge_chassisX :: rat
  ge_chassisW :: rat
  ge_extension :: "Bay option"
  ge_screenSize :: rat
  ge_guide :: Guide
  ge_rjW :: rat
  ge_rjH :: rat
  ge_sfpW :: rat
  ge_sfpH :: rat
  ge_ksW :: rat
  ge_pad :: rat
  ge_packGap :: rat
  ge_badgeSize :: rat
  ge_window :: "Bay option"

definition BANK_GAP :: rat where "BANK_GAP = 6"

definition SFP_GAP :: rat where "SFP_GAP = 2"

definition SFP_COL_GAP :: rat where "SFP_COL_GAP = 3"

definition opt_rat :: "rat option \<Rightarrow> rat \<Rightarrow> rat" where
  "opt_rat v d = (case v of Some x \<Rightarrow> x | None \<Rightarrow> d)"

definition face_height :: "Kit \<Rightarrow> ProductDef \<Rightarrow> rat" where
  "face_height kit p =
     (let px = kit_scale_px_per_in kit in
      if pd_shelf p then max 28 (opt_rat (pd_height_in p) (83 / 100) * px)
      else kit_u_height_in kit * px * (if pd_ru p = 0 then 1 else pd_ru p))"

definition chassis_width :: "Kit \<Rightarrow> ProductDef \<Rightarrow> rat" where
  "chassis_width kit p =
     (let px = kit_scale_px_per_in kit;
          own = opt_rat (pd_width_in p) (if pd_shelf p then 46 / 10 else kit_u_width_in kit) * px
      in if pd_shelf p then own else min (kit_u_width_in kit * px) own)"

text \<open>The place of a chassis that is narrower than the rack, and the blank bay beside it.\<close>

definition chassis_place :: "Kit \<Rightarrow> ProductDef \<Rightarrow> rat \<times> Bay option" where
  "chassis_place kit p =
     (let px = kit_scale_px_per_in kit;
          chassisW = chassis_width kit p;
          width = (if pd_shelf p then chassisW else kit_u_width_in kit * px);
          shortEar = (if pd_shelf p then 0 else max 0 (opt_rat (pd_ear_in p) 0 * px));
          middle = (if pd_shelf p then 0 else (width - chassisW) / 2)
      in if \<not> pd_shelf p \<and> chassisW < width - 1 / 2 then
           if pd_align p = Some AlignLeft then
             let x = shortEar; extW = width - x - chassisW
             in (x, if 1 < extW then Some \<lparr>bay_x = x + chassisW, bay_width = extW\<rparr> else None)
           else if pd_align p = Some AlignRight then
             let x = width - chassisW - shortEar
             in (x, if 1 < x then Some \<lparr>bay_x = 0, bay_width = x\<rparr> else None)
           else (middle, None)
         else (middle, None))"

definition window_bay :: "Kit \<Rightarrow> ProductDef \<Rightarrow> Bay option" where
  "window_bay kit p =
     (let chassisW = chassis_width kit p; chassisX = fst (chassis_place kit p);
          windowW = (if opt_rat (pd_window_in p) 0 = 0 then 0
                     else min chassisW (opt_rat (pd_window_in p) 0 * kit_scale_px_per_in kit))
      in if windowW = 0 then None
         else Some \<lparr>bay_x = chassisX + (chassisW - windowW) / 2, bay_width = windowW\<rparr>)"

definition geometry :: "Kit \<Rightarrow> ProductDef \<Rightarrow> Geo" where
  "geometry kit p =
     (let px = kit_scale_px_per_in kit; shelf = pd_shelf p; height = face_height kit p;
          screenSize = (kit_screen_diagonal_in kit / SQRT2) * px;
          guideSize = min screenSize (height - 10)
      in \<lparr>ge_shelf = shelf, ge_height = height,
          ge_width = (if shelf then chassis_width kit p else kit_u_width_in kit * px),
          ge_chassisX = fst (chassis_place kit p), ge_chassisW = chassis_width kit p,
          ge_extension = snd (chassis_place kit p), ge_screenSize = screenSize,
          ge_guide = \<lparr>g_y = (height - guideSize) / 2, g_size = guideSize\<rparr>,
          ge_rjW = kit_rj45_width_in kit * px, ge_rjH = min (screenSize / 2) (height * (55 / 100)),
          ge_sfpW = (kit_sfp_width_mm kit / (254 / 10)) * px,
          ge_sfpH = min ((guideSize - SFP_GAP) / 2) (height * (4 / 10)),
          ge_ksW = kit_keystone_width_in kit * px,
          ge_pad = (if shelf then 4 else 6), ge_packGap = (if shelf then 3 else 4),
          ge_badgeSize = (if shelf then min 14 (height - 8) else 22),
          ge_window = window_bay kit p\<rparr>)"

section \<open>Placing copper jacks\<close>

definition rj_jack :: "Geo \<Rightarrow> string \<Rightarrow> Rail \<Rightarrow> NumberSide \<Rightarrow> rat \<Rightarrow> rat \<Rightarrow> rat \<Rightarrow> PlacedJack" where
  "rj_jack g i r numbers x w h =
     \<lparr>pj_id = i, pj_kind = JRj45, pj_rail = r, pj_numbers = numbers, pj_x = x,
      pj_y = railY r h (ge_height g) (ge_guide g), pj_w = w, pj_h = h\<rparr>"

text \<open>How the ports of a row are placed: the size of a jack, its slot, and the gaps.\<close>

record RowStyle =
  rs_order :: "Order option"
  rs_odds :: "Rail option"
  rs_rail :: Rail
  rs_numbers :: NumberSide
  rs_slot :: rat
  rs_jW :: rat
  rs_jH :: rat
  rs_portGap :: rat
  rs_bankGap :: rat

definition pair_jacks :: "Geo \<Rightarrow> RowStyle \<Rightarrow> rat \<Rightarrow> string list \<Rightarrow> PlacedJack list" where
  "pair_jacks g st x ids =
     map (\<lambda>i. let (r, numbers) = rj45ColumnRail i (rs_odds st)
              in rj_jack g i r numbers (x + (rs_slot st - rs_jW st) / 2) (rs_jW st) (rs_jH st))
       (filter (\<lambda>i. i \<noteq> []) ids)"

text \<open>Two ports per slot, one above the other.\<close>

fun place_columns :: "Geo \<Rightarrow> RowStyle \<Rightarrow> rat \<Rightarrow> string list \<Rightarrow> PlacedJack list \<times> rat" where
  "place_columns g st x [] = ([], x)"
| "place_columns g st x [a] = (pair_jacks g st x [a], x + rs_slot st)"
| "place_columns g st x (a # b # ids) =
     (let (jacks, x') = place_columns g st (x + rs_slot st) ids in (pair_jacks g st x [a, b] @ jacks, x'))"

text \<open>One port per slot, with the gap between two ports.\<close>

fun place_ports :: "Geo \<Rightarrow> RowStyle \<Rightarrow> rat \<Rightarrow> string list \<Rightarrow> PlacedJack list \<times> rat" where
  "place_ports g st x [] = ([], x)"
| "place_ports g st x (i # ids) =
     (let (jacks, x') = place_ports g st (x + rs_slot st + (if ids = [] then 0 else rs_portGap st)) ids
      in (rj_jack g i (rs_rail st) (rs_numbers st) (x + (rs_slot st - rs_jW st) / 2) (rs_jW st) (rs_jH st) # jacks, x'))"

definition place_bank :: "Geo \<Rightarrow> RowStyle \<Rightarrow> rat \<Rightarrow> string list \<Rightarrow> PlacedJack list \<times> rat" where
  "place_bank g st x ids = (if rs_order st = Some Columns then place_columns g st x ids else place_ports g st x ids)"

fun place_banks :: "Geo \<Rightarrow> RowStyle \<Rightarrow> rat \<Rightarrow> string list list \<Rightarrow> PlacedJack list \<times> rat" where
  "place_banks g st x [] = ([], x)"
| "place_banks g st x (b # bs) =
     (let (jacks, x1) = place_bank g st x b;
          (rest, x2) = place_banks g st (x1 + (if bs = [] then 0 else rs_bankGap st)) bs
      in (jacks @ rest, x2))"

text \<open>\<open>block.bank && block.bank > 0 ? block.bank : ids.length\<close>\<close>

definition bank_size :: "Rj45Block \<Rightarrow> rat" where
  "bank_size b = (let n = opt_rat (rj_bank b) 0 in
     if 0 < n then n else of_nat (length (expandPorts (rj_ports b))))"

definition banks_of :: "Rj45Block \<Rightarrow> string list list" where
  "banks_of b = chunk (expandPorts (rj_ports b)) (bank_size b)"

text \<open>The number of slots: half the ports of each bank in columns, rounded up, or one for each port.\<close>

definition slots_of :: "Rj45Block \<Rightarrow> nat" where
  "slots_of b = (if rj_order b = Some Columns then sum_list (map (\<lambda>k. (length k + 1) div 2) (banks_of b))
                 else length (expandPorts (rj_ports b)))"

definition rj_blocks :: "ProductDef \<Rightarrow> Rj45Block list" where
  "rj_blocks p = List.map_filter (\<lambda>b. case b of BRj45 r \<Rightarrow> Some r | _ \<Rightarrow> None) (pd_blocks p)"

definition sfp_block :: "ProductDef \<Rightarrow> SfpBlock option" where
  "sfp_block p = (case List.map_filter (\<lambda>b. case b of BSfp s \<Rightarrow> Some s | _ \<Rightarrow> None) (pd_blocks p) of
     [] \<Rightarrow> None | s # _ \<Rightarrow> Some s)"

section \<open>The face of a product\<close>

definition has_block :: "BlockDef \<Rightarrow> ProductDef \<Rightarrow> bool" where
  "has_block b p \<longleftrightarrow> b \<in> set (pd_blocks p)"

definition face_screen :: "Geo \<Rightarrow> ProductDef \<Rightarrow> Square option" where
  "face_screen g p =
     (if has_block BScreen p
      then Some (let size = min (ge_screenSize g) (g_size (ge_guide g)) in
        \<lparr>sq_x = (case ge_window g of Some w \<Rightarrow> bay_x w | None \<Rightarrow> ge_chassisX g) + ge_pad g,
         sq_y = g_y (ge_guide g), sq_w = size, sq_h = size\<rparr>)
      else None)"

definition face_badge :: "Geo \<Rightarrow> ProductDef \<Rightarrow> Square option" where
  "face_badge g p =
     (if has_block BBadge p
      then Some \<lparr>sq_x = (case ge_window g of Some w \<Rightarrow> bay_x w | None \<Rightarrow> ge_chassisX g) + ge_pad g,
                 sq_y = (ge_height g - ge_badgeSize g) / 2, sq_w = ge_badgeSize g, sq_h = ge_badgeSize g\<rparr>
      else None)"

definition start_cursor :: "Geo \<Rightarrow> ProductDef \<Rightarrow> rat" where
  "start_cursor g p =
     (let c0 = ge_chassisX g + ge_pad g;
          c1 = (case ge_window g of Some w \<Rightarrow> bay_x w + ge_pad g | None \<Rightarrow> c0);
          c2 = (case face_screen g p of Some s \<Rightarrow> sq_x s + sq_w s + ge_pad g * 2 | None \<Rightarrow> c1)
      in case face_badge g p of
           Some b \<Rightarrow> if ge_shelf g then c2 else sq_x b + sq_w b + ge_pad g
         | None \<Rightarrow> c2)"

definition trailer_width :: "Geo \<Rightarrow> ProductDef \<Rightarrow> rat" where
  "trailer_width g p = (if has_block BTrailer p then ge_sfpW g else 0)"

definition sfp_width :: "Geo \<Rightarrow> ProductDef \<Rightarrow> rat" where
  "sfp_width g p =
     (case sfp_block p of
        Some s \<Rightarrow> if sfp_cols s = 0 then 0 else sfp_cols s * ge_sfpW g + (sfp_cols s - 1) * SFP_COL_GAP
      | None \<Rightarrow> 0)"

definition sfp_lead :: "Geo \<Rightarrow> ProductDef \<Rightarrow> rat" where
  "sfp_lead g p = (case sfp_block p of Some s \<Rightarrow> opt_rat (sfp_gap s) (ge_pad g) | None \<Rightarrow> ge_pad g)"

definition bay_right :: "Geo \<Rightarrow> rat" where
  "bay_right g = (case ge_window g of Some w \<Rightarrow> bay_x w + bay_width w | None \<Rightarrow> ge_chassisX g + ge_chassisW g)"

definition bay_end :: "Geo \<Rightarrow> ProductDef \<Rightarrow> rat" where
  "bay_end g p = bay_right g - ge_pad g - trailer_width g p"

definition sfp_start :: "Geo \<Rightarrow> ProductDef \<Rightarrow> rat" where
  "sfp_start g p = bay_end g p - sfp_width g p"

definition copper_end :: "Geo \<Rightarrow> ProductDef \<Rightarrow> rat" where
  "copper_end g p = (if sfp_width g p \<noteq> 0 then sfp_start g p - sfp_lead g p else bay_end g p)"

subsection \<open>A window in the chassis\<close>

definition window_jacks :: "Geo \<Rightarrow> ProductDef \<Rightarrow> Bay \<Rightarrow> PlacedJack list \<times> Square option" where
  "window_jacks g p w =
     (let ids = concat (map (\<lambda>b. expandPorts (rj_ports b)) (rj_blocks p));
          copperW = of_nat (length ids) * (ge_rjW g + ge_packGap g);
          mark = (if has_block BBadge p then ge_badgeSize g + ge_pad g else 0);
          groupX = bay_x w + max (ge_pad g) ((bay_width w - (mark + copperW)) / 2);
          badge = map_option (\<lambda>b. b\<lparr>sq_x := groupX\<rparr>) (face_badge g p);
          r = (case rj_blocks p of b # _ \<Rightarrow> (case rj_rail b of Some r \<Rightarrow> r | None \<Rightarrow> Center) | [] \<Rightarrow> Center);
          numbers = (case rj_blocks p of b # _ \<Rightarrow> (case rj_numbers b of Some s \<Rightarrow> s | None \<Rightarrow> Above) | [] \<Rightarrow> Above)
      in (map (\<lambda>(k, i). rj_jack g i r numbers
                 (groupX + mark + of_nat k * (ge_rjW g + ge_packGap g) + ge_packGap g / 2) (ge_rjW g) (ge_rjH g))
            (enumerate 0 ids), badge))"

subsection \<open>No screen: the ports are packed\<close>

definition row_gap :: "Geo \<Rightarrow> Rj45Block \<Rightarrow> rat" where
  "row_gap g b = opt_rat (rj_gap b) (ge_packGap g)"

definition row_lead :: "Geo \<Rightarrow> nat \<times> Rj45Block \<Rightarrow> rat" where
  "row_lead g = (\<lambda>(k, b). opt_rat (rj_lead b) (if k = 0 then 0 else if ge_shelf g then 14 else 10))"

definition row_width :: "Geo \<Rightarrow> nat \<times> Rj45Block \<Rightarrow> rat" where
  "row_width g kb = row_lead g kb + of_nat (slots_of (snd kb)) * (ge_rjW g + row_gap g (snd kb))
     + of_nat (length (banks_of (snd kb)) - 1) * BANK_GAP"

definition copper_natural :: "Geo \<Rightarrow> ProductDef \<Rightarrow> rat" where
  "copper_natural g p = sum_list (map (row_width g) (enumerate 0 (rj_blocks p)))"

definition group_natural :: "Geo \<Rightarrow> ProductDef \<Rightarrow> rat" where
  "group_natural g p = copper_natural g p + (if sfp_width g p \<noteq> 0 then sfp_lead g p + sfp_width g p else 0)"

definition pack_room :: "Geo \<Rightarrow> ProductDef \<Rightarrow> rat" where
  "pack_room g p = max 0 (bay_end g p - start_cursor g p)"

definition pack_fit :: "Geo \<Rightarrow> ProductDef \<Rightarrow> rat" where
  "pack_fit g p = (if 0 < group_natural g p then min 1 (pack_room g p / group_natural g p) else 1)"

definition pack_start :: "Geo \<Rightarrow> ProductDef \<Rightarrow> rat" where
  "pack_start g p =
     (let cursor = start_cursor g p; fit = pack_fit g p in
      if ge_shelf g then cursor + max 0 ((pack_room g p - group_natural g p * fit) / 2)
      else if 1 \<le> fit then max cursor (copper_end g p - copper_natural g p)
      else cursor)"

definition pack_style :: "Geo \<Rightarrow> rat \<Rightarrow> Rj45Block \<Rightarrow> RowStyle" where
  "pack_style g fit b =
     \<lparr>rs_order = rj_order b, rs_odds = rj_odds b,
      rs_rail = (case rj_rail b of Some r \<Rightarrow> r | None \<Rightarrow> Low),
      rs_numbers = (case rj_numbers b of Some s \<Rightarrow> s | None \<Rightarrow> if ge_shelf g then Below else Above),
      rs_slot = ge_rjW g * fit + row_gap g b * fit, rs_jW = ge_rjW g * fit, rs_jH = ge_rjH g * fit,
      rs_portGap = 0, rs_bankGap = BANK_GAP * fit\<rparr>"

fun pack_rows :: "Geo \<Rightarrow> rat \<Rightarrow> rat \<Rightarrow> (nat \<times> Rj45Block) list \<Rightarrow> PlacedJack list \<times> rat" where
  "pack_rows g fit x [] = ([], x)"
| "pack_rows g fit x (kb # rows) =
     (let (jacks, x1) = place_banks g (pack_style g fit (snd kb)) (x + row_lead g kb * fit) (banks_of (snd kb));
          (rest, x2) = pack_rows g fit x1 rows
      in (jacks @ rest, x2))"

definition packed_jacks :: "Geo \<Rightarrow> ProductDef \<Rightarrow> PlacedJack list \<times> rat" where
  "packed_jacks g p = pack_rows g (pack_fit g p) (pack_start g p) (enumerate 0 (rj_blocks p))"

subsection \<open>A screen: the ports fill the space up to the SFP jacks\<close>

definition fill_slot :: "Geo \<Rightarrow> ProductDef \<Rightarrow> rat \<Rightarrow> Rj45Block \<Rightarrow> rat" where
  "fill_slot g p cursor b =
     (let ids = expandPorts (rj_ports b); banks = banks_of b;
          withinGaps = (if rj_order b = Some Columns then 0 else length ids - length banks);
          usable = copper_end g p - cursor - of_nat (length banks - 1) * BANK_GAP - of_nat withinGaps * opt_rat (rj_gap b) 0
      in if 0 < slots_of b then usable / of_nat (slots_of b) else ge_rjW g)"

definition fill_style :: "Geo \<Rightarrow> ProductDef \<Rightarrow> rat \<Rightarrow> Rj45Block \<Rightarrow> RowStyle" where
  "fill_style g p cursor b =
     (let slot = fill_slot g p cursor b; scale = min 1 (slot / ge_rjW g) in
      \<lparr>rs_order = rj_order b, rs_odds = rj_odds b,
       rs_rail = (case rj_rail b of Some r \<Rightarrow> r | None \<Rightarrow> Low),
       rs_numbers = (case rj_numbers b of Some s \<Rightarrow> s | None \<Rightarrow> Below),
       rs_slot = slot, rs_jW = ge_rjW g * scale, rs_jH = ge_rjH g * scale,
       rs_portGap = opt_rat (rj_gap b) 0, rs_bankGap = BANK_GAP\<rparr>)"

fun fill_rows :: "Geo \<Rightarrow> ProductDef \<Rightarrow> rat \<Rightarrow> Rj45Block list \<Rightarrow> PlacedJack list" where
  "fill_rows g p cursor [] = []"
| "fill_rows g p cursor (b # bs) =
     fst (place_banks g (fill_style g p cursor b) cursor (banks_of b)) @ fill_rows g p (copper_end g p) bs"

subsection \<open>SFP jacks, keystones and the badge\<close>

text \<open>The remainder \<open>a % b\<close> of two positive numbers.\<close>

definition js_mod :: "rat \<Rightarrow> rat \<Rightarrow> rat" where
  "js_mod a b = a - b * of_int \<lfloor>a / b\<rfloor>"

definition sfp_jacks :: "Geo \<Rightarrow> rat \<Rightarrow> rat \<Rightarrow> SfpBlock \<Rightarrow> PlacedJack list" where
  "sfp_jacks g x0 fit s =
     (let ids = sfp_ports s; cols = sfp_cols s; rows = of_int \<lceil>of_nat (length ids) / cols\<rceil> :: rat;
          jackW = ge_sfpW g * fit; jackH = ge_sfpH g * fit; single = (rows = 1);
          high = (case sfp_numbers_high s of Some n \<Rightarrow> n | None \<Rightarrow> Above);
          low = (case sfp_numbers_low s of Some n \<Rightarrow> n | None \<Rightarrow> Below);
          one = (case sfp_numbers_high s of Some n \<Rightarrow> n
                 | None \<Rightarrow> (case sfp_numbers_low s of Some n \<Rightarrow> n | None \<Rightarrow> Above))
      in map (\<lambda>(k, i).
           let colMajor = (sfp_order s \<noteq> Rows);
               col = (if colMajor then of_int \<lfloor>of_nat k / rows\<rfloor> else js_mod (of_nat k) cols);
               row = (if colMajor then js_mod (of_nat k) rows else of_int \<lfloor>of_nat k / cols\<rfloor>);
               r = (if single then (case sfp_rail s of Some r \<Rightarrow> r | None \<Rightarrow> Center) else if row = 0 then High else Low)
           in \<lparr>pj_id = i, pj_kind = JSfp, pj_rail = r,
               pj_numbers = (if single then one else if r = High then high else low),
               pj_x = x0 + col * (jackW + SFP_COL_GAP),
               pj_y = (if single then railY r jackH (ge_height g) (ge_guide g)
                       else g_y (ge_guide g) + row * (ge_sfpH g + SFP_GAP)),
               pj_w = jackW, pj_h = jackH\<rparr>) (enumerate 0 ids))"

fun keystone_slots :: "Geo \<Rightarrow> Bay \<Rightarrow> BlockDef \<Rightarrow> Square list" where
  "keystone_slots g w (BKeystone s r n) =
     (let (wx, ww) = (if s = SideLeft
                      then (ge_chassisX g + ge_pad g, bay_x w - ge_chassisX g - ge_pad g * 2)
                      else (bay_x w + bay_width w + ge_pad g,
                            ge_chassisX g + ge_chassisW g - (bay_x w + bay_width w) - ge_pad g * 2))
      in if ww \<le> 0 \<or> n \<le> 0 then []
         else let slot = ww / of_int n in
           map (\<lambda>k. \<lparr>sq_x = wx + of_nat k * slot + (slot - ge_ksW g) / 2,
                     sq_y = railY r (ge_ksW g) (ge_height g) (ge_guide g), sq_w = ge_ksW g, sq_h = ge_ksW g\<rparr>)
             [0..<nat n])"
| "keystone_slots g w _ = []"

definition shelf_badge :: "Geo \<Rightarrow> PlacedJack list \<Rightarrow> Square option \<Rightarrow> Square option" where
  "shelf_badge g jacks badge =
     (case badge of None \<Rightarrow> None
      | Some b \<Rightarrow>
          if \<not> ge_shelf g \<or> jacks = [] then Some b
          else let left = ge_chassisX g + ge_pad g; right = min_list_rat (map pj_x jacks) - ge_pad g; room = right - left in
            if sq_w b \<le> room then Some (b\<lparr>sq_x := left + (room - sq_w b) / 2\<rparr>)
            else if 4 < room then
              let size = min (sq_w b) room in
              Some \<lparr>sq_x = left + (room - size) / 2, sq_y = (ge_height g - size) / 2, sq_w = size, sq_h = size\<rparr>
            else Some b)"

definition copper_jacks :: "Geo \<Rightarrow> ProductDef \<Rightarrow> PlacedJack list" where
  "copper_jacks g p =
     (case ge_window g of
        Some w \<Rightarrow> fst (window_jacks g p w)
      | None \<Rightarrow> if \<not> has_block BScreen p then fst (packed_jacks g p)
                else fill_rows g p (start_cursor g p) (rj_blocks p))"

definition fibre_jacks :: "Geo \<Rightarrow> ProductDef \<Rightarrow> PlacedJack list" where
  "fibre_jacks g p =
     (let packed = (ge_window g = None \<and> \<not> has_block BScreen p);
          x0 = (if packed \<and> ge_shelf g \<and> sfp_width g p \<noteq> 0
                then snd (packed_jacks g p) + sfp_lead g p * pack_fit g p else sfp_start g p);
          fit = (if ge_shelf g \<and> packed then pack_fit g p else 1)
      in case sfp_block p of Some s \<Rightarrow> sfp_jacks g x0 fit s | None \<Rightarrow> [])"

definition resolveFaceplate :: "Kit \<Rightarrow> ProductDef \<Rightarrow> ResolvedFaceplate" where
  "resolveFaceplate kit p =
     (let g = geometry kit p; jacks = copper_jacks g p @ fibre_jacks g p;
          badge = (case ge_window g of Some w \<Rightarrow> snd (window_jacks g p w) | None \<Rightarrow> face_badge g p)
      in \<lparr>rf_def = p, rf_width = ge_width g, rf_height = ge_height g,
          rf_chassis = \<lparr>bay_x = ge_chassisX g, bay_width = ge_chassisW g\<rparr>,
          rf_extension = ge_extension g, rf_window = ge_window g, rf_screen = face_screen g p,
          rf_badge = shelf_badge g jacks badge, rf_jacks = jacks,
          rf_keystones = (case ge_window g of
             Some w \<Rightarrow> concat (map (keystone_slots g w) (pd_blocks p)) | None \<Rightarrow> [])\<rparr>)"

section \<open>A switch without a product\<close>

text \<open>A shelf with the live ports of the switch.\<close>

record Shelf =
  sh_height :: rat
  sh_guide :: Guide
  sh_rjW :: rat
  sh_rjH :: rat
  sh_sfpW :: rat
  sh_sfpH :: rat
  sh_badge :: rat
  sh_rackW :: rat
  sh_origin :: rat

definition shelf_of :: "Kit \<Rightarrow> bool \<Rightarrow> bool \<Rightarrow> Shelf" where
  "shelf_of kit dual made =
     (let px = kit_scale_px_per_in kit;
          height = (if dual then kit_u_height_in kit * px else max 28 (11 / 10 * px));
          screenSize = (kit_screen_diagonal_in kit / SQRT2) * px;
          guideSize = min screenSize (height - 10);
          badgeSize = (if made then min 14 (height - 8) else 0)
      in \<lparr>sh_height = height, sh_guide = \<lparr>g_y = (height - guideSize) / 2, g_size = guideSize\<rparr>,
          sh_rjW = kit_rj45_width_in kit * px, sh_rjH = min (screenSize / 2) (height * (55 / 100)),
          sh_sfpW = (kit_sfp_width_mm kit / (254 / 10)) * px,
          sh_sfpH = min ((guideSize - 2) / 2) (height * (4 / 10)),
          sh_badge = badgeSize, sh_rackW = kit_u_width_in kit * px,
          sh_origin = 4 + (if badgeSize = 0 then 0 else badgeSize + 4)\<rparr>)"

definition shelf_jack :: "Shelf \<Rightarrow> Rail \<Rightarrow> NumberSide \<Rightarrow> rat \<Rightarrow> SwitchPort \<Rightarrow> PlacedJack" where
  "shelf_jack s r numbers x p =
     \<lparr>pj_id = sp_id p, pj_kind = JRj45, pj_rail = r, pj_numbers = numbers, pj_x = x,
      pj_y = railY r (sh_rjH s) (sh_height s) (sh_guide s), pj_w = sh_rjW s, pj_h = sh_rjH s\<rparr>"

definition shelf_copper :: "Shelf \<Rightarrow> bool \<Rightarrow> SwitchPort list \<Rightarrow> PlacedJack list \<times> rat" where
  "shelf_copper s dual copper =
     (let slot = sh_rjW s + 3; x = sh_origin s in
      if dual then
        let low = take 24 copper; high = drop 24 copper; cols = max (max (length low) (length high)) 1 in
        (concat (map (\<lambda>k.
            let cx = x + of_nat k * slot + 3 / 2 in
            (if k < length high then [shelf_jack s High Above cx (high ! k)] else []) @
            (if k < length low then [shelf_jack s Low Below cx (low ! k)] else [])) [0..<cols]),
         x + of_nat cols * slot)
      else (map (\<lambda>(k, p). shelf_jack s Center Below (x + of_nat k * slot + 3 / 2) p) (enumerate 0 copper),
            x + of_nat (length copper) * slot))"

definition shelf_fibre :: "Shelf \<Rightarrow> rat \<Rightarrow> SwitchPort list \<Rightarrow> PlacedJack list \<times> rat" where
  "shelf_fibre s x0 fibre =
     (if fibre = [] then ([], x0)
      else
        let x = x0 + 8; stacked = 4 < length fibre;
            cols = (if stacked then (length fibre + 1) div 2 else length fibre)
        in (map (\<lambda>(k, p).
              let col = (if stacked then k div 2 else k); row = (if stacked then k mod 2 else 0);
                  r = (if stacked then (if row = 0 then High else Low) else Center)
              in \<lparr>pj_id = sp_id p, pj_kind = JSfp, pj_rail = r,
                  pj_numbers = (if stacked \<and> r = High then Above else Below),
                  pj_x = x + of_nat col * (sh_sfpW s + 3),
                  pj_y = (if stacked then g_y (sh_guide s) + of_nat row * (sh_sfpH s + 2)
                          else railY Center (sh_sfpH s) (sh_height s) (sh_guide s)),
                  pj_w = sh_sfpW s, pj_h = sh_sfpH s\<rparr>) (enumerate 0 fibre),
            x + of_nat cols * sh_sfpW s + of_nat (cols - 1) * 3))"

text \<open>Jacks wider than the rack are shrunk towards the origin.\<close>

definition shrink_jack :: "Shelf \<Rightarrow> rat \<Rightarrow> PlacedJack \<Rightarrow> PlacedJack" where
  "shrink_jack s fit j =
     (let h = pj_h j * fit in
      j\<lparr>pj_x := sh_origin s + (pj_x j - sh_origin s) * fit, pj_w := pj_w j * fit, pj_h := h,
        pj_y := (if pj_kind j = JSfp \<and> pj_rail j \<noteq> Center
                 then g_y (sh_guide s) + (if pj_rail j = High then 0 else 1) * (h + 2 * fit)
                 else railY (pj_rail j) h (sh_height s) (sh_guide s))\<rparr>)"

definition shelf_ports :: "(string \<Rightarrow> string \<Rightarrow> int) \<Rightarrow> Switch \<Rightarrow> SwitchPort list" where
  "shelf_ports lc sw = js_sort (\<lambda>a b. cmp_id lc (sp_id a) (sp_id b)) (opt_list (sw_ports sw))"

definition is_sfp :: "SwitchPort \<Rightarrow> bool" where
  "is_sfp p \<longleftrightarrow> sp_sfp p = Some True"

definition shelf_layout :: "Shelf \<Rightarrow> bool \<Rightarrow> SwitchPort list \<Rightarrow> PlacedJack list \<times> rat" where
  "shelf_layout s dual ports =
     (let (rj, x1) = shelf_copper s dual (filter (\<lambda>p. \<not> is_sfp p) ports);
          (sf, x2) = shelf_fibre s x1 (filter is_sfp ports);
          x = x2 + 4; jacks = rj @ sf;
          width = max x (sh_origin s + 48 + 4)
      in if sh_rackW s < width \<and> jacks \<noteq> []
         then let span = x - sh_origin s - 4;
                  fit = max (35 / 100) ((sh_rackW s - sh_origin s - 4) / max span 1)
              in (map (shrink_jack s fit) jacks, sh_rackW s)
         else (jacks, min width (sh_rackW s)))"

definition generic_badge :: "Shelf \<Rightarrow> PlacedJack list \<Rightarrow> Square option" where
  "generic_badge s jacks =
     (if sh_badge s = 0 then None
      else
        let b = \<lparr>sq_x = 4, sq_y = (sh_height s - sh_badge s) / 2, sq_w = sh_badge s, sq_h = sh_badge s\<rparr>;
            room = min_list_rat (map pj_x jacks) - 4 - 4
        in Some (if jacks \<noteq> [] \<and> sq_w b \<le> room then b\<lparr>sq_x := 4 + (room - sq_w b) / 2\<rparr> else b))"

definition resolveGenericShelf ::
  "Kit \<Rightarrow> (string \<Rightarrow> string \<Rightarrow> int) \<Rightarrow> Switch \<Rightarrow> VRackMaker option \<Rightarrow> ResolvedFaceplate" where
  "resolveGenericShelf kit lc sw manufacturer =
     (let ports = shelf_ports lc sw;
          dual = 24 < length (filter (\<lambda>p. \<not> is_sfp p) ports);
          s = shelf_of kit dual (manufacturer \<noteq> None);
          (jacks, width) = shelf_layout s dual ports;
          badge = generic_badge s jacks;
          model = trim (or_else (or_else (opt_str (sw_model sw)) (opt_str (sw_name sw))) ''switch'');
          px = kit_scale_px_per_in kit
      in \<lparr>rf_def = \<lparr>pd_manufacturer = (case manufacturer of Some m \<Rightarrow> m | None \<Rightarrow> VUnifi), pd_type = TSwitch,
             pd_product = ''generic-shelf'', pd_models = [model], pd_ru = 1, pd_shelf = True,
             pd_width_in = Some (width / px), pd_height_in = Some (sh_height s / px), pd_align = None,
             pd_ear_in = None, pd_window_in = None,
             pd_blocks = (if badge = None then [] else [BBadge]), pd_source = ''generic''\<rparr>,
          rf_width = width, rf_height = sh_height s, rf_chassis = \<lparr>bay_x = 0, bay_width = width\<rparr>,
          rf_extension = None, rf_window = None, rf_screen = None, rf_badge = badge, rf_jacks = jacks,
          rf_keystones = []\<rparr>)"

section \<open>Every port has a jack\<close>

lemma slice_drop:
  assumes "a \<le> b"
  shows "js_slice a b xs @ drop b xs = drop a xs"
proof -
  have "drop a xs = drop a (take b xs @ drop b xs)" by simp
  also have "\<dots> = js_slice a b xs @ drop b xs"
    unfolding drop_append using assms by (cases "b \<le> length xs") (simp_all add: js_slice_def)
  finally show ?thesis ..
qed

lemma concat_chunk_from:
  assumes "0 < n" "0 \<le> i"
  shows "concat (chunk_from xs i n) = drop (nat \<lfloor>i\<rfloor>) xs"
  using assms
proof (induction xs i n rule: chunk_from.induct)
  case (1 xs i n)
  show ?case
  proof (cases "i < of_nat (length xs)")
    case True
    have le: "nat \<lfloor>i\<rfloor> \<le> nat \<lfloor>i + n\<rfloor>" using "1.prems" by (intro nat_mono floor_mono) simp
    have "concat (chunk_from xs (i + n) n) = drop (nat \<lfloor>i + n\<rfloor>) xs" using "1.IH" "1.prems" True by simp
    with True "1.prems" show ?thesis
      by (simp add: chunk_from.simps [of xs i n] slice_drop [OF le])
  next
    case False
    then have "int (length xs) \<le> \<lfloor>i\<rfloor>" by (simp add: le_floor_iff)
    then have "length xs \<le> nat \<lfloor>i\<rfloor>" by linarith
    with False show ?thesis by (simp add: chunk_from.simps [of xs i n])
  qed
qed

lemma concat_chunk: "0 < n \<or> xs = [] \<Longrightarrow> concat (chunk xs n) = xs"
  using concat_chunk_from [of n 0 xs] by (auto simp: chunk_def chunk_from.simps [of "[]"])

lemma concat_banks [simp]: "concat (banks_of b) = expandPorts (rj_ports b)"
  unfolding banks_of_def
  by (rule concat_chunk) (auto simp: bank_size_def Let_def)

lemma ids_pair: "map pj_id (pair_jacks g st x ids) = filter (\<lambda>i. i \<noteq> []) ids"
  by (simp add: pair_jacks_def rj_jack_def comp_def case_prod_unfold Let_def)

lemma ids_columns: "[] \<notin> set ids \<Longrightarrow> map pj_id (fst (place_columns g st x ids)) = ids"
  by (induction g st x ids rule: place_columns.induct) (auto simp: ids_pair split: prod.splits)

lemma ids_ports: "map pj_id (fst (place_ports g st x ids)) = ids"
  by (induction g st x ids rule: place_ports.induct) (auto simp: rj_jack_def split: prod.splits)

lemma ids_banks: "[] \<notin> set (concat bs) \<Longrightarrow> map pj_id (fst (place_banks g st x bs)) = concat bs"
proof (induction g st x bs rule: place_banks.induct)
  case (2 g st x b bs)
  obtain j x1 where b: "place_bank g st x b = (j, x1)" by force
  obtain r x2 where r: "place_banks g st (x1 + (if bs = [] then 0 else rs_bankGap st)) bs = (r, x2)" by force
  have "map pj_id j = b"
    using b "2.prems" ids_columns [of b g st x] ids_ports [of g st x b]
    by (auto simp: place_bank_def split: if_splits)
  moreover have "map pj_id r = concat bs" using "2.IH" [OF b [symmetric] refl] "2.prems" r by simp
  ultimately show ?case using b r by simp
qed simp

lemma ids_block: "map pj_id (fst (place_banks g st x (banks_of b))) = expandPorts (rj_ports b)"
  by (simp add: ids_banks expand_not_empty)

lemma ids_pack_rows:
  "map pj_id (fst (pack_rows g fit x rows)) = concat (map (\<lambda>kb. expandPorts (rj_ports (snd kb))) rows)"
proof (induction g fit x rows rule: pack_rows.induct)
  case (2 g fit x kb rows)
  then show ?case
    using ids_block [of g "pack_style g fit (snd kb)" "x + row_lead g kb * fit" "snd kb"]
    by (auto split: prod.splits)
qed simp

lemma ids_fill_rows: "map pj_id (fill_rows g p cursor bs) = concat (map (\<lambda>b. expandPorts (rj_ports b)) bs)"
  by (induction bs arbitrary: cursor) (simp_all add: ids_block)

lemma ids_enumerate: "map (\<lambda>(k, i). f i) (enumerate n ids) = map f ids"
  by (induction ids arbitrary: n) simp_all

lemma ids_window: "map pj_id (fst (window_jacks g p w)) = concat (map (\<lambda>b. expandPorts (rj_ports b)) (rj_blocks p))"
  using ids_enumerate [of "\<lambda>i. i"] by (simp add: window_jacks_def Let_def rj_jack_def comp_def case_prod_unfold)

lemma ids_sfp: "map pj_id (sfp_jacks g x0 fit s) = sfp_ports s"
  by (simp add: sfp_jacks_def Let_def comp_def case_prod_unfold)

text \<open>the faceplate of a product has a jack for each of its ports: the copper ports of its blocks in
  their order, then the ports of the SFP block, none missing and none twice, whichever way the
  engine places them.\<close>

theorem faceplate_has_ports:
  "map pj_id (rf_jacks (resolveFaceplate kit p)) =
     concat (map (\<lambda>b. expandPorts (rj_ports b)) (rj_blocks p)) @
     (case sfp_block p of Some s \<Rightarrow> sfp_ports s | None \<Rightarrow> [])"
proof -
  have "map pj_id (copper_jacks g p) = concat (map (\<lambda>b. expandPorts (rj_ports b)) (rj_blocks p))" for g
  proof -
    have "map (\<lambda>kb. expandPorts (rj_ports (snd kb))) (enumerate 0 bs) = map (\<lambda>b. expandPorts (rj_ports b)) bs" for bs
      using ids_enumerate [of "\<lambda>b. expandPorts (rj_ports b)" 0 bs] by (simp add: case_prod_unfold)
    from this [of "rj_blocks p"] show ?thesis
      by (simp add: copper_jacks_def packed_jacks_def ids_window ids_pack_rows ids_fill_rows split: option.splits)
  qed
  moreover have "map pj_id (fibre_jacks g p) = (case sfp_block p of Some s \<Rightarrow> sfp_ports s | None \<Rightarrow> [])" for g
    by (simp add: fibre_jacks_def Let_def ids_sfp split: option.splits)
  ultimately show ?thesis by (simp add: resolveFaceplate_def Let_def)
qed

section \<open>Packed jacks stay in the bay\<close>

definition jack_in :: "rat \<Rightarrow> rat \<Rightarrow> PlacedJack \<Rightarrow> bool" where
  "jack_in lo hi j \<longleftrightarrow> lo \<le> pj_x j \<and> pj_x j + pj_w j \<le> hi"

lemma jack_in_mono: "jack_in lo hi j \<Longrightarrow> lo' \<le> lo \<Longrightarrow> hi \<le> hi' \<Longrightarrow> jack_in lo' hi' j"
  by (auto simp: jack_in_def)

lemma jacks_in_mono:
  "list_all (jack_in lo hi) js \<Longrightarrow> lo' \<le> lo \<Longrightarrow> hi \<le> hi' \<Longrightarrow> list_all (jack_in lo' hi') js"
  by (auto simp: list_all_iff intro: jack_in_mono)

text \<open>A style with room for its jacks.\<close>

definition roomy :: "RowStyle \<Rightarrow> bool" where
  "roomy st \<longleftrightarrow> 0 \<le> rs_jW st \<and> rs_jW st \<le> rs_slot st \<and> 0 \<le> rs_portGap st \<and> 0 \<le> rs_bankGap st"

lemma slot_in:
  assumes "roomy st"
  shows "list_all (jack_in x (x + rs_slot st)) (pair_jacks g st x ids)"
    and "jack_in x (x + rs_slot st) (rj_jack g i r n (x + (rs_slot st - rs_jW st) / 2) (rs_jW st) h)"
  using assms
  by (auto simp: roomy_def pair_jacks_def rj_jack_def jack_in_def list_all_iff field_simps split: prod.splits)

lemma columns_in:
  assumes "roomy st"
  shows "snd (place_columns g st x ids) = x + of_nat ((length ids + 1) div 2) * rs_slot st \<and>
    list_all (jack_in x (snd (place_columns g st x ids))) (fst (place_columns g st x ids))"
  using assms
proof (induction g st x ids rule: place_columns.induct)
  case (3 g st x a b ids)
  obtain js x' where r: "place_columns g st (x + rs_slot st) ids = (js, x')" by force
  have ih: "x' = x + rs_slot st + of_nat ((length ids + 1) div 2) * rs_slot st"
    "list_all (jack_in (x + rs_slot st) x') js"
    using "3.IH" "3.prems" r by auto
  have slot: "0 \<le> rs_slot st" using "3.prems" by (simp add: roomy_def)
  then have "0 \<le> of_nat ((length ids + 1) div 2) * rs_slot st" by simp
  then have "list_all (jack_in x x') (pair_jacks g st x [a, b])"
    using ih(1) by (intro jacks_in_mono [OF slot_in(1) [OF "3.prems"]]) auto
  moreover have "list_all (jack_in x x') js" using slot by (intro jacks_in_mono [OF ih(2)]) auto
  ultimately show ?case using r ih(1) by (simp add: field_simps)
qed (simp_all add: slot_in)

lemma ports_in:
  assumes "roomy st" "rs_portGap st = 0"
  shows "snd (place_ports g st x ids) = x + of_nat (length ids) * rs_slot st \<and>
    list_all (jack_in x (snd (place_ports g st x ids))) (fst (place_ports g st x ids))"
  using assms
proof (induction g st x ids rule: place_ports.induct)
  case (2 g st x i ids)
  obtain js x' where r: "place_ports g st (x + rs_slot st) ids = (js, x')" by force
  have z: "x + rs_slot st + (if ids = [] then 0 else rs_portGap st) = x + rs_slot st" using "2.prems"(2) by simp
  have ih: "x' = x + rs_slot st + of_nat (length ids) * rs_slot st" "list_all (jack_in (x + rs_slot st) x') js"
    using "2.IH" [OF "2.prems"] r unfolding z by auto
  have slot: "0 \<le> rs_slot st" using "2.prems" by (simp add: roomy_def)
  then have "0 \<le> of_nat (length ids) * rs_slot st" by simp
  then have "jack_in x x' (rj_jack g i (rs_rail st) (rs_numbers st) (x + (rs_slot st - rs_jW st) / 2) (rs_jW st) (rs_jH st))"
    using ih(1) by (intro jack_in_mono [OF slot_in(2) [OF "2.prems"(1)]]) auto
  moreover have "list_all (jack_in x x') js" using slot by (intro jacks_in_mono [OF ih(2)]) auto
  ultimately show ?case using r ih(1) unfolding place_ports.simps z by (simp add: field_simps)
qed simp

definition bank_slots :: "RowStyle \<Rightarrow> string list \<Rightarrow> nat" where
  "bank_slots st ids = (if rs_order st = Some Columns then (length ids + 1) div 2 else length ids)"

lemma bank_in:
  assumes "roomy st" "rs_portGap st = 0"
  shows "snd (place_bank g st x ids) = x + of_nat (bank_slots st ids) * rs_slot st \<and>
    list_all (jack_in x (snd (place_bank g st x ids))) (fst (place_bank g st x ids))"
  using columns_in [OF assms(1), of g x ids] ports_in [OF assms, of g x ids]
  by (auto simp: place_bank_def bank_slots_def)

lemma banks_in:
  assumes "roomy st" "rs_portGap st = 0"
  shows "snd (place_banks g st x bs) =
      x + of_nat (sum_list (map (bank_slots st) bs)) * rs_slot st + of_nat (length bs - 1) * rs_bankGap st \<and>
    list_all (jack_in x (snd (place_banks g st x bs))) (fst (place_banks g st x bs)) \<and> x \<le> snd (place_banks g st x bs)"
  using assms
proof (induction g st x bs rule: place_banks.induct)
  case (2 g st x b bs)
  obtain js x1 where j: "place_bank g st x b = (js, x1)" by force
  let ?x = "x1 + (if bs = [] then 0 else rs_bankGap st)"
  obtain rest x2 where r: "place_banks g st ?x bs = (rest, x2)" by force
  have one: "x1 = x + of_nat (bank_slots st b) * rs_slot st" "list_all (jack_in x x1) js"
    using bank_in [OF "2.prems", of g x b] j by auto
  have ih: "x2 = ?x + of_nat (sum_list (map (bank_slots st) bs)) * rs_slot st + of_nat (length bs - 1) * rs_bankGap st"
    "list_all (jack_in ?x x2) rest" "?x \<le> x2"
    using "2.IH" [OF j [symmetric] refl "2.prems"] r by auto
  have nn: "0 \<le> rs_slot st" "0 \<le> rs_bankGap st" using "2.prems" by (auto simp: roomy_def)
  then have x1: "x \<le> x1" using one(1) by simp
  have "list_all (jack_in x x2) js" using ih(3) nn by (intro jacks_in_mono [OF one(2)]) (auto split: if_splits)
  moreover have "list_all (jack_in x x2) rest" using x1 nn by (intro jacks_in_mono [OF ih(2)]) auto
  moreover have "x2 = x + of_nat (sum_list (map (bank_slots st) (b # bs))) * rs_slot st + of_nat (length (b # bs) - 1) * rs_bankGap st"
    using ih(1) one(1) by (cases bs) (simp_all add: field_simps)
  moreover have "x \<le> x2" using x1 ih(3) nn by (auto split: if_splits)
  ultimately show ?case using j r by (simp add: Let_def)
qed simp

definition row_fits :: "Geo \<Rightarrow> nat \<times> Rj45Block \<Rightarrow> bool" where
  "row_fits g kb \<longleftrightarrow> 0 \<le> row_gap g (snd kb) \<and> 0 \<le> row_lead g kb"

lemma pack_roomy:
  assumes "0 \<le> fit" "0 \<le> ge_rjW g" "0 \<le> row_gap g b"
  shows "roomy (pack_style g fit b)" "rs_portGap (pack_style g fit b) = 0"
  using assms by (auto simp: roomy_def pack_style_def BANK_GAP_def)

lemma sum_bank_slots: "sum_list (map (bank_slots (pack_style g fit b)) (banks_of b)) = slots_of b"
proof -
  have "sum_list (map length (banks_of b)) = length (expandPorts (rj_ports b))"
    using length_concat [of "banks_of b"] by simp
  moreover have "bank_slots (pack_style g fit b) =
      (\<lambda>k. if rj_order b = Some Columns then (length k + 1) div 2 else length k)"
    by (simp add: bank_slots_def pack_style_def fun_eq_iff)
  ultimately show ?thesis by (simp add: slots_of_def)
qed

lemma pack_rows_in:
  assumes "0 \<le> fit" "0 \<le> ge_rjW g" "list_all (row_fits g) rows"
  shows "snd (pack_rows g fit x rows) = x + sum_list (map (row_width g) rows) * fit \<and>
    list_all (jack_in x (snd (pack_rows g fit x rows))) (fst (pack_rows g fit x rows)) \<and> x \<le> snd (pack_rows g fit x rows)"
  using assms
proof (induction g fit x rows rule: pack_rows.induct)
  case (2 g fit x kb rows)
  let ?st = "pack_style g fit (snd kb)" and ?x = "x + row_lead g kb * fit"
  obtain js x1 where j: "place_banks g ?st ?x (banks_of (snd kb)) = (js, x1)" by force
  obtain rest x2 where r: "pack_rows g fit x1 rows = (rest, x2)" by force
  have fits: "0 \<le> row_gap g (snd kb)" "0 \<le> row_lead g kb" using "2.prems" by (auto simp: row_fits_def)
  then have lead: "x \<le> ?x" using "2.prems"(1) by simp
  note room = pack_roomy [OF "2.prems"(1,2) fits(1)]
  have one: "x1 = ?x + of_nat (slots_of (snd kb)) * rs_slot ?st + of_nat (length (banks_of (snd kb)) - 1) * rs_bankGap ?st"
    "list_all (jack_in ?x x1) js" "?x \<le> x1"
    using banks_in [OF room, of g ?x "banks_of (snd kb)"] j unfolding sum_bank_slots by auto
  have ih: "x2 = x1 + sum_list (map (row_width g) rows) * fit" "list_all (jack_in x1 x2) rest" "x1 \<le> x2"
    using "2.IH" [OF j [symmetric] refl] "2.prems" r by auto
  have "x1 = x + row_width g kb * fit"
    unfolding one(1) by (simp add: row_width_def pack_style_def algebra_simps)
  then have "x2 = x + sum_list (map (row_width g) (kb # rows)) * fit"
    unfolding ih(1) by (simp add: algebra_simps)
  moreover have "list_all (jack_in x x2) js" using lead ih(3) by (intro jacks_in_mono [OF one(2)]) auto
  moreover have "list_all (jack_in x x2) rest" using lead one(3) by (intro jacks_in_mono [OF ih(2)]) auto
  moreover have "x \<le> x2" using lead one(3) ih(3) by simp
  ultimately show ?case using j r by (simp add: Let_def)
qed simp

lemma pack_fit_bounds: "0 \<le> pack_fit g p \<and> pack_fit g p \<le> 1"
  by (auto simp: pack_fit_def pack_room_def min_def zero_le_divide_iff)

lemma pack_fit_room:
  assumes "0 \<le> group_natural g p"
  shows "group_natural g p * pack_fit g p \<le> pack_room g p"
proof (cases "0 < group_natural g p")
  case True
  then have "pack_fit g p \<le> pack_room g p / group_natural g p" by (simp add: pack_fit_def)
  then show ?thesis using True by (simp add: pos_le_divide_eq mult.commute)
qed (use assms in \<open>auto simp: pack_room_def\<close>)

lemma pack_start_room:
  assumes "start_cursor g p \<le> bay_end g p" "0 \<le> copper_natural g p"
    and sfp: "sfp_width g p = 0 \<or> 0 \<le> sfp_lead g p + sfp_width g p"
  shows "start_cursor g p \<le> pack_start g p"
    and "pack_start g p + copper_natural g p * pack_fit g p \<le> bay_end g p"
proof -
  let ?c = "copper_natural g p" and ?n = "group_natural g p" and ?f = "pack_fit g p"
  have n: "?c \<le> ?n" using sfp by (auto simp: group_natural_def)
  then have cf: "?c * ?f \<le> ?n * ?f" using pack_fit_bounds [of g p] by (simp add: mult_right_mono)
  have room: "pack_room g p = bay_end g p - start_cursor g p" using assms(1) by (simp add: pack_room_def)
  have fit: "?n * ?f \<le> bay_end g p - start_cursor g p" using pack_fit_room [of g p] n assms(2) room by simp
  have one: "?f = 1" if "1 \<le> ?f" using pack_fit_bounds [of g p] that by simp
  have ce: "copper_end g p \<le> bay_end g p" using sfp by (auto simp: copper_end_def sfp_start_def)
  show "start_cursor g p \<le> pack_start g p" by (simp add: pack_start_def Let_def)
  show "pack_start g p + ?c * ?f \<le> bay_end g p"
  proof (cases "ge_shelf g")
    case True
    then show ?thesis using cf fit room by (auto simp: pack_start_def Let_def max_def field_simps)
  next
    case False
    then show ?thesis using cf fit ce one by (auto simp: pack_start_def Let_def max_def not_le)
  qed
qed

lemma kind_sfp: "list_all (\<lambda>j. pj_kind j = JSfp) (sfp_jacks g x fit s)"
  by (simp add: sfp_jacks_def Let_def list_all_iff case_prod_unfold)

lemma kind_fibre: "list_all (\<lambda>j. pj_kind j = JSfp) (fibre_jacks g p)"
  by (simp add: fibre_jacks_def Let_def kind_sfp split: option.split)

definition rj_in :: "rat \<Rightarrow> rat \<Rightarrow> PlacedJack \<Rightarrow> bool" where
  "rj_in lo hi j \<longleftrightarrow> pj_kind j = JSfp \<or> jack_in lo hi j"

text \<open>on a face without a screen and without a window the copper jacks are packed into the bay: they
  shrink when the bay is narrow, and none begins before the left margin or reaches past the right
  one, where the trailer begins.\<close>

theorem packed_in_bay:
  assumes "\<not> has_block BScreen p" "ge_window (geometry kit p) = None"
    and "0 \<le> ge_rjW (geometry kit p)" "list_all (row_fits (geometry kit p)) (enumerate 0 (rj_blocks p))"
    and "start_cursor (geometry kit p) p \<le> bay_end (geometry kit p) p"
    and "sfp_width (geometry kit p) p = 0 \<or> 0 \<le> sfp_lead (geometry kit p) p + sfp_width (geometry kit p) p"
  shows "list_all (rj_in (start_cursor (geometry kit p) p) (bay_end (geometry kit p) p))
    (rf_jacks (resolveFaceplate kit p))"
proof -
  let ?g = "geometry kit p"
  let ?rows = "enumerate 0 (rj_blocks p)"
  note fit = pack_fit_bounds [of ?g p]
  note packed = pack_rows_in [OF _ assms(3,4), of "pack_fit ?g p" "pack_start ?g p"]
  have "0 \<le> row_width ?g kb" if "kb \<in> set ?rows" for kb
    using assms(3,4) that by (auto simp: list_all_iff row_fits_def row_width_def BANK_GAP_def)
  then have nat: "0 \<le> copper_natural ?g p" unfolding copper_natural_def by (intro sum_list_nonneg) auto
  note ends = pack_start_room [OF assms(5) nat assms(6)]
  have hi: "snd (packed_jacks ?g p) \<le> bay_end ?g p"
    using packed fit ends(2) by (simp add: packed_jacks_def copper_natural_def)
  have "list_all (jack_in (pack_start ?g p) (snd (packed_jacks ?g p))) (fst (packed_jacks ?g p))"
    using packed fit unfolding packed_jacks_def by blast
  from jacks_in_mono [OF this ends(1) hi]
  have "list_all (rj_in (start_cursor ?g p) (bay_end ?g p)) (copper_jacks ?g p)"
    unfolding copper_jacks_def assms(2) using assms(1) by (simp add: rj_in_def list_all_iff)
  moreover have "list_all (rj_in (start_cursor ?g p) (bay_end ?g p)) (fibre_jacks ?g p)"
    using kind_fibre [of ?g p] by (simp add: list_all_iff rj_in_def)
  ultimately show ?thesis by (simp add: resolveFaceplate_def Let_def)
qed

text \<open>The kit of the catalogue and the product \<open>tl-sg1016pe\<close> with two of its banks.\<close>

definition sample_kit :: Kit where
  "sample_kit = \<lparr>kit_scale_px_per_in = 48, kit_u_width_in = 19, kit_u_height_in = 7 / 4,
     kit_screen_diagonal_in = 13 / 10, kit_rj45_width_in = 63 / 100, kit_sfp_width_mm = 134 / 10,
     kit_sfp_height_mm = 85 / 10, kit_keystone_width_in = 58 / 100\<rparr>"

definition sample_rj45 :: Rj45Block where
  "sample_rj45 = \<lparr>rj_rail = None, rj_order = Some Columns, rj_odds = Some High, rj_bank = Some 8,
     rj_ports = ''1-16'', rj_numbers = Some Below, rj_gap = Some 8, rj_lead = None\<rparr>"

definition sample_def :: ProductDef where
  "sample_def = \<lparr>pd_manufacturer = VTplink, pd_type = TSwitch, pd_product = ''tl-sg1016pe'',
     pd_models = [''TL-SG1016PE''], pd_ru = 1, pd_shelf = False, pd_width_in = Some (1732 / 100),
     pd_height_in = None, pd_align = None, pd_ear_in = None, pd_window_in = None,
     pd_blocks = [BBadge, BRj45 sample_rj45], pd_source = ''catalog/tplink/switch/tl-sg1016pe.yaml''\<rparr>"

theorem packed_in_bay_witness:
  "list_all (rj_in (start_cursor (geometry sample_kit sample_def) sample_def)
       (bay_end (geometry sample_kit sample_def) sample_def))
     (rf_jacks (resolveFaceplate sample_kit sample_def))"
proof (rule packed_in_bay)
  show "\<not> has_block BScreen sample_def" by code_simp
  show "ge_window (geometry sample_kit sample_def) = None" by code_simp
  show "0 \<le> ge_rjW (geometry sample_kit sample_def)" by code_simp
  show "list_all (row_fits (geometry sample_kit sample_def)) (enumerate 0 (rj_blocks sample_def))" by code_simp
  show "start_cursor (geometry sample_kit sample_def) sample_def \<le> bay_end (geometry sample_kit sample_def) sample_def"
    by code_simp
  show "sfp_width (geometry sample_kit sample_def) sample_def = 0 \<or>
      0 \<le> sfp_lead (geometry sample_kit sample_def) sample_def + sfp_width (geometry sample_kit sample_def) sample_def"
    by code_simp
qed

section \<open>The generic shelf\<close>

lemma slots_nth:
  assumes "length xs \<le> n"
  shows "concat (map (\<lambda>k. if k < length xs then [f k (xs ! k)] else []) [0..<n]) = map (\<lambda>k. f k (xs ! k)) [0..<length xs]"
proof -
  have n: "[0..<n] = [0..<length xs] @ [length xs..<n]"
    using assms by (metis le_add_diff_inverse upt_add_eq_append zero_le)
  have "map (\<lambda>k. if k < length xs then [f k (xs ! k)] else []) [0..<length xs] = map (\<lambda>k. [f k (xs ! k)]) [0..<length xs]"
    by simp
  then have "concat (map (\<lambda>k. if k < length xs then [f k (xs ! k)] else []) [0..<length xs]) = map (\<lambda>k. f k (xs ! k)) [0..<length xs]"
    by (simp only: concat_map_singleton)
  moreover have "concat (map (\<lambda>k. if k < length xs then [f k (xs ! k)] else []) [length xs..<n]) = []" by auto
  ultimately show ?thesis unfolding n by simp
qed

lemma mset_interleave: "mset (concat (map (\<lambda>k. f k @ g k) ks)) = mset (concat (map f ks)) + mset (concat (map g ks))"
  by (induction ks) auto

lemma copper_ids: "mset (map pj_id (fst (shelf_copper s dual ports))) = mset (map sp_id ports)"
proof (cases dual)
  case True
  let ?low = "take 24 ports" and ?high = "drop 24 ports"
  let ?n = "max (max (length ?low) (length ?high)) 1"
  have hi: "length ?high \<le> ?n" and lo: "length ?low \<le> ?n" by simp_all
  have nth: "map (\<lambda>k. sp_id (xs ! k)) [0..<length xs] = map sp_id xs" for xs :: "SwitchPort list"
    using arg_cong [OF map_nth [of xs], of "map sp_id"] by (simp add: comp_def)
  let ?x = "\<lambda>k. sh_origin s + of_nat k * (sh_rjW s + 3) + 3 / 2"
  let ?A = "\<lambda>k. if k < length ?high then [shelf_jack s High Above (?x k) (?high ! k)] else []"
  let ?B = "\<lambda>k. if k < length ?low then [shelf_jack s Low Below (?x k) (?low ! k)] else []"
  have ids: "map pj_id (map (\<lambda>k. shelf_jack s r n (?x k) (xs ! k)) [0..<length xs]) = map sp_id xs" for r n xs
    using nth [of xs] by (simp add: shelf_jack_def comp_def)
  have "fst (shelf_copper s dual ports) = concat (map (\<lambda>k. ?A k @ ?B k) [0..<?n])"
    using True by (simp add: shelf_copper_def Let_def)
  then have "mset (fst (shelf_copper s dual ports)) =
      mset (map (\<lambda>k. shelf_jack s High Above (?x k) (?high ! k)) [0..<length ?high]) +
      mset (map (\<lambda>k. shelf_jack s Low Below (?x k) (?low ! k)) [0..<length ?low])"
    by (simp only: mset_interleave slots_nth [OF hi, of "\<lambda>k. shelf_jack s High Above (?x k)"]
        slots_nth [OF lo, of "\<lambda>k. shelf_jack s Low Below (?x k)"])
  from arg_cong [OF this, of "image_mset pj_id"]
  have "mset (map pj_id (fst (shelf_copper s dual ports))) = mset (map sp_id ?high) + mset (map sp_id ?low)"
    unfolding image_mset_union mset_map [symmetric] ids .
  also have "\<dots> = mset (map sp_id ports)"
    by (metis append_take_drop_id map_append mset_append union_commute)
  finally show ?thesis .
next
  case False
  then show ?thesis
    using ids_enumerate [of sp_id 0 ports] by (simp add: shelf_copper_def Let_def shelf_jack_def comp_def case_prod_unfold)
qed

lemma fibre_ids: "map pj_id (fst (shelf_fibre s x ports)) = map sp_id ports"
  using ids_enumerate [of sp_id 0 ports] by (simp add: shelf_fibre_def Let_def comp_def case_prod_unfold)

text \<open>a switch without a product in the catalogue is drawn with a jack for each of its ports and no
  other, and its shelf is never wider than the rack.\<close>

theorem generic_shelf_ports:
  "let face = resolveGenericShelf kit lc sw maker
   in mset (map pj_id (rf_jacks face)) = mset (map sp_id (opt_list (sw_ports sw))) \<and>
      rf_width face \<le> rackFaceWidth kit"
proof -
  have layout: "mset (map pj_id (fst (shelf_layout s dual ports))) = mset (map sp_id ports) \<and>
      snd (shelf_layout s dual ports) \<le> sh_rackW s" for s dual ports
  proof -
    obtain rj x1 where c: "shelf_copper s dual (filter (\<lambda>p. \<not> is_sfp p) ports) = (rj, x1)" by force
    obtain sf x2 where f: "shelf_fibre s x1 (filter is_sfp ports) = (sf, x2)" by force
    have shrink: "map pj_id (map (shrink_jack s fit) js) = map pj_id js" for fit js
      by (simp add: shrink_jack_def Let_def)
    have "mset (map pj_id (rj @ sf)) = mset (map sp_id (filter (\<lambda>p. \<not> is_sfp p) ports)) + mset (map sp_id (filter is_sfp ports))"
      using copper_ids [of s dual "filter (\<lambda>p. \<not> is_sfp p) ports"] fibre_ids [of s x1 "filter is_sfp ports"] c f
      by (metis fst_conv map_append mset_append)
    also have "\<dots> = mset (map sp_id ports)"
      by (induction ports) auto
    finally have ids: "mset (map pj_id (rj @ sf)) = mset (map sp_id ports)" .
    then have "mset (map pj_id (map (shrink_jack s fit) (rj @ sf))) = mset (map sp_id ports)" for fit
      unfolding shrink .
    with ids show ?thesis by (simp add: shelf_layout_def c f Let_def del: map_append mset_map)
  qed
  define ports where "ports = shelf_ports lc sw"
  define dual where "dual = (24 < length (filter (\<lambda>p. \<not> is_sfp p) ports))"
  define s where "s = shelf_of kit dual (maker \<noteq> None)"
  obtain jacks width where l: "shelf_layout s dual ports = (jacks, width)" by force
  have face: "rf_jacks (resolveGenericShelf kit lc sw maker) = jacks" "rf_width (resolveGenericShelf kit lc sw maker) = width"
    using l by (simp_all add: resolveGenericShelf_def Let_def ports_def dual_def s_def)
  have "sh_rackW s = rackFaceWidth kit" by (simp add: s_def shelf_of_def Let_def rackFaceWidth_def)
  moreover have "mset (map sp_id ports) = mset (map sp_id (opt_list (sw_ports sw)))"
    by (simp add: ports_def shelf_ports_def)
  ultimately show ?thesis using layout [of s dual ports] unfolding Let_def face l by simp
qed

section \<open>Products are found\<close>

text \<open>a switch that reports one of the names of a product, in whatever case and punctuation, is drawn
  with a product of that manufacturer and type from the catalogue.\<close>

theorem findProduct_alias:
  assumes "p \<in> set products" "a \<in> set (pd_product p # pd_models p)" "m \<noteq> []" "normModel m = normModel a"
  shows "\<exists>q \<in> set products. findProduct products (Some (pd_manufacturer p)) (pd_type p) (Some m) name = Some q \<and>
    pd_manufacturer q = pd_manufacturer p \<and> pd_type q = pd_type p"
proof -
  let ?match = "product_matches (Some (pd_manufacturer p)) (pd_type p)
    (map (\<lambda>s. normModel (opt_str s)) (filter truthy [Some m, name]))"
  have "?match p"
    using assms(2-4) by (auto simp: product_matches_def list_ex_iff alias_matches_def truthy_def opt_str_def)
  then obtain q where q: "find ?match products = Some q"
    using assms(1) by (metis find_None_iff not_Some_eq)
  then have "q \<in> set products" "?match q" by (auto simp: find_Some_iff)
  then show ?thesis using q by (auto simp: findProduct_def product_matches_def)
qed

theorem findProduct_alias_witness:
  "\<exists>q \<in> set [sample_def]. findProduct [sample_def] (Some (pd_manufacturer sample_def)) (pd_type sample_def)
     (Some ''tl sg1016pe'') None = Some q \<and> pd_manufacturer q = pd_manufacturer sample_def \<and> pd_type q = pd_type sample_def"
  by (rule findProduct_alias [where a = "''TL-SG1016PE''"]) (simp_all add: sample_def_def, code_simp)

end
