(* ===== verification/TopoPorts.thy ===== *)
theory TopoPorts
  imports Topology DeviceSearch
begin

text \<open>
  The other functions of the topology view that compute (\<open>ui/src/tabs/TopologyTab.tsx\<close>): the list of
  switches with the names of their hosts, the children of each switch, bonded ports, the geometry
  of the jacks and of the lines between them, and the labels of ports. The comparison by locale is
  \<open>lc\<close>; the printing of a fraction (\<open>String\<close>) is \<open>str_num\<close>.
\<close>

section \<open>Names of switches\<close>

text \<open>\<open>/^firewalla[- ]switch/i.test(name.trim())\<close>\<close>

definition stockSwitchName :: "string \<Rightarrow> bool" where
  "stockSwitchName name =
     test (Seqs [Bol, LitI ''firewalla'', Cls (\<lambda>c. c = CHR ''-'' \<or> c = CHR '' ''), LitI ''switch'']) (trim name)"

fun pickSwitchName :: "string option list \<Rightarrow> string" where
  "pickSwitchName [] = []"
| "pickSwitchName (n # names) =
     (let s = opt_trim n in if s \<noteq> [] \<and> \<not> stockSwitchName s then s else pickSwitchName names)"

definition same_mac :: "mac \<Rightarrow> mac \<Rightarrow> bool" where
  "same_mac a b \<longleftrightarrow> toUpperCase a = toUpperCase b"

definition vendorOf :: "mac \<Rightarrow> Device list \<Rightarrow> string option" where
  "vendorOf m devices =
     (case find (\<lambda>d. same_mac (dev_mac d) m) devices of Some d \<Rightarrow> dev_vendor d | None \<Rightarrow> None)"

definition switchHostName :: "Switch \<Rightarrow> Device list \<Rightarrow> string" where
  "switchHostName sw devices =
     (case find (\<lambda>d. same_mac (dev_mac d) (sw_mac sw)) devices of
        Some d \<Rightarrow> if preferredName d \<noteq> dev_mac d then preferredName d else []
      | None \<Rightarrow> [])"

text \<open>The name that the detail of a switch shows.\<close>

definition shown_name :: "Switch \<Rightarrow> Device list \<Rightarrow> string" where
  "shown_name sw devices =
     or_else (or_else (switchHostName sw devices) (pickSwitchName [sw_name sw])) (sw_mac sw)"

definition uplinkNextHop :: "Switch \<Rightarrow> Switch list \<Rightarrow> Device list \<Rightarrow> string \<Rightarrow> string" where
  "uplinkNextHop sw switches devices boxName =
     (let box = (if truthy (sw_parent_nic sw)
                 then let g = goldPort (opt_str (sw_parent_nic sw)) in
                   if gp_ok g then boxName @ MIDDOT @ dec (gp_n g) else boxName
                 else boxName)
      in if truthy (sw_parent_mac sw)
         then case find (\<lambda>s. same_mac (sw_mac s) (opt_str (sw_parent_mac sw))) switches of
             Some p \<Rightarrow>
               (let name = shown_name p devices in
                if truthy (sw_parent_port sw) then name @ MIDDOT @ opt_str (sw_parent_port sw) else name)
           | None \<Rightarrow> box
         else box)"

fun entry_mac :: "BoxMacEntry \<Rightarrow> mac" where
  "entry_mac (Plain m) = m"
| "entry_mac (Labeled b) = bm_mac b"

definition boxMacSet :: "BoxInfo option \<Rightarrow> string list" where
  "boxMacSet box =
     (case box of None \<Rightarrow> []
      | Some b \<Rightarrow> remdups (map (\<lambda>m. toUpperCase (entry_mac m)) (opt_list (box_macs b))))"

section \<open>The list of switches\<close>

definition host_names :: "Device list \<Rightarrow> (string, string) jsmap" where
  "host_names devices =
     fold (\<lambda>d m. let n = preferredName d in
             if n \<noteq> [] \<and> n \<noteq> dev_mac d then AList.update (toUpperCase (dev_mac d)) n m else m) devices []"

definition host_name :: "(string, string) jsmap \<Rightarrow> Switch \<Rightarrow> string" where
  "host_name names sw = opt_str (map_of names (toUpperCase (sw_mac sw)))"

text \<open>\<open>a || b\<close> on optional texts.\<close>

definition or_opt :: "string option \<Rightarrow> string option \<Rightarrow> string option" where
  "or_opt a b = (if truthy a then a else b)"

definition take_node ::
  "(string, Switch) jsmap \<Rightarrow> (string, string) jsmap \<Rightarrow> TopoNode \<Rightarrow> Switch list \<times> mac list \<Rightarrow> Switch list \<times> mac list" where
  "take_node byMac names n st =
     (case st of (out, seen) \<Rightarrow>
        case map_of byMac (toUpperCase (tn_mac n)) of
          None \<Rightarrow> (out, seen)
        | Some sw \<Rightarrow>
            if sw_mac sw \<in> set seen then (out, seen)
            else (out @ [sw\<lparr>sw_name := Some (or_else (or_else (host_name names sw)
                                         (pickSwitchName [sw_name sw, tn_name n])) (sw_mac sw)),
                            sw_ip := or_opt (sw_ip sw) (tn_ip n),
                            sw_parent_nic := or_opt (sw_parent_nic sw) (tn_parent_port n),
                            sw_uplink_port := or_opt (sw_uplink_port sw) (tn_child_port n)\<rparr>],
                  seen @ [sw_mac sw]))"

function order_nodes ::
  "(string \<Rightarrow> string \<Rightarrow> int) \<Rightarrow> (string, Switch) jsmap \<Rightarrow> (string, string) jsmap \<Rightarrow> TopoNode list
     \<Rightarrow> Switch list \<times> mac list \<Rightarrow> Switch list \<times> mac list" where
  "order_nodes lc byMac names [] st = st"
| "order_nodes lc byMac names (n # ns) st =
     (let st1 = (if tn_type n = Some ''switch'' \<or> tn_type n = Some ''ap'' \<or>
                    map_of byMac (toUpperCase (tn_mac n)) \<noteq> None
                 then take_node byMac names n st else st)
      in order_nodes lc byMac names ns (order_nodes lc byMac names (sortedTopo lc (tn_children n)) st1))"
  by pat_completeness auto
termination
  by (relation "measure (\<lambda>(lc, byMac, names, nodes, st). size_list size nodes)")
    (auto simp: less_Suc_eq_le intro: trans_le_add1 [OF size_children])

definition rest_switches ::
  "(string, string) jsmap \<Rightarrow> Switch list \<Rightarrow> mac list \<Rightarrow> Switch list" where
  "rest_switches names switches seen =
     map (\<lambda>sw. sw\<lparr>sw_name := Some (or_else (or_else (host_name names sw) (pickSwitchName [sw_name sw])) (sw_mac sw))\<rparr>)
       (filter (\<lambda>sw. sw_mac sw \<notin> set seen) switches)"

definition switchesInOrder ::
  "(string \<Rightarrow> string \<Rightarrow> int) \<Rightarrow> TopoView \<Rightarrow> (string, Switch) jsmap \<Rightarrow> Device list \<Rightarrow> Switch list" where
  "switchesInOrder lc view byMac devices =
     (let names = host_names devices;
          (out, seen) = order_nodes lc byMac names (sortedTopo lc (tv_tree view)) ([], [])
      in out @ rest_switches names (opt_list (tv_switches view)) seen)"

section \<open>Children and bonded ports\<close>

definition child_add :: "Switch \<Rightarrow> (string, Switch list) jsmap \<Rightarrow> (string, Switch list) jsmap" where
  "child_add sw m =
     (let p = toUpperCase (opt_str (sw_parent_mac sw)) in
      if p = [] then m else AList.update p (opt_list (map_of m p) @ [sw]) m)"

definition child_cmp :: "(string \<Rightarrow> string \<Rightarrow> int) \<Rightarrow> Switch \<Rightarrow> Switch \<Rightarrow> int" where
  "child_cmp lc a b =
     or_cmp (cmpPort lc (sw_parent_port a) (sw_parent_port b))
       (lc (case sw_name a of Some n \<Rightarrow> n | None \<Rightarrow> sw_mac a) (case sw_name b of Some n \<Rightarrow> n | None \<Rightarrow> sw_mac b))"

definition childMap :: "(string \<Rightarrow> string \<Rightarrow> int) \<Rightarrow> Switch list \<Rightarrow> (string, Switch list) jsmap" where
  "childMap lc xs = map (\<lambda>(p, arr). (p, js_sort (child_cmp lc) arr)) (fold child_add xs [])"

definition sort_ids :: "(string \<Rightarrow> string \<Rightarrow> int) \<Rightarrow> string list \<Rightarrow> string list" where
  "sort_ids lc ids = js_sort (cmp_id lc) ids"

definition portIds :: "(string \<Rightarrow> string \<Rightarrow> int) \<Rightarrow> Switch \<Rightarrow> string list" where
  "portIds lc sw = sort_ids lc (map sp_id (opt_list (sw_ports sw)))"

definition expandLag :: "Switch \<Rightarrow> string \<Rightarrow> string list" where
  "expandLag sw port =
     (case find (\<lambda>g. port \<in> set g) (opt_list (sw_lags sw)) of Some g \<Rightarrow> g | None \<Rightarrow> [port])"

definition inferRails :: "Switch \<Rightarrow> Switch \<Rightarrow> Switch list \<Rightarrow> string list" where
  "inferRails parent child siblings =
     (if truthy (sw_parent_port child) then expandLag parent (opt_str (sw_parent_port child)) else [])"

definition lagPeers :: "(string \<Rightarrow> string \<Rightarrow> int) \<Rightarrow> Switch \<Rightarrow> string \<Rightarrow> string list option" where
  "lagPeers lc sw i =
     map_option (sort_ids lc) (find (\<lambda>g. i \<in> set g \<and> 1 < length g) (opt_list (sw_lags sw)))"

text \<open>The key of a bond for each of its ports; the keys are the sorted port names joined by commas.\<close>

definition lag_key :: "string list \<Rightarrow> string" where
  "lag_key g = join '','' (js_sort unit_compare g)"

definition lag_keys :: "string list list option \<Rightarrow> (string, string) jsmap" where
  "lag_keys lags =
     fold (\<lambda>g m. if length g < 2 then m else fold (\<lambda>i m. AList.update i (lag_key g) m) g m) (opt_list lags) []"

definition run_add :: "(string, string) jsmap \<Rightarrow> SwitchPort \<Rightarrow> SwitchPort list list \<Rightarrow> SwitchPort list list" where
  "run_add keyOf p runs =
     (let key = map_of keyOf (sp_id p) in
      if truthy key \<and> runs \<noteq> [] \<and> map_of keyOf (sp_id (hd (last runs))) = key
      then butlast runs @ [last runs @ [p]]
      else runs @ [[p]])"

definition portRuns :: "SwitchPort list \<Rightarrow> string list list option \<Rightarrow> SwitchPort list list" where
  "portRuns ports lags = fold (run_add (lag_keys lags)) ports []"

text \<open>A port with an identifier and a state.\<close>

definition plain_port :: "string \<Rightarrow> bool \<Rightarrow> SwitchPort" where
  "plain_port i up = \<lparr>sp_id = i, sp_up = up, sp_speed_mbps = None, sp_poe_status = None, sp_poe_w = None,
     sp_poe_mode = None, sp_sfp = None, sp_uplink = None, sp_clients = None, sp_rx_bytes = None,
     sp_tx_bytes = None, sp_rx_unicast = None, sp_tx_unicast = None, sp_rx_broadcast = None,
     sp_tx_broadcast = None, sp_rx_multicast = None, sp_tx_multicast = None, sp_rx_discard = None,
     sp_tx_discard = None, sp_rx_error = None, sp_tx_error = None\<rparr>"

definition devicePorts :: "(string \<Rightarrow> string \<Rightarrow> int) \<Rightarrow> Switch \<Rightarrow> SwitchPort list" where
  "devicePorts lc sw =
     (let ports = opt_list (sw_ports sw);
          all = (if ports = [] \<and> sw_kind sw = Some ''ap''
                 then [(plain_port (or_else (opt_str (sw_uplink_port sw)) ''1'') (sw_healthy sw))\<lparr>sp_uplink := Some True\<rparr>]
                 else ports)
      in js_sort (\<lambda>a b. cmp_id lc (sp_id a) (sp_id b)) all)"

definition uplinkJacks :: "(string \<Rightarrow> string \<Rightarrow> int) \<Rightarrow> Switch \<Rightarrow> string list" where
  "uplinkJacks lc sw =
     (let ports = devicePorts lc sw; marked = map sp_id (filter (is_uplink sw) ports) in
      if marked \<noteq> [] then rev (remdups (rev marked))
      else if truthy (sw_uplink_port sw) then expandLag sw (opt_str (sw_uplink_port sw))
      else case ports of p # _ \<Rightarrow> [sp_id p] | [] \<Rightarrow> [])"

section \<open>Geometry of the jacks\<close>

definition RAIL_W :: rat where "RAIL_W = 12"

definition JACK_W :: rat where "JACK_W = 36"

definition JACK_GAP :: rat where "JACK_GAP = 4"

definition CHASSIS_PAD :: rat where "CHASSIS_PAD = 12"

definition CHASSIS_BORDER :: rat where "CHASSIS_BORDER = 1"

definition SLOT_GAP :: rat where "SLOT_GAP = 32"

definition chassisWidth :: "nat \<Rightarrow> bool \<Rightarrow> rat" where
  "chassisWidth portCount maker =
     CHASSIS_BORDER * 2 + CHASSIS_PAD * 2 + (if maker then JACK_W + JACK_GAP else 0)
     + of_nat portCount * JACK_W + max 0 (of_nat portCount - 1) * JACK_GAP"

definition jackCenter :: "nat \<Rightarrow> bool \<Rightarrow> rat" where
  "jackCenter index maker =
     (let left = CHASSIS_BORDER + CHASSIS_PAD + (if maker then JACK_W + JACK_GAP else 0)
      in left + of_nat index * (JACK_W + JACK_GAP) + JACK_W / 2)"

definition sort_nums :: "rat list \<Rightarrow> rat list" where
  "sort_nums xs = js_sort sign_diff xs"

definition pairSegs :: "nat list \<Rightarrow> rat list \<Rightarrow> bool \<Rightarrow> (rat \<times> rat) list" where
  "pairSegs srcIdx destXs maker =
     (let srcXs = sort_nums (map (\<lambda>i. jackCenter i maker) srcIdx); dest = sort_nums destXs in
      if length srcXs = length dest then zip srcXs dest
      else concat (map (\<lambda>px. map (\<lambda>dx. (px, dx)) dest) srcXs))"

definition sweepBendY :: "nat \<Rightarrow> nat \<Rightarrow> rat \<Rightarrow> rat" where
  "sweepBendY i n h =
     (let stub = 6 in
      if n \<le> 1 then h - stub
      else h - stub - (of_nat i / (of_nat n - 1)) * (h - stub * 2))"

definition destJackXs :: "rat \<Rightarrow> bool \<Rightarrow> string list \<Rightarrow> string list \<Rightarrow> rat list" where
  "destJackXs gutter maker ids uplinkIds =
     map (\<lambda>idx. gutter + jackCenter idx maker) (List.map_filter (\<lambda>i. findIndex (\<lambda>j. j = i) ids) uplinkIds)"

section \<open>Clients\<close>

definition clientsSupported :: "Switch \<Rightarrow> bool" where
  "clientsSupported sw =
     (case sw_capabilities sw of Some c \<Rightarrow> sc_clients c \<noteq> Some False | None \<Rightarrow> True)"

definition portClientsSupported :: "Switch \<Rightarrow> bool" where
  "portClientsSupported sw =
     (case sw_capabilities sw of None \<Rightarrow> True | Some c \<Rightarrow> sc_port_clients c \<noteq> Some False)"

text \<open>The call of \<open>onOpen\<close>, where there is one.\<close>

record ClientsInfo =
  ci_macs :: "mac list"
  ci_switchMac :: mac
  ci_switchName :: string

definition openSwitchClients :: "Switch \<Rightarrow> mac list \<Rightarrow> ClientsInfo option" where
  "openSwitchClients sw macs =
     (if clientsSupported sw
      then Some \<lparr>ci_macs = macs, ci_switchMac = sw_mac sw, ci_switchName = switch_name sw\<rparr> else None)"

definition clientsLabel :: "mac list \<Rightarrow> Device list \<Rightarrow> string" where
  "clientsLabel macs devices =
     (case macs of
        [] \<Rightarrow> ''0''
      | [m] \<Rightarrow> (case find (\<lambda>d. same_mac (dev_mac d) m) devices of Some d \<Rightarrow> preferredName d | None \<Rightarrow> m)
      | _ \<Rightarrow> dec (length macs))"

section \<open>Ports of the box\<close>

definition boxModel :: "BoxInfo option \<Rightarrow> string" where
  "boxModel box =
     (case box of None \<Rightarrow> [] | Some b \<Rightarrow> or_else (opt_trim (box_license b)) (opt_trim (box_model b)))"

definition switchModelSKU :: "string option \<Rightarrow> string" where
  "switchModelSKU model = (if model = Some ''fwsw-A'' then ''FWSW12X'' else opt_trim model)"

text \<open>\<open>n.intfs?.length ? n.intfs : [n.name]\<close>\<close>

definition iface_nics :: "NetIface \<Rightarrow> string list" where
  "iface_nics n = (if opt_list (ni_intfs n) \<noteq> [] then opt_list (ni_intfs n) else [ni_name n])"

definition used_chips :: "NetIface \<Rightarrow> nat list" where
  "used_chips n = map chip_n (filter (\<lambda>c. \<not> chip_unused c) (portChips (Some (iface_nics n)) None))"

definition wanGoldPorts :: "NetIface list \<Rightarrow> (nat, NetIface) jsmap" where
  "wanGoldPorts network =
     fold (\<lambda>n m. if managerKind n \<noteq> MWan then m else fold (\<lambda>c m. AList.update c n m) (used_chips n) m) network []"

definition goldPortTitle :: "nat \<Rightarrow> bool \<Rightarrow> NetIface option \<Rightarrow> string option \<Rightarrow> string" where
  "goldPortTitle n linked wan speed =
     join MIDDOT ([''Port '' @ dec n] @ (if linked then [''to switch''] else [])
       @ (case wan of None \<Rightarrow> [] | Some w \<Rightarrow> [or_else (or_else (opt_str (ni_desc w)) (ni_name w)) ''WAN''])
       @ (if truthy speed then [opt_str speed] else []))"

definition goldLinkSpeed :: "nat \<Rightarrow> Switch list \<Rightarrow> string" where
  "goldLinkSpeed goldN switches =
     (case find (\<lambda>sw. gp_n (goldPort (opt_str (sw_parent_nic sw))) = goldN) switches of
        None \<Rightarrow> []
      | Some sw \<Rightarrow>
          speedLabel (case find (is_uplink sw) (opt_list (sw_ports sw)) of Some p \<Rightarrow> sp_speed_mbps p | None \<Rightarrow> None))"

definition iface_speed :: "(string, IfaceStats) jsmap option \<Rightarrow> string \<Rightarrow> string" where
  "iface_speed ifaces name =
     speedLabel (case ifaces of None \<Rightarrow> None
                 | Some m \<Rightarrow> (case map_of m name of Some s \<Rightarrow> ifs_speed_mbps s | None \<Rightarrow> None))"

definition goldJackSpeed ::
  "nat \<Rightarrow> bool \<Rightarrow> NetIface option \<Rightarrow> Switch list \<Rightarrow> (string, IfaceStats) jsmap option \<Rightarrow> string" where
  "goldJackSpeed goldN linked wan switches ifaces =
     (let fromSw = (if linked then goldLinkSpeed goldN switches else []) in
      if fromSw \<noteq> [] then fromSw
      else or_else (case wan of Some w \<Rightarrow> if ni_name w \<noteq> [] then iface_speed ifaces (ni_name w) else [] | None \<Rightarrow> [])
             (if goldNic goldN \<noteq> [] then iface_speed ifaces (goldNic goldN) else []))"

datatype LinkRole = NoLink | Uplink | Downlink

definition portTitle :: "SwitchPort \<Rightarrow> LinkRole \<Rightarrow> string list option \<Rightarrow> bool \<Rightarrow> string" where
  "portTitle port link lag staticBind =
     (let speed = (if sp_up port then speedLabel (sp_speed_mbps port) else []);
          role = (case link of
                    Downlink \<Rightarrow> MIDDOT @ ''downlink''
                  | Uplink \<Rightarrow> if staticBind then MIDDOT @ ''uplink'' @ MIDDOT @ ''static bind'' else MIDDOT @ ''uplink''
                  | NoLink \<Rightarrow> []);
          bond = (case lag of Some g \<Rightarrow> if 1 < length g then MIDDOT @ ''LAG '' @ join ''+'' g else [] | None \<Rightarrow> [])
      in ''Port '' @ sp_id port @ (if sp_sfp port = Some True then MIDDOT @ ''SFP'' else [])
         @ (if speed \<noteq> [] then MIDDOT @ speed else []) @ role @ bond)"

definition netsOnGoldPort :: "NetIface list \<Rightarrow> nat \<Rightarrow> NetIface list" where
  "netsOnGoldPort network n = filter (\<lambda>iface. managerKind iface \<noteq> MHide \<and> n \<in> set (used_chips iface)) network"

definition labeledMacs :: "BoxMacEntry list option \<Rightarrow> BoxMAC list" where
  "labeledMacs raw =
     map (\<lambda>(i, m). case m of Plain s \<Rightarrow> \<lparr>bm_name = ''Address '' @ dec (i + 1), bm_mac = s\<rparr> | Labeled b \<Rightarrow> b)
       (enumerate 0 (opt_list raw))"

definition MODE_LABELS :: "(string \<times> string) list" where
  "MODE_LABELS = [(''router'', ''Router Mode''), (''dhcp'', ''DHCP Mode''), (''spoof'', ''Simple Mode''),
     (''dhcpSpoof'', ''DHCP Spoof''), (''manualSpoof'', ''Manual Spoof''), (''none'', ''Bridge Mode'')]"

definition modeLabel :: "string option \<Rightarrow> string" where
  "modeLabel mode =
     (case map_of MODE_LABELS (opt_str mode) of Some l \<Rightarrow> l | None \<Rightarrow> or_else (opt_str mode) EM_DASH)"

definition poeTypeLabel :: "string option \<Rightarrow> string" where
  "poeTypeLabel mode =
     (case map_of [(''802.3bt'', ''PoE++ (802.3bt)''), (''802.3at'', ''PoE+ (802.3at)''), (''802.3af'', ''PoE (802.3af)'')]
             (toLowerCase (opt_str mode)) of
        Some l \<Rightarrow> l | None \<Rightarrow> opt_trim mode)"

definition gbpsLabel :: "(rat \<Rightarrow> string) \<Rightarrow> int option \<Rightarrow> string" where
  "gbpsLabel str_num mbps =
     (case mbps of None \<Rightarrow> []
      | Some m \<Rightarrow> if m \<le> 0 then [] else if 1000 \<le> m then str_num (of_int m / 1000) @ '' Gbps''
                  else str_num (of_int m) @ '' Mbps'')"

definition opt_int :: "int option \<Rightarrow> int" where
  "opt_int v = (case v of Some n \<Rightarrow> n | None \<Rightarrow> 0)"

text \<open>The direction \<open>in\<close> is True.\<close>

definition portStats :: "(jsnum \<Rightarrow> string) \<Rightarrow> SwitchPort \<Rightarrow> bool \<Rightarrow> (string \<times> string) list" where
  "portStats toLocaleString port dir_in =
     (let bytes = opt_int (if dir_in then sp_rx_bytes port else sp_tx_bytes port);
          uni = opt_int (if dir_in then sp_rx_unicast port else sp_tx_unicast port);
          bcast = opt_int (if dir_in then sp_rx_broadcast port else sp_tx_broadcast port);
          mcast = opt_int (if dir_in then sp_rx_multicast port else sp_tx_multicast port);
          dropped = opt_int (if dir_in then sp_rx_discard port else sp_tx_discard port);
          err = opt_int (if dir_in then sp_rx_error port else sp_tx_error port);
          pkts = uni + bcast + mcast;
          cnt = (\<lambda>n. fmtCount toLocaleString (Some (Num (of_int n))))
      in if bytes = 0 \<and> pkts = 0 \<and> dropped = 0 \<and> err = 0 then []
         else [(''Data'', fmtBytes (Some (Num (of_int bytes)))), (''Total packets'', cnt pkts), (''Unicast'', cnt uni),
               (''Broadcast'', cnt bcast), (''Multicast'', cnt mcast), (''Dropped'', cnt dropped), (''Error'', cnt err)])"

section \<open>Runs of bonded ports\<close>

definition run_ok :: "(SwitchPort \<Rightarrow> string option) \<Rightarrow> SwitchPort list \<Rightarrow> bool" where
  "run_ok key r \<longleftrightarrow> r \<noteq> [] \<and> (length r = 1 \<or> truthy (key (hd r)) \<and> list_all (\<lambda>p. key p = key (hd r)) r)"

definition runs_apart :: "(SwitchPort \<Rightarrow> string option) \<Rightarrow> SwitchPort list list \<Rightarrow> bool" where
  "runs_apart key runs = list_all (\<lambda>(r, q). \<not> (truthy (key (hd q)) \<and> key (hd r) = key (hd q))) (zip runs (tl runs))"

lemma runs_apart_snoc:
  "runs_apart key (runs @ [q]) \<longleftrightarrow>
     runs_apart key runs \<and> (runs = [] \<or> \<not> (truthy (key (hd q)) \<and> key (hd (last runs)) = key (hd q)))"
proof (induction runs)
  case (Cons r runs)
  then show ?case by (cases runs) (auto simp: runs_apart_def)
qed (simp add: runs_apart_def)

lemma run_add_inv:
  assumes "list_all (run_ok (\<lambda>p. map_of m (sp_id p))) runs" "runs_apart (\<lambda>p. map_of m (sp_id p)) runs"
  shows "concat (run_add m p runs) = concat runs @ [p] \<and>
    list_all (run_ok (\<lambda>p. map_of m (sp_id p))) (run_add m p runs) \<and>
    runs_apart (\<lambda>p. map_of m (sp_id p)) (run_add m p runs)"
proof (cases "truthy (map_of m (sp_id p)) \<and> runs \<noteq> [] \<and> map_of m (sp_id (hd (last runs))) = map_of m (sp_id p)")
  case True
  then obtain rs r where runs: "runs = rs @ [r]" by (metis append_butlast_last_id)
  with assms(1) have r: "run_ok (\<lambda>p. map_of m (sp_id p)) r" "r \<noteq> []" by (auto simp: run_ok_def)
  have "list_all (\<lambda>q. map_of m (sp_id q) = map_of m (sp_id p)) r"
    using r True runs by (cases r) (auto simp: run_ok_def)
  with True runs r assms show ?thesis by (auto simp: run_add_def run_ok_def runs_apart_snoc)
next
  case False
  with assms show ?thesis by (auto simp: run_add_def Let_def runs_apart_snoc) (auto simp: run_ok_def)
qed

lemma fold_run_add_inv:
  assumes "list_all (run_ok (\<lambda>p. map_of m (sp_id p))) runs" "runs_apart (\<lambda>p. map_of m (sp_id p)) runs"
  shows "concat (fold (run_add m) ports runs) = concat runs @ ports \<and>
    list_all (run_ok (\<lambda>p. map_of m (sp_id p))) (fold (run_add m) ports runs) \<and>
    runs_apart (\<lambda>p. map_of m (sp_id p)) (fold (run_add m) ports runs)"
  using assms
proof (induction ports arbitrary: runs)
  case (Cons p ports)
  note one = run_add_inv [OF Cons.prems, of p]
  show ?case using Cons.IH [of "run_add m p runs"] one by simp
qed simp

text \<open>the chassis shows every port once and in its place: the runs of ports, read one after the
  other, are the ports; a run of several ports belongs to one bond, and two neighbouring runs never
  belong to the same bond.\<close>

theorem portRuns_partition:
  "let runs = portRuns ports lags; key = (\<lambda>p. map_of (lag_keys lags) (sp_id p))
   in concat runs = ports \<and> list_all (run_ok key) runs \<and> runs_apart key runs"
  using fold_run_add_inv [of "lag_keys lags" "[]" ports] by (simp add: portRuns_def runs_apart_def)

section \<open>Every switch is listed\<close>

lemma order_nodes_inv:
  assumes "\<And>n st. Q st \<Longrightarrow> Q (take_node byMac names n st)"
  shows "Q st \<Longrightarrow> Q (order_nodes lc byMac names nodes st)"
  using assms
proof (induction lc byMac names nodes st rule: order_nodes.induct)
  case (2 lc byMac names n ns st)
  let ?st = "if tn_type n = Some ''switch'' \<or> tn_type n = Some ''ap'' \<or> map_of byMac (toUpperCase (tn_mac n)) \<noteq> None
             then take_node byMac names n st else st"
  have "Q ?st" using "2.prems" by simp
  from "2.IH"(1) [OF refl this "2.prems"(2)]
  have "Q (order_nodes lc byMac names (sortedTopo lc (tn_children n)) ?st)" .
  from "2.IH"(2) [OF refl this "2.prems"(2)] show ?case by (simp only: order_nodes.simps Let_def)
qed simp

definition listed :: "(string, Switch) jsmap \<Rightarrow> Switch list \<times> mac list \<Rightarrow> bool" where
  "listed byMac st \<longleftrightarrow> map sw_mac (fst st) = snd st \<and> sw_mac ` set (fst st) \<subseteq> sw_mac ` ran (map_of byMac)"

lemma listed_take: "listed byMac st \<Longrightarrow> listed byMac (take_node byMac names n st)"
  by (cases st) (auto simp: listed_def take_node_def ran_def split: option.splits)

lemma ran_switches_by_mac: "ran (map_of (switches_by_mac sws)) \<subseteq> set sws"
proof -
  have "ran (map_of (fold (\<lambda>sw m. AList.update (toUpperCase (sw_mac sw)) sw m) sws m)) \<subseteq> set sws \<union> ran (map_of m)" for m
  proof (induction sws arbitrary: m)
    case (Cons sw sws)
    have "ran (map_of (AList.update (toUpperCase (sw_mac sw)) sw m)) \<subseteq> insert sw (ran (map_of m))"
      by (auto simp: js_map ran_def)
    with Cons [of "AList.update (toUpperCase (sw_mac sw)) sw m"] show ?case by auto
  qed simp
  from this [of "[]"] show ?thesis by (simp add: switches_by_mac_def)
qed

lemma rest_macs: "sw_mac ` set (rest_switches names sws seen) = sw_mac ` set sws - set seen"
  by (auto simp: rest_switches_def image_image)

lemma switchesInOrder_macs:
  "sw_mac ` set (switchesInOrder lc view (switches_by_mac (opt_list (tv_switches view))) devices) =
     sw_mac ` set (opt_list (tv_switches view))"
proof -
  let ?sws = "opt_list (tv_switches view)"
  let ?by = "switches_by_mac ?sws"
  obtain out seen where o: "order_nodes lc ?by (host_names devices) (sortedTopo lc (tv_tree view)) ([], []) = (out, seen)"
    by force
  have "listed ?by (out, seen)"
    unfolding o [symmetric] by (rule order_nodes_inv) (auto simp: listed_take, simp add: listed_def)
  then have s: "set seen = sw_mac ` set out" and r: "sw_mac ` set out \<subseteq> sw_mac ` ran (map_of ?by)"
    by (auto simp: listed_def)
  note s
  moreover have "sw_mac ` set out \<subseteq> sw_mac ` set ?sws"
    by (rule order_trans [OF r image_mono [OF ran_switches_by_mac]])
  ultimately show ?thesis by (auto simp: switchesInOrder_def o image_Un rest_macs)
qed

lemma row_macs: "sw_macs sws = toUpperCase ` sw_mac ` set sws"
  by auto

section \<open>What the tree draws\<close>

lemma child_add_map:
  assumes "p \<noteq> []"
  shows "opt_list (map_of (fold child_add xs m) p) =
    opt_list (map_of m p) @ filter (\<lambda>sw. toUpperCase (opt_str (sw_parent_mac sw)) = p) xs"
proof (induction xs arbitrary: m)
  case (Cons sw xs)
  have "opt_list (map_of (child_add sw m) p) =
      opt_list (map_of m p) @ (if toUpperCase (opt_str (sw_parent_mac sw)) = p then [sw] else [])"
    using assms by (auto simp: child_add_def Let_def js_map opt_list_def)
  then show ?case using Cons [of "child_add sw m"] by simp
qed simp

lemma childMap_mset:
  assumes "p \<noteq> []"
  shows "mset (opt_list (map_of (childMap lc xs) p)) =
    mset (filter (\<lambda>sw. toUpperCase (opt_str (sw_parent_mac sw)) = p) xs)"
proof -
  have "opt_list (map_of (childMap lc xs) p) = js_sort (child_cmp lc) (opt_list (map_of (fold child_add xs []) p))"
    by (simp add: childMap_def map_of_map opt_list_def split: option.splits)
  then show ?thesis using child_add_map [OF assms, of xs "[]"] by (simp add: opt_list_def)
qed

text \<open>The switches that \<open>TopoBranch\<close> and \<open>KidsBlock\<close> draw: the roots, and the children of what is
  drawn.\<close>

inductive drawn :: "(string \<Rightarrow> string \<Rightarrow> int) \<Rightarrow> TopoRow list \<Rightarrow> Switch \<Rightarrow> bool" for lc rows where
  root: "r \<in> set (topo_roots lc rows) \<Longrightarrow> drawn lc rows (row_sw r)"
| kid: "drawn lc rows sw \<Longrightarrow> k \<in> set (opt_list (map_of (childMap lc (map row_sw rows)) (toUpperCase (sw_mac sw))))
    \<Longrightarrow> drawn lc rows k"

lemma truthy_upper: "truthy p \<longleftrightarrow> toUpperCase (opt_str p) \<noteq> []"
  by (auto simp: truthy_def opt_str_def split: option.splits)

lemma roots_set:
  "set (topo_roots lc rows) =
     {r \<in> set rows. \<not> truthy (sw_parent_mac (row_sw r)) \<or>
        toUpperCase (opt_str (sw_parent_mac (row_sw r))) \<notin> row_mac ` set rows}"
  by (auto simp: topo_roots_def Let_def)

lemma childMap_Nil: "map_of (childMap lc xs) [] = None"
proof -
  have "map_of (fold child_add xs m) [] = None" if "map_of m [] = None" for m
    using that
  proof (induction xs arbitrary: m)
    case (Cons sw xs)
    have "map_of (child_add sw m) [] = None" using Cons.prems by (cases "opt_str (sw_parent_mac sw) = []") (auto simp: child_add_def Let_def js_map dest: sym)
    then show ?case using Cons.IH by simp
  qed simp
  then show ?thesis by (simp add: childMap_def map_of_map)
qed

text \<open>Rows with different addresses: every switch is a root or in the list of children of exactly one row.\<close>

lemma places_once:
  assumes "distinct (map row_mac rows)"
  shows "mset (map row_sw (topo_roots lc rows)) +
    (\<Sum>r \<in># mset rows. mset (opt_list (map_of (childMap lc (map row_sw rows)) (row_mac r)))) = mset (map row_sw rows)"
proof -
  let ?par = "\<lambda>sw. toUpperCase (opt_str (sw_parent_mac sw))"
  have kids: "mset (opt_list (map_of (childMap lc xs) p)) = mset (filter (\<lambda>sw. ?par sw \<noteq> [] \<and> ?par sw = p) xs)" for xs p
  proof (cases "p = []")
    case False
    then have "filter (\<lambda>sw. ?par sw \<noteq> [] \<and> ?par sw = p) xs = filter (\<lambda>sw. ?par sw = p) xs" by (auto intro: filter_cong)
    then show ?thesis using childMap_mset [OF False, of lc xs] by (simp only:)
  qed (simp add: childMap_Nil opt_list_def)
  have sum: "(\<Sum>r \<in># mset rs. mset (filter (\<lambda>sw. ?par sw \<noteq> [] \<and> ?par sw = row_mac r) xs)) =
      mset (filter (\<lambda>sw. ?par sw \<noteq> [] \<and> ?par sw \<in> row_mac ` set rs) xs)" if "distinct (map row_mac rs)" for rs xs
    using that
  proof (induction rs)
    case (Cons r rs)
    have "mset (filter (\<lambda>sw. ?par sw \<noteq> [] \<and> ?par sw \<in> row_mac ` set (r # rs)) xs) =
        mset (filter (\<lambda>sw. ?par sw \<noteq> [] \<and> ?par sw = row_mac r) xs) +
        mset (filter (\<lambda>sw. ?par sw \<noteq> [] \<and> ?par sw \<in> row_mac ` set rs) xs)"
      using Cons.prems by (induction xs) auto
    then show ?case using Cons by simp
  qed simp
  have "mset (map row_sw (topo_roots lc rows)) =
      mset (filter (\<lambda>sw. \<not> (?par sw \<noteq> [] \<and> ?par sw \<in> row_mac ` set rows)) (map row_sw rows))"
    by (simp add: topo_roots_def Let_def mset_map filter_map o_def truthy_upper image_mset_filter_mset_swap del: mset_map)
      (simp add: mset_map flip: mset_filter)
  then show ?thesis
    unfolding kids sum [OF assms] by (simp add: union_filter_mset_complement)
qed


text \<open>C9: when the parents of the switches do not run in circles, the tree draws every row: from each
  root it reaches the switches below, and every switch is below a root.\<close>

theorem tree_draws_rows:
  assumes "\<forall>r \<in> set rows. truthy (sw_parent_mac (row_sw r)) \<longrightarrow>
    rank (toUpperCase (opt_str (sw_parent_mac (row_sw r)))) < (rank (row_mac r) :: nat)"
  shows "\<forall>r \<in> set rows. drawn lc rows (row_sw r)"
proof -
  have "drawn lc rows (row_sw r)" if "r \<in> set rows" for r
    using that
  proof (induction "rank (row_mac r)" arbitrary: r rule: less_induct)
    case less
    show ?case
    proof (cases "r \<in> set (topo_roots lc rows)")
      case False
      let ?p = "toUpperCase (opt_str (sw_parent_mac (row_sw r)))"
      from False less.prems obtain q where q: "q \<in> set rows" "row_mac q = ?p" and t: "truthy (sw_parent_mac (row_sw r))"
        by (auto simp: roots_set)
      then have "drawn lc rows (row_sw q)" using less assms by metis
      moreover have "row_sw r \<in> set (opt_list (map_of (childMap lc (map row_sw rows)) ?p))"
        using childMap_mset [of ?p lc "map row_sw rows", THEN arg_cong [where f = set_mset]] t less.prems
        by (auto simp: truthy_upper)
      ultimately show ?thesis using q(2) by (auto simp: row_mac_def intro: drawn.kid)
    qed (rule drawn.root)
  qed
  then show ?thesis by blast
qed

theorem tree_draws_rows_witness:
  "let a = row_of (plain_switch ''AA'' None) 0; b = row_of (plain_switch ''BB'' (Some ''AA'')) 1
   in \<forall>r \<in> set [b, a]. drawn (\<lambda>x y. 0) [b, a] (row_sw r)"
proof -
  have upper: "toUpperCase ''AA'' = ''AA''" "toUpperCase ''BB'' = ''BB''" by code_simp+
  show ?thesis
    unfolding Let_def
    by (rule tree_draws_rows [where rank = "\<lambda>m. if m = ''BB'' then 1 else 0"])
      (simp add: row_of_def row_mac_def plain_switch_def truthy_def opt_str_def upper)
qed

text \<open>Switches that are parents of each other have no root, so the tree draws none of them.\<close>

lemma cycle_not_drawn:
  "\<not> drawn lc [row_of (plain_switch ''AA'' (Some ''BB'')) 0, row_of (plain_switch ''BB'' (Some ''AA'')) 0] sw"
proof
  let ?rows = "[row_of (plain_switch ''AA'' (Some ''BB'')) 0, row_of (plain_switch ''BB'' (Some ''AA'')) 0]"
  have upper: "toUpperCase ''AA'' = ''AA''" "toUpperCase ''BB'' = ''BB''" by code_simp+
  have none: "set (topo_roots lc ?rows) = {}"
    by (auto simp: roots_set row_of_def row_mac_def plain_switch_def truthy_def opt_str_def upper)
  assume "drawn lc ?rows sw"
  then show False by induction (use none in auto)
qed

end
