(* ===== verification/VRack.thy ===== *)
theory VRack
  imports VRackEngine TopoPorts
begin

text \<open>
  The virtual rack (\<open>ui/src/vrack/VRack.tsx\<close>): which faceplate a switch gets, the places of the units
  and of the access points, and the links that are drawn between their jacks. The products and the
  kit of the catalogue are arguments; \<open>lc\<close> is the comparison by locale and \<open>str_num\<close> the text of a
  number.
\<close>

section \<open>Constants and types\<close>

definition UNIT_GAP :: rat where "UNIT_GAP = 4"

definition SHELF_GAP :: rat where "SHELF_GAP = 16"

definition WIRELESS_GAP :: rat where "WIRELESS_GAP = 20"

definition WIRELESS_LABEL :: rat where "WIRELESS_LABEL = 12"

definition FAN_STEP :: rat where "FAN_STEP = 18"

definition FAN_BASE :: rat where "FAN_BASE = 14"

definition FAN_MAX_RIGHT :: rat where "FAN_MAX_RIGHT = 22"

definition AP_DISC :: rat where "AP_DISC = 72"

definition AP_GAP :: rat where "AP_GAP = 16"

record PlacedUnit =
  pu_sw :: Switch
  pu_layout :: ResolvedFaceplate
  pu_x :: rat
  pu_y :: rat

record PlacedAp =
  pa_sw :: Switch
  pa_x :: rat
  pa_y :: rat

text \<open>A link before and after it is fanned out.\<close>

record RawLink =
  lk_key :: string
  lk_parentMac :: mac
  lk_parentPort :: string
  lk_childMac :: mac
  lk_childPort :: "string option"
  lk_x1 :: rat
  lk_y1 :: rat
  lk_x2 :: rat
  lk_y2 :: rat

record Link = RawLink +
  lk_fan :: nat
  lk_fans :: nat

section \<open>The box as a unit\<close>

definition boxMac :: "BoxInfo \<Rightarrow> mac" where
  "boxMac box =
     (case opt_list (box_macs box) of
        [] \<Rightarrow> ''__box__''
      | Plain m # _ \<Rightarrow> or_else m ''__box__''
      | Labeled b # _ \<Rightarrow> or_else (bm_mac b) ''__box__'')"

definition goldUnit ::
  "BoxInfo option \<Rightarrow> (string, IfaceStats) jsmap option \<Rightarrow> nat list \<Rightarrow> (nat, NetIface) jsmap \<Rightarrow> Switch option" where
  "goldUnit box ifaces linkGold wanByPort =
     (case box of None \<Rightarrow> None
      | Some b \<Rightarrow>
          let up = (\<lambda>n. n \<in> set linkGold \<or> map_of wanByPort n \<noteq> None \<or>
                (case ifaces of None \<Rightarrow> False
                 | Some m \<Rightarrow> (case map_of m (goldNic n) of Some s \<Rightarrow> ifs_carrier s | None \<Rightarrow> False)))
          in Some ((plain_switch (boxMac b) None)\<lparr>sw_name := Some (box_name b),
               sw_model := or_opt (box_license b) (box_model b), sw_kind := Some ''box'', sw_healthy := True,
               sw_ports := Some (map (\<lambda>n. plain_port (dec n) (up n)) [1, 2, 3, 4])\<rparr>))"

section \<open>Faceplates\<close>

fun vrack_maker :: "Maker \<Rightarrow> VRackMaker" where
  "vrack_maker MkFirewalla = VFirewalla"
| "vrack_maker MkUnifi = VUnifi"
| "vrack_maker MkTplink = VTplink"

datatype Slot = RackSlot Switch ResolvedFaceplate | ShelfSlot Switch ResolvedFaceplate | ApSlot Switch

definition gold_slot :: "Kit \<Rightarrow> ProductDef list \<Rightarrow> BoxInfo option \<Rightarrow> Switch option \<Rightarrow> Slot list" where
  "gold_slot kit products box gold =
     (case (gold, box) of
        (Some gsw, Some b) \<Rightarrow>
          (case findProduct products (Some VFirewalla) TBox (or_opt (box_license b) (box_model b)) (Some (box_name b)) of
             Some p \<Rightarrow> if pd_shelf p then [] else [RackSlot gsw (resolveFaceplate kit p)]
           | None \<Rightarrow> [])
      | _ \<Rightarrow> [])"

definition switch_slot ::
  "Kit \<Rightarrow> ProductDef list \<Rightarrow> (string \<Rightarrow> string \<Rightarrow> int) \<Rightarrow> Device list \<Rightarrow> Switch \<Rightarrow> Slot" where
  "switch_slot kit products lc devices sw =
     (if sw_kind sw = Some ''ap'' then ApSlot sw
      else
        let maker = map_option vrack_maker
              (switchMaker (sw_source sw) (sw_model sw) (sw_name sw) (vendorOf (sw_mac sw) devices))
        in case findProduct products maker TSwitch (sw_model sw) (sw_name sw) of
             Some p \<Rightarrow> if pd_shelf p then ShelfSlot sw (resolveFaceplate kit p) else RackSlot sw (resolveFaceplate kit p)
           | None \<Rightarrow> ShelfSlot sw (resolveGenericShelf kit lc sw maker))"

definition rack_slots :: "Slot list \<Rightarrow> (Switch \<times> ResolvedFaceplate) list" where
  "rack_slots = List.map_filter (\<lambda>s. case s of RackSlot sw l \<Rightarrow> Some (sw, l) | _ \<Rightarrow> None)"

definition shelf_slots :: "Slot list \<Rightarrow> (Switch \<times> ResolvedFaceplate) list" where
  "shelf_slots = List.map_filter (\<lambda>s. case s of ShelfSlot sw l \<Rightarrow> Some (sw, l) | _ \<Rightarrow> None)"

definition ap_slots :: "Slot list \<Rightarrow> Switch list" where
  "ap_slots = List.map_filter (\<lambda>s. case s of ApSlot sw \<Rightarrow> Some sw | _ \<Rightarrow> None)"

section \<open>Placing the units\<close>

text \<open>Rack units are stacked.\<close>

fun place_rack :: "rat \<Rightarrow> (Switch \<times> ResolvedFaceplate) list \<Rightarrow> PlacedUnit list \<times> rat" where
  "place_rack y [] = ([], y)"
| "place_rack y ((sw, l) # us) =
     (let (placed, y') = place_rack (y + rf_height l + UNIT_GAP) us
      in (\<lparr>pu_sw = sw, pu_layout = l, pu_x = 0, pu_y = y\<rparr> # placed, y'))"

text \<open>Shelf units are put side by side, and wrapped at the width of the rack. The result has the
  bottom of the last row.\<close>

fun place_shelf ::
  "rat \<Rightarrow> rat \<Rightarrow> rat \<Rightarrow> rat \<Rightarrow> (Switch \<times> ResolvedFaceplate) list \<Rightarrow> PlacedUnit list \<times> rat" where
  "place_shelf nativeW sx shelfY rowH [] = ([], shelfY + rowH)"
| "place_shelf nativeW sx shelfY rowH ((sw, l) # us) =
     (let wrap = (0 < sx \<and> nativeW < sx + rf_width l);
          x = (if wrap then 0 else sx);
          y = (if wrap then shelfY + (rowH + UNIT_GAP) else shelfY);
          h = (if wrap then 0 else rowH);
          (placed, bottom) = place_shelf nativeW (x + rf_width l + UNIT_GAP) y (max h (rf_height l)) us
      in (\<lparr>pu_sw = sw, pu_layout = l, pu_x = x, pu_y = y\<rparr> # placed, bottom))"

fun place_aps :: "rat \<Rightarrow> rat \<Rightarrow> rat \<Rightarrow> Switch list \<Rightarrow> PlacedAp list" where
  "place_aps nativeW ax rowY [] = []"
| "place_aps nativeW ax rowY (sw # sws) =
     (let wrap = (0 < ax \<and> nativeW < ax + AP_DISC);
          x = (if wrap then 0 else ax); y = (if wrap then rowY + (AP_DISC + AP_GAP) else rowY)
      in \<lparr>pa_sw = sw, pa_x = x, pa_y = y\<rparr> # place_aps nativeW (x + AP_DISC + AP_GAP) y sws)"

record RackView =
  rv_units :: "PlacedUnit list"
  rv_aps :: "PlacedAp list"
  rv_nativeH :: rat
  rv_wirelessY :: rat

definition unit_bottom :: "PlacedUnit \<Rightarrow> rat" where
  "unit_bottom u = pu_y u + rf_height (pu_layout u)"

definition max_rats :: "rat list \<Rightarrow> rat \<Rightarrow> rat" where
  "max_rats xs m = fold max xs m"

definition place_slots :: "rat \<Rightarrow> Slot list \<Rightarrow> RackView" where
  "place_slots nativeW slots =
     (let racks = rack_slots slots; shelves = shelf_slots slots; apList = ap_slots slots;
          (rackUnits, y0) = place_rack 0 racks;
          y1 = (if racks \<noteq> [] \<and> shelves \<noteq> [] then y0 + (SHELF_GAP - UNIT_GAP) else y0);
          (shelfUnits, bottom) = place_shelf nativeW 0 y1 0 shelves;
          placed = rackUnits @ shelfUnits;
          y2 = (if shelves \<noteq> [] then bottom
                else if racks \<noteq> [] then max_rats (map unit_bottom placed) 0 else y1);
          wirelessY = (if apList \<noteq> [] \<and> placed \<noteq> [] then y2 + WIRELESS_GAP else y2);
          apPlaced = (if apList = [] then [] else place_aps nativeW 0 (wirelessY + (WIRELESS_LABEL + 6)) apList);
          bottoms = map unit_bottom placed @ map (\<lambda>a. pa_y a + AP_DISC) apPlaced
      in \<lparr>rv_units = placed, rv_aps = apPlaced,
          rv_nativeH = (if bottoms = [] then 0 else max_rats (tl bottoms) (hd bottoms)),
          rv_wirelessY = wirelessY\<rparr>)"

definition rack_layout ::
  "Kit \<Rightarrow> ProductDef list \<Rightarrow> (string \<Rightarrow> string \<Rightarrow> int) \<Rightarrow> BoxInfo option \<Rightarrow> Switch option \<Rightarrow> Device list \<Rightarrow> Switch list
     \<Rightarrow> RackView" where
  "rack_layout kit products lc box gold devices switches =
     place_slots (rackFaceWidth kit) (gold_slot kit products box gold @ map (switch_slot kit products lc devices) switches)"

section \<open>Links\<close>

definition jackPoint :: "PlacedUnit \<Rightarrow> string option \<Rightarrow> (rat \<times> rat) option" where
  "jackPoint u portId =
     (if \<not> truthy portId then None
      else map_option (\<lambda>j. (pu_x u + pj_x j + pj_w j / 2, pu_y u + pj_y j + pj_h j / 2))
             (find (\<lambda>j. pj_id j = opt_str portId) (rf_jacks (pu_layout u))))"

text \<open>The bond of a port in this file is sorted.\<close>

definition expandLagSorted :: "(string \<Rightarrow> string \<Rightarrow> int) \<Rightarrow> Switch \<Rightarrow> string \<Rightarrow> string list" where
  "expandLagSorted lc sw port =
     (case find (\<lambda>g. port \<in> set g) (opt_list (sw_lags sw)) of Some g \<Rightarrow> sort_ids lc g | None \<Rightarrow> [port])"

definition first_occurrences :: "'a list \<Rightarrow> 'a list" where
  "first_occurrences xs = rev (remdups (rev xs))"

definition uplinkPorts :: "(string \<Rightarrow> string \<Rightarrow> int) \<Rightarrow> Switch \<Rightarrow> string list" where
  "uplinkPorts lc sw =
     (let marked = map sp_id (filter (is_uplink sw) (opt_list (sw_ports sw))) in
      if marked \<noteq> [] then sort_ids lc (first_occurrences (concat (map (expandLagSorted lc sw) marked)))
      else if truthy (sw_uplink_port sw) then expandLagSorted lc sw (opt_str (sw_uplink_port sw))
      else [])"

text \<open>As many ports of the parent as the child needs; the last one is repeated.\<close>

definition parentPortsFor :: "(string \<Rightarrow> string \<Rightarrow> int) \<Rightarrow> Switch \<Rightarrow> string option \<Rightarrow> nat \<Rightarrow> string list" where
  "parentPortsFor lc parent parentPort need =
     (if \<not> truthy parentPort then []
      else let lag = expandLagSorted lc parent (opt_str parentPort) in
        if need \<le> length lag then take need lag
        else lag @ replicate (need - length lag) (if lag = [] then opt_str parentPort else last lag))"

text \<open>\<open>xs[Math.min(i, xs.length - 1)]\<close>, undefined for no element.\<close>

definition at_most :: "string list \<Rightarrow> nat \<Rightarrow> string option" where
  "at_most xs i = (if xs = [] then None else Some (xs ! min i (length xs - 1)))"

definition paired_link :: "PlacedUnit \<Rightarrow> string list \<Rightarrow> PlacedUnit \<Rightarrow> string list \<Rightarrow> nat \<Rightarrow> RawLink list" where
  "paired_link parent parentPorts child childPorts i =
     (let pp = at_most parentPorts i; cp = at_most childPorts i in
      case (jackPoint parent pp, jackPoint child cp) of
        (Some (px, py), Some (cx, cy)) \<Rightarrow>
          [\<lparr>lk_key = sw_mac (pu_sw parent) @ '':'' @ opt_str pp @ ''->'' @ sw_mac (pu_sw child) @ '':'' @ opt_str cp
               @ '':'' @ dec i,
            lk_parentMac = sw_mac (pu_sw parent), lk_parentPort = opt_str pp,
            lk_childMac = sw_mac (pu_sw child), lk_childPort = cp,
            lk_x1 = px, lk_y1 = py, lk_x2 = cx, lk_y2 = cy\<rparr>]
      | _ \<Rightarrow> [])"

definition pushPaired :: "PlacedUnit \<Rightarrow> string list \<Rightarrow> PlacedUnit \<Rightarrow> string list \<Rightarrow> RawLink list" where
  "pushPaired parent parentPorts child childPorts =
     concat (map (paired_link parent parentPorts child childPorts) [0..<max (length parentPorts) (length childPorts)])"

definition pushApLinks :: "PlacedUnit \<Rightarrow> string list \<Rightarrow> mac \<Rightarrow> rat \<times> rat \<Rightarrow> RawLink list" where
  "pushApLinks parent parentPorts apMac top_pt =
     concat (map (\<lambda>(i, pp).
        case jackPoint parent (Some pp) of
          None \<Rightarrow> []
        | Some (px, py) \<Rightarrow>
            [\<lparr>lk_key = sw_mac (pu_sw parent) @ '':'' @ pp @ ''->'' @ apMac @ '':top:'' @ dec i,
              lk_parentMac = sw_mac (pu_sw parent), lk_parentPort = pp, lk_childMac = apMac, lk_childPort = None,
              lk_x1 = px, lk_y1 = py, lk_x2 = fst top_pt, lk_y2 = snd top_pt\<rparr>]) (enumerate 0 parentPorts))"

definition units_by_mac :: "PlacedUnit list \<Rightarrow> (string, PlacedUnit) jsmap" where
  "units_by_mac units = fold (\<lambda>u m. AList.update (toUpperCase (sw_mac (pu_sw u))) u m) units []"

text \<open>The unit above a switch: its parent, or the box when it hangs on a port of the box.\<close>

definition parent_unit :: "(string, PlacedUnit) jsmap \<Rightarrow> Switch \<Rightarrow> PlacedUnit option" where
  "parent_unit byMac sw =
     (let p = toUpperCase (opt_str (sw_parent_mac sw)) in if p = [] then None else map_of byMac p)"

definition gold_parent :: "(string, PlacedUnit) jsmap \<Rightarrow> mac option \<Rightarrow> Switch \<Rightarrow> (PlacedUnit \<times> string) option" where
  "gold_parent byMac goldMac sw =
     (let goldN = gp_n (goldPort (opt_str (sw_parent_nic sw))) in
      if 0 < goldN \<and> truthy goldMac
      then map_option (\<lambda>u. (u, dec goldN)) (map_of byMac (toUpperCase (opt_str goldMac))) else None)"

definition unit_links ::
  "(string \<Rightarrow> string \<Rightarrow> int) \<Rightarrow> (string, PlacedUnit) jsmap \<Rightarrow> mac option \<Rightarrow> PlacedUnit \<Rightarrow> RawLink list" where
  "unit_links lc byMac goldMac child =
     (let sw = pu_sw child; childPorts = uplinkPorts lc sw in
      if sw_kind sw = Some ''box'' \<or> childPorts = [] then []
      else case parent_unit byMac sw of
        Some parent \<Rightarrow>
          pushPaired parent (parentPortsFor lc (pu_sw parent) (sw_parent_port sw) (length childPorts)) child childPorts
      | None \<Rightarrow>
          (case gold_parent byMac goldMac sw of
             Some (parent, n) \<Rightarrow> pushPaired parent (replicate (length childPorts) n) child childPorts
           | None \<Rightarrow> []))"

definition ap_links ::
  "(string \<Rightarrow> string \<Rightarrow> int) \<Rightarrow> (string, PlacedUnit) jsmap \<Rightarrow> mac option \<Rightarrow> PlacedAp \<Rightarrow> RawLink list" where
  "ap_links lc byMac goldMac ap =
     (let sw = pa_sw ap; top_pt = (pa_x ap + AP_DISC / 2, pa_y ap) in
      case parent_unit byMac sw of
        Some parent \<Rightarrow>
          pushApLinks parent (if truthy (sw_parent_port sw) then expandLagSorted lc (pu_sw parent) (opt_str (sw_parent_port sw)) else [])
            (sw_mac sw) top_pt
      | None \<Rightarrow>
          (case gold_parent byMac goldMac sw of
             Some (parent, n) \<Rightarrow> pushApLinks parent [n] (sw_mac sw) top_pt
           | None \<Rightarrow> []))"

text \<open>
  The group of a link, from its key: \<open>l.key.match(/^([^:]+):[^->]+->([^:]+):/)\<close>. The classes leave no
  choice to the matcher: each group ends at the first character it excludes.
\<close>

definition fan_group :: "string \<Rightarrow> string" where
  "fan_group key =
     (let a = takeWhile (\<lambda>c. c \<noteq> CHR '':'') key; rest = drop (length a + 1) key;
          b = takeWhile (\<lambda>c. c \<noteq> CHR ''-'' \<and> c \<noteq> CHR ''>'') rest; tail = drop (length b) rest;
          c = takeWhile (\<lambda>c. c \<noteq> CHR '':'') (drop 2 tail)
      in if a \<noteq> [] \<and> length a < length key \<and> b \<noteq> [] \<and> take 2 tail = ''->'' \<and> c \<noteq> [] \<and> length c < length (drop 2 tail)
         then a @ ''->'' @ c else key)"

definition group_add :: "RawLink \<Rightarrow> (string, RawLink list) jsmap \<Rightarrow> (string, RawLink list) jsmap" where
  "group_add l m = (let k = fan_group (lk_key l) in AList.update k (opt_list (map_of m k) @ [l]) m)"

definition link_cmp :: "(string \<Rightarrow> string \<Rightarrow> int) \<Rightarrow> RawLink \<Rightarrow> RawLink \<Rightarrow> int" where
  "link_cmp lc a b = or_cmp (sign_diff (lk_x1 a) (lk_x1 b)) (or_cmp (sign_diff (lk_x2 a) (lk_x2 b)) (lc (lk_key a) (lk_key b)))"

definition fan_link :: "nat \<Rightarrow> nat \<times> RawLink \<Rightarrow> Link" where
  "fan_link n = (\<lambda>(k, l). RawLink.extend l \<lparr>lk_fan = k, lk_fans = n\<rparr>)"

definition fan_out :: "(string \<Rightarrow> string \<Rightarrow> int) \<Rightarrow> RawLink list \<Rightarrow> Link list" where
  "fan_out lc g = map (fan_link (length g)) (enumerate 0 (js_sort (link_cmp lc) g))"

definition fanLinks :: "(string \<Rightarrow> string \<Rightarrow> int) \<Rightarrow> RawLink list \<Rightarrow> Link list" where
  "fanLinks lc raw = concat (map (\<lambda>(k, g). fan_out lc g) (fold group_add raw []))"

definition buildLinks :: "(string \<Rightarrow> string \<Rightarrow> int) \<Rightarrow> PlacedUnit list \<Rightarrow> PlacedAp list \<Rightarrow> mac option \<Rightarrow> Link list" where
  "buildLinks lc units aps goldMac =
     (let byMac = units_by_mac units in
      fanLinks lc (concat (map (unit_links lc byMac goldMac) units) @ concat (map (ap_links lc byMac goldMac) aps)))"

definition bendPath :: "(rat \<Rightarrow> string) \<Rightarrow> Link \<Rightarrow> rat \<Rightarrow> string" where
  "bendPath str_num l rackW =
     (let x1 = lk_x1 l; y1 = lk_y1 l; x2 = lk_x2 l; y2 = lk_y2 l;
          want = (if lk_fans l \<le> 1 then FAN_BASE * (6 / 10) else FAN_BASE + of_nat (lk_fan l) * FAN_STEP);
          lo = min x1 x2; hi = max x1 x2;
          roomRight = max 0 (rackW - hi - FAN_MAX_RIGHT); roomLeft = max 0 (lo - FAN_MAX_RIGHT);
          apexX = (if roomLeft \<le> roomRight then hi + min want (max roomRight 0) else lo - min want (max roomLeft 0));
          pt = (\<lambda>x y. str_num x @ '' '' @ str_num y)
      in if \<bar>y1 - y2\<bar> < 12
         then let under = max y1 y2 + 18 + of_nat (lk_fan l) * 12
              in ''M '' @ pt x1 y1 @ '' C '' @ pt x1 under @ '', '' @ pt apexX under @ '', '' @ pt x2 y2
         else ''M '' @ pt x1 y1 @ '' C '' @ pt apexX y1 @ '', '' @ pt apexX y2 @ '', '' @ pt x2 y2)"

section \<open>Units do not overlap\<close>

definition overlap :: "PlacedUnit \<Rightarrow> PlacedUnit \<Rightarrow> bool" where
  "overlap u v \<longleftrightarrow>
     pu_x u < pu_x v + rf_width (pu_layout v) \<and> pu_x v < pu_x u + rf_width (pu_layout u) \<and>
     pu_y u < unit_bottom v \<and> pu_y v < unit_bottom u"

definition sized :: "ResolvedFaceplate \<Rightarrow> bool" where
  "sized l \<longleftrightarrow> 0 \<le> rf_width l \<and> 0 \<le> rf_height l"

abbreviation apart :: "PlacedUnit list \<Rightarrow> bool" where
  "apart us \<equiv> sorted_wrt (\<lambda>u v. \<not> overlap u v) us"

lemma place_rack_apart:
  assumes "\<forall>(sw, l) \<in> set us. sized l" "place_rack y us = (placed, y')"
  shows "apart placed \<and> (\<forall>u \<in> set placed. y \<le> pu_y u \<and> unit_bottom u \<le> y') \<and> y \<le> y'"
  using assms
proof (induction y us arbitrary: placed y' rule: place_rack.induct)
  case (2 y sw l us)
  obtain rest y1 where r: "place_rack (y + rf_height l + UNIT_GAP) us = (rest, y1)" by force
  have h: "0 \<le> rf_height l" using "2.prems"(1) by (simp add: sized_def)
  have ih: "apart rest" "\<forall>u \<in> set rest. y + rf_height l + UNIT_GAP \<le> pu_y u \<and> unit_bottom u \<le> y1"
    "y + rf_height l + UNIT_GAP \<le> y1"
    using "2.IH" [OF _ r] "2.prems"(1) by auto
  let ?u = "\<lparr>pu_sw = sw, pu_layout = l, pu_x = 0, pu_y = y\<rparr>"
  have "\<not> overlap ?u v" if "v \<in> set rest" for v
    using ih(2) that by (auto simp: overlap_def unit_bottom_def UNIT_GAP_def)
  moreover have "placed = ?u # rest" "y' = y1" using "2.prems"(2) r by auto
  ultimately show ?case using ih h by (auto simp: unit_bottom_def UNIT_GAP_def)
qed simp

lemma place_shelf_apart:
  assumes "\<forall>(sw, l) \<in> set us. sized l" "place_shelf W sx sy rh us = (placed, b)" "0 \<le> rh"
  shows "apart placed \<and> (\<forall>v \<in> set placed. (pu_y v = sy \<and> sx \<le> pu_x v) \<or> sy + rh < pu_y v)"
  using assms
proof (induction W sx sy rh us arbitrary: placed b rule: place_shelf.induct)
  case (2 W sx sy rh sw l us)
  define wrap where "wrap = (0 < sx \<and> W < sx + rf_width l)"
  define x where "x = (if wrap then 0 else sx)"
  define y where "y = (if wrap then sy + (rh + UNIT_GAP) else sy)"
  define h where "h = (if wrap then 0 else rh)"
  let ?u = "\<lparr>pu_sw = sw, pu_layout = l, pu_x = x, pu_y = y\<rparr>"
  obtain rest b' where r: "place_shelf W (x + rf_width l + UNIT_GAP) y (max h (rf_height l)) us = (rest, b')" by force
  have sz: "0 \<le> rf_width l" "0 \<le> rf_height l" using "2.prems"(1) by (auto simp: sized_def)
  have ih: "apart rest" "\<forall>v \<in> set rest. (pu_y v = y \<and> x + rf_width l + UNIT_GAP \<le> pu_x v) \<or> y + max h (rf_height l) < pu_y v"
    using "2.IH" [OF wrap_def x_def y_def h_def _ r] "2.prems"(1) sz by auto
  have "\<not> overlap ?u v" if "v \<in> set rest" for v
    using ih(2) that by (auto simp: overlap_def unit_bottom_def UNIT_GAP_def)
  moreover have "placed = ?u # rest"
    using "2.prems"(2) r by (simp add: wrap_def [symmetric] x_def [symmetric] y_def [symmetric] h_def [symmetric] Let_def)
  moreover have "(pu_y v = sy \<and> sx \<le> pu_x v) \<or> sy + rh < pu_y v" if "v \<in> set (?u # rest)" for v
    using ih(2) that sz "2.prems"(3) by (auto simp: x_def y_def h_def UNIT_GAP_def split: if_splits)
  ultimately show ?case using ih(1) by auto
qed simp

text \<open>C11: no two units of the rack overlap, those in the rack and those on the shelves below it, however
  the shelves wrap.\<close>

theorem rack_no_overlap:
  assumes "\<forall>(sw, l) \<in> set (rack_slots slots) \<union> set (shelf_slots slots). sized l"
  shows "sorted_wrt (\<lambda>u v. \<not> overlap u v) (rv_units (place_slots W slots))"
proof -
  obtain ru y0 where r: "place_rack 0 (rack_slots slots) = (ru, y0)" by force
  define y1 where "y1 = (if rack_slots slots \<noteq> [] \<and> shelf_slots slots \<noteq> [] then y0 + (SHELF_GAP - UNIT_GAP) else y0)"
  obtain su b where s: "place_shelf W 0 y1 0 (shelf_slots slots) = (su, b)" by force
  have rack: "apart ru" "\<forall>u \<in> set ru. unit_bottom u \<le> y0" using place_rack_apart [OF _ r] assms by auto
  have shelf: "apart su" "\<forall>v \<in> set su. y1 \<le> pu_y v" using place_shelf_apart [OF _ s] assms by fastforce+
  have "y0 \<le> y1" by (simp add: y1_def SHELF_GAP_def UNIT_GAP_def)
  then have "\<not> overlap u v" if "u \<in> set ru" "v \<in> set su" for u v
    using rack(2) shelf(2) that by (fastforce simp: overlap_def)
  moreover have "rv_units (place_slots W slots) = ru @ su"
    by (simp add: place_slots_def r s y1_def [symmetric] Let_def)
  ultimately show ?thesis using rack(1) shelf(1) by (simp add: sorted_wrt_append)
qed

theorem rack_no_overlap_witness:
  "let face = resolveFaceplate sample_kit sample_def; sw = plain_switch ''AA'' None;
       units = rv_units (place_slots 912 [RackSlot sw face, ShelfSlot sw face, ShelfSlot sw face])
   in length units = 3 \<and> sorted_wrt (\<lambda>u v. \<not> overlap u v) units"
proof -
  let ?face = "resolveFaceplate sample_kit sample_def" and ?sw = "plain_switch ''AA'' None"
  let ?slots = "[RackSlot ?sw ?face, ShelfSlot ?sw ?face, ShelfSlot ?sw ?face]"
  have "sized (resolveFaceplate sample_kit sample_def)"
    by (simp add: sized_def resolveFaceplate_def Let_def geometry_def face_height_def sample_kit_def sample_def_def)
  then have "\<forall>(sw, l) \<in> set (rack_slots ?slots) \<union> set (shelf_slots ?slots). sized l"
    by (auto simp: rack_slots_def shelf_slots_def map_filter_simps)
  from rack_no_overlap [OF this, of 912]
  show ?thesis
    by (simp add: Let_def place_slots_def rack_slots_def shelf_slots_def map_filter_simps case_prod_unfold)
qed

section \<open>Every switch is in the rack\<close>

lemma placed_rack: "map pu_sw (fst (place_rack y us)) = map fst us"
  by (induction y us rule: place_rack.induct) (auto split: prod.splits)

lemma placed_shelf: "map pu_sw (fst (place_shelf W sx sy rh us)) = map fst us"
  by (induction W sx sy rh us rule: place_shelf.induct) (auto simp: Let_def split: prod.splits)

lemma placed_aps: "map pa_sw (place_aps W ax y sws) = sws"
  by (induction W ax y sws rule: place_aps.induct) (simp_all add: Let_def)

fun slot_sw :: "Slot \<Rightarrow> Switch" where
  "slot_sw (RackSlot sw _) = sw"
| "slot_sw (ShelfSlot sw _) = sw"
| "slot_sw (ApSlot sw) = sw"

lemma slots_split:
  "mset (map slot_sw slots) =
     mset (map fst (rack_slots slots)) + mset (map fst (shelf_slots slots)) + mset (ap_slots slots)"
  by (induction slots)
    (auto simp: rack_slots_def shelf_slots_def ap_slots_def map_filter_simps split: Slot.splits)

lemma placed_slots:
  "mset (map pu_sw (rv_units (place_slots W slots))) + mset (map pa_sw (rv_aps (place_slots W slots))) =
     mset (map slot_sw slots)"
proof -
  have "map pu_sw (rv_units (place_slots W slots)) = map fst (rack_slots slots) @ map fst (shelf_slots slots)"
    by (simp add: place_slots_def Let_def case_prod_unfold placed_rack placed_shelf)
  moreover have "map pa_sw (rv_aps (place_slots W slots)) = ap_slots slots"
    by (simp add: place_slots_def Let_def case_prod_unfold placed_aps)
  ultimately show ?thesis unfolding slots_split by simp
qed

text \<open>every switch of the list is drawn once, as a unit or as an access point, and nothing else but
  the box is drawn.\<close>

theorem rack_places_all:
  "let view = rack_layout kit products lc box gold devices switches;
       extra = map slot_sw (gold_slot kit products box gold)
   in mset (map pu_sw (rv_units view)) + mset (map pa_sw (rv_aps view)) = mset extra + mset switches \<and>
      list_all (\<lambda>sw. gold = Some sw) extra \<and> length extra \<le> 1"
proof -
  have "slot_sw (switch_slot kit products lc devices sw) = sw" for sw
    by (simp add: switch_slot_def Let_def split: option.split)
  then have "map slot_sw (map (switch_slot kit products lc devices) switches) = switches"
    by (simp add: map_idI)
  then have "map slot_sw (gold_slot kit products box gold @ map (switch_slot kit products lc devices) switches) =
      map slot_sw (gold_slot kit products box gold) @ switches"
    by simp
  moreover have "list_all (\<lambda>sw. gold = Some sw) (map slot_sw (gold_slot kit products box gold))"
    "length (map slot_sw (gold_slot kit products box gold)) \<le> 1"
    by (simp_all add: gold_slot_def split: option.split)
  ultimately show ?thesis unfolding Let_def rack_layout_def placed_slots by simp
qed

section \<open>Links\<close>

lemma groups_mset:
  "mset (concat (map snd (fold group_add raw m))) = mset (concat (map snd m)) + mset raw" if "distinct (map fst m)"
  using that
proof (induction raw arbitrary: m)
  case (Cons l raw)
  have upd: "mset (concat (map snd (AList.update k (opt_list (map_of m k) @ [l]) m))) = mset (concat (map snd m)) + {#l#}"
    if "distinct (map fst m)" for k and m :: "(string, RawLink list) jsmap"
    using that by (induction m) (auto simp: opt_list_def)
  have "distinct (map fst (group_add l m))" using Cons.prems by (simp add: group_add_def Let_def distinct_update)
  from Cons.IH [OF this] show ?case using upd [OF Cons.prems] by (simp add: group_add_def Let_def)
qed simp

lemma truncate_fan: "map RawLink.truncate (fan_out lc g) = js_sort (link_cmp lc) g"
proof -
  have "map (\<lambda>kl. RawLink.truncate (fan_link n kl)) (enumerate k ls) = ls" for n k ls
    by (induction ls arbitrary: k) (simp_all add: fan_link_def RawLink.defs)
  then show ?thesis by (simp add: fan_out_def comp_def)
qed

lemma fan_bound: "list_all (\<lambda>l. lk_fan l < lk_fans l) (fan_out lc g)"
  by (auto simp: fan_out_def fan_link_def list_all_iff RawLink.defs in_set_enumerate_eq)

lemma mset_fanLinks: "mset (map RawLink.truncate (fanLinks lc raw)) = mset raw"
proof -
  have groups: "mset (map RawLink.truncate (concat (map (\<lambda>(k, g). fan_out lc g) groups))) = mset (concat (map snd groups))" for groups
    by (induction groups) (auto simp: truncate_fan case_prod_unfold simp del: mset_map)
  show ?thesis unfolding fanLinks_def groups using groups_mset [of "[]" raw] by simp
qed

text \<open>fanning the links out loses no link and adds none, and numbers each link within its bundle.\<close>

theorem fanLinks_perm:
  "mset (map RawLink.truncate (fanLinks lc raw)) = mset raw \<and>
   list_all (\<lambda>l. lk_fan l < lk_fans l) (fanLinks lc raw)"
  using mset_fanLinks [of lc raw] fan_bound by (auto simp: fanLinks_def list_all_iff)

text \<open>A point is the middle of the jack of a port when it halves its width and its height.\<close>

definition jack_centre :: "PlacedUnit \<Rightarrow> string \<Rightarrow> rat \<Rightarrow> rat \<Rightarrow> bool" where
  "jack_centre u port x y \<longleftrightarrow>
     list_ex (\<lambda>j. pj_id j = port \<and> 2 * (x - pu_x u - pj_x j) = pj_w j \<and> 2 * (y - pu_y u - pj_y j) = pj_h j)
       (rf_jacks (pu_layout u))"

text \<open>The address that a switch names as its parent, or that of the box when it hangs on a port of the box.\<close>

definition hangs_on :: "mac option \<Rightarrow> Switch \<Rightarrow> mac \<Rightarrow> bool" where
  "hangs_on goldMac sw pm \<longleftrightarrow>
     truthy (sw_parent_mac sw) \<and> toUpperCase pm = toUpperCase (opt_str (sw_parent_mac sw)) \<or>
     truthy goldMac \<and> 0 < gp_n (goldPort (opt_str (sw_parent_nic sw))) \<and> toUpperCase pm = toUpperCase (opt_str goldMac)"

definition link_ok ::
  "(string \<Rightarrow> string \<Rightarrow> int) \<Rightarrow> mac option \<Rightarrow> PlacedUnit list \<Rightarrow> PlacedAp list \<Rightarrow> RawLink \<Rightarrow> bool" where
  "link_ok lc goldMac units aps l \<longleftrightarrow>
     list_ex (\<lambda>u. sw_mac (pu_sw u) = lk_parentMac l \<and> jack_centre u (lk_parentPort l) (lk_x1 l) (lk_y1 l)) units \<and>
     (case lk_childPort l of
        Some cp \<Rightarrow> list_ex (\<lambda>u. sw_mac (pu_sw u) = lk_childMac l \<and> jack_centre u cp (lk_x2 l) (lk_y2 l) \<and>
                            cp \<in> set (uplinkPorts lc (pu_sw u)) \<and> hangs_on goldMac (pu_sw u) (lk_parentMac l)) units
      | None \<Rightarrow> list_ex (\<lambda>a. sw_mac (pa_sw a) = lk_childMac l \<and> 2 * (lk_x2 l - pa_x a) = AP_DISC \<and> lk_y2 l = pa_y a \<and>
                        hangs_on goldMac (pa_sw a) (lk_parentMac l)) aps)"

lemma jackPoint_Some:
  assumes "jackPoint u p = Some (x, y)"
  shows "p = Some (opt_str p)" "jack_centre u (opt_str p) x y"
proof -
  show "p = Some (opt_str p)" using assms by (cases p) (auto simp: jackPoint_def truthy_def opt_str_def)
  show "jack_centre u (opt_str p) x y"
    using assms by (auto simp: jackPoint_def jack_centre_def list_ex_iff find_Some_iff field_simps split: if_splits)
qed

lemma paired_ok:
  assumes "parent \<in> set units" "child \<in> set units" "cp = uplinkPorts lc (pu_sw child)"
    "hangs_on goldMac (pu_sw child) (sw_mac (pu_sw parent))"
  shows "list_all (link_ok lc goldMac units aps) (pushPaired parent pp child cp)"
proof -
  have "link_ok lc goldMac units aps l" if l: "l \<in> set (paired_link parent pp child cp i)" for l i
  proof -
    obtain px py cx cy where
      pts: "jackPoint parent (at_most pp i) = Some (px, py)" "jackPoint child (at_most cp i) = Some (cx, cy)"
      and fields: "lk_parentMac l = sw_mac (pu_sw parent)" "lk_parentPort l = opt_str (at_most pp i)"
        "lk_childMac l = sw_mac (pu_sw child)" "lk_childPort l = at_most cp i"
        "lk_x1 l = px" "lk_y1 l = py" "lk_x2 l = cx" "lk_y2 l = cy"
      using l by (cases "jackPoint parent (at_most pp i)"; cases "jackPoint child (at_most cp i)")
        (auto simp: paired_link_def Let_def split: prod.splits)
    have some: "at_most cp i = Some (opt_str (at_most cp i))" using pts by (auto dest: jackPoint_Some)
    have "cp \<noteq> [] \<Longrightarrow> min i (length cp - 1) < length cp" by (cases cp) auto
    then have "opt_str (at_most cp i) \<in> set cp" using some
      by (auto simp: at_most_def opt_str_def split: if_splits intro: nth_mem)
    then show ?thesis using some fields assms jackPoint_Some(2) [OF pts(1)] jackPoint_Some(2) [OF pts(2)]
      by (auto simp: link_ok_def list_ex_iff split: option.splits)
  qed
  then show ?thesis by (auto simp: pushPaired_def list_all_iff)
qed

lemma ap_ok:
  assumes "parent \<in> set units" "a \<in> set aps" "hangs_on goldMac (pa_sw a) (sw_mac (pu_sw parent))"
  shows "list_all (link_ok lc goldMac units aps) (pushApLinks parent pp (sw_mac (pa_sw a)) (pa_x a + AP_DISC / 2, pa_y a))"
  using assms jackPoint_Some(2) [of parent "Some p" for p]
  by (force simp: pushApLinks_def list_all_iff link_ok_def list_ex_iff opt_str_def split: option.splits)

lemma units_by_mac_in:
  "map_of (units_by_mac units) k = Some u \<Longrightarrow> u \<in> set units \<and> toUpperCase (sw_mac (pu_sw u)) = k"
proof -
  have "map_of (fold (\<lambda>u m. AList.update (toUpperCase (sw_mac (pu_sw u))) u m) units m) k = Some u \<Longrightarrow>
      u \<in> set units \<and> toUpperCase (sw_mac (pu_sw u)) = k \<or> map_of m k = Some u" for m
  proof (induction units arbitrary: m)
    case (Cons v units)
    from Cons.IH [OF Cons.prems [simplified]] show ?case by (auto simp: js_map split: if_splits)
  qed simp
  then show "map_of (units_by_mac units) k = Some u \<Longrightarrow> u \<in> set units \<and> toUpperCase (sw_mac (pu_sw u)) = k"
    by (fastforce simp: units_by_mac_def)
qed

lemma parent_in:
  "parent_unit (units_by_mac units) sw = Some u \<Longrightarrow> u \<in> set units \<and> hangs_on gm sw (sw_mac (pu_sw u))"
  "gold_parent (units_by_mac units) gm sw = Some (u, n) \<Longrightarrow> u \<in> set units \<and> hangs_on gm sw (sw_mac (pu_sw u))"
  by (auto simp: parent_unit_def gold_parent_def Let_def hangs_on_def truthy_upper split: if_splits dest!: units_by_mac_in)


section \<open>The bundles of the fan\<close>

lemma fan_group_octets:
  assumes "a \<noteq> []" "CHR '':'' \<notin> set a" "b \<noteq> []" "CHR ''-'' \<notin> set b" "CHR ''>'' \<notin> set b" "c \<noteq> []" "CHR '':'' \<notin> set c"
  shows "fan_group (a @ '':'' @ b @ ''->'' @ c @ '':'' @ d) = a @ ''->'' @ c"
proof -
  have t: "takeWhile P (xs @ y # ys) = xs" if "\<forall>x \<in> set xs. P x" "\<not> P y" for P and xs ys :: string and y
    using that by (simp add: takeWhile_append2)
  have "takeWhile (\<lambda>x. x \<noteq> CHR '':'') (a @ '':'' @ b @ ''->'' @ c @ '':'' @ d) = a"
    using t [of a "\<lambda>x. x \<noteq> CHR '':''" "CHR '':''"] assms(2) by fastforce
  moreover have "takeWhile (\<lambda>x. x \<noteq> CHR ''-'' \<and> x \<noteq> CHR ''>'') (b @ ''->'' @ c @ '':'' @ d) = b"
    using t [of b "\<lambda>x. x \<noteq> CHR ''-'' \<and> x \<noteq> CHR ''>''" "CHR ''-''"] assms(4,5) by fastforce
  moreover have "takeWhile (\<lambda>x. x \<noteq> CHR '':'') (c @ '':'' @ d) = c"
    using t [of c "\<lambda>x. x \<noteq> CHR '':''" "CHR '':''"] assms(7) by fastforce
  ultimately show ?thesis using assms(1,3,6) by (simp add: fan_group_def Let_def)
qed

text \<open>
  The bundle of a link is named by the first two digits of the addresses at its ends, so links of
  different pairs of switches share a bundle when their addresses begin alike.
\<close>

lemma fan_group_collision:
  "fan_group ''AA:BB:CC:00:00:01:1->AA:BB:CC:00:00:02:9:0'' = fan_group ''AA:BB:CC:00:00:03:4->AA:BB:CC:00:00:04:9:0''"
  using fan_group_octets [of "''AA''" "''BB:CC:00:00:01:1''" "''AA''" "''BB:CC:00:00:02:9:0''"]
    fan_group_octets [of "''AA''" "''BB:CC:00:00:03:4''" "''AA''" "''BB:CC:00:00:04:9:0''"] by simp

end
