(* ===== verification/DeviceDetail.thy ===== *)
theory DeviceDetail
  imports Format SwitchPort
begin

text \<open>
  The panel of one device (\<open>ui/src/components/DeviceDetail.tsx\<close>): the names of a device in the local
  domain, the model built from the catalogue and the wireless client, the policy of the device with
  its optimistic update, and the panel as a state machine. An asynchronous handler is cut at its
  \<open>await\<close>: the part before it starts a request and remembers what the closure captured, the part
  after it is the answer. Between the two any other event may happen.
\<close>

section \<open>Names in the local domain\<close>

text \<open>\<open>s.replace(/^\.+|\.+$/g, '')\<close>\<close>

definition strip_dots :: "string \<Rightarrow> string" where
  "strip_dots s = rev (dropWhile (\<lambda>c. c = CHR ''.'') (rev (dropWhile (\<lambda>c. c = CHR ''.'') s)))"

definition normalizeDomainSuffix :: "string option \<Rightarrow> string" where
  "normalizeDomainSuffix sfx = toLowerCase (strip_dots (trim (opt_str sfx)))"

definition dnsHostnameLabel :: "string \<Rightarrow> string \<Rightarrow> string" where
  "dnsHostnameLabel host sfx =
     (let h = trim host; s = normalizeDomainSuffix (Some sfx) in
      if h = [] \<or> s = [] then h
      else let lower = toLowerCase h; tail = ''.'' @ s in
        if endsWith lower tail \<and> length tail < length lower then take (length h - length tail) h else h)"

definition formatLocalFQDN :: "string \<Rightarrow> string option \<Rightarrow> string" where
  "formatLocalFQDN host sfx =
     (let s = normalizeDomainSuffix sfx; label = dnsHostnameLabel host s in
      if label = [] then [] else if s \<noteq> [] then label @ ''.'' @ s else label)"

section \<open>The model of the panel\<close>

record DeviceDetailModel =
  ddm_mac :: mac
  ddm_name :: string
  ddm_ip :: "string option"
  ddm_ipv6 :: "string list option"
  ddm_vendor :: "string option"
  ddm_type :: "string option"
  ddm_local_domain :: "string option"
  ddm_last_active_ts :: "rat option"
  ddm_hostname :: "string option"
  ddm_os :: "string option"
  ddm_upload :: "int option"
  ddm_download :: "int option"
  ddm_top_dests :: "RankedFlow list option"
  ddm_tx_kbps :: "rat option"
  ddm_rx_kbps :: "rat option"
  ddm_ssid :: "string option"
  ddm_band :: "string option"
  ddm_ap_mac :: "string option"
  ddm_ap_name :: "string option"
  ddm_intf_uuid :: "string option"
  ddm_tag_ids :: "string list option"
  ddm_dap :: "DAP option"

text \<open>\<open>a || b\<close> on optional texts and on optional numbers.\<close>

definition or_text :: "string option \<Rightarrow> string option \<Rightarrow> string option" where
  "or_text a b = (if truthy a then a else b)"

definition or_num :: "rat option \<Rightarrow> rat option \<Rightarrow> rat option" where
  "or_num a b = (if a = None \<or> a = Some 0 then b else a)"

definition wifi_model :: "rat \<Rightarrow> WirelessClient \<Rightarrow> DeviceDetailModel" where
  "wifi_model nowMs w =
     \<lparr>ddm_mac = wc_mac w,
      ddm_name = or_else (or_else (opt_trim (wc_name w)) (opt_trim (wc_hostname w))) (wc_mac w),
      ddm_ip = wc_ip w, ddm_ipv6 = None, ddm_vendor = None, ddm_type = None, ddm_local_domain = None,
      ddm_last_active_ts = Some (nowMs / 1000), ddm_hostname = wc_hostname w, ddm_os = wc_os w,
      ddm_upload = None, ddm_download = None, ddm_top_dests = None,
      ddm_tx_kbps = wc_tx_kbps w, ddm_rx_kbps = wc_rx_kbps w, ddm_ssid = wc_ssid w, ddm_band = wc_band w,
      ddm_ap_mac = wc_ap_mac w, ddm_ap_name = wc_ap_name w, ddm_intf_uuid = None, ddm_tag_ids = None,
      ddm_dap = None\<rparr>"

definition catalog_model :: "Device \<Rightarrow> WirelessClient option \<Rightarrow> DeviceDetailModel" where
  "catalog_model d w =
     (let wf = \<lambda>f. Option.bind w f in
      \<lparr>ddm_mac = dev_mac d, ddm_name = preferredName d,
       ddm_ip = or_text (dev_ip d) (wf wc_ip), ddm_ipv6 = dev_ipv6 d, ddm_vendor = dev_vendor d,
       ddm_type = dev_type d, ddm_local_domain = dev_local_domain d,
       ddm_last_active_ts = map_option of_int (dev_last_active_ts d),
       ddm_hostname = or_text (dev_hostname d) (wf wc_hostname), ddm_os = or_text (dev_os d) (wf wc_os),
       ddm_upload = dev_upload d, ddm_download = dev_download d, ddm_top_dests = dev_top_dests d,
       ddm_tx_kbps = or_num (dev_tx_kbps d) (Option.bind w wc_tx_kbps),
       ddm_rx_kbps = or_num (dev_rx_kbps d) (Option.bind w wc_rx_kbps),
       ddm_ssid = or_text (dev_ssid d) (wf wc_ssid), ddm_band = or_text (dev_band d) (wf wc_band),
       ddm_ap_mac = or_text (dev_ap_mac d) (wf wc_ap_mac), ddm_ap_name = or_text (dev_ap_name d) (wf wc_ap_name),
       ddm_intf_uuid = dev_intf_uuid d, ddm_tag_ids = dev_tag_ids d, ddm_dap = dev_dap d\<rparr>)"

definition deviceFromCatalog :: "rat \<Rightarrow> Device option \<Rightarrow> WirelessClient option \<Rightarrow> DeviceDetailModel option" where
  "deviceFromCatalog nowMs d w =
     (case d of
        Some cat \<Rightarrow> Some (catalog_model cat w)
      | None \<Rightarrow> map_option (wifi_model nowMs) w)"

definition fmtRate :: "(rat \<Rightarrow> string) \<Rightarrow> rat option \<Rightarrow> string" where
  "fmtRate str_num kbps =
     (case kbps of
        None \<Rightarrow> []
      | Some k \<Rightarrow>
          if k \<le> 0 then []
          else if 1000000 \<le> k then toFixed 1 (k / 1000000) @ '' Gbps''
          else if 1000 \<le> k then dec_int (js_round (k / 1000)) @ '' Mbps''
          else str_num k @ '' kbps'')"

definition groupNameFor :: "DeviceDetailModel \<Rightarrow> (string \<Rightarrow> string \<Rightarrow> string) \<Rightarrow> string option" where
  "groupNameFor d labelTag =
     (case opt_list (ddm_tag_ids d) of
        i # _ \<Rightarrow> if i \<noteq> [] then Some (labelTag i ''group'') else None
      | [] \<Rightarrow> None)"

section \<open>The policy of a device\<close>

record HostPolicyPatch =
  pp_monitor :: "bool option"
  pp_isolation :: "bool option"
  pp_emergency :: "bool option"
  pp_adblock :: "bool option"
  pp_family :: "bool option"
  pp_note :: "string option"
  pp_tags :: "string list option"

text \<open>\<open>a ?? b\<close>\<close>

definition nullish :: "'a option \<Rightarrow> 'a option \<Rightarrow> 'a option" where
  "nullish a b = (if a = None then b else a)"

definition applyPolicyPatchOptimistic :: "FwAppHostPolicy \<Rightarrow> HostPolicyPatch \<Rightarrow> FwAppHostPolicy" where
  "applyPolicyPatchOptimistic cur patch =
     (let (emergency, monitor) =
            (if pp_emergency patch = Some True then (True, False)
             else if pp_emergency patch = Some False then (False, hpo_monitor cur)
             else (hpo_emergency cur = Some True, hpo_monitor cur));
          (emergency, monitor) =
            (if pp_monitor patch = Some True then (False, True)
             else if pp_monitor patch = Some False then (emergency, False)
             else (emergency, monitor))
      in cur\<lparr>hpo_monitor := monitor, hpo_emergency := Some emergency,
             hpo_isolated := (case pp_isolation patch of Some b \<Rightarrow> b | None \<Rightarrow> hpo_isolated cur),
             hpo_adblock := nullish (pp_adblock patch) (hpo_adblock cur),
             hpo_family := nullish (pp_family patch) (hpo_family cur),
             hpo_note := nullish (pp_note patch) (hpo_note cur),
             hpo_tags := nullish (pp_tags patch) (hpo_tags cur)\<rparr>)"

text \<open>The list of the conditions under which the answer is \<open>false\<close>, in their order.\<close>

definition hostPolicyMatchesPatch :: "FwAppHostPolicy \<Rightarrow> HostPolicyPatch \<Rightarrow> bool" where
  "hostPolicyMatchesPatch pol patch =
     (let emergency = (hpo_emergency pol = Some True) in
      if pp_emergency patch \<noteq> None \<and> Some emergency \<noteq> pp_emergency patch then False
      else if pp_emergency patch = Some True \<and> pp_monitor patch = None \<and> hpo_monitor pol then False
      else if pp_monitor patch = Some True \<and> pp_emergency patch = None \<and> emergency then False
      else if pp_monitor patch \<noteq> None \<and> Some (hpo_monitor pol) \<noteq> pp_monitor patch then False
      else if pp_isolation patch \<noteq> None \<and> Some (hpo_isolated pol) \<noteq> pp_isolation patch then False
      else if pp_adblock patch \<noteq> None \<and> Some (hpo_adblock pol = Some True) \<noteq> pp_adblock patch then False
      else if pp_family patch \<noteq> None \<and> Some (hpo_family pol = Some True) \<noteq> pp_family patch then False
      else if pp_note patch \<noteq> None \<and> Some (opt_str (hpo_note pol)) \<noteq> pp_note patch then False
      else if pp_tags patch \<noteq> None \<and>
        join [CHR 0x00] (opt_list (hpo_tags pol)) \<noteq> join [CHR 0x00] (opt_list (pp_tags patch)) then False
      else True)"

definition pickHostPolicy ::
  "FwAppHostPolicy option \<Rightarrow> FwAppHostPolicy option \<Rightarrow> HostPolicyPatch \<Rightarrow> FwAppHostPolicy option" where
  "pickHostPolicy fetched posted patch =
     (if (case fetched of Some p \<Rightarrow> hostPolicyMatchesPatch p patch | None \<Rightarrow> False) then fetched
      else if (case posted of Some p \<Rightarrow> hostPolicyMatchesPatch p patch | None \<Rightarrow> False) then posted
      else nullish posted fetched)"

section \<open>The panel\<close>

record DetailProps =
  pr_device :: DeviceDetailModel
  pr_writesAllowed :: bool
  pr_unifi :: "ModuleInfo option"
  pr_domainSuffix :: "string option"

text \<open>What the panel writes to the box, and what it tells its parent.\<close>

datatype WriteRequest =
    WakeRequest mac
  | RenameRequest mac string bool
  | DnsRequest mac string
  | PolicyRequest mac HostPolicyPatch

datatype DetailCall =
    OnRenamed mac string
  | OnDNSUpdated mac string
  | OnGroupUpdated mac "string list"

text \<open>
  The answer of the server: the request itself fails, or there is a status and a body. Where the
  code catches a body that is no JSON, it is the empty object, a body without fields; where it does
  not, it counts as a failed request.
\<close>

datatype 'b Reply = NetError | Reply (reply_ok: bool) (reply_body: 'b)

record RenameBody =
  rb_error :: "string option"
  rb_name :: "string option"
  rb_unifi_warning :: "string option"

record DnsBody =
  db_error :: "string option"
  db_hostname :: "string option"

record PolicyBody =
  pb_error :: "string option"
  pb_policy :: "FwAppHostPolicy option"

text \<open>What a running handler has captured.\<close>

datatype PolicyCall =
    Posting mac FwAppHostPolicy HostPolicyPatch
  | Fetching mac FwAppHostPolicy HostPolicyPatch "FwAppHostPolicy option"

record Detail =
  dt_controlAvailable :: bool
  dt_wakeBusy :: bool
  dt_toast :: "string option"
  dt_displayName :: string
  dt_displayDomain :: string
  dt_renaming :: bool
  dt_editingDNS :: bool
  dt_draftName :: string
  dt_draftDNS :: string
  dt_pushUnifi :: bool
  dt_renameBusy :: bool
  dt_dnsBusy :: bool
  dt_hostPol :: "FwAppHostPolicy option"
  dt_polBusy :: bool
  dt_draftNote :: string
  run_wake :: "string option"
  run_rename :: "(mac \<times> string) option"
  run_dns :: "(mac \<times> string \<times> string) option"
  run_policy :: "PolicyCall option"
  run_load :: bool
  dt_sent :: "WriteRequest list"
  dt_calls :: "DetailCall list"

definition pr_suffix :: "DetailProps \<Rightarrow> string" where
  "pr_suffix p = normalizeDomainSuffix (pr_domainSuffix p)"

definition device_label :: "DetailProps \<Rightarrow> string" where
  "device_label p = dnsHostnameLabel (opt_str (ddm_local_domain (pr_device p))) (pr_suffix p)"

definition detail_init :: "DetailProps \<Rightarrow> Detail" where
  "detail_init p =
     \<lparr>dt_controlAvailable = False, dt_wakeBusy = False, dt_toast = None,
      dt_displayName = ddm_name (pr_device p), dt_displayDomain = device_label p,
      dt_renaming = False, dt_editingDNS = False, dt_draftName = ddm_name (pr_device p),
      dt_draftDNS = device_label p, dt_pushUnifi = False, dt_renameBusy = False, dt_dnsBusy = False,
      dt_hostPol = None, dt_polBusy = False, dt_draftNote = [],
      run_wake = None, run_rename = None, run_dns = None, run_policy = None, run_load = False,
      dt_sent = [], dt_calls = []\<rparr>"

definition controlReady :: "DetailProps \<Rightarrow> Detail \<Rightarrow> bool" where
  "controlReady p s \<longleftrightarrow> pr_writesAllowed p \<and> dt_controlAvailable s"

definition unifiPushAvailable :: "DetailProps \<Rightarrow> bool" where
  "unifiPushAvailable p =
     (case pr_unifi p of
        Some u \<Rightarrow> mi_enabled u \<and> mi_status u = Some ModOk \<and> mi_name_sync_enabled u = Some True
      | None \<Rightarrow> False)"

definition toast :: "string \<Rightarrow> Detail \<Rightarrow> Detail" where
  "toast msg s = s\<lparr>dt_toast := Some msg\<rparr>"

definition or_msg :: "string option \<Rightarrow> string \<Rightarrow> string" where
  "or_msg e msg = or_else (opt_str e) msg"

subsection \<open>Effects\<close>

definition device_effect :: "DetailProps \<Rightarrow> Detail \<Rightarrow> Detail" where
  "device_effect p s =
     s\<lparr>dt_displayName := ddm_name (pr_device p), dt_draftName := ddm_name (pr_device p),
       dt_displayDomain := device_label p, dt_draftDNS := device_label p,
       dt_renaming := False, dt_editingDNS := False\<rparr>"

text \<open>The answer to the question whether the box can be controlled: paired, and in which state.\<close>

definition status_answer :: "(bool \<times> string) Reply \<Rightarrow> Detail \<Rightarrow> Detail" where
  "status_answer r s =
     (case r of
        NetError \<Rightarrow> s\<lparr>dt_controlAvailable := False\<rparr>
      | Reply ok (paired, state) \<Rightarrow>
          if \<not> ok then s else s\<lparr>dt_controlAvailable := (paired \<and> state = ''lan-ok'')\<rparr>)"

definition policy_effect :: "DetailProps \<Rightarrow> Detail \<Rightarrow> Detail" where
  "policy_effect p s =
     (if controlReady p s then s\<lparr>run_load := True\<rparr> else s\<lparr>dt_hostPol := None, run_load := False\<rparr>)"

definition show_policy :: "FwAppHostPolicy \<Rightarrow> Detail \<Rightarrow> Detail" where
  "show_policy pol s = s\<lparr>dt_hostPol := Some pol, dt_draftNote := opt_str (hpo_note pol)\<rparr>"

definition load_answer :: "PolicyBody Reply \<Rightarrow> Detail \<Rightarrow> Detail" where
  "load_answer r s =
     (let s = s\<lparr>run_load := False\<rparr> in
      case r of
        NetError \<Rightarrow> s\<lparr>dt_hostPol := None\<rparr>
      | Reply ok body \<Rightarrow>
          if \<not> ok then s else (case pb_policy body of Some pol \<Rightarrow> show_policy pol s | None \<Rightarrow> s))"

subsection \<open>Renaming and the local name\<close>

definition startRename :: "DetailProps \<Rightarrow> Detail \<Rightarrow> Detail" where
  "startRename p s =
     s\<lparr>dt_editingDNS := False, dt_draftName := dt_displayName s,
       dt_pushUnifi := unifiPushAvailable p \<and>
         (case pr_unifi p of Some u \<Rightarrow> mi_name_sync_auto u = Some True | None \<Rightarrow> False),
       dt_renaming := True\<rparr>"

definition startDNS :: "Detail \<Rightarrow> Detail" where
  "startDNS s = s\<lparr>dt_renaming := False, dt_draftDNS := dt_displayDomain s, dt_editingDNS := True\<rparr>"

definition saveRename :: "DetailProps \<Rightarrow> Detail \<Rightarrow> Detail" where
  "saveRename p s =
     (if \<not> controlReady p s \<or> dt_renameBusy s then s
      else let name = trim (dt_draftName s); m = ddm_mac (pr_device p) in
        if name = [] then toast ''Name required'' s
        else s\<lparr>dt_renameBusy := True, run_rename := Some (m, name),
               dt_sent := dt_sent s @ [RenameRequest m name (unifiPushAvailable p \<and> dt_pushUnifi s)]\<rparr>)"

text \<open>The separator is U+00B7, the middle dot.\<close>

definition rename_answer :: "mac \<Rightarrow> string \<Rightarrow> RenameBody Reply \<Rightarrow> Detail \<Rightarrow> Detail" where
  "rename_answer m name r s =
     (let s = s\<lparr>dt_renameBusy := False, run_rename := None\<rparr> in
      case r of
        NetError \<Rightarrow> toast ''Rename failed'' s
      | Reply ok body \<Rightarrow>
          if \<not> ok then toast (or_msg (rb_error body) ''Rename failed'') s
          else let nx = or_msg (rb_name body) name in
            toast (if truthy (rb_unifi_warning body)
                   then ''Renamed '' @ [CHR 0xB7] @ '' '' @ opt_str (rb_unifi_warning body) else ''Renamed'')
              (s\<lparr>dt_displayName := nx, dt_renaming := False, dt_calls := dt_calls s @ [OnRenamed m nx]\<rparr>))"

definition saveDNS :: "DetailProps \<Rightarrow> Detail \<Rightarrow> Detail" where
  "saveDNS p s =
     (if \<not> controlReady p s \<or> dt_dnsBusy s then s
      else let hostname = dnsHostnameLabel (dt_draftDNS s) (pr_suffix p); m = ddm_mac (pr_device p) in
        s\<lparr>dt_dnsBusy := True, run_dns := Some (m, hostname, pr_suffix p),
          dt_sent := dt_sent s @ [DnsRequest m hostname]\<rparr>)"

definition dns_answer :: "mac \<Rightarrow> string \<Rightarrow> string \<Rightarrow> DnsBody Reply \<Rightarrow> Detail \<Rightarrow> Detail" where
  "dns_answer m hostname sfx r s =
     (let s = s\<lparr>dt_dnsBusy := False, run_dns := None\<rparr> in
      case r of
        NetError \<Rightarrow> toast ''DNS update failed'' s
      | Reply ok body \<Rightarrow>
          if \<not> ok then toast (or_msg (db_error body) ''DNS update failed'') s
          else let nx = dnsHostnameLabel (case db_hostname body of Some h \<Rightarrow> h | None \<Rightarrow> hostname) sfx in
            toast ''Saved'' (s\<lparr>dt_displayDomain := nx, dt_editingDNS := False,
              dt_calls := dt_calls s @ [OnDNSUpdated m nx]\<rparr>))"

definition wake :: "DetailProps \<Rightarrow> Detail \<Rightarrow> Detail" where
  "wake p s =
     (if \<not> controlReady p s \<or> dt_wakeBusy s then s
      else s\<lparr>dt_wakeBusy := True, run_wake := Some (dt_displayName s),
             dt_sent := dt_sent s @ [WakeRequest (ddm_mac (pr_device p))]\<rparr>)"

definition wake_answer :: "string \<Rightarrow> string option Reply \<Rightarrow> Detail \<Rightarrow> Detail" where
  "wake_answer name r s =
     (let s = s\<lparr>dt_wakeBusy := False, run_wake := None\<rparr> in
      case r of
        NetError \<Rightarrow> toast ''Wake failed'' s
      | Reply ok err \<Rightarrow>
          if \<not> ok then toast (or_msg err ''Wake failed'') s
          else toast (''Wake sent '' @ [CHR 0xB7] @ '' '' @ name) s)"

subsection \<open>Changing the policy\<close>

definition setPolicy :: "DetailProps \<Rightarrow> HostPolicyPatch \<Rightarrow> Detail \<Rightarrow> Detail" where
  "setPolicy p patch s =
     (if \<not> controlReady p s \<or> dt_polBusy s then s
      else case dt_hostPol s of
        None \<Rightarrow> s
      | Some cur \<Rightarrow>
          let m = ddm_mac (pr_device p) in
          s\<lparr>dt_hostPol := Some (applyPolicyPatchOptimistic cur patch), dt_polBusy := True,
            run_policy := Some (Posting m cur patch), dt_sent := dt_sent s @ [PolicyRequest m patch]\<rparr>)"

definition policy_failed :: "FwAppHostPolicy \<Rightarrow> string \<Rightarrow> Detail \<Rightarrow> Detail" where
  "policy_failed prev msg s =
     toast msg (s\<lparr>dt_hostPol := Some prev, dt_polBusy := False, run_policy := None\<rparr>)"

definition accept_policy :: "mac \<Rightarrow> HostPolicyPatch \<Rightarrow> FwAppHostPolicy option \<Rightarrow> Detail \<Rightarrow> Detail" where
  "accept_policy m patch pol s =
     (case pol of
        None \<Rightarrow> s
      | Some np \<Rightarrow>
          let s = show_policy np s in
          (case pp_tags patch of
             Some ts \<Rightarrow> s\<lparr>dt_calls := dt_calls s @
               [OnGroupUpdated m (case hpo_tags np of Some us \<Rightarrow> us | None \<Rightarrow> ts)]\<rparr>
           | None \<Rightarrow> s))"

definition post_answer :: "mac \<Rightarrow> FwAppHostPolicy \<Rightarrow> HostPolicyPatch \<Rightarrow> PolicyBody Reply \<Rightarrow> Detail \<Rightarrow> Detail" where
  "post_answer m prev patch r s =
     (case r of
        NetError \<Rightarrow> policy_failed prev ''Policy failed'' s
      | Reply ok body \<Rightarrow>
          if \<not> ok then policy_failed prev (or_msg (pb_error body) ''Policy failed'') s
          else (accept_policy m patch (pb_policy body) s)
            \<lparr>run_policy := Some (Fetching m prev patch (pb_policy body))\<rparr>)"

text \<open>The status of this answer is not looked at; a body without a policy counts as none.\<close>

definition get_answer ::
  "mac \<Rightarrow> FwAppHostPolicy \<Rightarrow> HostPolicyPatch \<Rightarrow> FwAppHostPolicy option \<Rightarrow> PolicyBody Reply \<Rightarrow> Detail \<Rightarrow> Detail" where
  "get_answer m prev patch posted r s =
     (case r of
        NetError \<Rightarrow> policy_failed prev ''Policy failed'' s
      | Reply ok body \<Rightarrow>
          (accept_policy m patch (pickHostPolicy (pb_policy body) posted patch) s)
            \<lparr>dt_polBusy := False, run_policy := None\<rparr>)"

definition note_patch :: "string \<Rightarrow> HostPolicyPatch" where
  "note_patch t = \<lparr>pp_monitor = None, pp_isolation = None, pp_emergency = None, pp_adblock = None,
     pp_family = None, pp_note = Some t, pp_tags = None\<rparr>"

definition saveNote :: "DetailProps \<Rightarrow> Detail \<Rightarrow> Detail" where
  "saveNote p s =
     (if \<not> controlReady p s \<or> dt_polBusy s then s else setPolicy p (note_patch (trim (dt_draftNote s))) s)"

subsection \<open>Steps\<close>

text \<open>
  One event: an effect, an input, a click, or the answer to a request that is running. The properties
  given by the parent may differ from step to step.
\<close>

inductive detail_step :: "DetailProps \<Rightarrow> Detail \<Rightarrow> Detail \<Rightarrow> bool" for p where
  Device: "detail_step p s (device_effect p s)"
| Status: "detail_step p s (status_answer st s)"
| PolicyEffect: "detail_step p s (policy_effect p s)"
| Loaded: "run_load s \<Longrightarrow> detail_step p s (load_answer pr s)"
| TypeName: "detail_step p s (s\<lparr>dt_draftName := t\<rparr>)"
| TypeDNS: "detail_step p s (s\<lparr>dt_draftDNS := t\<rparr>)"
| TypeNote: "detail_step p s (s\<lparr>dt_draftNote := t\<rparr>)"
| Push: "detail_step p s (s\<lparr>dt_pushUnifi := b\<rparr>)"
| StopRename: "detail_step p s (s\<lparr>dt_renaming := False\<rparr>)"
| StopDNS: "detail_step p s (s\<lparr>dt_editingDNS := False\<rparr>)"
| StartRename: "detail_step p s (startRename p s)"
| StartDNS: "detail_step p s (startDNS s)"
| SaveRename: "detail_step p s (saveRename p s)"
| Renamed: "run_rename s = Some (m, n) \<Longrightarrow> detail_step p s (rename_answer m n rr s)"
| SaveDNS: "detail_step p s (saveDNS p s)"
| DNSSaved: "run_dns s = Some (m, h, sfx) \<Longrightarrow> detail_step p s (dns_answer m h sfx dr s)"
| Wake: "detail_step p s (wake p s)"
| Woken: "run_wake s = Some n \<Longrightarrow> detail_step p s (wake_answer n wr s)"
| SetPolicy: "detail_step p s (setPolicy p patch s)"
| SaveNote: "detail_step p s (saveNote p s)"
| PostDone: "run_policy s = Some (Posting m prev patch) \<Longrightarrow> detail_step p s (post_answer m prev patch pr s)"
| GetDone: "run_policy s = Some (Fetching m prev patch posted) \<Longrightarrow> detail_step p s (get_answer m prev patch posted pr s)"

inductive detail_reach :: "Detail \<Rightarrow> bool" where
  Init: "detail_reach (detail_init p)"
| Step: "detail_reach s \<Longrightarrow> detail_step p s s' \<Longrightarrow> detail_reach s'"

section \<open>Properties of the policy\<close>

text \<open>the policy shown while a change is on its way has every field of the change, except when the
  change asks for emergency access and for monitoring at once: then monitoring wins.\<close>

theorem optimistic_matches:
  "hostPolicyMatchesPatch (applyPolicyPatchOptimistic cur patch) patch \<longleftrightarrow>
     \<not> (pp_emergency patch = Some True \<and> pp_monitor patch = Some True)"
  by (cases "pp_emergency patch"; cases "pp_monitor patch"; cases "pp_isolation patch"; cases "pp_adblock patch";
      cases "pp_family patch"; cases "pp_note patch")
    (auto simp: hostPolicyMatchesPatch_def applyPolicyPatchOptimistic_def Let_def nullish_def opt_str_def)

text \<open>Of the two answers of the server the panel takes one that agrees with the change, if there is one.\<close>

lemma pick_spec:
  "(case pickHostPolicy fetched posted patch of Some pol \<Rightarrow> hostPolicyMatchesPatch pol patch | None \<Rightarrow> False) \<longleftrightarrow>
     list_ex (\<lambda>pol. hostPolicyMatchesPatch pol patch) (case_option [] (\<lambda>x. [x]) fetched @ case_option [] (\<lambda>x. [x]) posted)"
  by (cases fetched; cases posted) (auto simp: pickHostPolicy_def nullish_def)

section \<open>Properties of the panel\<close>

lemmas panel_defs =
  detail_init_def device_effect_def status_answer_def policy_effect_def load_answer_def startRename_def startDNS_def
  saveRename_def rename_answer_def saveDNS_def dns_answer_def wake_def wake_answer_def setPolicy_def policy_failed_def
  accept_policy_def post_answer_def get_answer_def saveNote_def show_policy_def toast_def Let_def

text \<open>A request is running exactly while its mark is set.\<close>

definition busy_ok :: "Detail \<Rightarrow> bool" where
  "busy_ok s \<longleftrightarrow>
     (dt_wakeBusy s \<longleftrightarrow> run_wake s \<noteq> None) \<and> (dt_renameBusy s \<longleftrightarrow> run_rename s \<noteq> None) \<and>
     (dt_dnsBusy s \<longleftrightarrow> run_dns s \<noteq> None) \<and> (dt_polBusy s \<longleftrightarrow> run_policy s \<noteq> None)"

lemma busy_accept: "busy_ok s \<Longrightarrow> busy_ok (accept_policy m patch pol s)"
  by (simp add: busy_ok_def accept_policy_def show_policy_def Let_def split: option.split)

lemma accept_run [simp]: "run_policy (accept_policy m patch pol s) = run_policy s"
  by (simp add: accept_policy_def show_policy_def Let_def split: option.split)

lemma busy_step: "detail_step p s s' \<Longrightarrow> busy_ok s \<Longrightarrow> busy_ok s'"
proof (induction rule: detail_step.induct)
  case (PostDone s m prev patch pr)
  then show ?case using busy_accept [OF PostDone(2)]
    by (auto simp: post_answer_def policy_failed_def toast_def busy_ok_def split: Reply.split)
next
  case (GetDone s m prev patch posted pr)
  then show ?case using busy_accept [OF GetDone(2)]
    by (simp add: get_answer_def policy_failed_def toast_def busy_ok_def split: Reply.split)
qed (simp_all add: panel_defs busy_ok_def split: Reply.split option.split prod.split)


text \<open>C39: while the parent does not allow writes (the anonymity mode is on) or the box cannot be controlled, no
  event makes the panel send a request that changes the box.\<close>

theorem no_write_unless_ready:
  assumes "detail_step p s s'" "\<not> controlReady p s"
  shows "dt_sent s' = dt_sent s"
  using assms
proof (induction rule: detail_step.induct)
  case (PostDone s m prev patch pr)
  then show ?case by (cases pr) (auto simp: panel_defs split: option.split)
next
  case (GetDone s m prev patch posted pr)
  then show ?case by (cases pr) (auto simp: panel_defs split: option.split)
qed (simp_all add: panel_defs split: Reply.split option.split prod.split)

definition sample_model :: DeviceDetailModel where
  "sample_model = wifi_model 0 \<lparr>wc_mac = ''AA:BB'', wc_name = Some ''tv'', wc_ip = None, wc_ssid = None, wc_band = None,
     wc_ap_mac = None, wc_ap_name = None, wc_hostname = None, wc_os = None, wc_tx_kbps = None, wc_rx_kbps = None\<rparr>"

definition sample_props :: "bool \<Rightarrow> DetailProps" where
  "sample_props w = \<lparr>pr_device = sample_model, pr_writesAllowed = w, pr_unifi = None, pr_domainSuffix = Some ''lan''\<rparr>"

theorem no_write_unless_ready_witness:
  "dt_sent (wake (sample_props False) (detail_init (sample_props False))) = []"
  using no_write_unless_ready [OF detail_step.Wake [of "sample_props False" "detail_init (sample_props False)"]]
  by (simp add: controlReady_def sample_props_def detail_init_def)


text \<open>C40: a change of the policy that the server refuses, or whose request fails, leaves the panel with the
  policy it showed before; one that the server answers twice with the policy asked for leaves it with
  a policy that agrees with the change. In both cases the panel is free again.\<close>

theorem policy_change_outcome:
  assumes "controlReady p s" "\<not> dt_polBusy s" "dt_hostPol s = Some cur"
    and "m = ddm_mac (pr_device p)" "s1 = setPolicy p patch s"
    and "hostPolicyMatchesPatch pol patch"
  shows "let failed = post_answer m cur patch NetError s1; refused = post_answer m cur patch (Reply False body) s1;
             kept = get_answer m cur patch (Some pol) r (post_answer m cur patch (Reply True \<lparr>pb_error = e, pb_policy = Some pol\<rparr>) s1)
    in dt_hostPol failed = Some cur \<and> \<not> dt_polBusy failed \<and> dt_hostPol refused = Some cur \<and> \<not> dt_polBusy refused \<and>
       \<not> dt_polBusy kept \<and>
       (case r of NetError \<Rightarrow> dt_hostPol kept = Some cur
        | Reply _ _ \<Rightarrow> (case dt_hostPol kept of Some q \<Rightarrow> hostPolicyMatchesPatch q patch | None \<Rightarrow> False))"
proof (cases r)
  case NetError
  then show ?thesis using assms(1-3) unfolding assms(5)
    by (simp add: panel_defs split: option.split)
next
  case (Reply ok b)
  have "case pickHostPolicy (pb_policy b) (Some pol) patch of Some q \<Rightarrow> hostPolicyMatchesPatch q patch | None \<Rightarrow> False"
    unfolding pick_spec using assms(6) by simp
  then obtain q where "pickHostPolicy (pb_policy b) (Some pol) patch = Some q" "hostPolicyMatchesPatch q patch"
    by (auto split: option.splits)
  with Reply assms(1-3) show ?thesis unfolding assms(5)
    by (simp add: panel_defs split: option.split)
qed

definition sample_policy :: FwAppHostPolicy where
  "sample_policy = \<lparr>hpo_mac = ''AA:BB'', hpo_label = None, hpo_monitor = True, hpo_isolated = False,
     hpo_emergency = None, hpo_adblock = None, hpo_family = None, hpo_note = None, hpo_tags = None\<rparr>"

definition sample_ready :: Detail where
  "sample_ready = (detail_init (sample_props True))\<lparr>dt_controlAvailable := True, dt_hostPol := Some sample_policy\<rparr>"

theorem policy_change_outcome_witness:
  "dt_hostPol (post_answer ''AA:BB'' sample_policy (note_patch ''x'') NetError
     (setPolicy (sample_props True) (note_patch ''x'') sample_ready)) = Some sample_policy"
proof -
  have ready: "controlReady (sample_props True) sample_ready" "\<not> dt_polBusy sample_ready"
    "dt_hostPol sample_ready = Some sample_policy" "''AA:BB'' = ddm_mac (pr_device (sample_props True))"
    by (simp_all add: controlReady_def sample_props_def sample_ready_def detail_init_def sample_model_def wifi_model_def)
  have "hostPolicyMatchesPatch (applyPolicyPatchOptimistic sample_policy (note_patch ''x'')) (note_patch ''x'')"
    by (simp add: hostPolicyMatchesPatch_def applyPolicyPatchOptimistic_def note_patch_def nullish_def opt_str_def)
  from policy_change_outcome [OF ready refl this, of _ NetError] show ?thesis by (simp add: Let_def)
qed

section \<open>Properties of the local name\<close>

lemma lower_normal [simp]: "toLowerCase (normalizeDomainSuffix sfx) = normalizeDomainSuffix sfx"
  by (simp add: normalizeDomainSuffix_def)

lemma endsWith_append [simp]: "endsWith (s @ t) t"
  by (simp add: endsWith_def)

lemma loc_dot: "toLowerCase (CHR ''.'' # s) = CHR ''.'' # toLowerCase s"
  by (simp add: toLowerCase_def loc_def is_upper_def)

lemma length_dropWhile_self: "length (dropWhile P s) = length s \<Longrightarrow> dropWhile P s = s"
  by (metis append_eq_append_conv2 append_self_conv2 length_append length_greater_0_conv
      less_add_same_cancel1 nat_neq_iff takeWhile_dropWhile_id add.commute)

lemma length_trim_le: "length (trim s) \<le> length (dropWhile is_ws s)" "length (dropWhile is_ws s) \<le> length s"
  using length_dropWhile_le [of is_ws "rev (dropWhile is_ws s)"] length_dropWhile_le [of is_ws s]
  by (simp_all add: trim_def trimEnd_def trimStart_def)

lemma trim_fixed_ends:
  assumes "trim s = s" "s \<noteq> []"
  shows "\<not> is_ws (hd s)" "\<not> is_ws (last s)"
proof -
  have "dropWhile is_ws s = s"
    using length_trim_le [of s] assms(1) by (intro length_dropWhile_self) simp
  then show "\<not> is_ws (hd s)" using assms(2) by (metis hd_dropWhile)
  show "\<not> is_ws (last s)" using trimEnd_no_ws [of "trimStart s"] assms by (simp add: trim_def)
qed

text \<open>A suffix in its normal form has no space and no dot around it.\<close>

lemma normal_trim: "normalizeDomainSuffix (Some s) = s \<Longrightarrow> trim s = s"
proof -
  assume normal: "normalizeDomainSuffix (Some s) = s"
  have "length (strip_dots t) \<le> length t" for t
    using length_dropWhile_le [of "\<lambda>c. c = CHR ''.''" "rev (dropWhile (\<lambda>c. c = CHR ''.'') t)"]
      length_dropWhile_le [of "\<lambda>c. c = CHR ''.''" t]
    by (simp add: strip_dots_def)
  from this [of "trim s"] normal have "length s \<le> length (trim s)"
    by (metis length_case(2) normalizeDomainSuffix_def opt_str_def option.simps(5))
  then have "length (trim s) = length s" using length_trim_le [of s] by simp
  moreover have "length (dropWhile is_ws s) = length s" using length_trim_le [of s] calculation by simp
  ultimately show "trim s = s"
    by (metis length_dropWhile_self length_rev rev_rev_ident trimEnd_def trimStart_def trim_def)
qed

lemma label_start:
  "dnsHostnameLabel host s = [] \<longleftrightarrow> trim host = []"
  "trim host \<noteq> [] \<Longrightarrow> hd (dnsHostnameLabel host s) = hd (trim host)"
  by (auto simp: dnsHostnameLabel_def Let_def hd_take)

text \<open>the full local name of a device, with the domain the box is configured with, gives back the name of
  the device without the domain, whichever of the two forms was typed.\<close>

theorem local_name_round_trip:
  assumes "s = normalizeDomainSuffix sfx" "normalizeDomainSuffix (Some s) = s"
  shows "dnsHostnameLabel (formatLocalFQDN host sfx) s = dnsHostnameLabel host s"
proof -
  let ?l = "dnsHostnameLabel host s"
  consider "?l = []" | "?l \<noteq> []" "s = []" | "?l \<noteq> []" "s \<noteq> []" by blast
  then show ?thesis
  proof cases
    case 1
    then show ?thesis using assms(1) by (simp add: formatLocalFQDN_def dnsHostnameLabel_def Let_def)
  next
    case 2
    then have "?l = trim host" using assms(2) by (simp add: dnsHostnameLabel_def)
    then show ?thesis using 2 assms by (simp add: formatLocalFQDN_def) (simp add: dnsHostnameLabel_def)
  next
    case 3
    let ?f = "?l @ ''.'' @ s"
    have f: "formatLocalFQDN host sfx = ?f" using 3 assms(1) by (simp add: formatLocalFQDN_def Let_def)
    have "trim host \<noteq> []" using 3 label_start(1) by simp
    then have "\<not> is_ws (hd ?l)" using trim_fixed_ends(1) [of "trim host"] by (simp add: label_start(2))
    moreover have "\<not> is_ws (last s)" using trim_fixed_ends(2) normal_trim assms(2) 3 by blast
    ultimately have "trim ?f = ?f" using 3 by (intro trim_clean) simp
    moreover have "toLowerCase ?f = toLowerCase ?l @ ''.'' @ s"
      using assms(1) by (simp add: toLowerCase_def [of "_ @ _"] loc_dot [of "[]", simplified toLowerCase_def, simplified] flip: toLowerCase_def)
    moreover have "endsWith (toLowerCase ?l @ ''.'' @ s) (''.'' @ s)" by (rule endsWith_append)
    ultimately show ?thesis
      unfolding f dnsHostnameLabel_def [of ?f] using 3 assms(2) by (simp add: Let_def)
  qed
qed

theorem local_name_round_trip_witness:
  "dnsHostnameLabel (formatLocalFQDN '' nas.LAN '' (Some ''.lan'')) ''lan'' = dnsHostnameLabel '' nas.LAN '' ''lan''"
  by (rule local_name_round_trip) (code_simp, code_simp)

end
