(* ===== verification/AppLoad.thy ===== *)
theory AppLoad
  imports NavStack Format
begin

text \<open>
  What the application keeps of the server's answers (\<open>ui/src/App.tsx\<close> and \<open>ui/src/lib/api.ts\<close>): the check
  of the session, the load that asks fifteen questions at once and stores the answers one after the
  other, and the bell. A body that does not decode raises, which ends the load there: the answers
  before it are stored, the ones after it are not. A load is started every five seconds, so several
  of them may be running; leaving the page or the session cancels them all, and a cancelled load
  stores nothing any more.
\<close>

section \<open>Answers\<close>

text \<open>
  A status and a body; the body is the reason of the failure when it does not decode.
\<close>

datatype 'b Resp = Resp (rs_status: nat) (rs_body: "string + 'b")

definition rs_ok :: "'b Resp \<Rightarrow> bool" where
  "rs_ok r \<longleftrightarrow> 200 \<le> rs_status r \<and> rs_status r \<le> 299"

text \<open>\<open>api\<close>: an answer 401 tells the application that a session is needed, except for the login itself.\<close>

definition api_needs_auth :: "string \<Rightarrow> 'b Resp \<Rightarrow> bool" where
  "api_needs_auth path r \<longleftrightarrow> rs_status r = 401 \<and> \<not> startsWith path ''/v1/auth/login''"

section \<open>The session\<close>

datatype Auth = Checking | Needed | AuthOk

record LoginOptions =
  lo_oidc_enabled :: "bool option"
  lo_oidc_name :: "string option"

record AuthState =
  as_auth :: Auth
  as_oidcEnabled :: bool
  as_oidcName :: string

definition auth_event :: "AuthState \<Rightarrow> AuthState" where
  "auth_event s = s\<lparr>as_auth := Needed\<rparr>"

definition login_options :: "LoginOptions Resp \<Rightarrow> AuthState \<Rightarrow> string + AuthState" where
  "login_options opt s =
     (if rs_ok opt then
        (case rs_body opt of
           Inr b \<Rightarrow> Inr (s\<lparr>as_oidcEnabled := (lo_oidc_enabled b = Some True), as_oidcName := opt_trim (lo_oidc_name b)\<rparr>)
         | Inl e \<Rightarrow> Inl e)
      else Inr s)"

text \<open>
  \<open>checkAuth\<close> after both answers have come; \<open>None\<close> stands for a request that failed. The body of the second
  answer says whether there is a session.
\<close>

definition checkAuth :: "(LoginOptions Resp \<times> bool option Resp) option \<Rightarrow> AuthState \<Rightarrow> AuthState" where
  "checkAuth answers s =
     (case answers of
        None \<Rightarrow> s\<lparr>as_auth := Needed\<rparr>
      | Some (opt, me) \<Rightarrow>
          (case login_options opt s of
             Inl _ \<Rightarrow> s\<lparr>as_auth := Needed\<rparr>
           | Inr s1 \<Rightarrow>
               if rs_ok me then
                 (case rs_body me of
                    Inl _ \<Rightarrow> s1\<lparr>as_auth := Needed\<rparr>
                  | Inr authenticated \<Rightarrow>
                      if authenticated = Some True then s1\<lparr>as_auth := AuthOk\<rparr>
                      else s1\<lparr>as_auth := (if rs_status me = 401 \<or> \<not> rs_ok me then Needed else AuthOk)\<rparr>)
               else s1\<lparr>as_auth := (if rs_status me = 401 \<or> \<not> rs_ok me then Needed else AuthOk)\<rparr>))"

section \<open>The data of the application\<close>

record PersistInfo =
  pi_enabled :: "bool option"
  pi_retention_days :: "int option"
  pi_points :: "int option"

record AgentHealth =
  ah_online :: "bool option"
  ah_host :: "string option"
  ah_version :: "string option"
  ah_last_seen :: "int option"

record NetworkExtras =
  ne_extras_provenance :: "Provenance option"
  ne_features :: "WanFeatures option"
  ne_wan_test :: "WanTest option"
  ne_virt_wans :: "VirtWAN list option"
  ne_capabilities :: "bool option option"

record App =
  ap_nowMs :: int
  ap_error :: "string option"
  ap_controlLanOk :: bool
  ap_view :: "LatestView option"
  ap_history :: "HistoryPoint list"
  ap_devices :: "Device list"
  ap_invMeta :: "int option \<times> string option"
  ap_devicesProv :: Provenance
  ap_network :: "NetIface list"
  ap_networkExtras :: NetworkExtras
  ap_topoView :: "TopoView option"
  ap_wireless :: "WirelessView option"
  ap_audit :: "AuditView option"
  ap_unifiConsole :: "UnifiConsole option"
  ap_policies :: "Policy list"
  ap_tags :: "Tag list"
  ap_tagCaps :: "(string, bool) jsmap"
  ap_persist :: PersistInfo
  ap_agentOnline :: bool
  ap_dashboard :: "Dashboard option"
  ap_box :: "BoxInfo option"
  ap_boxProv :: Provenance
  ap_unifiMod :: "ModuleInfo option"
  ap_tplinkMod :: "ModuleInfo option"

definition no_prov :: Provenance where
  "no_prov = \<lparr>pv_source = None, pv_fetched_at = None, pv_stale = None, pv_enriched_from = None, pv_reason = None\<rparr>"

text \<open>The bodies of the answers that are no view of their own.\<close>

record DevicesBody =
  dvb_ts :: int
  dvb_host :: string
  dvb_devices :: "Device list option"
  dvb_prov :: Provenance

record HealthBody =
  hb_persist :: "PersistInfo option"
  hb_agent :: "AgentHealth option"

record BoxBody =
  bb_box :: "BoxInfo option"
  bb_prov :: Provenance

record Answers =
  an_metrics :: "LatestView Resp"
  an_history :: "HistoryPoint list option Resp"
  an_devices :: "DevicesBody Resp"
  an_network :: "NetworkView Resp"
  an_topology :: "TopoView Resp"
  an_wireless :: "WirelessView Resp"
  an_policies :: "Policy list option Resp"
  an_tags :: "(Tag list option \<times> (string, bool) jsmap option) Resp"
  an_health :: "HealthBody Resp"
  an_dashboard :: "Dashboard Resp"
  an_box :: "BoxBody Resp"
  an_modules :: "ModuleInfo list option Resp"
  an_unifi :: "UnifiConsole Resp"
  an_audit :: "AuditView Resp"
  an_fw :: "(bool option \<times> string option) Resp"

section \<open>The load\<close>

text \<open>
  The common form of a step: \<open>if (r.ok) { set(await r.json()) } else if (r.status === 404) { clear }\<close>.
  A step of the load stores the body, clears what is stored, or leaves it; a body that does not decode is
  an error.
\<close>

definition on_resp :: "'b Resp \<Rightarrow> ('b \<Rightarrow> App \<Rightarrow> App) \<Rightarrow> (App \<Rightarrow> App) \<Rightarrow> App \<Rightarrow> string + App" where
  "on_resp r store clear a =
     (if rs_ok r then (case rs_body r of Inr b \<Rightarrow> Inr (store b a) | Inl e \<Rightarrow> Inl e)
      else if rs_status r = 404 then Inr (clear a) else Inr a)"

definition prov_of :: "Provenance \<Rightarrow> Provenance" where
  "prov_of b = no_prov\<lparr>pv_source := pv_source b, pv_fetched_at := pv_fetched_at b, pv_stale := pv_stale b,
     pv_reason := pv_reason b\<rparr>"

definition store_devices :: "DevicesBody \<Rightarrow> App \<Rightarrow> App" where
  "store_devices b a = a\<lparr>ap_devices := opt_list (dvb_devices b), ap_invMeta := (Some (dvb_ts b), Some (dvb_host b)),
     ap_devicesProv := prov_of (dvb_prov b)\<rparr>"

definition store_network :: "NetworkView \<Rightarrow> App \<Rightarrow> App" where
  "store_network b a = a\<lparr>ap_network := nv_network b,
     ap_networkExtras := \<lparr>ne_extras_provenance = nv_extras_provenance b, ne_features = nv_features b,
       ne_wan_test = nv_wan_test b, ne_virt_wans = nv_virt_wans b, ne_capabilities = nv_capabilities b\<rparr>\<rparr>"

definition store_topology :: "TopoView \<Rightarrow> App \<Rightarrow> App" where
  "store_topology b a = a\<lparr>ap_topoView := Some \<lparr>tv_ts = tv_ts b, tv_host = tv_host b, tv_box = tv_box b,
     tv_switches = Some (opt_list (tv_switches b)), tv_tree = Some (opt_list (tv_tree b)), tv_wan_type = tv_wan_type b\<rparr>\<rparr>"

definition no_persist :: PersistInfo where
  "no_persist = \<lparr>pi_enabled = None, pi_retention_days = None, pi_points = None\<rparr>"

definition store_health :: "HealthBody \<Rightarrow> App \<Rightarrow> App" where
  "store_health b a = a\<lparr>ap_persist := (case hb_persist b of Some p \<Rightarrow> p | None \<Rightarrow> no_persist),
     ap_agentOnline := (case hb_agent b of Some g \<Rightarrow> ah_online g = Some True | None \<Rightarrow> False)\<rparr>"

definition store_modules :: "ModuleInfo list option \<Rightarrow> App \<Rightarrow> App" where
  "store_modules b a = a\<lparr>ap_unifiMod := find (\<lambda>m. mi_id m = ''unifi-sync'') (opt_list b),
     ap_tplinkMod := find (\<lambda>m. mi_id m = ''tplink-sync'') (opt_list b)\<rparr>"

text \<open>The state of the control connection is cleared by every answer that is not in order.\<close>

definition fw_step :: "(bool option \<times> string option) Resp \<Rightarrow> App \<Rightarrow> string + App" where
  "fw_step r a =
     (if rs_ok r then
        (case rs_body r of
           Inr (paired, state) \<Rightarrow> Inr (a\<lparr>ap_controlLanOk := (paired = Some True \<and> state = Some ''lan-ok'')\<rparr>)
         | Inl e \<Rightarrow> Inl e)
      else Inr (a\<lparr>ap_controlLanOk := False\<rparr>))"

definition load_steps :: "Answers \<Rightarrow> (App \<Rightarrow> string + App) list" where
  "load_steps r =
     [\<lambda>a. Inr (a\<lparr>ap_error := None\<rparr>),
      fw_step (an_fw r),
      on_resp (an_metrics r) (\<lambda>b a. a\<lparr>ap_view := Some b\<rparr>) (\<lambda>a. a\<lparr>ap_view := None\<rparr>),
      on_resp (an_history r) (\<lambda>b a. a\<lparr>ap_history := opt_list b\<rparr>) (\<lambda>a. a),
      on_resp (an_devices r) store_devices (\<lambda>a. a\<lparr>ap_devices := [], ap_devicesProv := no_prov\<rparr>),
      on_resp (an_network r) store_network (\<lambda>a. a),
      on_resp (an_topology r) store_topology (\<lambda>a. a\<lparr>ap_topoView := None\<rparr>),
      on_resp (an_wireless r) (\<lambda>b a. a\<lparr>ap_wireless := Some b\<rparr>) (\<lambda>a. a\<lparr>ap_wireless := None\<rparr>),
      on_resp (an_audit r) (\<lambda>b a. a\<lparr>ap_audit := Some b\<rparr>) (\<lambda>a. a),
      on_resp (an_unifi r) (\<lambda>b a. a\<lparr>ap_unifiConsole := Some b\<rparr>) (\<lambda>a. a\<lparr>ap_unifiConsole := None\<rparr>),
      on_resp (an_policies r) (\<lambda>b a. a\<lparr>ap_policies := opt_list b\<rparr>) (\<lambda>a. a),
      on_resp (an_tags r) (\<lambda>b a. a\<lparr>ap_tags := opt_list (fst b), ap_tagCaps := opt_list (snd b)\<rparr>) (\<lambda>a. a),
      on_resp (an_health r) store_health (\<lambda>a. a),
      on_resp (an_dashboard r) (\<lambda>b a. a\<lparr>ap_dashboard := Some b\<rparr>) (\<lambda>a. a\<lparr>ap_dashboard := None\<rparr>),
      on_resp (an_box r) (\<lambda>b a. a\<lparr>ap_box := bb_box b, ap_boxProv := prov_of (bb_prov b)\<rparr>)
        (\<lambda>a. a\<lparr>ap_box := None, ap_boxProv := no_prov\<rparr>),
      on_resp (an_modules r) store_modules (\<lambda>a. a)]"

text \<open>A load that nothing cancels, from the state in which its answers come.\<close>

fun run_steps :: "(App \<Rightarrow> string + App) list \<Rightarrow> App \<Rightarrow> App" where
  "run_steps [] a = a"
| "run_steps (h # hs) a = (case h a of Inr a' \<Rightarrow> run_steps hs a' | Inl e \<Rightarrow> a\<lparr>ap_error := Some e\<rparr>)"

text \<open>\<open>load\<close>: the clock, and then the answers, or the failure of a request.\<close>

definition load :: "int \<Rightarrow> string + Answers \<Rightarrow> App \<Rightarrow> App" where
  "load now answers a =
     (let a = a\<lparr>ap_nowMs := now\<rparr> in
      case answers of Inr r \<Rightarrow> run_steps (load_steps r) a | Inl e \<Rightarrow> a\<lparr>ap_error := Some e\<rparr>)"

section \<open>Several loads at a time\<close>

record LoadRun =
  lr_cancelled :: bool
  lr_todo :: "(App \<Rightarrow> string + App) list"

definition cancel_run :: "LoadRun \<Rightarrow> LoadRun" where
  "cancel_run l = l\<lparr>lr_cancelled := True\<rparr>"

text \<open>
  The next step of one load. Every assignment of the code is guarded by \<open>!cancelled\<close>; a failure ends the
  load also when it is cancelled, but it is then not shown.
\<close>

fun handle_run :: "App \<Rightarrow> LoadRun \<Rightarrow> App \<times> LoadRun" where
  "handle_run a l =
     (case lr_todo l of
        [] \<Rightarrow> (a, l)
      | h # hs \<Rightarrow>
          (case h a of
             Inr a' \<Rightarrow> (if lr_cancelled l then a else a', l\<lparr>lr_todo := hs\<rparr>)
           | Inl e \<Rightarrow> (if lr_cancelled l then a else a\<lparr>ap_error := Some e\<rparr>, l\<lparr>lr_todo := []\<rparr>)))"

inductive handle :: "App \<times> LoadRun list \<Rightarrow> App \<times> LoadRun list \<Rightarrow> bool" where
  Handle: "i < length ls \<Longrightarrow> lr_todo (ls ! i) \<noteq> [] \<Longrightarrow> handle_run a (ls ! i) = (a', l') \<Longrightarrow>
     handle (a, ls) (a', ls[i := l'])"

inductive app_step :: "App \<times> LoadRun list \<Rightarrow> App \<times> LoadRun list \<Rightarrow> bool" where
  Start: "app_step (a, ls) (a\<lparr>ap_nowMs := now\<rparr>, ls)"
| Answered: "app_step (a, ls) (a, ls @ [\<lparr>lr_cancelled = False, lr_todo = load_steps r\<rparr>])"
| Failed: "app_step (a, ls) (a, ls @ [\<lparr>lr_cancelled = False, lr_todo = [\<lambda>_. Inl e]\<rparr>])"
| Work: "handle s s' \<Longrightarrow> app_step s s'"
| Cleanup: "app_step (a, ls) (a, map cancel_run ls)"

inductive_cases handleE: "handle (a, ls) s"

section \<open>Properties of the load\<close>

fun steps_ok :: "(App \<Rightarrow> string + App) list \<Rightarrow> App \<Rightarrow> bool" where
  "steps_ok [] a = True"
| "steps_ok (h # hs) a = (case h a of Inr a' \<Rightarrow> steps_ok hs a' | Inl _ \<Rightarrow> False)"

lemma run_steps_append: "steps_ok hs a \<Longrightarrow> run_steps (hs @ gs) a = run_steps gs (run_steps hs a)"
  by (induction hs arbitrary: a) (auto split: sum.splits)

text \<open>when one of the answers does not decode, everything that was stored from the answers before it stays,
  nothing of the answers after it is stored, and the reason is shown.\<close>

theorem load_stops_at_bad_body:
  assumes "k < length (load_steps r)" "a1 = a\<lparr>ap_nowMs := now\<rparr>"
    and "steps_ok (take k (load_steps r)) a1"
    and "(load_steps r ! k) (run_steps (take k (load_steps r)) a1) = Inl e"
  shows "load now (Inr r) a = (run_steps (take k (load_steps r)) a1)\<lparr>ap_error := Some e\<rparr>"
proof -
  let ?hs = "load_steps r"
  have "run_steps ?hs a1 = run_steps (take k ?hs @ ?hs ! k # drop (Suc k) ?hs) a1"
    using assms(1) by (simp add: id_take_nth_drop [symmetric])
  also have "\<dots> = (run_steps (take k ?hs) a1)\<lparr>ap_error := Some e\<rparr>"
    using assms(3,4) by (simp add: run_steps_append)
  finally show ?thesis by (simp add: load_def assms(2))
qed

text \<open>The value that a slot has after its answer: the body, the cleared value, or the value before.\<close>

definition slot :: "'b Resp \<Rightarrow> ('b \<Rightarrow> 'c) \<Rightarrow> 'c \<Rightarrow> 'c \<Rightarrow> 'c" where
  "slot r get cleared old =
     (if rs_ok r then (case rs_body r of Inr b \<Rightarrow> get b | Inl _ \<Rightarrow> old) else if rs_status r = 404 then cleared else old)"

definition decodes :: "'b Resp \<Rightarrow> bool" where
  "decodes r \<longleftrightarrow> (rs_ok r \<longrightarrow> \<not> isl (rs_body r))"

definition answers_decode :: "Answers \<Rightarrow> bool" where
  "answers_decode r \<longleftrightarrow> decodes (an_metrics r) \<and> decodes (an_history r) \<and> decodes (an_devices r) \<and>
     decodes (an_network r) \<and> decodes (an_topology r) \<and> decodes (an_wireless r) \<and> decodes (an_policies r) \<and>
     decodes (an_tags r) \<and> decodes (an_health r) \<and> decodes (an_dashboard r) \<and> decodes (an_box r) \<and>
     decodes (an_modules r) \<and> decodes (an_unifi r) \<and> decodes (an_audit r) \<and> decodes (an_fw r)"

definition update_by :: "'b Resp \<Rightarrow> ('b \<Rightarrow> App \<Rightarrow> App) \<Rightarrow> (App \<Rightarrow> App) \<Rightarrow> App \<Rightarrow> App" where
  "update_by r store clear a = slot r (\<lambda>b. store b a) (clear a) a"

lemma on_resp_decodes: "decodes r \<Longrightarrow> on_resp r store clear a = Inr (update_by r store clear a)"
  by (auto simp: on_resp_def decodes_def update_by_def slot_def split: sum.splits)

lemma slot_field: "f (update_by r store clear a) = slot r (\<lambda>b. f (store b a)) (f (clear a)) (f a)"
  by (auto simp: update_by_def slot_def split: sum.splits)

text \<open>A part of the data that neither assignment of a step touches stays.\<close>

lemma update_frame:
  assumes "\<And>b a. f (store b a) = f a" "\<And>a. f (clear a) = f a"
  shows "f (update_by r store clear a) = f a"
  by (auto simp: update_by_def slot_def assms split: sum.splits)

lemmas store_defs = store_devices_def store_network_def store_topology_def store_health_def store_modules_def

lemma slot_own:
  "ap_view (update_by r0 (\<lambda>b a. a\<lparr>ap_view := Some b\<rparr>) (\<lambda>a. a\<lparr>ap_view := None\<rparr>) a) = slot r0 Some None (ap_view a)"
  "ap_history (update_by r1 (\<lambda>b a. a\<lparr>ap_history := opt_list b\<rparr>) (\<lambda>a. a) a) = slot r1 opt_list (ap_history a) (ap_history a)"
  "ap_devices (update_by r2 store_devices (\<lambda>a. a\<lparr>ap_devices := [], ap_devicesProv := no_prov\<rparr>) a) = slot r2 (\<lambda>b. opt_list (dvb_devices b)) [] (ap_devices a)"
  "ap_network (update_by r3 store_network (\<lambda>a. a) a) = slot r3 nv_network (ap_network a) (ap_network a)"
  "ap_wireless (update_by r4 (\<lambda>b a. a\<lparr>ap_wireless := Some b\<rparr>) (\<lambda>a. a\<lparr>ap_wireless := None\<rparr>) a) = slot r4 Some None (ap_wireless a)"
  "ap_audit (update_by r5 (\<lambda>b a. a\<lparr>ap_audit := Some b\<rparr>) (\<lambda>a. a) a) = slot r5 Some (ap_audit a) (ap_audit a)"
  "ap_unifiConsole (update_by r6 (\<lambda>b a. a\<lparr>ap_unifiConsole := Some b\<rparr>) (\<lambda>a. a\<lparr>ap_unifiConsole := None\<rparr>) a) = slot r6 Some None (ap_unifiConsole a)"
  "ap_policies (update_by r7 (\<lambda>b a. a\<lparr>ap_policies := opt_list b\<rparr>) (\<lambda>a. a) a) = slot r7 opt_list (ap_policies a) (ap_policies a)"
  "ap_tags (update_by r8 (\<lambda>b a. a\<lparr>ap_tags := opt_list (fst b), ap_tagCaps := opt_list (snd b)\<rparr>) (\<lambda>a. a) a) = slot r8 (\<lambda>b. opt_list (fst b)) (ap_tags a) (ap_tags a)"
  "ap_dashboard (update_by r9 (\<lambda>b a. a\<lparr>ap_dashboard := Some b\<rparr>) (\<lambda>a. a\<lparr>ap_dashboard := None\<rparr>) a) = slot r9 Some None (ap_dashboard a)"
  "ap_box (update_by r10 (\<lambda>b a. a\<lparr>ap_box := bb_box b, ap_boxProv := prov_of (bb_prov b)\<rparr>) (\<lambda>a. a\<lparr>ap_box := None, ap_boxProv := no_prov\<rparr>) a) = slot r10 bb_box None (ap_box a)"
  by (simp_all add: slot_field [of ap_view] slot_field [of ap_history] slot_field [of ap_devices] slot_field [of ap_network]
      slot_field [of ap_wireless] slot_field [of ap_audit] slot_field [of ap_unifiConsole] slot_field [of ap_policies]
      slot_field [of ap_tags] slot_field [of ap_dashboard] slot_field [of ap_box] store_defs)

lemmas slot_frames =
  update_frame [of ap_error] update_frame [of ap_controlLanOk] update_frame [of ap_view] update_frame [of ap_history] update_frame [of ap_devices] update_frame [of ap_network] update_frame [of ap_wireless] update_frame [of ap_audit] update_frame [of ap_unifiConsole] update_frame [of ap_policies] update_frame [of ap_tags] update_frame [of ap_dashboard] update_frame [of ap_box]

definition fw_ready :: "(bool option \<times> string option) Resp \<Rightarrow> bool" where
  "fw_ready r \<longleftrightarrow> rs_ok r \<and> rs_body r = Inr (Some True, Some ''lan-ok'')"

lemma fw_step_decodes: "decodes r \<Longrightarrow> fw_step r a = Inr (a\<lparr>ap_controlLanOk := fw_ready r\<rparr>)"
  by (auto simp: fw_step_def decodes_def fw_ready_def split: sum.splits)

lemma load_decoded:
  assumes "answers_decode r"
  shows "load now (Inr r) a =
    update_by (an_modules r) store_modules (\<lambda>a. a)
    (update_by (an_box r) (\<lambda>b a. a\<lparr>ap_box := bb_box b, ap_boxProv := prov_of (bb_prov b)\<rparr>)
      (\<lambda>a. a\<lparr>ap_box := None, ap_boxProv := no_prov\<rparr>)
    (update_by (an_dashboard r) (\<lambda>b a. a\<lparr>ap_dashboard := Some b\<rparr>) (\<lambda>a. a\<lparr>ap_dashboard := None\<rparr>)
    (update_by (an_health r) store_health (\<lambda>a. a)
    (update_by (an_tags r) (\<lambda>b a. a\<lparr>ap_tags := opt_list (fst b), ap_tagCaps := opt_list (snd b)\<rparr>) (\<lambda>a. a)
    (update_by (an_policies r) (\<lambda>b a. a\<lparr>ap_policies := opt_list b\<rparr>) (\<lambda>a. a)
    (update_by (an_unifi r) (\<lambda>b a. a\<lparr>ap_unifiConsole := Some b\<rparr>) (\<lambda>a. a\<lparr>ap_unifiConsole := None\<rparr>)
    (update_by (an_audit r) (\<lambda>b a. a\<lparr>ap_audit := Some b\<rparr>) (\<lambda>a. a)
    (update_by (an_wireless r) (\<lambda>b a. a\<lparr>ap_wireless := Some b\<rparr>) (\<lambda>a. a\<lparr>ap_wireless := None\<rparr>)
    (update_by (an_topology r) store_topology (\<lambda>a. a\<lparr>ap_topoView := None\<rparr>)
    (update_by (an_network r) store_network (\<lambda>a. a)
    (update_by (an_devices r) store_devices (\<lambda>a. a\<lparr>ap_devices := [], ap_devicesProv := no_prov\<rparr>)
    (update_by (an_history r) (\<lambda>b a. a\<lparr>ap_history := opt_list b\<rparr>) (\<lambda>a. a)
    (update_by (an_metrics r) (\<lambda>b a. a\<lparr>ap_view := Some b\<rparr>) (\<lambda>a. a\<lparr>ap_view := None\<rparr>)
    (a\<lparr>ap_nowMs := now, ap_error := None, ap_controlLanOk := fw_ready (an_fw r)\<rparr>))))))))))))))"
  using assms by (simp add: load_def load_steps_def answers_decode_def on_resp_decodes fw_step_decodes)


section \<open>Properties of the running loads\<close>

lemma handle_cancelled: "lr_cancelled l \<Longrightarrow> handle_run a l = (a', l') \<Longrightarrow> a' = a \<and> lr_cancelled l'"
  by (auto split: list.splits sum.splits)


text \<open>a load that runs beside cancelled ones does what it would do alone: when it has finished, in whatever
  order the steps were taken, the data is that of \<open>load\<close> on its answers.\<close>

theorem load_unaffected_by_cancelled:
  assumes "handle\<^sup>*\<^sup>* (a, map cancel_run ls @ [\<lparr>lr_cancelled = False, lr_todo = load_steps r\<rparr>]) (a', ls')"
    and "list_all (\<lambda>l. lr_todo l = []) ls'"
  shows "a' = run_steps (load_steps r) a"
proof -
  have "\<exists>ks l. ls' = ks @ [l] \<and> list_all lr_cancelled ks \<and> \<not> lr_cancelled l \<and>
      run_steps (lr_todo l) a' = run_steps (load_steps r) a"
    using assms(1)
  proof (induction "(a', ls')" arbitrary: a' ls' rule: rtranclp_induct)
    case base
    then show ?case by (auto simp: list_all_iff cancel_run_def)
  next
    case (step y)
    obtain b ks0 where y: "y = (b, ks0)" by force
    from step(3) [OF y] obtain ks l where inv: "ks0 = ks @ [l]" "list_all lr_cancelled ks" "\<not> lr_cancelled l"
      "run_steps (lr_todo l) b = run_steps (load_steps r) a" by blast
    from step(2) obtain i l' where i: "i < length ks0" "lr_todo (ks0 ! i) \<noteq> []" "handle_run b (ks0 ! i) = (a', l')" "ls' = ks0[i := l']"
      unfolding y by (auto elim: handleE)
    show ?case
    proof (cases "i < length ks")
      case True
      then have "lr_cancelled (ks0 ! i)" using inv by (simp add: nth_append list_all_length)
      from handle_cancelled [OF this i(3)] show ?thesis
        using True inv i(4) by (auto simp: list_update_append list_all_length nth_list_update)
    next
      case False
      then have at_end: "i = length ks" using i(1) inv(1) by simp
      then have here: "ks0 ! i = l" using inv(1) by simp
      then obtain h hs where todo: "lr_todo l = h # hs" using i(2) here by (cases "lr_todo l") simp_all
      with i(3) here inv(3,4) have "\<not> lr_cancelled l' \<and> run_steps (lr_todo l') a' = run_steps (load_steps r) a"
        by (auto split: sum.splits)
      then show ?thesis using inv i(4) at_end by (auto simp: list_update_append)
    qed
  qed
  then show ?thesis using assms(2) by auto
qed

section \<open>Witnesses\<close>

definition down :: "'b Resp" where
  "down = Resp 503 (Inl ''unavailable'')"

text \<open>Answers of a server of which only the metrics and the devices are reached.\<close>

definition sample_answers :: "LatestView Resp \<Rightarrow> Answers" where
  "sample_answers m =
     \<lparr>an_metrics = m, an_history = down, an_devices = Resp 404 (Inl ''none''), an_network = down, an_topology = down,
      an_wireless = down, an_policies = down, an_tags = down, an_health = down, an_dashboard = down, an_box = down,
      an_modules = down, an_unifi = down, an_audit = down, an_fw = down\<rparr>"

definition empty_app :: App where
  "empty_app =
     \<lparr>ap_nowMs = 0, ap_error = Some ''old'', ap_controlLanOk = True, ap_view = None, ap_history = [], ap_devices = [],
      ap_invMeta = (None, None), ap_devicesProv = no_prov, ap_network = [],
      ap_networkExtras = \<lparr>ne_extras_provenance = None, ne_features = None, ne_wan_test = None, ne_virt_wans = None,
        ne_capabilities = None\<rparr>,
      ap_topoView = None, ap_wireless = None, ap_audit = None, ap_unifiConsole = None, ap_policies = [], ap_tags = [],
      ap_tagCaps = [], ap_persist = no_persist, ap_agentOnline = False, ap_dashboard = None, ap_box = None,
      ap_boxProv = no_prov, ap_unifiMod = None, ap_tplinkMod = None\<rparr>"

lemma down_facts [simp]: "\<not> rs_ok down" "decodes down" "rs_status down = 503"
  by (simp_all add: down_def rs_ok_def decodes_def)


theorem load_stops_at_bad_body_witness:
  "load 5 (Inr (sample_answers (Resp 200 (Inl ''bad'')))) empty_app =
     empty_app\<lparr>ap_nowMs := 5, ap_controlLanOk := False, ap_error := Some ''bad''\<rparr>"
proof -
  let ?r = "sample_answers (Resp 200 (Inl ''bad''))" and ?a = "empty_app\<lparr>ap_nowMs := 5\<rparr>"
  have "run_steps (take 2 (load_steps ?r)) ?a = ?a\<lparr>ap_error := None, ap_controlLanOk := False\<rparr>"
    "steps_ok (take 2 (load_steps ?r)) ?a" "2 < length (load_steps ?r)"
    by (simp_all add: load_steps_def sample_answers_def fw_step_def)
  then show ?thesis
    using load_stops_at_bad_body [of 2 ?r ?a 5 empty_app "''bad''"]
    by (simp add: load_steps_def sample_answers_def on_resp_def rs_ok_def)
qed


text \<open>The loads come to an end: from every state there is an order of the steps after which every load has
  finished, and every step brings that nearer.\<close>

lemma loads_settle:
  "\<exists>a' ls'. handle\<^sup>*\<^sup>* (a, ls) (a', ls') \<and> list_all (\<lambda>l. lr_todo l = []) ls'"
proof (induction "sum_list (map (\<lambda>l. length (lr_todo l)) ls)" arbitrary: a ls rule: less_induct)
  case less
  show ?case
  proof (cases "list_all (\<lambda>l. lr_todo l = []) ls")
    case True
    then show ?thesis by blast
  next
    case False
    then obtain i where i: "i < length ls" "lr_todo (ls ! i) \<noteq> []" by (auto simp: list_all_length)
    obtain b l where step: "handle_run a (ls ! i) = (b, l)" by force
    then have shorter: "length (lr_todo l) < length (lr_todo (ls ! i))"
      using i(2) by (auto split: list.splits sum.splits)
    have "sum_list (map (\<lambda>l. length (lr_todo l)) (ls[i := l])) < sum_list (map (\<lambda>l. length (lr_todo l)) ls)"
    proof -
      let ?f = "\<lambda>l. length (lr_todo l)"
      have "sum_list (map ?f (ls[i := l])) = sum_list (map ?f ls) + ?f l - ?f (ls ! i)"
        using i(1) by (simp add: map_update sum_list_update)
      moreover have "?f (ls ! i) \<le> sum_list (map ?f ls)"
        using elem_le_sum_list [of i "map ?f ls"] i(1) by simp
      ultimately show ?thesis using shorter by linarith
    qed
    from less [OF this, of b] obtain a' ls' where "handle\<^sup>*\<^sup>* (b, ls[i := l]) (a', ls')" "list_all (\<lambda>l. lr_todo l = []) ls'"
      by blast
    moreover have "handle (a, ls) (b, ls[i := l])" using i step by (rule handle.Handle)
    ultimately show ?thesis by (meson converse_rtranclp_into_rtranclp)
  qed
qed

theorem load_unaffected_by_cancelled_witness:
  "\<exists>ls'. handle\<^sup>*\<^sup>* (empty_app, map cancel_run [] @ [\<lparr>lr_cancelled = False, lr_todo = load_steps (sample_answers down)\<rparr>])
     (run_steps (load_steps (sample_answers down)) empty_app, ls')"
proof -
  obtain a' ls' where
    "handle\<^sup>*\<^sup>* (empty_app, map cancel_run [] @ [\<lparr>lr_cancelled = False, lr_todo = load_steps (sample_answers down)\<rparr>]) (a', ls')"
    "list_all (\<lambda>l. lr_todo l = []) ls'"
    using loads_settle by blast
  then show ?thesis using load_unaffected_by_cancelled by blast
qed

end
