(* ===== verification/AppViews.thy ===== *)
theory AppViews
  imports AppLoad DeviceDetail Snooze AnonViews Ports
begin

text \<open>
  What the application derives from its data and how it moves through its views (\<open>ui/src/App.tsx\<close>, lines
  213 to 866): the names of tags, the list of the devices that were seen lately, the groups, the
  counts of the bell, the handlers that change the navigation stack and the ones that patch the
  device list after a change on the box. The comparison of texts by locale is the parameter \<open>lc\<close>.
\<close>

section \<open>Tables\<close>

definition uuidToNet :: "NetIface list \<Rightarrow> (string, NetIface) jsmap" where
  "uuidToNet net = fold (\<lambda>n m. if truthy (ni_uuid n) then AList.update (opt_str (ni_uuid n)) n m else m) net []"

definition tag_key :: "string \<Rightarrow> string \<Rightarrow> string" where
  "tag_key t i = t @ '':'' @ i"

definition tagByKey_add :: "Tag \<Rightarrow> (string, Tag) jsmap \<Rightarrow> (string, Tag) jsmap" where
  "tagByKey_add t m =
     (let m = AList.update (tag_key (case tag_type t of Some x \<Rightarrow> x | None \<Rightarrow> ''group'') (tag_id t)) t m in
      if map_of m (tag_id t) = None \<or> tag_type t = Some ''group'' then AList.update (tag_id t) t m else m)"

definition tagByKey :: "Tag list \<Rightarrow> (string, Tag) jsmap" where
  "tagByKey tags = fold tagByKey_add tags []"

definition labelTag :: "Tag list \<Rightarrow> string \<Rightarrow> string option \<Rightarrow> string" where
  "labelTag tags i preferType =
     (let m = tagByKey tags; af = affiliatedUserByGroup tags;
          plain = (case map_of m i of Some t \<Rightarrow> resolveTagName t af | None \<Rightarrow> i)
      in if truthy preferType then
           (case map_of m (tag_key (opt_str preferType) i) of Some t \<Rightarrow> resolveTagName t af | None \<Rightarrow> plain)
         else plain)"

section \<open>The devices seen lately\<close>

record ListFilter =
  lf_query :: string
  lf_seenMs :: int
  lf_nowMs :: int
  lf_group :: string
  lf_groupType :: NavTag
  lf_lan :: string

text \<open>\<open>d.last_active_ts < (nowMs - seenMs) / 1000\<close>, multiplied by 1000.\<close>

definition seen_lately :: "int \<Rightarrow> int \<Rightarrow> Device \<Rightarrow> bool" where
  "seen_lately nowMs seenMs d =
     (case dev_last_active_ts d of None \<Rightarrow> False | Some t \<Rightarrow> t \<noteq> 0 \<and> nowMs - seenMs \<le> t * 1000)"

fun in_tag :: "NavTag \<Rightarrow> string \<Rightarrow> Device \<Rightarrow> bool" where
  "in_tag NavDevice g d = (g \<in> set (opt_list (dev_device_tag_ids d)))"
| "in_tag NavUser g d = (g \<in> set (opt_list (dev_user_tag_ids d)))"
| "in_tag NavGroup g d = (g \<in> set (opt_list (dev_tag_ids d)))"

definition list_hay :: "Tag list \<Rightarrow> NetIface list \<Rightarrow> Device \<Rightarrow> string" where
  "list_hay tags net d =
     (let lan = (if truthy (dev_intf_uuid d) then map_of (uuidToNet net) (opt_str (dev_intf_uuid d)) else None) in
      toLowerCase (join '' '' (filter (\<lambda>x. x \<noteq> [])
        ([preferredName d, opt_str (dev_ip d), dev_mac d, opt_str (dev_vendor d), opt_str (dev_local_domain d),
          opt_str (Option.bind lan ni_desc), (case lan of Some n \<Rightarrow> ni_name n | None \<Rightarrow> [])] @
         map (\<lambda>i. labelTag tags i (Some ''group'')) (opt_list (dev_tag_ids d)) @
         map (\<lambda>i. labelTag tags i (Some ''device'')) (opt_list (dev_device_tag_ids d))))))"

definition list_keeps :: "Tag list \<Rightarrow> NetIface list \<Rightarrow> ListFilter \<Rightarrow> Device \<Rightarrow> bool" where
  "list_keeps tags net f d =
     (let q = toLowerCase (trim (lf_query f)) in
      if \<not> seen_lately (lf_nowMs f) (lf_seenMs f) d then False
      else if lf_group f \<noteq> [] \<and> \<not> in_tag (lf_groupType f) (lf_group f) d then False
      else if lf_lan f \<noteq> [] \<and> dev_intf_uuid d \<noteq> Some (lf_lan f) then False
      else if q = [] then True
      else str_includes (list_hay tags net d) q)"

text \<open>The filters that come from the stack and from the choice of the span.\<close>

definition seenMs :: "string \<Rightarrow> int" where
  "seenMs i = (case map_of SEEN_OPTIONS i of Some n \<Rightarrow> n | None \<Rightarrow> 7 * DAY_MS)"

definition stack_filter :: "NavFrame list \<Rightarrow> string \<Rightarrow> string \<Rightarrow> int \<Rightarrow> ListFilter" where
  "stack_filter s query seenId nowMs =
     \<lparr>lf_query = query, lf_seenMs = seenMs seenId, lf_nowMs = nowMs,
      lf_group = (case findLast s ''group'' of Some (FGroup i _ _) \<Rightarrow> i | _ \<Rightarrow> []),
      lf_groupType = (case findLast s ''group'' of Some (FGroup _ _ (Some t)) \<Rightarrow> t | _ \<Rightarrow> NavGroup),
      lf_lan = (case findLast s ''lan'' of Some (FLan u _) \<Rightarrow> u | _ \<Rightarrow> [])\<rparr>"

definition newest_first :: "Device \<Rightarrow> Device \<Rightarrow> int" where
  "newest_first a b = (case dev_last_active_ts b of Some t \<Rightarrow> t | None \<Rightarrow> 0) -
     (case dev_last_active_ts a of Some t \<Rightarrow> t | None \<Rightarrow> 0)"

definition filteredDevices :: "Tag list \<Rightarrow> NetIface list \<Rightarrow> ListFilter \<Rightarrow> Device list \<Rightarrow> Device list" where
  "filteredDevices tags net f devices = js_sort newest_first (filter (list_keeps tags net f) devices)"

section \<open>Groups\<close>

record GroupRow =
  gr_id :: string
  gr_name :: string
  gr_kind :: NavTag
  gr_type :: NavTag
  gr_count :: nat

fun group_type :: "Tag \<Rightarrow> NavTag option" where
  "group_type t =
     (let typ = or_else (opt_str (tag_type t)) ''group'' in
      if typ = ''group'' then Some NavGroup else if typ = ''user'' then Some NavUser
      else if typ = ''device'' then Some NavDevice else None)"

definition group_row :: "Tag list \<Rightarrow> Device list \<Rightarrow> Tag \<Rightarrow> NavTag \<Rightarrow> GroupRow" where
  "group_row tags devices t typ =
     (let user = (if typ = NavGroup then map_of (affiliatedUserByGroup tags) (tag_id t) else None) in
      \<lparr>gr_id = tag_id t, gr_name = (case user of Some u \<Rightarrow> tag_name u | None \<Rightarrow> tag_name t),
       gr_kind = (if user \<noteq> None \<or> typ = NavUser then NavUser else if typ = NavDevice then NavDevice else NavGroup),
       gr_type = typ, gr_count = length (filter (in_tag typ (tag_id t)) devices)\<rparr>)"

definition group_rows :: "Tag list \<Rightarrow> Device list \<Rightarrow> GroupRow list" where
  "group_rows tags devices =
     List.map_filter (\<lambda>t. map_option (group_row tags devices t) (group_type t)) tags"

definition row_order :: "(string \<Rightarrow> string \<Rightarrow> int) \<Rightarrow> GroupRow \<Rightarrow> GroupRow \<Rightarrow> int" where
  "row_order lc a b =
     (let d = int (gr_count b) - int (gr_count a) in if d \<noteq> 0 then d else lc (gr_name a) (gr_name b))"

definition groups :: "(string \<Rightarrow> string \<Rightarrow> int) \<Rightarrow> Tag list \<Rightarrow> Device list \<Rightarrow> GroupRow list" where
  "groups lc tags devices = js_sort (row_order lc) (group_rows tags devices)"

section \<open>The bell\<close>

definition names_count :: "ModuleInfo option \<Rightarrow> AuditView option \<Rightarrow> int" where
  "names_count m au =
     (case nullish (Option.bind m mi_audit_names) (nullish (Option.bind m mi_name_sync_pending)
        (map_option (\<lambda>a. fst (au_names a)) au)) of Some n \<Rightarrow> n | None \<Rightarrow> 0)"

definition part_count :: "(ModuleInfo \<Rightarrow> int option) \<Rightarrow> (AuditView \<Rightarrow> int) \<Rightarrow> ModuleInfo option \<Rightarrow> AuditView option \<Rightarrow> int" where
  "part_count f g m au = (case nullish (Option.bind m f) (map_option g au) of Some n \<Rightarrow> n | None \<Rightarrow> 0)"

definition offline_count :: "rat \<Rightarrow> Storage \<Rightarrow> ModuleInfo option \<Rightarrow> AuditView option \<Rightarrow> int" where
  "offline_count now s m au =
     (case au of
        None \<Rightarrow> (case Option.bind m mi_audit_offline of Some n \<Rightarrow> n | None \<Rightarrow> 0)
      | Some a \<Rightarrow> int (countUnsnoozedOffline (map oar_mac (snd (au_offline a))) now s))"

definition notifCount :: "rat \<Rightarrow> Storage \<Rightarrow> ModuleInfo option \<Rightarrow> AuditView option \<Rightarrow> int" where
  "notifCount now s m au =
     names_count m au + part_count mi_audit_vlan (\<lambda>a. fst (au_vlan a)) m au +
     part_count mi_audit_stp (\<lambda>a. fst (au_stp a)) m au + offline_count now s m au +
     part_count mi_audit_pending (\<lambda>a. fst (au_pending a)) m au"

definition settingsHealthy :: "App \<Rightarrow> bool" where
  "settingsHealthy a \<longleftrightarrow> ap_agentOnline a \<and>
     (case ap_unifiMod a of Some m \<Rightarrow> \<not> mi_enabled m \<or> mi_status m = Some ModOk | None \<Rightarrow> True) \<and>
     (case ap_tplinkMod a of Some m \<Rightarrow> \<not> mi_enabled m \<or> mi_status m = Some ModOk \<or> mi_status m = Some ModReady | None \<Rightarrow> True)"

record Bell =
  be_open :: bool
  be_loading :: bool
  be_count :: int
  be_limited :: bool
  be_fromApi :: bool
  be_preview :: "AlarmSample list"

definition alarmBellCount :: "Bell \<Rightarrow> Dashboard option \<Rightarrow> int" where
  "alarmBellCount b dash = (if be_fromApi b then be_count b else (case dash of Some d \<Rightarrow> da_alarm_count d | None \<Rightarrow> 0))"

definition bellCount :: "rat \<Rightarrow> Storage \<Rightarrow> Bell \<Rightarrow> App \<Rightarrow> int" where
  "bellCount now s b a = notifCount now s (ap_unifiMod a) (ap_audit a) + alarmBellCount b (ap_dashboard a)"

definition onAlarmCount :: "int \<Rightarrow> bool \<Rightarrow> Bell \<Rightarrow> Bell" where
  "onAlarmCount n limited b = b\<lparr>be_count := n, be_limited := limited, be_fromApi := True\<rparr>"

definition bell_opened :: "Bell \<Rightarrow> Bell" where
  "bell_opened b = b\<lparr>be_loading := True\<rparr>"

definition bell_empty :: "Bell \<Rightarrow> Bell" where
  "bell_empty b = b\<lparr>be_count := 0, be_preview := [], be_fromApi := True\<rparr>"

text \<open>The answer to the question for the alarms; None when the request fails.\<close>

definition alarm_answer :: "AlarmsView Resp option \<Rightarrow> Bell \<Rightarrow> Bell" where
  "alarm_answer r b =
     (let b' = (case r of
          None \<Rightarrow> bell_empty b
        | Some x \<Rightarrow>
            if rs_status x = 404 \<or> \<not> rs_ok x then bell_empty b
            else (case rs_body x of
                    Inl _ \<Rightarrow> bell_empty b
                  | Inr data \<Rightarrow> b\<lparr>be_count := av_active_alarm_count data,
                      be_limited := alarmCountLimited (av_source data) (av_active_alarm_count data),
                      be_preview := take 5 (av_new_alarms data), be_fromApi := True\<rparr>))
      in b'\<lparr>be_loading := False\<rparr>)"

section \<open>The audit and the control connection\<close>

record AuditFocus =
  af_section :: string
  af_mac :: "mac option"
  af_nonce :: nat

text \<open>\<open>openAudit\<close>; in the anonymity mode (with a salt) the focus is on the substitute of the address.\<close>

definition audit_focus :: "string option \<Rightarrow> string \<Rightarrow> mac option \<Rightarrow> AuditFocus option \<Rightarrow> AuditFocus" where
  "audit_focus salt section m prev =
     \<lparr>af_section = section,
      af_mac = (if truthy m then (case salt of Some k \<Rightarrow> map_option (fakeMAC k) m | None \<Rightarrow> m) else m),
      af_nonce = (case prev of Some f \<Rightarrow> af_nonce f | None \<Rightarrow> 0) + 1\<rparr>"

definition firstUnsnoozedOfflineMac :: "rat \<Rightarrow> Storage \<Rightarrow> AuditView option \<Rightarrow> mac option" where
  "firstUnsnoozedOfflineMac now s au =
     map_option oar_mac (find (\<lambda>r. \<not> isOfflineSnoozed (oar_mac r) now s)
       (case au of Some a \<Rightarrow> snd (au_offline a) | None \<Rightarrow> []))"

text \<open>\<open>refreshFromControl\<close>: what the answer does; an answer in order starts a load.\<close>

definition refresh_ready :: "bool \<Rightarrow> App \<Rightarrow> bool" where
  "refresh_ready initRefreshing a \<longleftrightarrow> \<not> initRefreshing \<and> ap_controlLanOk a"

definition refresh_answer :: "string + string Resp \<Rightarrow> int \<Rightarrow> string + Answers \<Rightarrow> App \<Rightarrow> App" where
  "refresh_answer r now answers a =
     (case r of
        Inl e \<Rightarrow> a\<lparr>ap_error := Some e\<rparr>
      | Inr x \<Rightarrow>
          if rs_ok x then load now answers a
          else a\<lparr>ap_error := Some (or_else (case rs_body x of Inr t \<Rightarrow> t | Inl _ \<Rightarrow> [])
                   (''Refresh failed ('' @ dec (rs_status x) @ '')''))\<rparr>)"

definition selectedRegion :: "NavFrame list \<Rightarrow> Dashboard option \<Rightarrow> RankedFlow option" where
  "selectedRegion s dash =
     (case (findLast s ''region'', Option.bind dash da_top_regions) of
        (Some (FRegion cc _), Some rs) \<Rightarrow>
          if cc = [] then None
          else find (\<lambda>r. toUpperCase (or_else (opt_str (rf_country r)) (opt_str (rf_id r))) = toUpperCase cc) rs
      | _ \<Rightarrow> None)"

section \<open>Handlers of the navigation\<close>

text \<open>When the anonymity mode is switched, the stack goes back to its tab.\<close>

definition anon_switched :: "NavFrame list \<Rightarrow> NavFrame list" where
  "anon_switched s = (case find (\<lambda>f. kind_of f = ''tab'') s of Some f \<Rightarrow> [f] | None \<Rightarrow> resetTab TMetrics)"

record Shell =
  sh_stack :: "NavFrame list"
  sh_query :: string
  sh_wirelessMode :: string
  sh_settingsOpen :: "string option"
  sh_viewStates :: "string list"

text \<open>Of the cache of view states only its keys matter here.\<close>

definition selectTab :: "Tab \<Rightarrow> Shell \<Rightarrow> Shell" where
  "selectTab t s =
     s\<lparr>sh_viewStates := (if t \<noteq> tabOf (sh_stack s) \<or> 1 < length (sh_stack s) then [] else sh_viewStates s),
       sh_query := [], sh_wirelessMode := ''radios'', sh_settingsOpen := (if t \<noteq> TSettings then None else sh_settingsOpen s),
       sh_stack := resetTab t\<rparr>"

text \<open>Without the debug mode, the debug views are left at once.\<close>

definition debug_effect :: "bool \<Rightarrow> Shell \<Rightarrow> Shell" where
  "debug_effect debugOn s =
     (if debugOn then s
      else if tabOf (sh_stack s) = TDebug \<or> tabOf (sh_stack s) = TLegacy then selectTab TMetrics s else s)"

definition openDevice :: "mac \<Rightarrow> string \<Rightarrow> NavFrame list \<Rightarrow> NavFrame list" where
  "openDevice m label s = pushFrame (filter (\<lambda>f. kind_of f \<noteq> ''device'') s) (FDevice (toUpperCase m) label)"

definition openRegion :: "string \<Rightarrow> string \<Rightarrow> NavFrame list \<Rightarrow> NavFrame list" where
  "openRegion cc label s =
     (let base = filter (\<lambda>f. kind_of f \<noteq> ''region'' \<and> kind_of f \<noteq> ''device'') s;
          root = (if base \<noteq> [] \<and> kind_of (hd base) = ''tab'' then base else resetTab TMetrics)
      in pushFrame root (FRegion (toUpperCase cc) label))"

definition goDevicesLan :: "NetIface list \<Rightarrow> string \<Rightarrow> NavFrame list" where
  "goDevicesLan net uuid =
     [FTab TNetwork, FLan uuid (case map_of (uuidToNet net) uuid of Some n \<Rightarrow> netLabel n | None \<Rightarrow> uuid)]"

definition goDevicesGroup :: "Tag list \<Rightarrow> string \<Rightarrow> NavTag \<Rightarrow> NavFrame list" where
  "goDevicesGroup tags i t = [FTab TGroups, FGroup i (labelTag tags i (Some (tag_id_text t))) (Some t)]"

definition goDevicesSwitch :: "mac list \<Rightarrow> mac \<Rightarrow> string \<Rightarrow> NavFrame list" where
  "goDevicesSwitch macs m name =
     [FTab TTopology, FTopoSwitch (toUpperCase m) (or_else (trim name) m), FPorts (map toUpperCase macs) ''Clients'']"

definition patch_device :: "mac \<Rightarrow> (Device \<Rightarrow> Device) \<Rightarrow> Device list \<Rightarrow> Device list" where
  "patch_device m f devices = map (\<lambda>d. if toUpperCase (dev_mac d) = toUpperCase m then f d else d) devices"

fun relabel :: "mac \<Rightarrow> string \<Rightarrow> NavFrame list \<Rightarrow> NavFrame list" where
  "relabel m name [] = []"
| "relabel m name (f # fs) =
     (case f of
        FDevice x l \<Rightarrow> if toUpperCase x = toUpperCase m then FDevice x name # fs else f # relabel m name fs
      | _ \<Rightarrow> f # relabel m name fs)"

definition patchDeviceName :: "mac \<Rightarrow> string \<Rightarrow> Device list \<times> NavFrame list \<Rightarrow> Device list \<times> NavFrame list" where
  "patchDeviceName m name s =
     (patch_device m (\<lambda>d. d\<lparr>dev_name := name\<rparr>) (fst s), relabel m name (snd s))"

definition patchDeviceTags :: "mac \<Rightarrow> string list \<Rightarrow> Device list \<Rightarrow> Device list" where
  "patchDeviceTags m ids devices = patch_device m (\<lambda>d. d\<lparr>dev_tag_ids := Some ids\<rparr>) devices"

definition patchDeviceDNS :: "mac \<Rightarrow> string \<Rightarrow> Device list \<Rightarrow> Device list" where
  "patchDeviceDNS m h devices =
     patch_device m (\<lambda>d. d\<lparr>dev_local_domain := (if h \<noteq> [] then Some h else None)\<rparr>) devices"

text \<open>What the panel of a device tells the application.\<close>

fun panel_call :: "DetailCall \<Rightarrow> Device list \<times> NavFrame list \<Rightarrow> Device list \<times> NavFrame list" where
  "panel_call (OnRenamed m name) s = patchDeviceName m name s"
| "panel_call (OnDNSUpdated m h) s = (patchDeviceDNS m h (fst s), snd s)"
| "panel_call (OnGroupUpdated m ids) s = (patchDeviceTags m ids (fst s), snd s)"

text \<open>
  \<open>setHostTags\<close> after the answer: a refusal is shown and raised (the second part of the result), an
  acceptance patches the list.
\<close>

definition setHostTags ::
  "mac \<Rightarrow> string list \<Rightarrow> nat \<Rightarrow> string option \<Rightarrow> string list option \<Rightarrow> App \<Rightarrow> App \<times> string option" where
  "setHostTags m tags status err got a =
     (if \<not> (200 \<le> status \<and> status \<le> 299) then
        let msg = or_else (opt_str err) (''Update failed ('' @ dec status @ '')'') in
        (a\<lparr>ap_error := Some msg\<rparr>, Some msg)
      else (a\<lparr>ap_devices := patchDeviceTags m (case got of Some us \<Rightarrow> us | None \<Rightarrow> tags) (ap_devices a)\<rparr>, None))"

definition deviceByMac :: "Device list \<Rightarrow> (mac, Device) jsmap" where
  "deviceByMac devices = fold (\<lambda>d m. AList.update (toUpperCase (dev_mac d)) d m) devices []"

definition wifiByMac :: "WirelessClient list \<Rightarrow> (mac, WirelessClient) jsmap" where
  "wifiByMac cs = fold (\<lambda>c m. AList.update (toUpperCase (wc_mac c)) c m) cs []"

definition selectedDevice ::
  "rat \<Rightarrow> Device list \<Rightarrow> WirelessClient list \<Rightarrow> NavFrame list \<Rightarrow> DeviceDetailModel option" where
  "selectedDevice nowMs devices clients s =
     (case findLast s ''device'' of
        Some (FDevice m _) \<Rightarrow>
          deviceFromCatalog nowMs (map_of (deviceByMac devices) (toUpperCase m)) (map_of (wifiByMac clients) (toUpperCase m))
      | _ \<Rightarrow> None)"

definition showDevicesTable :: "NavFrame list \<Rightarrow> bool" where
  "showDevicesTable s \<longleftrightarrow> tabOf s = TDevices \<and> findLast s ''device'' = None \<or>
     findLast s ''lan'' \<noteq> None \<or> findLast s ''group'' \<noteq> None \<or> findLast s ''ports'' \<noteq> None"

section \<open>Properties of the list\<close>

definition last_seen :: "Device \<Rightarrow> int" where
  "last_seen d = (case dev_last_active_ts d of Some t \<Rightarrow> t | None \<Rightarrow> 0)"

interpretation newest: comparator newest_first
  by unfold_locales (auto simp: newest_first_def)

text \<open>the list of devices holds every device of the catalogue that passes the filters, as often as the
  catalogue has it and nothing else, the ones seen last first.\<close>

theorem filteredDevices_spec:
  "mset (filteredDevices tags net f devices) = filter_mset (list_keeps tags net f) (mset devices) \<and>
   sorted_wrt (\<lambda>a b. last_seen b \<le> last_seen a) (filteredDevices tags net f devices)"
  using newest.sorted_js_sort [of "filter (list_keeps tags net f) devices"]
  by (simp add: filteredDevices_def newest_first_def last_seen_def)

text \<open>What the filters read of a device, apart from the query, before and after the anonymity mode.\<close>

definition same_filters :: "string \<Rightarrow> Device \<Rightarrow> Device \<Rightarrow> Names \<Rightarrow> bool" where
  "same_filters salt d d' ns \<longleftrightarrow>
     dev_last_active_ts d' = shift_opt salt (dev_last_active_ts d) \<and> dev_intf_uuid d' = dev_intf_uuid d \<and>
     dev_tag_ids d' = dev_tag_ids d \<and> dev_device_tag_ids d' = dev_device_tag_ids d \<and>
     dev_user_tag_ids d' = dev_user_tag_ids d"

lemma yields_filters: "yields names_ok names_le (anonymizeDevice salt cidrs d) (same_filters salt d)"
  unfolding anonymizeDevice_def Let_def
  by ((rule nt.yields_then, intro view_intros keeps_flow keeps_fakeName, simp?)+, rule nt.yields_return)
    (simp add: same_filters_def)

lemma yields_all_filters:
  "yields names_ok names_le (anonymizeDevices salt devs cidrs)
     (\<lambda>out ns. list_all2 (\<lambda>d d'. same_filters salt d d' ns) devs out)"
  unfolding anonymizeDevices_def
  by (rule nt.yields_traverse) (rule yields_filters, simp add: same_filters_def)

lemma seen_shifted:
  assumes "dev_last_active_ts d' = shift_opt salt (dev_last_active_ts d)" "last_seen d \<noteq> - offsetSec salt"
  shows "seen_lately (nowMs + offsetSec salt * 1000) win d' = seen_lately nowMs win d"
  using assms by (auto simp: seen_lately_def shift_opt_def shiftTS_def last_seen_def algebra_simps split: option.splits)

text \<open>C18: without a query, the anonymity mode shows the substitutes of exactly the devices that are shown
  without it: the clock and the times are moved together, and the filters by group and by network
  read fields that are kept. The hypothesis on the time excludes the one moment, in January 1970, whose
  substitute is 0.\<close>

theorem anonymity_keeps_list:
  assumes "names_ok ns" "run_state (anonymizeDevices salt devs cidrs) ns = (out, ns')"
    and "list_all (\<lambda>d. last_seen d \<noteq> - offsetSec salt) devs" "trim (lf_query f) = []"
  shows "map (list_keeps tags' net' (f\<lparr>lf_nowMs := lf_nowMs f + offsetSec salt * 1000\<rparr>)) out =
    map (list_keeps tags net f) devs"
proof -
  have all: "list_all2 (\<lambda>d d'. same_filters salt d d' ns') devs out"
    using nt.yieldsD [OF yields_all_filters assms(1,2)] by auto
  have "list_keeps tags' net' (f\<lparr>lf_nowMs := lf_nowMs f + offsetSec salt * 1000\<rparr>) (out ! i) =
      list_keeps tags net f (devs ! i)" if "i < length devs" for i
  proof -
    have s: "same_filters salt (devs ! i) (out ! i) ns'" using all that by (rule list_all2_nthD)
    have tag: "in_tag t g (out ! i) = in_tag t g (devs ! i)" for t g
      using s by (cases t) (simp_all add: same_filters_def)
    have "seen_lately (lf_nowMs f + offsetSec salt * 1000) (lf_seenMs f) (out ! i) =
        seen_lately (lf_nowMs f) (lf_seenMs f) (devs ! i)"
      using s assms(3) that by (intro seen_shifted) (simp_all add: same_filters_def list_all_length)
    then show ?thesis using s assms(4) by (simp add: list_keeps_def tag same_filters_def)
  qed
  then show ?thesis using list_all2_lengthD [OF all] by (intro nth_equalityI) simp_all
qed

lemma offset_bound: "- offsetSec salt \<le> 16 * 86400"
proof -
  have "int (unat (fnv (units (salt @ ''|offset''))) mod 14) \<le> 13"
    using mod_less_divisor [of 14 "unat (fnv (units (salt @ ''|offset'')))"] by linarith
  then show ?thesis by (simp add: offsetSec_def)
qed

theorem anonymity_keeps_list_witness:
  "let d = (plain_device ''02:00:00:00:00:01'' ''tv'')\<lparr>dev_last_active_ts := Some 1700000000\<rparr>;
       f = \<lparr>lf_query = [], lf_seenMs = 3600000, lf_nowMs = 1700000000000, lf_group = [], lf_groupType = NavGroup, lf_lan = []\<rparr>;
       out = fst (run_state (anonymizeDevices ''k'' [d] []) Map.empty)
   in map (list_keeps [] [] (f\<lparr>lf_nowMs := lf_nowMs f + offsetSec ''k'' * 1000\<rparr>)) out = [True]"
proof -
  let ?d = "(plain_device ''02:00:00:00:00:01'' ''tv'')\<lparr>dev_last_active_ts := Some 1700000000\<rparr>"
  let ?f = "\<lparr>lf_query = [], lf_seenMs = 3600000, lf_nowMs = 1700000000000, lf_group = [], lf_groupType = NavGroup, lf_lan = []\<rparr>"
  obtain out ns' where run: "run_state (anonymizeDevices ''k'' [?d] []) Map.empty = (out, ns')" by force
  have "list_all (\<lambda>d. last_seen d \<noteq> - offsetSec ''k'') [?d]" using offset_bound [of "''k''"] by (simp add: last_seen_def)
  from anonymity_keeps_list [OF names_ok_empty run this, of ?f "[]" "[]" "[]" "[]"] show ?thesis
    by (simp add: run Let_def list_keeps_def seen_lately_def)
qed

section \<open>Properties of the navigation\<close>

lemma findLast_snoc: "findLast (s @ [f]) (kind_of f) = Some f"
  by (simp add: findLast_def find_down_spec)

lemma openDevice_last: "findLast (openDevice m label s) ''device'' = Some (FDevice (toUpperCase m) label)"
  using findLast_snoc [of _ "FDevice (toUpperCase m) label"] by (simp add: openDevice_def pushFrame_def)

lemma relabel_opened:
  assumes "''device'' \<notin> kind_of ` set s" "toUpperCase x = toUpperCase m"
  shows "relabel m name (s @ [FDevice x l]) = s @ [FDevice x name]"
  using assms(1)
proof (induction s)
  case (Cons f s)
  then show ?case by (cases f) simp_all
qed (simp add: assms(2))

lemma deviceByMac_get: "map_of (deviceByMac devices) k = find (\<lambda>d. toUpperCase (dev_mac d) = k) (rev devices)"
  using jm.get_fold_set [of "\<lambda>d. toUpperCase (dev_mac d)" "\<lambda>d. d" devices "[]" k]
  by (simp add: deviceByMac_def split: option.splits)

lemma find_patched:
  assumes "\<And>d. dev_mac (f d) = dev_mac d"
  shows "find (\<lambda>d. toUpperCase (dev_mac d) = k) (map (\<lambda>d. if toUpperCase (dev_mac d) = u then f d else d) ds) =
    map_option (\<lambda>d. if k = u then f d else d) (find (\<lambda>d. toUpperCase (dev_mac d) = k) ds)"
  by (induction ds) (auto simp: assms)

lemma patch_get:
  assumes "\<And>d. dev_mac (f d) = dev_mac d"
  shows "map_of (deviceByMac (patch_device m f devices)) k =
    map_option (\<lambda>d. if k = toUpperCase m then f d else d) (map_of (deviceByMac devices) k)"
  unfolding deviceByMac_get patch_device_def rev_map by (rule find_patched [OF assms])


definition sample_renamed :: "Device list \<times> NavFrame list" where
  "sample_renamed =
     panel_call (last (dt_calls (rename_answer ''02:00:00:00:00:01'' ''attic''
       (Reply True \<lparr>rb_error = None, rb_name = None, rb_unifi_warning = None\<rparr>) (detail_init (sample_props True)))))
       ([plain_device ''02:00:00:00:00:01'' ''tv''], openDevice ''02:00:00:00:00:01'' ''tv'' [FTab TDevices])"


section \<open>Properties of the bell\<close>

lemma snoozed_after:
  assumes "usable s" "storable str_num (prune (read_store s) now)" "reads_back str_num (now + ms)" "snooze_key m \<noteq> []" "0 < ms"
  shows "isOfflineSnoozed x now (snoozeOffline str_num m ms now s) \<longleftrightarrow>
    snooze_key x = snooze_key m \<or> isOfflineSnoozed x now s"
proof -
  have "read_store (snoozeOffline str_num m ms now s) =
      AList.update (snooze_key m) (JNum (now + ms)) (prune (read_store s) now)"
    using assms by (simp add: snoozeOffline_def read_write storable_update distinct_update prune_distinct)
  then show ?thesis
    using assms(4,5) later_mono [of now now]
    by (auto simp: snoozed_iff js_map prune_lookup [OF read_store_apart] split: option.splits)
qed

text \<open>putting off an offline device takes exactly its findings off the number on the bell: the rows of that
  device that were counted before, and no other.\<close>

theorem bell_after_snooze:
  assumes "usable s" "storable str_num (prune (read_store s) now)" "reads_back str_num (now + ms)"
    and "snooze_key m \<noteq> []" "0 < ms" "ap_audit a = Some au"
  shows "bellCount now (snoozeOffline str_num m ms now s) b a =
    bellCount now s b a -
      int (length (filter (\<lambda>r. snooze_key (oar_mac r) = snooze_key m \<and> \<not> isOfflineSnoozed (oar_mac r) now s) (snd (au_offline au))))"
proof -
  let ?s' = "snoozeOffline str_num m ms now s" and ?rows = "map oar_mac (snd (au_offline au))"
  let ?off = "\<lambda>x. isOfflineSnoozed x now s"
  note after = snoozed_after [OF assms(1-5)]
  have "length (filter (\<lambda>x. \<not> ?off x) xs) =
      length (filter (\<lambda>x. \<not> isOfflineSnoozed x now ?s') xs) + length (filter (\<lambda>x. snooze_key x = snooze_key m \<and> \<not> ?off x) xs)" for xs
    by (induction xs) (auto simp: after)
  from this [of ?rows] have "countUnsnoozedOffline ?rows now s =
      countUnsnoozedOffline ?rows now ?s' +
        length (filter (\<lambda>r. snooze_key (oar_mac r) = snooze_key m \<and> \<not> ?off (oar_mac r)) (snd (au_offline au)))"
    by (simp add: count_filter filter_map comp_def)
  then show ?thesis using assms(6) by (simp add: bellCount_def notifCount_def offline_count_def)
qed

definition sample_audit :: AuditView where
  "sample_audit = \<lparr>au_names = (0, []), au_vlan = (0, []), au_stp = (0, []), au_unknown = (0, []),
     au_offline = (2, [\<lparr>oar_mac = ''aa:bb'', oar_name = None, oar_kind = OffSwitch\<rparr>, \<lparr>oar_mac = ''CC:DD'', oar_name = None, oar_kind = OffSwitch\<rparr>]),
     au_pending = (0, [])\<rparr>"

definition quiet_bell :: Bell where
  "quiet_bell = \<lparr>be_open = False, be_loading = False, be_count = 0, be_limited = False, be_fromApi = False, be_preview = []\<rparr>"

theorem bell_after_snooze_witness:
  "let a = empty_app\<lparr>ap_audit := Some sample_audit\<rparr> in
   bellCount 1000 (snoozeOffline int_text ''AA:BB'' 1000 1000 empty_storage) quiet_bell a =
     bellCount 1000 empty_storage quiet_bell a - 1"
proof -
  have key: "snooze_key ''aa:bb'' = snooze_key ''AA:BB''" "snooze_key ''CC:DD'' \<noteq> snooze_key ''AA:BB''" "snooze_key ''AA:BB'' \<noteq> []"
    by code_simp+
  have "reads_back int_text (1000 + 1000)" using reads_back_int_text [of 2000] by simp
  from bell_after_snooze [OF empty_storage_facts(1) _ this key(3), of "empty_app\<lparr>ap_audit := Some sample_audit\<rparr>" sample_audit quiet_bell]
  show ?thesis
    by (simp add: empty_storage_facts sample_audit_def key snoozed_iff Let_def)
qed

end
