(* ===== verification/RulesScreen.thy ===== *)
theory RulesScreen
  imports Rules AppViews
begin

text \<open>
  The screen of the rules (\<open>ui/src/tabs/RulesTab.tsx\<close>, the component \<open>RulesTab\<close> and the sheet \<open>AddRuleSheet\<close>):
  loading and synchronising the rules with their error paths, the scopes and the rules of a scope, the
  labels, the rules by section, the shares of the summary, and the form of a new rule up to the request it
  sends. \<open>lt\<close> is the name of a tag as the application resolves it, \<open>lc\<close> the comparison of texts by locale.
\<close>

section \<open>Loading\<close>

record RulesState =
  rs_stat :: "FwAppStatus option"
  rs_data :: "FwAppRulesView option"
  rs_error :: "string option"
  rs_notice :: "string option"
  rs_busy :: bool
  rs_scopeId :: "string option"
  rs_query :: string

definition status_ok :: "FwAppStatus \<Rightarrow> bool" where
  "status_ok st \<longleftrightarrow> fs_paired st \<and> fs_state st \<noteq> ''lan-down'' \<and> fs_state st \<noteq> ''error'' \<and> fs_state st \<noteq> ''unpaired''"

definition canLoad :: "RulesState \<Rightarrow> bool" where
  "canLoad s = (case rs_stat s of Some st \<Rightarrow> status_ok st | None \<Rightarrow> False)"

text \<open>
  An answer of the control server: the request fails with a message, or there is a status and either the
  body asked for or the body of an error, with a message and the state of the connection.
\<close>

datatype 'b CtlReply = CtlFail string | CtlOk 'b | CtlError nat "string option" "FwAppStatus option"

definition loadStatus :: "FwAppStatus CtlReply \<Rightarrow> string + FwAppStatus" where
  "loadStatus r =
     (case r of CtlFail e \<Rightarrow> Inl e | CtlOk st \<Rightarrow> Inr st | CtlError n _ _ \<Rightarrow> Inl (''status '' @ dec n))"

text \<open>\<open>loadRules\<close> and the first part of \<open>sync\<close>: an error that brings the state of the connection stores it.\<close>

definition rules_body ::
  "string \<Rightarrow> FwAppRulesView CtlReply \<Rightarrow> RulesState \<Rightarrow> RulesState \<times> (string + FwAppRulesView)" where
  "rules_body what r s =
     (case r of
        CtlFail e \<Rightarrow> (s, Inl e)
      | CtlOk v \<Rightarrow> (s, Inr v)
      | CtlError n msg st \<Rightarrow>
          (if st \<noteq> None then s\<lparr>rs_stat := st\<rparr> else s, Inl (or_else (opt_str msg) (what @ '' '' @ dec n))))"

definition load_failed :: "string \<Rightarrow> RulesState \<Rightarrow> RulesState" where
  "load_failed e s = s\<lparr>rs_error := Some e, rs_data := None, rs_busy := False\<rparr>"

definition load_rules ::
  "FwAppStatus CtlReply \<Rightarrow> FwAppRulesView CtlReply \<Rightarrow> FwAppStatus CtlReply \<Rightarrow> RulesState \<Rightarrow> RulesState" where
  "load_rules r1 r2 r3 s0 =
     (let s = s0\<lparr>rs_busy := True, rs_error := None\<rparr> in
      case loadStatus r1 of
        Inl e \<Rightarrow> load_failed e s
      | Inr st \<Rightarrow>
          let s = s\<lparr>rs_stat := Some st\<rparr> in
          if \<not> status_ok st then s\<lparr>rs_data := None, rs_busy := False\<rparr>
          else (case rules_body ''rules'' r2 s of
             (s, Inl e) \<Rightarrow> load_failed e s
           | (s, Inr v) \<Rightarrow>
               let s = s\<lparr>rs_data := Some v\<rparr> in
               (case loadStatus r3 of
                  Inl e \<Rightarrow> load_failed e s
                | Inr st \<Rightarrow> s\<lparr>rs_stat := Some st, rs_busy := False\<rparr>)))"

text \<open>A failed synchronisation keeps the rules that are shown.\<close>

definition sync_failed :: "string \<Rightarrow> RulesState \<Rightarrow> RulesState" where
  "sync_failed e s = s\<lparr>rs_error := Some e, rs_busy := False\<rparr>"

definition sync_rules :: "FwAppRulesView CtlReply \<Rightarrow> FwAppStatus CtlReply \<Rightarrow> RulesState \<Rightarrow> RulesState" where
  "sync_rules r1 r2 s0 =
     (if \<not> canLoad s0 \<or> rs_busy s0 then s0
      else let s = s0\<lparr>rs_busy := True, rs_error := None, rs_notice := None\<rparr> in
        case rules_body ''sync'' r1 s of
          (s, Inl e) \<Rightarrow> sync_failed e s
        | (s, Inr v) \<Rightarrow>
            let s = s\<lparr>rs_data := Some v\<rparr> in
            (case loadStatus r2 of
               Inl e \<Rightarrow> sync_failed e s
             | Inr st \<Rightarrow> s\<lparr>rs_stat := Some st, rs_notice := Some ''Synced'', rs_busy := False\<rparr>))"

section \<open>Scopes and labels\<close>

definition openScope :: "string \<Rightarrow> RulesState \<Rightarrow> RulesState" where
  "openScope i s = s\<lparr>rs_query := [], rs_scopeId := Some i\<rparr>"

definition backToScopes :: "RulesState \<Rightarrow> RulesState" where
  "backToScopes s = s\<lparr>rs_query := [], rs_scopeId := None\<rparr>"

text \<open>What is shown of the data; in the anonymity mode there is a salt.\<close>

definition show_rules :: "string option \<Rightarrow> RulesState \<Rightarrow> FwAppRulesView option" where
  "show_rules salt s =
     (case salt of
        Some k \<Rightarrow> map_option (\<lambda>v. anonymizeFwAppRules k v []) (rs_data s)
      | None \<Rightarrow> rs_data s)"

definition good_label :: "string \<Rightarrow> string \<Rightarrow> bool" where
  "good_label i name \<longleftrightarrow> name \<noteq> [] \<and> name \<noteq> i \<and> \<not> looksLikeUUID name"

definition resolveScopeLabel ::
  "(string \<Rightarrow> string \<Rightarrow> string) \<Rightarrow> Device list \<Rightarrow> FwAppScopeChip \<Rightarrow> string" where
  "resolveScopeLabel lt devices s =
     (let i = scopeTagId s;
          rest = (if looksLikeUUID (ch_label s) then ''Group '' @ i else ch_label s);
          d = (if ch_kind s = ScopeDevice then map_of (deviceByMac devices) (toUpperCase (ch_id s)) else None)
      in case d of
           Some x \<Rightarrow> preferredName x
         | None \<Rightarrow>
             if ch_kind s = ScopeTag \<or> ch_kind s = ScopeGroup then
               (if good_label i (lt i ''group'') then lt i ''group''
                else if good_label i (lt i ''user'') then lt i ''user'' else rest)
             else rest)"

definition on_tag :: "(string \<Rightarrow> string \<Rightarrow> string) \<Rightarrow> string \<Rightarrow> string list" where
  "on_tag lt ref =
     (if startsWith ref ''tag:'' then
        let i = drop 4 ref; name = lt i ''group'' in
        if good_label i name then [name] else [if looksLikeUUID i then ''Group '' @ i else i]
      else if startsWith ref ''intf:'' then [''Network'']
      else if ref \<noteq> [] then [ref] else [])"

definition displayOn :: "(string \<Rightarrow> string \<Rightarrow> string) \<Rightarrow> Device list \<Rightarrow> FwAppRule \<Rightarrow> string" where
  "displayOn lt devices r =
     (let parts = concat (map (on_tag lt) (opt_list (fr_tags r))) @
            map (\<lambda>m. case map_of (deviceByMac devices) (toUpperCase m) of Some d \<Rightarrow> preferredName d | None \<Rightarrow> m)
              (opt_list (fr_scope r))
      in if parts \<noteq> [] then join '', '' parts
         else if truthy (fr_scopeLabel r) \<and> \<not> looksLikeUUID (opt_str (fr_scopeLabel r)) \<and> \<not> isEpochish (opt_str (fr_scopeLabel r))
         then opt_str (fr_scopeLabel r) else ''All Devices'')"

definition shown_scopes :: "FwAppRulesView option \<Rightarrow> FwAppScopeChip list" where
  "shown_scopes v = (case v of Some x \<Rightarrow> filter (\<lambda>s. ch_kind s = ScopeAll \<or> 0 < ch_count s) (rv_scopes x) | None \<Rightarrow> [])"

definition scope_order ::
  "(string \<Rightarrow> string \<Rightarrow> int) \<Rightarrow> (FwAppScopeChip \<Rightarrow> string) \<Rightarrow> FwAppScopeChip \<Rightarrow> FwAppScopeChip \<Rightarrow> int" where
  "scope_order lc label a b = (let d = ch_count b - ch_count a in if d \<noteq> 0 then d else lc (label a) (label b))"

definition groupScopes ::
  "(string \<Rightarrow> string \<Rightarrow> int) \<Rightarrow> (FwAppScopeChip \<Rightarrow> string) \<Rightarrow> FwAppScopeChip list \<Rightarrow> FwAppScopeChip list" where
  "groupScopes lc label ss = js_sort (scope_order lc label) (filter (\<lambda>s. ch_kind s = ScopeTag \<or> ch_kind s = ScopeGroup) ss)"

definition deviceScopes ::
  "(string \<Rightarrow> string \<Rightarrow> int) \<Rightarrow> (FwAppScopeChip \<Rightarrow> string) \<Rightarrow> FwAppScopeChip list \<Rightarrow> FwAppScopeChip list" where
  "deviceScopes lc label ss = js_sort (scope_order lc label) (filter (\<lambda>s. ch_kind s = ScopeDevice) ss)"

definition dap_rules :: "FwAppRulesView option \<Rightarrow> FwAppRule list" where
  "dap_rules v = (case v of Some x \<Rightarrow> opt_list (rv_dapRules x) | None \<Rightarrow> [])"

definition dapScope :: "FwAppRulesView option \<Rightarrow> FwAppScopeChip option" where
  "dapScope v =
     (if dap_rules v \<noteq> [] then
        Some \<lparr>ch_id = DAP_SCOPE_ID, ch_kind = ScopeAll, ch_label = ''Active Protect'', ch_count = int (length (dap_rules v))\<rparr>
      else None)"

definition activeScope :: "FwAppRulesView option \<Rightarrow> string option \<Rightarrow> FwAppScopeChip option" where
  "activeScope v scopeId =
     (if scopeId = Some DAP_SCOPE_ID then dapScope v
      else if truthy scopeId then find (\<lambda>s. ch_id s = opt_str scopeId) (shown_scopes v) else None)"

text \<open>The effect that leaves a scope that has gone.\<close>

definition scope_effect :: "FwAppRulesView option \<Rightarrow> RulesState \<Rightarrow> RulesState" where
  "scope_effect v s =
     (case rs_scopeId s of
        None \<Rightarrow> s
      | Some i \<Rightarrow>
          if i = DAP_SCOPE_ID then (if dapScope v = None then s\<lparr>rs_scopeId := None\<rparr> else s)
          else if list_ex (\<lambda>c. ch_id c = i) (shown_scopes v) then s else s\<lparr>rs_scopeId := None\<rparr>)"

section \<open>The rules of a scope\<close>

definition scopedRules :: "FwAppRulesView option \<Rightarrow> string option \<Rightarrow> FwAppRule list" where
  "scopedRules v scopeId =
     (case (v, activeScope v scopeId) of
        (Some x, Some c) \<Rightarrow>
          if scopeId = Some DAP_SCOPE_ID then dap_rules v else filter (\<lambda>r. ruleMatchesScope r (Some c)) (rv_rules x)
      | _ \<Rightarrow> [])"

definition filteredRules :: "string \<Rightarrow> FwAppRule list \<Rightarrow> FwAppRule list" where
  "filteredRules query rules =
     (let q = toLowerCase (trim query) in if q = [] then rules else filter (\<lambda>r. str_includes (ruleHaystack r) q) rules)"

definition section_add :: "FwAppRule \<Rightarrow> (FwAppRuleSection, FwAppRule list) jsmap \<Rightarrow> (FwAppRuleSection, FwAppRule list) jsmap" where
  "section_add r m =
     (let k = (if map_of m (fr_section r) \<noteq> None then fr_section r else SecOther)
      in AList.update k (opt_list (map_of m k) @ [r]) m)"

definition bySection :: "FwAppRule list \<Rightarrow> (FwAppRuleSection, FwAppRule list) jsmap" where
  "bySection rules = fold section_add rules (map (\<lambda>s. (fst s, [])) SECTIONS)"

definition shown_hub :: "FwAppRulesView option \<Rightarrow> string option \<Rightarrow> FwAppRulesHub" where
  "shown_hub v scopeId =
     (if activeScope v scopeId \<noteq> None then hubFromRules (scopedRules v scopeId)
      else case v of Some x \<Rightarrow> rv_hub x | None \<Rightarrow> hubFromRules [])"

definition allowPct :: "FwAppRulesHub \<Rightarrow> int" where
  "allowPct hub =
     (let den = hub_allowHits hub + hub_blockHits hub in
      if 0 < den then js_round (of_int (hub_allowHits hub) / of_int den * 100) else 0)"

definition blockPct :: "FwAppRulesHub \<Rightarrow> int" where
  "blockPct hub = (if 0 < hub_allowHits hub + hub_blockHits hub then 100 - allowPct hub else 0)"

section \<open>A new rule\<close>

datatype FormScreen = ScrForm | ScrMatch | ScrOn | ScrCountry | ScrDevice

record RuleForm =
  fo_action :: string
  fo_name :: string
  fo_match :: string
  fo_target :: string
  fo_on :: string
  fo_customMac :: string
  fo_notes :: string
  fo_direction :: string
  fo_err :: "string option"
  fo_working :: bool
  fo_screen :: FormScreen
  fo_picker :: string

record FwAppCreateRuleRequest =
  cr_action :: string
  cr_type :: string
  cr_target :: string
  cr_scope :: "string list"
  cr_direction :: string
  cr_notes :: "string option"
  cr_name :: "string option"

definition default_direction :: "string \<Rightarrow> string" where
  "default_direction action = (if action = ''allow'' then ''outbound'' else ''bidirection'')"

definition form_init :: "string \<Rightarrow> string \<Rightarrow> RuleForm" where
  "form_init action defaultOn =
     \<lparr>fo_action = action, fo_name = [], fo_match = ''dns'', fo_target = [], fo_on = or_else defaultOn ''__all__'',
      fo_customMac = [], fo_notes = [], fo_direction = default_direction action, fo_err = None, fo_working = False,
      fo_screen = ScrForm, fo_picker = []\<rparr>"

definition set_action :: "string \<Rightarrow> RuleForm \<Rightarrow> RuleForm" where
  "set_action action f = f\<lparr>fo_action := action, fo_direction := default_direction action\<rparr>"

definition match_kind :: "RuleForm \<Rightarrow> MatchKind" where
  "match_kind f = (case find (\<lambda>m. mk_id m = fo_match f) MATCH_KINDS of Some m \<Rightarrow> m | None \<Rightarrow> hd MATCH_KINDS)"

text \<open>The capability the chosen action needs; an action that is not in the table raises, the value None.\<close>

definition action_ready :: "(string, bool) jsmap \<Rightarrow> RuleForm \<Rightarrow> bool option" where
  "action_ready caps f =
     map_option (\<lambda>a. map_of caps (snd (snd a)) = Some True) (find (\<lambda>a. fst a = fo_action f) CREATE_ACTIONS)"

definition canCreate :: "RuleForm \<Rightarrow> bool" where
  "canCreate f \<longleftrightarrow> fo_action f = ''allow'' \<or> fo_action f = ''block''"

definition scopeValue :: "RuleForm \<Rightarrow> string" where
  "scopeValue f = (if fo_on f = ''__custom__'' then trim (fo_customMac f) else fo_on f)"

definition canSubmit :: "(string, bool) jsmap \<Rightarrow> bool \<Rightarrow> RuleForm \<Rightarrow> bool" where
  "canSubmit caps busy f \<longleftrightarrow>
     canCreate f \<and> action_ready caps f = Some True \<and> mk_ready (match_kind f) \<and> trim (fo_target f) \<noteq> [] \<and>
     scopeValue f \<noteq> [] \<and> \<not> fo_working f \<and> \<not> busy"

definition some_text :: "string \<Rightarrow> string option" where
  "some_text s = (if trim s \<noteq> [] then Some (trim s) else None)"

definition submit_body :: "RuleForm \<Rightarrow> FwAppCreateRuleRequest" where
  "submit_body f =
     \<lparr>cr_action = fo_action f, cr_type = mk_type (match_kind f), cr_target = trim (fo_target f),
      cr_scope = (if scopeValue f = ''__all__'' then [] else [scopeValue f]), cr_direction = fo_direction f,
      cr_notes = some_text (fo_notes f), cr_name = some_text (fo_name f)\<rparr>"

text \<open>\<open>submit\<close>: the request it sends, if it sends one, and the form meanwhile.\<close>

definition submit :: "(string, bool) jsmap \<Rightarrow> bool \<Rightarrow> RuleForm \<Rightarrow> RuleForm \<times> FwAppCreateRuleRequest option" where
  "submit caps busy f =
     (if \<not> canSubmit caps busy f then (f, None)
      else (f\<lparr>fo_working := True, fo_err := None\<rparr>, Some (submit_body f)))"

text \<open>The scope that is opened after the rule was created.\<close>

definition created_scope :: "RuleForm \<Rightarrow> string" where
  "created_scope f = (if scopeValue f = ''__custom__'' then toUpperCase (trim (fo_customMac f)) else scopeValue f)"

text \<open>The answer: a failed request, a refusal with its status and message, or a new rule. In the last case the
  sheet is closed, the rules are loaded again and the scope is opened.\<close>

definition submit_failed :: "string + nat \<times> string option \<Rightarrow> RuleForm \<Rightarrow> RuleForm" where
  "submit_failed r f =
     f\<lparr>fo_err := Some (case r of Inl e \<Rightarrow> e | Inr (n, msg) \<Rightarrow> or_else (opt_str msg) (''create '' @ dec n)), fo_working := False\<rparr>"

definition on_created ::
  "string \<Rightarrow> FwAppStatus CtlReply \<Rightarrow> FwAppRulesView CtlReply \<Rightarrow> FwAppStatus CtlReply \<Rightarrow> RulesState \<Rightarrow> RulesState" where
  "on_created i r1 r2 r3 s =
     (let s = load_rules r1 r2 r3 s;
          s = (if i \<noteq> [] \<and> i \<noteq> ''__all__'' then openScope i s else s)
      in s\<lparr>rs_notice := Some ''Created''\<rparr>)"

definition pickMatch :: "FwAppCatalogItem list \<Rightarrow> string \<Rightarrow> RuleForm \<Rightarrow> RuleForm" where
  "pickMatch appRows i f =
     (case find (\<lambda>m. mk_id m = i) MATCH_KINDS of
        None \<Rightarrow> f
      | Some m \<Rightarrow>
          let f = f\<lparr>fo_match := i, fo_picker := []\<rparr> in
          if i = ''category'' then f\<lparr>fo_target := fst (hd SYSTEM_CATEGORIES), fo_screen := ScrForm\<rparr>
          else if i = ''app'' then
            f\<lparr>fo_target := (case appRows of a # _ \<Rightarrow> ci_id a | [] \<Rightarrow> []), fo_screen := ScrForm\<rparr>
          else let f = f\<lparr>fo_target := []\<rparr> in
            if i = ''country'' then f\<lparr>fo_screen := ScrCountry\<rparr>
            else if i = ''device'' then f\<lparr>fo_screen := ScrDevice\<rparr>
            else f\<lparr>fo_screen := ScrForm\<rparr>)"

definition pickOn :: "string \<Rightarrow> RuleForm \<Rightarrow> RuleForm" where
  "pickOn v f = f\<lparr>fo_on := v, fo_screen := ScrForm\<rparr>"

definition userTags :: "(string \<Rightarrow> string \<Rightarrow> int) \<Rightarrow> Tag list \<Rightarrow> Tag list" where
  "userTags lc tags = js_sort (\<lambda>a b. lc (tag_name a) (tag_name b)) (filter (\<lambda>t. tag_type t = Some ''user'') tags)"

definition affiliated_ids :: "Tag list \<Rightarrow> string list" where
  "affiliated_ids users = filter (\<lambda>x. x \<noteq> []) (map (\<lambda>t. opt_str (tag_affiliated_tag t)) users)"

definition groupTags :: "(string \<Rightarrow> string \<Rightarrow> int) \<Rightarrow> Tag list \<Rightarrow> Tag list" where
  "groupTags lc tags =
     js_sort (\<lambda>a b. lc (tag_name a) (tag_name b))
       (filter (\<lambda>t. (\<not> truthy (tag_type t) \<or> tag_type t = Some ''group'') \<and>
          tag_id t \<notin> set (affiliated_ids (userTags lc tags))) tags)"

definition deviceRows :: "(string \<Rightarrow> string \<Rightarrow> int) \<Rightarrow> Device list \<Rightarrow> Device list" where
  "deviceRows lc devices = js_sort (\<lambda>a b. lc (preferredName a) (preferredName b)) devices"

definition app_label :: "FwAppCatalogItem \<Rightarrow> string" where
  "app_label a = (case map_of APP_LABELS (ci_id a) of Some l \<Rightarrow> l | None \<Rightarrow> (case ci_label a of Some l \<Rightarrow> l | None \<Rightarrow> ci_id a))"

definition appRows :: "(string \<Rightarrow> string \<Rightarrow> int) \<Rightarrow> FwAppCatalogItem list \<Rightarrow> FwAppCatalogItem list" where
  "appRows lc apps = js_sort (\<lambda>a b. lc (app_label a) (app_label b)) apps"

definition tagLabel :: "(string \<Rightarrow> string \<Rightarrow> string) \<Rightarrow> Tag \<Rightarrow> string \<Rightarrow> string" where
  "tagLabel lt t prefer =
     (if good_label (tag_id t) (lt (tag_id t) prefer) then lt (tag_id t) prefer
      else if tag_name t \<noteq> [] \<and> \<not> looksLikeUUID (tag_name t) then tag_name t
      else or_else (tag_name t) (tag_id t))"

definition onLabel ::
  "(string \<Rightarrow> string \<Rightarrow> int) \<Rightarrow> (string \<Rightarrow> string \<Rightarrow> string) \<Rightarrow> Tag list \<Rightarrow> Device list \<Rightarrow> RuleForm \<Rightarrow> string" where
  "onLabel lc lt tags devices f =
     (if fo_on f = ''__all__'' then ''All Devices''
      else if fo_on f = ''__custom__'' then or_else (trim (fo_customMac f)) ''Other MAC''
      else if startsWith (fo_on f) ''tag:'' then
        let i = drop 4 (fo_on f) in
        (case find (\<lambda>t. or_else (opt_str (tag_affiliated_tag t)) (tag_id t) = i) (userTags lc tags) of
           Some u \<Rightarrow> tagLabel lt u ''user''
         | None \<Rightarrow> (case find (\<lambda>t. tag_id t = i) (groupTags lc tags) of Some g \<Rightarrow> tagLabel lt g ''group'' | None \<Rightarrow> i))
      else case find (\<lambda>d. toUpperCase (dev_mac d) = fo_on f) (deviceRows lc devices) of
             Some d \<Rightarrow> preferredName d | None \<Rightarrow> fo_on f)"

section \<open>Properties\<close>

text \<open>a load of the rules always ends with the screen free; the rules are shown exactly when the connection
  was in order and all three answers came, and in every other case none are shown, so that old rules are
  never shown as current.\<close>

theorem load_rules_outcome:
  "let s' = load_rules r1 r2 r3 s in
   \<not> rs_busy s' \<and>
   rs_data s' = (case (loadStatus r1, r2, loadStatus r3) of
       (Inr st, CtlOk v, Inr _) \<Rightarrow> if status_ok st then Some v else None
     | _ \<Rightarrow> None) \<and>
   rs_scopeId s' = rs_scopeId s \<and> rs_query s' = rs_query s"
  by (cases "loadStatus r1"; cases r2; cases "loadStatus r3")
    (simp_all add: load_rules_def load_failed_def rules_body_def Let_def)

lemma sync_keeps_data:
  "rs_data (sync_rules r1 r2 s) = rs_data s \<or> (\<exists>v. r1 = CtlOk v \<and> rs_data (sync_rules r1 r2 s) = Some v)"
  by (cases r1; cases "loadStatus r2") (simp_all add: sync_rules_def sync_failed_def rules_body_def Let_def)

lemma bySection_fold:
  assumes "\<forall>sec. map_of m sec \<noteq> None"
  shows "map_of (fold section_add rules m) sec = Some (opt_list (map_of m sec) @ filter (\<lambda>r. fr_section r = sec) rules)"
  using assms
proof (induction rules arbitrary: m)
  case Nil
  then obtain l where "map_of m sec = Some l" by blast
  then show ?case by (simp add: opt_list_def)
next
  case (Cons r rules)
  obtain l where l: "map_of m (fr_section r) = Some l" using Cons.prems by blast
  have m: "section_add r m = AList.update (fr_section r) (l @ [r]) m"
    using l by (simp add: section_add_def opt_list_def)
  have "\<forall>sec. map_of (section_add r m) sec \<noteq> None" using Cons.prems by (simp add: m js_map)
  from Cons.IH [OF this] show ?case using l by (auto simp: m js_map opt_list_def)
qed

text \<open>the rules are split into their five sections: each section holds the rules of that section, all of
  them, in the order of the list.\<close>

theorem bySection_spec: "map_of (bySection rules) sec = Some (filter (\<lambda>r. fr_section r = sec) rules)"
proof -
  have "map_of (map (\<lambda>s. (fst s, [])) SECTIONS) sec = Some ([] :: FwAppRule list)" for sec
    by (cases sec) (simp_all add: SECTIONS_def)
  then show ?thesis unfolding bySection_def by (subst bySection_fold) (simp_all add: opt_list_def)
qed

text \<open>the two shares of the summary are percentages that make up the whole as soon as there are hits.\<close>

theorem shares_add_up:
  assumes "0 \<le> hub_allowHits hub" "0 \<le> hub_blockHits hub"
  shows "0 \<le> allowPct hub \<and> allowPct hub \<le> 100 \<and> 0 \<le> blockPct hub \<and>
    allowPct hub + blockPct hub = (if 0 < hub_allowHits hub + hub_blockHits hub then 100 else 0)"
proof (cases "0 < hub_allowHits hub + hub_blockHits hub")
  case True
  let ?x = "of_int (hub_allowHits hub) / of_int (hub_allowHits hub + hub_blockHits hub) * 100 :: rat"
  have pos: "0 < (of_int (hub_allowHits hub + hub_blockHits hub) :: rat)" using True by simp
  have "of_int (hub_allowHits hub) \<le> (of_int (hub_allowHits hub + hub_blockHits hub) :: rat)"
    using assms(2) by simp
  then have "of_int (hub_allowHits hub) / of_int (hub_allowHits hub + hub_blockHits hub) \<le> (1 :: rat)"
    using pos by (simp only: divide_le_eq_1_pos)
  then have "?x \<le> 1 * 100" by (rule mult_right_mono) simp
  moreover have "0 \<le> ?x" using assms(1) pos by (intro mult_nonneg_nonneg divide_nonneg_pos) simp_all
  ultimately have "0 \<le> js_round ?x" "js_round ?x \<le> 100"
    unfolding js_round_def le_floor_iff floor_le_iff by linarith+
  moreover have "allowPct hub = js_round ?x" using True by (simp only: allowPct_def Let_def if_True)
  ultimately show ?thesis using True by (simp add: blockPct_def)
next
  case False
  then show ?thesis by (simp add: allowPct_def blockPct_def)
qed

theorem shares_add_up_witness:
  "let hub = \<lparr>hub_totalRules = 2, hub_totalHits = 3, hub_allowHits = 1, hub_blockHits = 2, hub_allowCount = 1, hub_blockCount = 1\<rparr>
   in allowPct hub + blockPct hub = 100"
  using shares_add_up [of "\<lparr>hub_totalRules = 2, hub_totalHits = 3, hub_allowHits = 1, hub_blockHits = 2, hub_allowCount = 1, hub_blockCount = 1\<rparr>"]
  by simp

lemma hub_add_fake: "hub_add (fake_rule salt cidrs r) = hub_add r"
proof -
  have "fr_hitCount (fake_rule salt cidrs r) = fr_hitCount r" "fr_section (fake_rule salt cidrs r) = fr_section r"
    by (simp_all add: fake_rule_def Let_def)
  then show ?thesis by (intro ext) (simp only: hub_add_def)
qed


definition sample_rule :: FwAppRule where
  "sample_rule =
     \<lparr>fr_id = ''1'', fr_section = SecBlock, fr_action = ''block'', fr_type = ''dns'', fr_target = ''example.com'',
      fr_name = None, fr_notes = None, fr_direction = None, fr_trafficDirection = None, fr_disabled = False,
      fr_scope = Some [''02:00:00:00:00:0a''], fr_tags = None, fr_scopeLabel = None, fr_hitCount = 3, fr_lastHitTs = None,
      fr_activatedTime = None, fr_timestamp = None, fr_purpose = None, fr_method = None, fr_alarmType = None,
      fr_readOnly = None, fr_thresholdMinutes = None, fr_offsetSeconds = None\<rparr>"

definition sample_chip :: FwAppScopeChip where
  "sample_chip = \<lparr>ch_id = ''02:00:00:00:00:0A'', ch_kind = ScopeDevice, ch_label = ''tv'', ch_count = 1\<rparr>"


text \<open>after the scopes have changed, the screen is in a scope that is shown, or in none.\<close>

theorem scope_effect_valid:
  "rs_scopeId (scope_effect v s) \<in> {None, Some []} \<or> activeScope v (rs_scopeId (scope_effect v s)) \<noteq> None"
proof -
  have "find (\<lambda>c. ch_id c = i) cs \<noteq> None" if "list_ex (\<lambda>c. ch_id c = i) cs" for i and cs :: "FwAppScopeChip list"
    using that by (auto simp: find_None_iff list_ex_iff)
  then show ?thesis
    by (auto simp: scope_effect_def activeScope_def truthy_def opt_str_def split: option.splits)
qed


definition sample_form :: RuleForm where
  "sample_form = (form_init ''block'' [])\<lparr>fo_target := '' example.com '', fo_on := ''__custom__'', fo_customMac := ''aa:bb''\<rparr>"


text \<open>
  The address typed by hand is meant to be put in capitals before its scope is opened, but the test
  compares the value after the choice \<open>__custom__\<close> has been replaced by the address, so it never is.
  With an address in small letters the scope is not found, and the screen goes back to the list.
\<close>

lemma custom_scope_as_typed:
  "fo_on f = ''__custom__'' \<Longrightarrow> trim (fo_customMac f) \<noteq> ''__custom__'' \<Longrightarrow> created_scope f = trim (fo_customMac f)"
  by (simp add: created_scope_def scopeValue_def)

lemma custom_scope_lost:
  assumes "fo_on f = ''__custom__''" "trim (fo_customMac f) \<noteq> toUpperCase (trim (fo_customMac f))"
    and "trim (fo_customMac f) \<notin> {''__custom__'', DAP_SCOPE_ID}" "list_all (\<lambda>c. ch_id c = toUpperCase (ch_id c)) (shown_scopes v)"
  shows "rs_scopeId (scope_effect v (openScope (created_scope f) s)) = None"
proof -
  have "\<not> list_ex (\<lambda>c. ch_id c = trim (fo_customMac f)) (shown_scopes v)"
    using assms(2,4) by (auto simp: list_ex_iff list_all_iff)
  then show ?thesis using assms(1,3) by (simp add: custom_scope_as_typed scope_effect_def openScope_def)
qed

end
