(* ===== verification/JsonTypes.thy ===== *)
theory JsonTypes
  imports Json Prefs "HOL-Library.Monad_Syntax"
begin

text \<open>
  Typed values as JSON. \<open>JSON.stringify\<close> leaves out members that are undefined, and \<open>JSON.parse(raw) as T\<close>
  gives the parsed value a type without looking at it. A type has an encoder, which is total, and
  a decoder, which is undefined on a value that has not the shape of the type; the contract of the pair is the
  locale \<open>codec\<close>, and it is interpreted for every type that is stored: ports, switches, the nodes
  of the topology and its views.
\<close>

section \<open>Objects with optional members\<close>

definition js_obj :: "(string \<times> json option) list \<Rightarrow> json" where
  "js_obj fs = JObj (List.map_filter (\<lambda>(k, v). map_option (Pair k) v) fs)"

fun member_of :: "json \<Rightarrow> string \<Rightarrow> json option" where
  "member_of (JObj ms) k = map_of ms k"
| "member_of _ k = None"

definition need :: "(json \<Rightarrow> 'a option) \<Rightarrow> json \<Rightarrow> string \<Rightarrow> 'a option" where
  "need rd v k = Option.bind (member_of v k) rd"

definition may :: "(json \<Rightarrow> 'a option) \<Rightarrow> json \<Rightarrow> string \<Rightarrow> 'a option option" where
  "may rd v k = (case member_of v k of None \<Rightarrow> Some None | Some x \<Rightarrow> map_option Some (rd x))"

lemma map_of_kept:
  "distinct (map fst fs) \<Longrightarrow>
     map_of (List.map_filter (\<lambda>(k, v). map_option (Pair k) v) fs) k = Option.bind (map_of fs k) id"
proof (induction fs)
  case (Cons f fs)
  have none: "k \<notin> set (map fst fs) \<Longrightarrow> map_of fs k = None" by (simp add: map_of_eq_None_iff)
  then show ?case using Cons by (cases f; cases "snd f") (auto simp: map_filter_simps)
qed (simp add: map_filter_simps)

lemma kept_keys: "set (map fst (List.map_filter (\<lambda>(k, v). map_option (Pair k) v) fs)) \<subseteq> set (map fst fs)"
  by (induction fs) (auto simp: map_filter_simps split: option.splits)

lemma kept_apart:
  "distinct (map fst fs) \<Longrightarrow> distinct (map fst (List.map_filter (\<lambda>(k, v). map_option (Pair k) v) fs))"
proof (induction fs)
  case (Cons f fs)
  then show ?case using kept_keys [of fs] by (cases f; cases "snd f") (auto simp: map_filter_simps)
qed (simp add: map_filter_simps)

lemma member_of_obj: "distinct (map fst fs) \<Longrightarrow> member_of (js_obj fs) k = Option.bind (map_of fs k) id"
  by (simp add: js_obj_def map_of_kept)

lemma printable_js_obj:
  assumes "distinct (map fst fs)" and "\<And>k v. (k, Some v) \<in> set fs \<Longrightarrow> printable str_num v"
  shows "printable str_num (js_obj fs)"
proof -
  have "(\<And>k v. (k, Some v) \<in> set fs \<Longrightarrow> printable str_num v) \<Longrightarrow>
      printable_members str_num (List.map_filter (\<lambda>(k, v). map_option (Pair k) v) fs)"
  proof (induction fs)
    case (Cons f fs)
    then show ?case by (cases f; cases "snd f") (auto simp: map_filter_simps)
  qed (simp add: map_filter_simps)
  then show ?thesis using assms kept_apart by (simp add: js_obj_def)
qed

section \<open>The contract of an encoder and its decoder\<close>

locale codec =
  fixes enc :: "'a \<Rightarrow> json" and dec_json :: "json \<Rightarrow> 'a option"
  assumes dec_enc: "dec_json (enc x) = Some x"
begin

lemma enc_inj: "enc x = enc y \<longleftrightarrow> x = y"
  by (metis dec_enc option.inject)

lemma need_enc: "member_of v k = Some (enc x) \<Longrightarrow> need dec_json v k = Some x"
  by (simp add: need_def dec_enc)

lemma may_enc: "member_of v k = map_option enc x \<Longrightarrow> may dec_json v k = Some x"
  by (cases x) (simp_all add: may_def dec_enc)

lemma text_round_trip:
  "printable str_num (enc x) \<Longrightarrow> Option.bind (JSON_parse (stringify str_num (enc x))) dec_json = Some x"
  by (simp add: parse_stringify dec_enc)

end

section \<open>Lists\<close>

fun all_some :: "'a option list \<Rightarrow> 'a list option" where
  "all_some [] = Some []"
| "all_some (x # xs) = do { y \<leftarrow> x; ys \<leftarrow> all_some xs; Some (y # ys) }"

definition of_list :: "('a \<Rightarrow> json) \<Rightarrow> 'a list \<Rightarrow> json" where
  "of_list enc xs = JArr (map enc xs)"

fun as_list :: "(json \<Rightarrow> 'a option) \<Rightarrow> json \<Rightarrow> 'a list option" where
  "as_list rd (JArr vs) = all_some (map rd vs)"
| "as_list rd _ = None"

lemma all_some_map: "(\<And>x. x \<in> set xs \<Longrightarrow> rd (enc x) = Some x) \<Longrightarrow> all_some (map rd (map enc xs)) = Some xs"
  by (induction xs) auto

lemma printable_list: "printable str_num (of_list enc xs) \<longleftrightarrow> list_all (\<lambda>x. printable str_num (enc x)) xs"
  by (induction xs) (auto simp: of_list_def)

lemma codec_list:
  assumes "codec enc rd"
  shows "codec (of_list enc) (as_list rd)"
proof
  show "as_list rd (of_list enc xs) = Some xs" for xs
    using all_some_map [of xs rd enc] codec.dec_enc [OF assms] by (simp add: of_list_def)
qed

section \<open>Strings, booleans, numbers\<close>

fun as_str :: "json \<Rightarrow> string option" where
  "as_str (JStr s) = Some s"
| "as_str _ = None"

fun as_bool :: "json \<Rightarrow> bool option" where
  "as_bool (JBool b) = Some b"
| "as_bool _ = None"

fun as_rat :: "json \<Rightarrow> rat option" where
  "as_rat (JNum x) = Some x"
| "as_rat _ = None"

definition of_whole :: "int \<Rightarrow> json" where
  "of_whole n = JNum (of_int n)"

fun as_whole :: "json \<Rightarrow> int option" where
  "as_whole (JNum x) = (if of_int \<lfloor>x\<rfloor> = x then Some \<lfloor>x\<rfloor> else None)"
| "as_whole _ = None"

interpretation js_str: codec JStr as_str by unfold_locales simp
interpretation js_strs: codec "of_list JStr" "as_list as_str" by (rule codec_list) unfold_locales
interpretation js_bool: codec JBool as_bool by unfold_locales simp
interpretation js_rat: codec JNum as_rat by unfold_locales simp
interpretation js_whole: codec of_whole as_whole by unfold_locales (simp add: of_whole_def)

text \<open>Every member of an encoded object is found and decoded.\<close>

lemma member_here: "k \<notin> set (map fst fs) \<Longrightarrow> member_of (js_obj ((k, v) # fs)) k = v"
proof -
  assume "k \<notin> set (map fst fs)"
  then have "map_of (List.map_filter (\<lambda>(k, v). map_option (Pair k) v) fs) k = None"
    using kept_keys [of fs] by (auto simp: map_of_eq_None_iff)
  then show ?thesis by (cases v) (simp_all add: js_obj_def map_filter_simps)
qed

lemma member_skip: "k \<noteq> j \<Longrightarrow> member_of (js_obj ((j, v) # fs)) k = member_of (js_obj fs) k"
  by (cases v) (simp_all add: js_obj_def map_filter_simps)

lemmas codec_rules = member_here member_skip js_str.need_enc js_str.may_enc js_strs.need_enc js_strs.may_enc
  js_bool.need_enc js_bool.may_enc js_rat.need_enc js_rat.may_enc js_whole.need_enc js_whole.may_enc

section \<open>Ports and switches\<close>

definition of_port :: "SwitchPort \<Rightarrow> json" where
  "of_port p = js_obj [
     (''id'', Some (JStr (sp_id p))),
     (''up'', Some (JBool (sp_up p))),
     (''sfp'', map_option JBool (sp_sfp p)),
     (''uplink'', map_option JBool (sp_uplink p)),
     (''speed_mbps'', map_option of_whole (sp_speed_mbps p)),
     (''poe_status'', map_option JStr (sp_poe_status p)),
     (''poe_w'', map_option JNum (sp_poe_w p)),
     (''poe_mode'', map_option JStr (sp_poe_mode p)),
     (''clients'', map_option (of_list JStr) (sp_clients p)),
     (''rx_bytes'', map_option of_whole (sp_rx_bytes p)),
     (''tx_bytes'', map_option of_whole (sp_tx_bytes p)),
     (''rx_unicast'', map_option of_whole (sp_rx_unicast p)),
     (''tx_unicast'', map_option of_whole (sp_tx_unicast p)),
     (''rx_broadcast'', map_option of_whole (sp_rx_broadcast p)),
     (''tx_broadcast'', map_option of_whole (sp_tx_broadcast p)),
     (''rx_multicast'', map_option of_whole (sp_rx_multicast p)),
     (''tx_multicast'', map_option of_whole (sp_tx_multicast p)),
     (''rx_discard'', map_option of_whole (sp_rx_discard p)),
     (''tx_discard'', map_option of_whole (sp_tx_discard p)),
     (''rx_error'', map_option of_whole (sp_rx_error p)),
     (''tx_error'', map_option of_whole (sp_tx_error p))]"

definition as_port :: "json \<Rightarrow> SwitchPort option" where
  "as_port v = do {
     x0 \<leftarrow> need as_str v ''id''; x1 \<leftarrow> need as_bool v ''up'';
     x2 \<leftarrow> may as_whole v ''speed_mbps''; x3 \<leftarrow> may as_str v ''poe_status'';
     x4 \<leftarrow> may as_rat v ''poe_w''; x5 \<leftarrow> may as_str v ''poe_mode'';
     x6 \<leftarrow> may as_bool v ''sfp''; x7 \<leftarrow> may as_bool v ''uplink'';
     x8 \<leftarrow> may (as_list as_str) v ''clients''; x9 \<leftarrow> may as_whole v ''rx_bytes'';
     x10 \<leftarrow> may as_whole v ''tx_bytes''; x11 \<leftarrow> may as_whole v ''rx_unicast'';
     x12 \<leftarrow> may as_whole v ''tx_unicast''; x13 \<leftarrow> may as_whole v ''rx_broadcast'';
     x14 \<leftarrow> may as_whole v ''tx_broadcast''; x15 \<leftarrow> may as_whole v ''rx_multicast'';
     x16 \<leftarrow> may as_whole v ''tx_multicast''; x17 \<leftarrow> may as_whole v ''rx_discard'';
     x18 \<leftarrow> may as_whole v ''tx_discard''; x19 \<leftarrow> may as_whole v ''rx_error'';
     x20 \<leftarrow> may as_whole v ''tx_error'';
     Some \<lparr>sp_id = x0, sp_up = x1, sp_speed_mbps = x2,
       sp_poe_status = x3, sp_poe_w = x4, sp_poe_mode = x5,
       sp_sfp = x6, sp_uplink = x7, sp_clients = x8,
       sp_rx_bytes = x9, sp_tx_bytes = x10, sp_rx_unicast = x11,
       sp_tx_unicast = x12, sp_rx_broadcast = x13, sp_tx_broadcast = x14,
       sp_rx_multicast = x15, sp_tx_multicast = x16, sp_rx_discard = x17,
       sp_tx_discard = x18, sp_rx_error = x19, sp_tx_error = x20\<rparr> }"

interpretation js_port: codec of_port as_port
proof
  show "as_port (of_port x) = Some x" for x
    by (cases x) (simp add: as_port_def of_port_def codec_rules)
qed

definition of_poe :: "SwitchPoE \<Rightarrow> json" where
  "of_poe p = js_obj [
     (''draw_w'', Some (JNum (poe_draw_w p))),
     (''budget_w'', Some (JNum (poe_budget_w p))),
     (''active_ports'', Some (of_whole (poe_active_ports p))),
     (''peak_port'', map_option JStr (poe_peak_port p))]"

definition as_poe :: "json \<Rightarrow> SwitchPoE option" where
  "as_poe v = do {
     x0 \<leftarrow> need as_rat v ''draw_w''; x1 \<leftarrow> need as_rat v ''budget_w'';
     x2 \<leftarrow> need as_whole v ''active_ports''; x3 \<leftarrow> may as_str v ''peak_port'';
     Some \<lparr>poe_draw_w = x0, poe_budget_w = x1, poe_active_ports = x2,
       poe_peak_port = x3\<rparr> }"

interpretation js_poe: codec of_poe as_poe
proof
  show "as_poe (of_poe x) = Some x" for x
    by (cases x) (simp add: as_poe_def of_poe_def codec_rules)
qed

definition of_acl :: "SwitchACL \<Rightarrow> json" where
  "of_acl a = js_obj [
     (''used'', Some (of_whole (acl_used a))),
     (''max'', Some (of_whole (acl_max a))),
     (''control'', Some (of_whole (acl_control a))),
     (''tracking'', Some (of_whole (acl_tracking a)))]"

definition as_acl :: "json \<Rightarrow> SwitchACL option" where
  "as_acl v = do {
     x0 \<leftarrow> need as_whole v ''used''; x1 \<leftarrow> need as_whole v ''max'';
     x2 \<leftarrow> need as_whole v ''control''; x3 \<leftarrow> need as_whole v ''tracking'';
     Some \<lparr>acl_used = x0, acl_max = x1, acl_control = x2,
       acl_tracking = x3\<rparr> }"

interpretation js_acl: codec of_acl as_acl
proof
  show "as_acl (of_acl x) = Some x" for x
    by (cases x) (simp add: as_acl_def of_acl_def codec_rules)
qed

definition of_radio :: "SwitchRadio \<Rightarrow> json" where
  "of_radio r = js_obj [
     (''band'', Some (JStr (srd_band r))),
     (''channel'', map_option of_whole (srd_channel r)),
     (''width_mhz'', map_option of_whole (srd_width_mhz r))]"

definition as_radio :: "json \<Rightarrow> SwitchRadio option" where
  "as_radio v = do {
     x0 \<leftarrow> need as_str v ''band''; x1 \<leftarrow> may as_whole v ''channel'';
     x2 \<leftarrow> may as_whole v ''width_mhz'';
     Some \<lparr>srd_band = x0, srd_channel = x1, srd_width_mhz = x2\<rparr> }"

interpretation js_radio: codec of_radio as_radio
proof
  show "as_radio (of_radio x) = Some x" for x
    by (cases x) (simp add: as_radio_def of_radio_def codec_rules)
qed

definition of_caps :: "SwitchCaps \<Rightarrow> json" where
  "of_caps c = js_obj [
     (''clients'', map_option JBool (sc_clients c)),
     (''port_clients'', map_option JBool (sc_port_clients c))]"

definition as_caps :: "json \<Rightarrow> SwitchCaps option" where
  "as_caps v = do {
     x0 \<leftarrow> may as_bool v ''clients''; x1 \<leftarrow> may as_bool v ''port_clients'';
     Some \<lparr>sc_clients = x0, sc_port_clients = x1\<rparr> }"

interpretation js_caps: codec of_caps as_caps
proof
  show "as_caps (of_caps x) = Some x" for x
    by (cases x) (simp add: as_caps_def of_caps_def codec_rules)
qed

interpretation js_ports: codec "of_list of_port" "as_list as_port" by (rule codec_list) unfold_locales
interpretation js_radios: codec "of_list of_radio" "as_list as_radio" by (rule codec_list) unfold_locales
interpretation js_lags: codec "of_list (of_list JStr)" "as_list (as_list as_str)" by (rule codec_list) unfold_locales

definition of_switch :: "Switch \<Rightarrow> json" where
  "of_switch s = js_obj [
     (''mac'', Some (JStr (sw_mac s))),
     (''name'', map_option JStr (sw_name s)),
     (''model'', map_option JStr (sw_model s)),
     (''kind'', map_option JStr (sw_kind s)),
     (''source'', map_option JStr (sw_source s)),
     (''healthy'', Some (JBool (sw_healthy s))),
     (''uplink_port'', map_option JStr (sw_uplink_port s)),
     (''parent_mac'', map_option JStr (sw_parent_mac s)),
     (''parent_port'', map_option JStr (sw_parent_port s)),
     (''parent_nic'', map_option JStr (sw_parent_nic s)),
     (''ports'', map_option (of_list of_port) (sw_ports s)),
     (''lags'', map_option (of_list (of_list JStr)) (sw_lags s)),
     (''radios'', map_option (of_list of_radio) (sw_radios s)),
     (''clients'', map_option (of_list JStr) (sw_clients s)),
     (''ip'', map_option JStr (sw_ip s)),
     (''version'', map_option JStr (sw_version s)),
     (''firmware'', map_option JStr (sw_firmware s)),
     (''uplink_static'', map_option JBool (sw_uplink_static s)),
     (''poe'', map_option of_poe (sw_poe s)),
     (''acl'', map_option of_acl (sw_acl s)),
     (''capabilities'', map_option of_caps (sw_capabilities s))]"

definition as_switch :: "json \<Rightarrow> Switch option" where
  "as_switch v = do {
     x0 \<leftarrow> need as_str v ''mac''; x1 \<leftarrow> may as_str v ''name'';
     x2 \<leftarrow> may as_str v ''ip''; x3 \<leftarrow> may as_str v ''model'';
     x4 \<leftarrow> may as_str v ''version''; x5 \<leftarrow> may as_str v ''firmware'';
     x6 \<leftarrow> may as_str v ''source''; x7 \<leftarrow> may as_str v ''kind'';
     x8 \<leftarrow> need as_bool v ''healthy''; x9 \<leftarrow> may as_str v ''uplink_port'';
     x10 \<leftarrow> may as_bool v ''uplink_static''; x11 \<leftarrow> may as_str v ''parent_nic'';
     x12 \<leftarrow> may as_str v ''parent_mac''; x13 \<leftarrow> may as_str v ''parent_port'';
     x14 \<leftarrow> may (as_list as_port) v ''ports''; x15 \<leftarrow> may (as_list (as_list as_str)) v ''lags'';
     x16 \<leftarrow> may (as_list as_radio) v ''radios''; x17 \<leftarrow> may as_poe v ''poe'';
     x18 \<leftarrow> may as_acl v ''acl''; x19 \<leftarrow> may (as_list as_str) v ''clients'';
     x20 \<leftarrow> may as_caps v ''capabilities'';
     Some \<lparr>sw_mac = x0, sw_name = x1, sw_ip = x2,
       sw_model = x3, sw_version = x4, sw_firmware = x5,
       sw_source = x6, sw_kind = x7, sw_healthy = x8,
       sw_uplink_port = x9, sw_uplink_static = x10, sw_parent_nic = x11,
       sw_parent_mac = x12, sw_parent_port = x13, sw_ports = x14,
       sw_lags = x15, sw_radios = x16, sw_poe = x17,
       sw_acl = x18, sw_clients = x19, sw_capabilities = x20\<rparr> }"

interpretation js_switch: codec of_switch as_switch
proof
  show "as_switch (of_switch x) = Some x" for x
    by (cases x) (simp add: as_switch_def of_switch_def codec_rules js_ports.may_enc js_radios.may_enc js_lags.may_enc
      js_poe.may_enc js_acl.may_enc js_caps.may_enc)
qed

interpretation js_switches: codec "of_list of_switch" "as_list as_switch" by (rule codec_list) unfold_locales

section \<open>The box and the views of the topology\<close>

definition of_labeled :: "BoxMAC \<Rightarrow> json" where
  "of_labeled l = js_obj [
     (''name'', Some (JStr (bm_name l))),
     (''mac'', Some (JStr (bm_mac l)))]"

definition as_labeled :: "json \<Rightarrow> BoxMAC option" where
  "as_labeled v = do {
     x0 \<leftarrow> need as_str v ''name''; x1 \<leftarrow> need as_str v ''mac'';
     Some \<lparr>bm_name = x0, bm_mac = x1\<rparr> }"

interpretation js_labeled: codec of_labeled as_labeled
proof
  show "as_labeled (of_labeled x) = Some x" for x
    by (cases x) (simp add: as_labeled_def of_labeled_def codec_rules)
qed

text \<open>An entry of \<open>macs\<close> is an object with a label or the address alone.\<close>

fun of_box_mac :: "BoxMacEntry \<Rightarrow> json" where
  "of_box_mac (Labeled l) = of_labeled l"
| "of_box_mac (Plain m) = JStr m"

fun as_box_mac :: "json \<Rightarrow> BoxMacEntry option" where
  "as_box_mac (JStr m) = Some (Plain m)"
| "as_box_mac v = map_option Labeled (as_labeled v)"

interpretation js_box_mac: codec of_box_mac as_box_mac
proof
  show "as_box_mac (of_box_mac x) = Some x" for x
    using js_labeled.dec_enc by (cases x) (simp_all add: of_labeled_def js_obj_def)
qed

interpretation js_box_macs: codec "of_list of_box_mac" "as_list as_box_mac" by (rule codec_list) unfold_locales

definition of_texts :: "(string, string) jsmap \<Rightarrow> json" where
  "of_texts m = JObj (map (\<lambda>(k, v). (k, JStr v)) m)"

fun as_texts :: "json \<Rightarrow> (string, string) jsmap option" where
  "as_texts (JObj ms) = all_some (map (\<lambda>(k, v). map_option (Pair k) (as_str v)) ms)"
| "as_texts _ = None"

interpretation js_texts: codec of_texts as_texts
proof
  show "as_texts (of_texts m) = Some m" for m
    using all_some_map [of m "\<lambda>(k, v). map_option (Pair k) (as_str v)" "\<lambda>(k, v). (k, JStr v)"]
    by (auto simp: of_texts_def)
qed

definition of_box :: "BoxInfo \<Rightarrow> json" where
  "of_box b = js_obj [
     (''name'', Some (JStr (box_name b))),
     (''model'', map_option JStr (box_model b)),
     (''license'', map_option JStr (box_license b)),
     (''public_ip'', map_option JStr (box_public_ip b)),
     (''macs'', map_option (of_list of_box_mac) (box_macs b)),
     (''public_ips'', map_option of_texts (box_public_ips b)),
     (''ddns'', map_option JStr (box_ddns b)),
     (''version'', map_option JStr (box_version b)),
     (''eid'', map_option JStr (box_eid b)),
     (''mode'', map_option JStr (box_mode b)),
     (''timezone'', map_option JStr (box_timezone b)),
     (''country'', map_option JStr (box_country b)),
     (''region'', map_option JStr (box_region b)),
     (''wan_type'', map_option JStr (box_wan_type b)),
     (''local_domain_suffix'', map_option JStr (box_local_domain_suffix b)),
     (''uptime_sec'', map_option of_whole (box_uptime_sec b)),
     (''os_uptime_sec'', map_option of_whole (box_os_uptime_sec b)),
     (''cloud_connected'', map_option JBool (box_cloud_connected b))]"

definition as_box :: "json \<Rightarrow> BoxInfo option" where
  "as_box v = do {
     x0 \<leftarrow> need as_str v ''name''; x1 \<leftarrow> may as_str v ''public_ip'';
     x2 \<leftarrow> may as_texts v ''public_ips''; x3 \<leftarrow> may as_str v ''ddns'';
     x4 \<leftarrow> may (as_list as_box_mac) v ''macs''; x5 \<leftarrow> may as_str v ''version'';
     x6 \<leftarrow> may as_str v ''model''; x7 \<leftarrow> may as_str v ''license'';
     x8 \<leftarrow> may as_str v ''eid''; x9 \<leftarrow> may as_str v ''mode'';
     x10 \<leftarrow> may as_str v ''timezone''; x11 \<leftarrow> may as_str v ''country'';
     x12 \<leftarrow> may as_str v ''region''; x13 \<leftarrow> may as_str v ''wan_type'';
     x14 \<leftarrow> may as_str v ''local_domain_suffix''; x15 \<leftarrow> may as_whole v ''uptime_sec'';
     x16 \<leftarrow> may as_whole v ''os_uptime_sec''; x17 \<leftarrow> may as_bool v ''cloud_connected'';
     Some \<lparr>box_name = x0, box_public_ip = x1, box_public_ips = x2,
       box_ddns = x3, box_macs = x4, box_version = x5,
       box_model = x6, box_license = x7, box_eid = x8,
       box_mode = x9, box_timezone = x10, box_country = x11,
       box_region = x12, box_wan_type = x13, box_local_domain_suffix = x14,
       box_uptime_sec = x15, box_os_uptime_sec = x16, box_cloud_connected = x17\<rparr> }"

interpretation js_box: codec of_box as_box
proof
  show "as_box (of_box x) = Some x" for x
    by (cases x) (simp add: as_box_def of_box_def codec_rules js_box_macs.may_enc js_texts.may_enc)
qed

text \<open>The nodes of the tree; the decoder descends into the members of an object.\<close>

fun of_node :: "TopoNode \<Rightarrow> json" where
  "of_node (TopoNode mac name ip kind pport cport clients children) = js_obj [
     (''mac'', Some (JStr mac)),
     (''name'', map_option JStr name),
     (''ip'', map_option JStr ip),
     (''type'', map_option JStr kind),
     (''parent_port'', map_option JStr pport),
     (''child_port'', map_option JStr cport),
     (''clients'', map_option (of_list JStr) clients),
     (''children'', map_option (\<lambda>ns. JArr (map of_node ns)) children)]"

lemma member_of_size: "member_of v k = Some x \<Longrightarrow> size x < size v"
  by (cases v) (auto dest!: map_of_SomeD simp: less_Suc_eq_le intro: size_list_estimation' [where x = "(k, x)"])

lemma child_size: "member_of v k = Some (JArr vs) \<Longrightarrow> x \<in> set vs \<Longrightarrow> size x < size v"
  using member_of_size [of v k "JArr vs"] size_list_estimation' [of x vs "size x" size] by simp

function as_node :: "json \<Rightarrow> TopoNode option" where
  "as_node v = do {
     mac \<leftarrow> need as_str v ''mac''; name \<leftarrow> may as_str v ''name'';
     ip \<leftarrow> may as_str v ''ip''; kind \<leftarrow> may as_str v ''type'';
     pport \<leftarrow> may as_str v ''parent_port''; cport \<leftarrow> may as_str v ''child_port'';
     clients \<leftarrow> may (as_list as_str) v ''clients'';
     children \<leftarrow> (case member_of v ''children'' of
         None \<Rightarrow> Some None
       | Some (JArr vs) \<Rightarrow> map_option Some (all_some (map as_node vs))
       | Some _ \<Rightarrow> None);
     Some (TopoNode mac name ip kind pport cport clients children) }"
  by auto
termination
  by (relation "measure size") (auto intro: child_size)

declare as_node.simps [simp del]

interpretation js_node: codec of_node as_node
proof
  show "as_node (of_node n) = Some n" for n
  proof (induction n)
    case (TopoNode mac name ip kind pport cport clients children)
    have "all_some (map as_node (map of_node ns)) = Some ns" if "children = Some ns" for ns
      using TopoNode that by (intro all_some_map) auto
    then show ?case
      by (cases children) (simp_all add: as_node.simps codec_rules)
  qed
qed

interpretation js_nodes: codec "of_list of_node" "as_list as_node" by (rule codec_list) unfold_locales

definition of_topo :: "TopoView \<Rightarrow> json" where
  "of_topo t = js_obj [
     (''host'', map_option JStr (tv_host t)),
     (''box'', map_option of_box (tv_box t)),
     (''switches'', map_option (of_list of_switch) (tv_switches t)),
     (''tree'', map_option (of_list of_node) (tv_tree t)),
     (''wan_type'', map_option JStr (tv_wan_type t)),
     (''ts'', map_option of_whole (tv_ts t))]"

definition as_topo :: "json \<Rightarrow> TopoView option" where
  "as_topo v = do {
     x0 \<leftarrow> may as_whole v ''ts''; x1 \<leftarrow> may as_str v ''host'';
     x2 \<leftarrow> may as_box v ''box''; x3 \<leftarrow> may (as_list as_switch) v ''switches'';
     x4 \<leftarrow> may (as_list as_node) v ''tree''; x5 \<leftarrow> may as_str v ''wan_type'';
     Some \<lparr>tv_ts = x0, tv_host = x1, tv_box = x2,
       tv_switches = x3, tv_tree = x4, tv_wan_type = x5\<rparr> }"

interpretation js_topo: codec of_topo as_topo
proof
  show "as_topo (of_topo x) = Some x" for x
    by (cases x) (simp add: as_topo_def of_topo_def codec_rules js_box.may_enc js_switches.may_enc js_nodes.may_enc)
qed

end
