(* ===== verification/TopoDemo.thy ===== *)
theory TopoDemo
  imports JsonTypes
begin

text \<open>
  Simulated switches (\<open>ui/src/lib/vrack-sim.ts\<close>), the demonstration topology (\<open>ui/src/lib/topo-demo.ts\<close>)
  and the view that \<open>App.tsx\<close> builds from them. Both are kept as JSON text in the storage of the browser.
  \<open>JSON.parse(raw) as VRackSim[]\<close> does not look at what it gets: a text of another shape is the error
  \<open>Unshaped\<close> of the model, and a refused write the error \<open>Refused\<close>, which the code raises to its caller.
\<close>

datatype DebugError = Unshaped | Refused StorageError

section \<open>Ports\<close>

text \<open>A port of which only the four members that the builders set are known.\<close>

definition bare_port :: "string \<Rightarrow> bool \<Rightarrow> bool option \<Rightarrow> bool option \<Rightarrow> SwitchPort" where
  "bare_port i up sfp uplink =
     \<lparr>sp_id = i, sp_up = up, sp_speed_mbps = None, sp_poe_status = None, sp_poe_w = None, sp_poe_mode = None,
      sp_sfp = sfp, sp_uplink = uplink, sp_clients = None,
      sp_rx_bytes = None, sp_tx_bytes = None, sp_rx_unicast = None, sp_tx_unicast = None,
      sp_rx_broadcast = None, sp_tx_broadcast = None, sp_rx_multicast = None, sp_tx_multicast = None,
      sp_rx_discard = None, sp_tx_discard = None, sp_rx_error = None, sp_tx_error = None\<rparr>"

definition rjPorts :: "nat \<Rightarrow> nat \<Rightarrow> SwitchPort list" where
  "rjPorts a b = map (\<lambda>i. bare_port (dec i) (i mod 3 \<noteq> 0) (Some False) None) [a..<Suc b]"

definition sfpPorts :: "nat \<Rightarrow> nat \<Rightarrow> SwitchPort list" where
  "sfpPorts a b = map (\<lambda>i. bare_port (dec i) (i mod 2 = 0) (Some True) None) [a..<Suc b]"

section \<open>Simulated switches\<close>

datatype VRackSimPreset = Rj24Sfp4 | Rj48 | Rj8Sfp2

record VRackSim =
  sim_id :: string
  sim_preset :: VRackSimPreset
  sim_sw :: Switch

fun preset_id :: "VRackSimPreset \<Rightarrow> string" where
  "preset_id Rj24Sfp4 = ''rj24-sfp4''"
| "preset_id Rj48 = ''rj48''"
| "preset_id Rj8Sfp2 = ''rj8-sfp2''"

text \<open>The presets in the order of their buttons; the labels of the buttons are left out.\<close>

definition VRACK_SIM_PRESETS :: "VRackSimPreset list" where
  "VRACK_SIM_PRESETS = [Rj24Sfp4, Rj48, Rj8Sfp2]"

fun sim_ports :: "VRackSimPreset \<Rightarrow> SwitchPort list" where
  "sim_ports Rj24Sfp4 = rjPorts 1 24 @ sfpPorts 25 28"
| "sim_ports Rj48 = rjPorts 1 48"
| "sim_ports Rj8Sfp2 = rjPorts 1 8 @ sfpPorts 9 10"

fun sim_model :: "VRackSimPreset \<Rightarrow> string" where
  "sim_model Rj24Sfp4 = ''Sim-24-SFP''"
| "sim_model Rj48 = ''Sim-48''"
| "sim_model Rj8Sfp2 = ''Sim-8-SFP''"

fun mark_first :: "SwitchPort list \<Rightarrow> SwitchPort list" where
  "mark_first [] = []"
| "mark_first (p # ps) = p\<lparr>sp_uplink := Some True, sp_up := True\<rparr> # ps"

definition buildSimSwitch :: "VRackSimPreset \<Rightarrow> mac \<Rightarrow> nat \<Rightarrow> (mac \<times> string) option \<Rightarrow> Switch" where
  "buildSimSwitch preset mac n parent =
     (let ports = mark_first (sim_ports preset) in
      \<lparr>sw_mac = mac, sw_name = Some (''Sim '' @ dec n), sw_ip = None, sw_model = Some (sim_model preset),
       sw_version = None, sw_firmware = None, sw_source = Some ''debug'', sw_kind = Some ''switch'',
       sw_healthy = True, sw_uplink_port = (case ports of [] \<Rightarrow> None | p # _ \<Rightarrow> Some (sp_id p)),
       sw_uplink_static = None, sw_parent_nic = None,
       sw_parent_mac = map_option fst parent, sw_parent_port = map_option snd parent,
       sw_ports = Some ports, sw_lags = None, sw_radios = None, sw_poe = None, sw_acl = None,
       sw_clients = None, sw_capabilities = None\<rparr>)"

text \<open>A stored entry: the members in the order in which they are built.\<close>

definition of_sim :: "VRackSim \<Rightarrow> json" where
  "of_sim s = js_obj [(''id'', Some (JStr (sim_id s))), (''preset'', Some (JStr (preset_id (sim_preset s)))),
     (''sw'', Some (of_switch (sim_sw s)))]"

definition as_preset :: "json \<Rightarrow> VRackSimPreset option" where
  "as_preset v = Option.bind (as_str v) (\<lambda>t. find (\<lambda>p. preset_id p = t) VRACK_SIM_PRESETS)"

definition as_sim :: "json \<Rightarrow> VRackSim option" where
  "as_sim v = do {
     i \<leftarrow> need as_str v ''id''; p \<leftarrow> need as_preset v ''preset''; sw \<leftarrow> need as_switch v ''sw'';
     Some \<lparr>sim_id = i, sim_preset = p, sim_sw = sw\<rparr> }"

interpretation js_preset: codec "\<lambda>p. JStr (preset_id p)" as_preset
proof
  show "as_preset (JStr (preset_id p)) = Some p" for p
    by (cases p) (simp_all add: as_preset_def VRACK_SIM_PRESETS_def)
qed

interpretation js_sim: codec of_sim as_sim
proof
  show "as_sim (of_sim x) = Some x" for x
    by (cases x) (simp add: as_sim_def of_sim_def codec_rules js_preset.need_enc js_switch.need_enc)
qed

interpretation js_sims: codec "of_list of_sim" "as_list as_sim" by (rule codec_list) unfold_locales

definition SIMS_KEY :: string where
  "SIMS_KEY = ''fireproxy.debug.vrackSims''"

definition MAC_PREFIX :: string where
  "MAC_PREFIX = ''DE:BU:60:00:00:''"

definition loadVRackSims :: "Storage \<Rightarrow> DebugError + VRackSim list" where
  "loadVRackSims s =
     (case getItem SIMS_KEY s of
        Inl _ \<Rightarrow> Inr []
      | Inr raw \<Rightarrow>
          if \<not> truthy raw then Inr []
          else case JSON_parse (opt_str raw) of
            Some (JArr vs) \<Rightarrow> (case all_some (map as_sim vs) of Some sims \<Rightarrow> Inr sims | None \<Rightarrow> Inl Unshaped)
          | _ \<Rightarrow> Inr [])"

definition saveVRackSims :: "(rat \<Rightarrow> string) \<Rightarrow> VRackSim list \<Rightarrow> Storage \<Rightarrow> DebugError + Storage" where
  "saveVRackSims str_num sims s =
     (case setItem SIMS_KEY (stringify str_num (of_list of_sim sims)) s of
        Inl e \<Rightarrow> Inl (Refused e) | Inr s' \<Rightarrow> Inr s')"

definition sim_mac :: "nat \<Rightarrow> mac" where
  "sim_mac n = toUpperCase (MAC_PREFIX @ padStart 2 (CHR ''0'') (hex n))"

definition new_sim :: "VRackSimPreset \<Rightarrow> (mac \<times> string) option \<Rightarrow> nat \<Rightarrow> VRackSim" where
  "new_sim preset parent n =
     \<lparr>sim_id = sim_mac n, sim_preset = preset, sim_sw = buildSimSwitch preset (sim_mac n) n parent\<rparr>"

definition addVRackSim ::
  "(rat \<Rightarrow> string) \<Rightarrow> VRackSimPreset \<Rightarrow> (mac \<times> string) option \<Rightarrow> Storage \<Rightarrow> DebugError + VRackSim \<times> Storage" where
  "addVRackSim str_num preset parent s =
     (case loadVRackSims s of
        Inl e \<Rightarrow> Inl e
      | Inr sims \<Rightarrow>
          let sim = new_sim preset parent (length sims + 1)
          in case saveVRackSims str_num (sims @ [sim]) s of Inl e \<Rightarrow> Inl e | Inr s' \<Rightarrow> Inr (sim, s'))"

definition removeVRackSim :: "(rat \<Rightarrow> string) \<Rightarrow> string \<Rightarrow> Storage \<Rightarrow> DebugError + Storage" where
  "removeVRackSim str_num i s =
     (case loadVRackSims s of
        Inl e \<Rightarrow> Inl e
      | Inr sims \<Rightarrow> saveVRackSims str_num (filter (\<lambda>x. toUpperCase (sim_id x) \<noteq> toUpperCase i) sims) s)"

definition clearVRackSims :: "(rat \<Rightarrow> string) \<Rightarrow> Storage \<Rightarrow> DebugError + Storage" where
  "clearVRackSims str_num s = saveVRackSims str_num [] s"

section \<open>The demonstration topology\<close>

definition DEMO_KEY :: string where
  "DEMO_KEY = ''fireproxy.debug.topoDemo''"

definition DEMO_ON_KEY :: string where
  "DEMO_ON_KEY = ''fireproxy.debug.topoDemoOn''"

definition isTopoDemoOn :: "Storage \<Rightarrow> bool" where
  "isTopoDemoOn s = (case getItem DEMO_ON_KEY s of Inr v \<Rightarrow> v = Some ''1'' | Inl _ \<Rightarrow> False)"

definition setTopoDemoOn :: "bool \<Rightarrow> Storage \<Rightarrow> DebugError + Storage" where
  "setTopoDemoOn on s =
     (case setItem DEMO_ON_KEY (if on then ''1'' else ''0'') s of Inl e \<Rightarrow> Inl (Refused e) | Inr s' \<Rightarrow> Inr s')"

definition loadTopoDemo :: "Storage \<Rightarrow> DebugError + TopoView option" where
  "loadTopoDemo s =
     (case getItem DEMO_KEY s of
        Inl _ \<Rightarrow> Inr None
      | Inr raw \<Rightarrow>
          if \<not> truthy raw then Inr None
          else case JSON_parse (opt_str raw) of
            None \<Rightarrow> Inr None
          | Some JNull \<Rightarrow> Inr None
          | Some v \<Rightarrow> (case as_topo v of Some view \<Rightarrow> Inr (Some view) | None \<Rightarrow> Inl Unshaped))"

definition saveTopoDemo :: "(rat \<Rightarrow> string) \<Rightarrow> TopoView option \<Rightarrow> Storage \<Rightarrow> DebugError + Storage" where
  "saveTopoDemo str_num view s =
     (case (case view of
              None \<Rightarrow> removeItem DEMO_KEY s
            | Some v \<Rightarrow> setItem DEMO_KEY (stringify str_num (of_topo v)) s) of
        Inl e \<Rightarrow> Inl (Refused e) | Inr s' \<Rightarrow> Inr s')"

text \<open>The ports and switches of the demonstration.\<close>

definition rj :: "nat \<Rightarrow> nat \<Rightarrow> SwitchPort list" where
  "rj a b = map (\<lambda>i. bare_port (dec i) (i mod 3 \<noteq> 0) None None) [a..<Suc b]"

definition sfp :: "nat \<Rightarrow> nat \<Rightarrow> SwitchPort list" where
  "sfp a b = map (\<lambda>i. bare_port (dec i) (i mod 2 = 0) (Some True) None) [a..<Suc b]"

record DemoLink =
  dl_parent_mac :: "mac option"
  dl_parent_port :: "string option"
  dl_parent_nic :: "string option"
  dl_uplink :: string

definition under :: "mac \<Rightarrow> string \<Rightarrow> string \<Rightarrow> DemoLink" where
  "under mac port uplink =
     \<lparr>dl_parent_mac = Some mac, dl_parent_port = Some port, dl_parent_nic = None, dl_uplink = uplink\<rparr>"

definition at_nic :: "string \<Rightarrow> string \<Rightarrow> DemoLink" where
  "at_nic nic uplink =
     \<lparr>dl_parent_mac = None, dl_parent_port = None, dl_parent_nic = Some nic, dl_uplink = uplink\<rparr>"

definition mk :: "mac \<Rightarrow> string \<Rightarrow> string \<Rightarrow> SwitchPort list \<Rightarrow> DemoLink \<Rightarrow> Switch" where
  "mk mac name model ports link =
     \<lparr>sw_mac = mac, sw_name = Some name, sw_ip = None, sw_model = Some model, sw_version = None,
      sw_firmware = None, sw_source = (if startsWith model ''fwsw'' then None else Some ''unifi''),
      sw_kind = Some ''switch'', sw_healthy = True, sw_uplink_port = Some (dl_uplink link),
      sw_uplink_static = None, sw_parent_nic = dl_parent_nic link,
      sw_parent_mac = dl_parent_mac link, sw_parent_port = dl_parent_port link,
      sw_ports = Some (map (\<lambda>p. if sp_id p = dl_uplink link then p\<lparr>sp_uplink := Some True, sp_up := True\<rparr> else p) ports),
      sw_lags = None, sw_radios = None, sw_poe = None, sw_acl = None, sw_clients = None,
      sw_capabilities = None\<rparr>"

definition mkAp :: "mac \<Rightarrow> string \<Rightarrow> string \<Rightarrow> mac \<Rightarrow> string \<Rightarrow> Switch" where
  "mkAp mac name model parent_mac parent_port =
     \<lparr>sw_mac = mac, sw_name = Some name, sw_ip = None, sw_model = Some model, sw_version = None,
      sw_firmware = None, sw_source = Some ''unifi'', sw_kind = Some ''ap'', sw_healthy = True,
      sw_uplink_port = Some ''1'', sw_uplink_static = None, sw_parent_nic = None,
      sw_parent_mac = Some parent_mac, sw_parent_port = Some parent_port,
      sw_ports = Some [bare_port ''1'' True None (Some True)], sw_lags = None,
      sw_radios = Some [\<lparr>srd_band = ''2.4'', srd_channel = Some 6, srd_width_mhz = Some 20\<rparr>,
        \<lparr>srd_band = ''5'', srd_channel = Some 36, srd_width_mhz = Some 80\<rparr>],
      sw_poe = None, sw_acl = None, sw_clients = Some [''a'', ''b'', ''c''], sw_capabilities = None\<rparr>"

definition demo_mac :: "string \<Rightarrow> mac" where
  "demo_mac t = ''AA:BB:CC:DD:EE:'' @ t"

definition demo_hd :: Switch where
  "demo_hd = (mk (demo_mac ''01'') ''Core HD'' ''USW-Pro-HD-24'' (rj 1 24 @ sfp 25 28)
     (at_nic ''eth3'' ''28''))\<lparr>sw_lags := Some [[''27'', ''28'']]\<rparr>"

definition demo_agg :: Switch where
  "demo_agg = (mk (demo_mac ''02'') ''Aggregation'' ''USW-Aggregation'' (sfp 1 8)
     (under (sw_mac demo_hd) ''27'' ''1''))\<lparr>sw_lags := Some [[''1'', ''2'']], sw_parent_port := Some ''27''\<rparr>"

definition demo_max16 :: Switch where
  "demo_max16 = mk (demo_mac ''03'') ''Pro Max 16'' ''USW-Pro-Max-16'' (rj 1 16 @ sfp 17 18)
     (under (sw_mac demo_hd) ''1'' ''17'')"

definition demo_swx :: Switch where
  "demo_swx = mk (demo_mac ''04'') ''Switch X'' ''fwsw-A'' (rj 1 8 @ sfp 9 12) (at_nic ''eth2'' ''9'')"

definition demo_flex8 :: Switch where
  "demo_flex8 = mk (demo_mac ''05'') ''Flex 8'' ''USW Flex 2.5G 8'' (rj 1 9 @ sfp 10 10)
     (under (sw_mac demo_max16) ''8'' ''9'')"

definition demo_flex5 :: Switch where
  "demo_flex5 = mk (demo_mac ''06'') ''Flex 5'' ''USW Flex 2.5G 5'' (rj 1 5) (under (sw_mac demo_max16) ''7'' ''5'')"

definition demo_ap1 :: Switch where
  "demo_ap1 = mkAp (demo_mac ''11'') ''Office AP'' ''U7 Pro'' (sw_mac demo_max16) ''2''"

definition demo_ap2 :: Switch where
  "demo_ap2 = mkAp (demo_mac ''12'') ''Hall AP'' ''U6 Lite'' (sw_mac demo_flex8) ''3''"

definition demo_mystery :: Switch where
  "demo_mystery = mk (demo_mac ''20'') ''Mystery 48'' ''Some-Unknown-48'' (rj 1 48) (under (sw_mac demo_hd) ''3'' ''1'')"

definition demo_box :: BoxInfo where
  "demo_box = \<lparr>box_name = ''Demo Gold'', box_public_ip = Some ''203.0.113.10'', box_public_ips = None,
     box_ddns = None, box_macs = Some [Labeled \<lparr>bm_name = ''eth0'', bm_mac = demo_mac ''00''\<rparr>],
     box_version = None, box_model = Some ''gold'', box_license = Some ''Gold SE'', box_eid = None,
     box_mode = None, box_timezone = None, box_country = None, box_region = None, box_wan_type = None,
     box_local_domain_suffix = None, box_uptime_sec = None, box_os_uptime_sec = None,
     box_cloud_connected = None\<rparr>"

definition demo_node :: "Switch \<Rightarrow> string \<Rightarrow> string \<Rightarrow> string \<Rightarrow> TopoNode list option \<Rightarrow> TopoNode" where
  "demo_node sw kind pport cport children =
     TopoNode (sw_mac sw) (sw_name sw) None (Some kind) (Some pport) (Some cport) None children"

definition demo_tree :: "TopoNode list" where
  "demo_tree =
     [TopoNode (demo_mac ''00'') (Some (box_name demo_box)) None (Some ''box'') None None None (Some
        [demo_node demo_hd ''switch'' ''eth3'' ''28'' (Some
           [demo_node demo_agg ''switch'' ''27'' ''1'' None,
            demo_node demo_max16 ''switch'' ''1'' ''17'' (Some
              [demo_node demo_flex8 ''switch'' ''8'' ''9'' (Some [demo_node demo_ap2 ''ap'' ''3'' ''1'' None]),
               demo_node demo_flex5 ''switch'' ''7'' ''5'' None,
               demo_node demo_ap1 ''ap'' ''2'' ''1'' None]),
            demo_node demo_mystery ''switch'' ''3'' ''1'' None]),
         demo_node demo_swx ''switch'' ''eth2'' ''9'' None])]"

definition buildTopoDemo :: TopoView where
  "buildTopoDemo =
     \<lparr>tv_ts = None, tv_host = Some ''demo'', tv_box = Some demo_box,
      tv_switches = Some [demo_hd, demo_agg, demo_max16, demo_swx, demo_flex8, demo_flex5, demo_ap1, demo_ap2, demo_mystery],
      tv_tree = Some demo_tree, tv_wan_type = Some ''single''\<rparr>"

definition enableTopoDemo :: "(rat \<Rightarrow> string) \<Rightarrow> Storage \<Rightarrow> DebugError + TopoView \<times> Storage" where
  "enableTopoDemo str_num s =
     (case saveTopoDemo str_num (Some buildTopoDemo) s of
        Inl e \<Rightarrow> Inl e
      | Inr s' \<Rightarrow> (case setTopoDemoOn True s' of Inl e \<Rightarrow> Inl e | Inr s'' \<Rightarrow> Inr (buildTopoDemo, s'')))"

definition disableTopoDemo :: "Storage \<Rightarrow> DebugError + Storage" where
  "disableTopoDemo s = setTopoDemoOn False s"

section \<open>Merging\<close>

definition extra_sims :: "VRackSim list \<Rightarrow> Switch list option \<Rightarrow> Switch list" where
  "extra_sims sims switches =
     (let seen = map (\<lambda>s. toUpperCase (sw_mac s)) (opt_list switches)
      in filter (\<lambda>s. toUpperCase (sw_mac s) \<notin> set seen) (map sim_sw sims))"

definition mergeExtraSims :: "Storage \<Rightarrow> TopoView \<Rightarrow> DebugError + TopoView" where
  "mergeExtraSims s view =
     (case loadVRackSims s of
        Inl e \<Rightarrow> Inl e
      | Inr sims \<Rightarrow>
          if sims = [] then Inr view
          else let extra = extra_sims sims (tv_switches view)
               in if extra = [] then Inr view
                  else Inr (view\<lparr>tv_switches := Some (opt_list (tv_switches view) @ extra)\<rparr>))"

definition debug_view :: "Switch list \<Rightarrow> TopoView" where
  "debug_view sims = \<lparr>tv_ts = None, tv_host = Some ''debug'', tv_box = None, tv_switches = Some sims,
     tv_tree = Some [], tv_wan_type = None\<rparr>"

definition topoViewWithSims :: "bool \<Rightarrow> Storage \<Rightarrow> TopoView option \<Rightarrow> DebugError + TopoView option" where
  "topoViewWithSims debugOn s topoView =
     (if \<not> debugOn then Inr topoView
      else case (if isTopoDemoOn s then loadTopoDemo s else Inr None) of
        Inl e \<Rightarrow> Inl e
      | Inr demo \<Rightarrow>
          (case (case demo of Some d \<Rightarrow> Some d | None \<Rightarrow> topoView) of
             None \<Rightarrow>
               (case loadVRackSims s of
                  Inl e \<Rightarrow> Inl e
                | Inr sims \<Rightarrow> if sims = [] then Inr None
                    else map_sum id Some (mergeExtraSims s (debug_view (map sim_sw sims))))
           | Some base \<Rightarrow> map_sum id Some (mergeExtraSims s base)))"

text \<open>The port under which a new simulated switch is put.\<close>

definition pick_port :: "SwitchPort list \<Rightarrow> string option" where
  "pick_port ports =
     (case find (\<lambda>p. sp_uplink p \<noteq> Some True \<and> sp_up p) ports of
        Some p \<Rightarrow> Some (sp_id p)
      | None \<Rightarrow> (case find (\<lambda>p. sp_uplink p \<noteq> Some True) ports of
           Some p \<Rightarrow> Some (sp_id p)
         | None \<Rightarrow> (case ports of [] \<Rightarrow> None | p # _ \<Rightarrow> Some (sp_id p))))"

definition pickParent :: "Switch list \<Rightarrow> VRackSim list \<Rightarrow> (mac \<times> string) option" where
  "pickParent live sims =
     (let simMacs = map (\<lambda>s. toUpperCase (sw_mac (sim_sw s))) sims in
      case find (\<lambda>s. sw_kind s \<noteq> Some ''ap'' \<and> sw_kind s \<noteq> Some ''box'' \<and>
          toUpperCase (sw_mac s) \<notin> set simMacs \<and> opt_list (sw_ports s) \<noteq> []) live of
        None \<Rightarrow> None
      | Some host \<Rightarrow>
          (let port = pick_port (opt_list (sw_ports host))
           in if truthy port then Some (sw_mac host, opt_str port) else None))"

section \<open>What is stored is read back\<close>

text \<open>The members that are present are printed; a switch that is built here has no number among them.\<close>

lemma printable_fields:
  "distinct (map fst fs) \<Longrightarrow> list_all (\<lambda>(k, v). pred_option (printable str_num) v) fs \<Longrightarrow> printable str_num (js_obj fs)"
  by (rule printable_js_obj) (force simp: list_all_iff)+

lemma printable_strs: "printable str_num (of_list JStr xs)"
  by (simp add: printable_list list_all_iff)

lemma printable_bare_port: "printable str_num (of_port (bare_port i up f u))"
  unfolding of_port_def bare_port_def
  by (rule printable_fields) (simp_all add: option.pred_map option.pred_True comp_def)

lemma bare_port_simps [simp]:
  "bare_port i up f u\<lparr>sp_uplink := u', sp_up := up'\<rparr> = bare_port i up' f u'"
  "sp_id (bare_port i up f u) = i" "sp_uplink (bare_port i up f u) = u" "sp_up (bare_port i up f u) = up"
  by (simp_all add: bare_port_def)

text \<open>Lists of such ports.\<close>

definition bare :: "SwitchPort \<Rightarrow> bool" where
  "bare p \<longleftrightarrow> (\<exists>i up f u. p = bare_port i up f u)"

lemma bare_ports:
  "list_all bare (rjPorts a b)" "list_all bare (sfpPorts a b)" "list_all bare (rj a b)" "list_all bare (sfp a b)"
  by (auto simp: list_all_iff bare_def rjPorts_def sfpPorts_def rj_def sfp_def)

lemma bare_mark: "bare p \<Longrightarrow> bare (p\<lparr>sp_uplink := Some True, sp_up := True\<rparr>)"
  unfolding bare_def by (elim exE) (simp, blast)

lemma bare_mark_first: "list_all bare ps \<Longrightarrow> list_all bare (mark_first ps)"
  by (cases ps) (simp_all add: bare_mark)

lemma printable_ports: "list_all bare ps \<Longrightarrow> printable str_num (of_list of_port ps)"
  by (auto simp: printable_list list_all_iff bare_def printable_bare_port)

lemma bare_sim_ports: "list_all bare (sim_ports preset)"
  by (cases preset) (simp_all add: bare_ports)

lemma printable_sim_switch: "printable str_num (of_switch (buildSimSwitch preset mac n parent))"
  unfolding of_switch_def buildSimSwitch_def Let_def
  by (rule printable_fields)
    (simp_all add: option.pred_map option.pred_True comp_def printable_ports bare_mark_first bare_sim_ports)

lemma printable_sim: "printable str_num (of_sim (new_sim preset parent n))"
  unfolding of_sim_def new_sim_def by (rule printable_fields) (simp_all add: printable_sim_switch)

lemma truthy_stringify_list: "truthy (Some (stringify str_num (of_list enc xs)))"
  by (simp add: truthy_def of_list_def)

lemma usable_setItem:
  "usable s \<Longrightarrow> setItem k v s = Inr (s\<lparr>ls_items := AList.update k v (ls_items s)\<rparr>)"
  "usable (s\<lparr>ls_items := m\<rparr>) = usable s"
  "usable s \<Longrightarrow> getItem j (s\<lparr>ls_items := AList.update k v (ls_items s)\<rparr>) = (if j = k then Inr (Some v) else getItem j s)"
  by (auto simp: usable_def setItem_def getItem_def js_map)

text \<open>Sequences of operations on the simulated switches, and what they promise: a list of which
  only the operations are seen.\<close>

datatype SimOp = AddSim VRackSimPreset "(mac \<times> string) option" | RemoveSim string | ClearSims

fun sim_op :: "(rat \<Rightarrow> string) \<Rightarrow> SimOp \<Rightarrow> Storage \<Rightarrow> DebugError + Storage" where
  "sim_op str_num (AddSim preset parent) s = map_sum id snd (addVRackSim str_num preset parent s)"
| "sim_op str_num (RemoveSim i) s = removeVRackSim str_num i s"
| "sim_op str_num ClearSims s = clearVRackSims str_num s"

fun sim_ops :: "(rat \<Rightarrow> string) \<Rightarrow> SimOp list \<Rightarrow> Storage \<Rightarrow> DebugError + Storage" where
  "sim_ops str_num [] s = Inr s"
| "sim_ops str_num (x # xs) s = (case sim_op str_num x s of Inl e \<Rightarrow> Inl e | Inr s' \<Rightarrow> sim_ops str_num xs s')"

fun sim_spec :: "SimOp \<Rightarrow> VRackSim list \<Rightarrow> VRackSim list" where
  "sim_spec (AddSim preset parent) sims = sims @ [new_sim preset parent (length sims + 1)]"
| "sim_spec (RemoveSim i) sims = filter (\<lambda>x. toUpperCase (sim_id x) \<noteq> toUpperCase i) sims"
| "sim_spec ClearSims sims = []"

definition built :: "VRackSim \<Rightarrow> bool" where
  "built x \<longleftrightarrow> (\<exists>preset parent n. x = new_sim preset parent n)"

lemma built_spec: "list_all built sims \<Longrightarrow> list_all built (sim_spec x sims)"
  by (cases x) (auto simp: built_def list_all_iff)

lemma load_save:
  assumes "usable s" and "list_all built sims"
  shows "\<exists>s'. saveVRackSims str_num sims s = Inr s' \<and> usable s' \<and> loadVRackSims s' = Inr sims \<and>
    (\<forall>k. k \<noteq> SIMS_KEY \<longrightarrow> getItem k s' = getItem k s)"
proof -
  have "printable str_num (of_list of_sim sims)"
    using assms(2) by (auto simp: printable_list list_all_iff built_def printable_sim)
  then have "JSON_parse (stringify str_num (of_list of_sim sims)) = Some (of_list of_sim sims)"
    by (rule parse_stringify)
  then have "JSON_parse (stringify str_num (of_list of_sim sims)) = Some (JArr (map of_sim sims))"
    by (simp only: of_list_def)
  moreover have "all_some (map as_sim (map of_sim sims)) = Some sims"
    by (rule all_some_map) (simp add: js_sim.dec_enc)
  ultimately show ?thesis
    using assms(1) truthy_stringify_list [of str_num of_sim sims]
    by (simp add: saveVRackSims_def loadVRackSims_def usable_setItem opt_str_def)
qed

lemma sim_op_refines:
  assumes "usable s" and "loadVRackSims s = Inr sims" and "list_all built sims"
  shows "\<exists>s'. sim_op str_num x s = Inr s' \<and> usable s' \<and> loadVRackSims s' = Inr (sim_spec x sims)"
  using load_save [OF assms(1) built_spec [OF assms(3), of x], of str_num] assms(2)
  by (cases x) (auto simp: addVRackSim_def removeVRackSim_def clearVRackSims_def Let_def)

lemma sim_ops_refine:
  assumes "usable s" and "loadVRackSims s = Inr sims" and "list_all built sims"
  shows "\<exists>s'. sim_ops str_num xs s = Inr s' \<and> usable s' \<and> loadVRackSims s' = Inr (fold sim_spec xs sims)"
  using assms
proof (induction xs arbitrary: s sims)
  case (Cons x xs)
  obtain s' where "sim_op str_num x s = Inr s'" and u: "usable s'" and l: "loadVRackSims s' = Inr (sim_spec x sims)"
    using sim_op_refines [OF Cons.prems] by blast
  then show ?case using Cons.IH [OF u l built_spec [OF Cons.prems(3)]] by simp
qed simp

text \<open>C31: over a storage that can be written and holds no simulated switch yet, any sequence of additions,
  removals and clearings succeeds, and what is then loaded from the text in the storage is the list that the
  sequence describes: each operation on JSON text implements the operation on lists.\<close>

theorem sims_refine_list:
  assumes "usable s" and "loadVRackSims s = Inr []"
  shows "\<exists>s'. sim_ops str_num xs s = Inr s' \<and> loadVRackSims s' = Inr (fold sim_spec xs [])"
  using sim_ops_refine [OF assms, of str_num xs] by auto

theorem sims_refine_list_witness:
  "let s = \<lparr>ls_items = [], ls_blocked = False, ls_full = False\<rparr>;
       xs = [AddSim Rj48 None, AddSim Rj8Sfp2 (Some (''AA:BB:CC:DD:EE:01'', ''3'')), RemoveSim ''de:bu:60:00:00:01'']
   in \<exists>s'. sim_ops (\<lambda>_. []) xs s = Inr s' \<and>
        loadVRackSims s' = Inr [new_sim Rj8Sfp2 (Some (''AA:BB:CC:DD:EE:01'', ''3'')) 2]"
proof -
  let ?s = "\<lparr>ls_items = [], ls_blocked = False, ls_full = False\<rparr>"
  let ?xs = "[AddSim Rj48 None, AddSim Rj8Sfp2 (Some (''AA:BB:CC:DD:EE:01'', ''3'')), RemoveSim ''de:bu:60:00:00:01'']"
  have "toUpperCase (sim_mac 1) = toUpperCase ''de:bu:60:00:00:01'' \<and> toUpperCase (sim_mac 2) \<noteq> toUpperCase ''de:bu:60:00:00:01''"
    by code_simp
  then have "fold sim_spec ?xs [] = [new_sim Rj8Sfp2 (Some (''AA:BB:CC:DD:EE:01'', ''3'')) 2]"
    by (simp add: new_sim_def numeral_2_eq_2)
  moreover have "usable ?s" "loadVRackSims ?s = Inr []"
    by (simp_all add: usable_def loadVRackSims_def getItem_def truthy_def)
  ultimately show ?thesis using sims_refine_list [of ?s "\<lambda>_. []" ?xs] by simp
qed

section \<open>Identities of the simulated switches\<close>

lemma sim_mac_upper [simp]: "toUpperCase (sim_mac n) = sim_mac n"
  by (simp add: sim_mac_def)

lemma lower_append: "toLowerCase (a @ b) = toLowerCase a @ toLowerCase b"
  by (simp add: toLowerCase_def)

lemma digit_char_lower: "d < 16 \<Longrightarrow> loc (digit_char d) = digit_char d"
  by (simp add: loc_def is_upper_def digit_char_def)

lemma hex_lower: "toLowerCase (hex n) = hex n"
proof -
  have "toLowerCase (radix 16 n) = radix 16 n"
    by (induction "16 :: nat" n rule: radix.induct)
      (subst (1 2) radix.simps, simp add: toLowerCase_def digit_char_lower)
  then show ?thesis by (simp add: hex_def)
qed

lemma sim_mac_inj: "sim_mac m = sim_mac n \<longleftrightarrow> m = n"
proof
  assume "sim_mac m = sim_mac n"
  then have "toLowerCase (sim_mac m) = toLowerCase (sim_mac n)" by simp
  moreover have pad: "toLowerCase (padStart 2 (CHR ''0'') (hex k)) = padStart 2 (CHR ''0'') (hex k)" for k
    using hex_lower [of k] by (simp add: padStart_def toLowerCase_def loc_def is_upper_def)
  ultimately have "padStart 2 (CHR ''0'') (hex m) = padStart 2 (CHR ''0'') (hex n)"
    by (simp add: sim_mac_def lower_append pad)
  then have "read_nat 16 (hex m) = read_nat 16 (hex n)"
    by (metis padStart_def read_nat_zeros)
  then show "m = n" by simp
qed simp

lemma added_ids:
  "list_all (\<lambda>x. \<exists>preset parent. x = AddSim preset parent) xs \<Longrightarrow>
     map sim_id sims = map sim_mac [1..<Suc (length sims)] \<Longrightarrow>
     map sim_id (fold sim_spec xs sims) = map sim_mac [1..<Suc (length sims + length xs)]"
proof (induction xs arbitrary: sims)
  case (Cons x xs)
  then obtain preset parent where x: "x = AddSim preset parent" by auto
  have "map sim_id (sim_spec x sims) = map sim_mac [1..<Suc (length (sim_spec x sims))]"
    using Cons.prems(2) x by (simp add: new_sim_def)
  then show ?case using Cons.IH [of "sim_spec x sims"] Cons.prems(1) x by simp
qed simp

text \<open>As long as nothing is removed, all simulated switches have different addresses.\<close>

lemma added_apart:
  assumes "list_all (\<lambda>x. \<exists>preset parent. x = AddSim preset parent) xs"
  shows "distinct (map sim_id (fold sim_spec xs []))"
  using added_ids [OF assms, of "[]"] by (simp add: distinct_map inj_on_def sim_mac_inj)

text \<open>After a removal the next number may be taken: the new switch has the address of one that is
  still there, and removing it removes both.\<close>

lemma sim_id_reused:
  "let sims = fold sim_spec [AddSim p a, AddSim q b, RemoveSim (sim_mac 1), AddSim r c] []
   in map sim_id sims = [sim_mac 2, sim_mac 2] \<and> sim_spec (RemoveSim (sim_mac 2)) sims = []"
  by (simp add: new_sim_def sim_mac_inj numeral_2_eq_2)

section \<open>What merging keeps\<close>

definition upper_macs :: "Switch list \<Rightarrow> mac list" where
  "upper_macs sws = map (\<lambda>s. toUpperCase (sw_mac s)) sws"

lemma set_upper_macs: "set (upper_macs sws) = (\<lambda>s. toUpperCase (sw_mac s)) ` set sws"
  by (simp add: upper_macs_def)

lemma merge_switches:
  assumes "loadVRackSims s = Inr sims"
  shows "\<exists>view'. mergeExtraSims s view = Inr view' \<and>
    opt_list (tv_switches view') = opt_list (tv_switches view) @ extra_sims sims (tv_switches view) \<and>
    view'\<lparr>tv_switches := tv_switches view\<rparr> = view"
  using assms by (auto simp: mergeExtraSims_def extra_sims_def Let_def opt_list_def)

lemma extra_apart:
  "distinct (upper_macs (map sim_sw sims)) \<Longrightarrow> distinct (upper_macs (extra_sims sims sws))"
  by (simp add: extra_sims_def upper_macs_def distinct_map_filter)

text \<open>merging keeps the switches of the view in place and adds exactly the simulated switches whose
  address, in either case, no switch of the view has; when no address occurs twice in the view or among the
  simulated switches, none occurs twice in the result. Nothing else of the view changes.\<close>

theorem merge_extra_sims_ok:
  assumes "loadVRackSims s = Inr sims"
    and "distinct (upper_macs (opt_list (tv_switches view)))" and "distinct (upper_macs (map sim_sw sims))"
  shows "\<exists>view' extra. mergeExtraSims s view = Inr view' \<and>
    opt_list (tv_switches view') = opt_list (tv_switches view) @ extra \<and>
    set extra = {sw \<in> sim_sw ` set sims. toUpperCase (sw_mac sw) \<notin> set (upper_macs (opt_list (tv_switches view)))} \<and>
    distinct (upper_macs (opt_list (tv_switches view'))) \<and>
    view'\<lparr>tv_switches := tv_switches view\<rparr> = view"
proof -
  let ?e = "extra_sims sims (tv_switches view)"
  have e: "set ?e = {sw \<in> sim_sw ` set sims. toUpperCase (sw_mac sw) \<notin> set (upper_macs (opt_list (tv_switches view)))}"
    by (auto simp: extra_sims_def upper_macs_def)
  have "distinct (upper_macs (opt_list (tv_switches view) @ ?e))"
    using assms(2) extra_apart [OF assms(3)] e by (auto simp: upper_macs_def) (metis imageI)
  then show ?thesis using merge_switches [OF assms(1), of view] e by metis
qed

theorem merge_extra_sims_ok_witness:
  "let s = \<lparr>ls_items = [(SIMS_KEY, stringify (\<lambda>_. []) (of_list of_sim [new_sim Rj48 None 1]))], ls_blocked = False, ls_full = False\<rparr>
   in \<exists>view'. mergeExtraSims s (debug_view []) = Inr view' \<and> map sw_mac (opt_list (tv_switches view')) = [sim_mac 1]"
proof -
  let ?t = "stringify (\<lambda>_. []) (of_list of_sim [new_sim Rj48 None 1])"
  let ?s = "\<lparr>ls_items = [(SIMS_KEY, ?t)], ls_blocked = False, ls_full = False\<rparr>"
  obtain s' where s': "saveVRackSims (\<lambda>_. []) [new_sim Rj48 None 1] \<lparr>ls_items = [], ls_blocked = False, ls_full = False\<rparr> = Inr s'"
    and l: "loadVRackSims s' = Inr [new_sim Rj48 None 1]"
    using load_save [of "\<lparr>ls_items = [], ls_blocked = False, ls_full = False\<rparr>" "[new_sim Rj48 None 1]" "\<lambda>_. []"]
    by (auto simp: usable_def built_def)
  have "s' = ?s" using s' by (simp add: saveVRackSims_def setItem_def)
  with l have "loadVRackSims ?s = Inr [new_sim Rj48 None 1]" by (simp only:)
  from merge_extra_sims_ok [OF this, of "debug_view []"]
  obtain view' extra where m: "mergeExtraSims ?s (debug_view []) = Inr view'"
    and o: "opt_list (tv_switches view') = extra" and e: "set extra = {buildSimSwitch Rj48 (sim_mac 1) 1 None}"
    and d: "distinct (upper_macs extra)"
    by (auto simp: debug_view_def opt_list_def upper_macs_def new_sim_def)
  from e d have "extra = [buildSimSwitch Rj48 (sim_mac 1) 1 None]"
    by (cases extra; cases "tl extra") (auto simp: upper_macs_def)
  then show ?thesis using m o by (auto simp: buildSimSwitch_def Let_def)
qed

section \<open>The demonstration is coherent\<close>

text \<open>The edges of a tree of nodes: the port of the parent and the port of the child.\<close>

fun node_edges :: "TopoNode \<Rightarrow> (mac \<times> string option \<times> mac \<times> string option) list" where
  "node_edges (TopoNode mac name ip kind pport cport clients children) =
     (case children of
        None \<Rightarrow> []
      | Some ns \<Rightarrow> concat (map (\<lambda>c. (mac, tn_parent_port c, tn_mac c, tn_child_port c) # node_edges c) ns))"

definition switch_edge :: "mac \<Rightarrow> Switch \<Rightarrow> mac \<times> string option \<times> mac \<times> string option" where
  "switch_edge box sw =
     (case sw_parent_mac sw of
        Some m \<Rightarrow> (m, sw_parent_port sw, sw_mac sw, sw_uplink_port sw)
      | None \<Rightarrow> (box, sw_parent_nic sw, sw_mac sw, sw_uplink_port sw))"

definition port_ids :: "Switch list \<Rightarrow> mac \<Rightarrow> string list" where
  "port_ids sws m = concat (map (\<lambda>s. if sw_mac s = m then map sp_id (opt_list (sw_ports s)) else []) sws)"

definition uplinked :: "Switch \<Rightarrow> bool" where
  "uplinked sw \<longleftrightarrow>
     map sp_id (filter (\<lambda>p. sp_uplink p = Some True) (opt_list (sw_ports sw))) = [opt_str (sw_uplink_port sw)]"

definition plugged :: "Switch list \<Rightarrow> Switch \<Rightarrow> bool" where
  "plugged sws sw \<longleftrightarrow>
     (case sw_parent_mac sw of None \<Rightarrow> True | Some m \<Rightarrow> opt_str (sw_parent_port sw) \<in> set (port_ids sws m))"

text \<open>The ports of the builders, by their ids.\<close>

lemma port_run_ids:
  "map sp_id (rj a b) = map dec [a..<Suc b]" "map sp_id (sfp a b) = map dec [a..<Suc b]"
  by (simp_all add: rj_def sfp_def)

lemma no_uplink: "list_all (\<lambda>p. sp_uplink p \<noteq> Some True) (rj a b)" "list_all (\<lambda>p. sp_uplink p \<noteq> Some True) (sfp a b)"
  by (simp_all add: rj_def sfp_def list_all_iff)

lemma mk_simps [simp]:
  "sw_mac (mk m n d ps l) = m" "sw_name (mk m n d ps l) = Some n" "sw_parent_mac (mk m n d ps l) = dl_parent_mac l"
  "sw_parent_port (mk m n d ps l) = dl_parent_port l" "sw_parent_nic (mk m n d ps l) = dl_parent_nic l"
  "sw_uplink_port (mk m n d ps l) = Some (dl_uplink l)"
  "map sp_id (opt_list (sw_ports (mk m n d ps l))) = map sp_id ps"
  by (auto simp: mk_def opt_list_def)

lemma mkAp_simps [simp]:
  "sw_mac (mkAp m n d pm pp) = m" "sw_name (mkAp m n d pm pp) = Some n" "sw_parent_mac (mkAp m n d pm pp) = Some pm"
  "sw_parent_port (mkAp m n d pm pp) = Some pp" "sw_uplink_port (mkAp m n d pm pp) = Some ''1''"
  "opt_list (sw_ports (mkAp m n d pm pp)) = [bare_port ''1'' True None (Some True)]"
  by (auto simp: mkAp_def opt_list_def)

lemma link_simps [simp]:
  "dl_parent_mac (under m p u) = Some m" "dl_parent_port (under m p u) = Some p" "dl_uplink (under m p u) = u"
  "dl_parent_mac (at_nic n u) = None" "dl_parent_nic (at_nic n u) = Some n" "dl_uplink (at_nic n u) = u"
  by (simp_all add: under_def at_nic_def)

lemma filter_once: "distinct xs \<Longrightarrow> u \<in> set xs \<Longrightarrow> filter (\<lambda>i. i = u) xs = [u]"
  by (induction xs) (auto simp: filter_empty_conv)

lemma mk_uplink:
  assumes "distinct (map sp_id ps)" "dl_uplink l \<in> set (map sp_id ps)" "list_all (\<lambda>p. sp_uplink p \<noteq> Some True) ps"
  shows "map sp_id (filter (\<lambda>p. sp_uplink p = Some True) (opt_list (sw_ports (mk m n d ps l)))) = [dl_uplink l]"
proof -
  let ?f = "\<lambda>p. if sp_id p = dl_uplink l then p\<lparr>sp_uplink := Some True, sp_up := True\<rparr> else p"
  have "map sp_id (filter (\<lambda>p. sp_uplink p = Some True) (map ?f ps)) = filter (\<lambda>i. i = dl_uplink l) (map sp_id ps)"
    using assms(3) by (induction ps) auto
  also have "\<dots> = [dl_uplink l]" by (rule filter_once [OF assms(1,2)])
  finally show ?thesis by (simp add: mk_def opt_list_def)
qed

lemma port_in_run:
  "i = dec n \<Longrightarrow> a \<le> n \<Longrightarrow> n \<le> b \<Longrightarrow> i \<in> set (map dec [a..<Suc b])"
  by (auto simp del: upt_Suc)

lemmas demo_defs = demo_hd_def demo_agg_def demo_max16_def demo_swx_def demo_flex8_def demo_flex5_def
  demo_ap1_def demo_ap2_def demo_mystery_def

lemma demo_edges:
  "set (concat (map node_edges (opt_list (tv_tree buildTopoDemo)))) =
     set (map (switch_edge (demo_mac ''00'')) (opt_list (tv_switches buildTopoDemo)))"
proof -
  have "set (concat (map node_edges demo_tree)) =
     set (map (switch_edge (demo_mac ''00''))
       [demo_hd, demo_agg, demo_max16, demo_flex8, demo_ap2, demo_flex5, demo_ap1, demo_mystery, demo_swx])"
    by (simp add: demo_tree_def demo_node_def switch_edge_def demo_defs)
  then show ?thesis by (simp add: buildTopoDemo_def opt_list_def insert_commute)
qed

lemma demo_mac_upper: "list_all is_digit t \<Longrightarrow> toUpperCase (demo_mac t) = toUpperCase ''AA:BB:CC:DD:EE:'' @ t"
  by (simp add: demo_mac_def toUpperCase_def list_all_iff digit_plain map_idI)

lemma demo_apart: "distinct (upper_macs (opt_list (tv_switches buildTopoDemo)))"
  by (simp add: buildTopoDemo_def opt_list_def upper_macs_def demo_defs demo_mac_upper is_digit_def)

text \<open>The ids of the ports of a switch of the demonstration are a run of numbers.\<close>

lemma run_join: "b' = Suc b \<Longrightarrow> a \<le> b' \<Longrightarrow> b \<le> c \<Longrightarrow> map sp_id (rj a b @ sfp b' c) = map dec [a..<Suc c]"
  using upt_add_eq_append [of a "Suc b" "c - b"] by (simp add: port_run_ids del: upt_Suc)

lemma run_no_uplink: "list_all (\<lambda>p. sp_uplink p \<noteq> Some True) (rj a b @ sfp c d)"
  using no_uplink by simp

lemma mk_uplinked:
  assumes "map sp_id ps = map dec [a..<Suc b]" "list_all (\<lambda>p. sp_uplink p \<noteq> Some True) ps"
    "dl_uplink l = dec n" "a \<le> n" "n \<le> b"
  shows "uplinked (mk m nm d ps l)"
  using assms port_in_run [of "dl_uplink l" n a b] mk_uplink [of ps l]
  by (simp add: uplinked_def opt_str_def distinct_map inj_on_def del: upt_Suc)

lemma uplinked_update [simp]:
  "uplinked (sw\<lparr>sw_lags := x\<rparr>) = uplinked sw" "uplinked (sw\<lparr>sw_parent_port := y\<rparr>) = uplinked sw"
  by (simp_all add: uplinked_def)

lemma demo_nums:
  "''1'' = dec 1" "''2'' = dec 2" "''3'' = dec 3" "''5'' = dec 5" "''7'' = dec 7" "''8'' = dec 8" "''9'' = dec 9" "''17'' = dec 17"
  "''27'' = dec 27" "''28'' = dec 28"
  by code_simp+

lemma demo_uplinked:
  "uplinked demo_hd" "uplinked demo_agg" "uplinked demo_max16" "uplinked demo_swx" "uplinked demo_flex8"
  "uplinked demo_flex5" "uplinked demo_ap1" "uplinked demo_ap2" "uplinked demo_mystery"
proof -
  show "uplinked demo_ap1" "uplinked demo_ap2" by (simp_all add: uplinked_def demo_defs opt_str_def)
  show "uplinked demo_hd" unfolding demo_hd_def uplinked_update
    by (rule mk_uplinked [OF run_join run_no_uplink, where n = 28]) (simp_all add: demo_nums(10))
  show "uplinked demo_agg" unfolding demo_agg_def uplinked_update
    by (rule mk_uplinked [OF port_run_ids(2) no_uplink(2), where n = 1]) (simp_all add: demo_nums(1))
  show "uplinked demo_max16" unfolding demo_max16_def uplinked_update
    by (rule mk_uplinked [OF run_join run_no_uplink, where n = 17]) (simp_all add: demo_nums(8))
  show "uplinked demo_swx" unfolding demo_swx_def uplinked_update
    by (rule mk_uplinked [OF run_join run_no_uplink, where n = 9]) (simp_all add: demo_nums(7))
  show "uplinked demo_flex8" unfolding demo_flex8_def uplinked_update
    by (rule mk_uplinked [OF run_join run_no_uplink, where n = 9]) (simp_all add: demo_nums(7))
  show "uplinked demo_flex5" unfolding demo_flex5_def uplinked_update
    by (rule mk_uplinked [OF port_run_ids(1) no_uplink(1), where n = 5]) (simp_all add: demo_nums(4))
  show "uplinked demo_mystery" unfolding demo_mystery_def uplinked_update
    by (rule mk_uplinked [OF port_run_ids(1) no_uplink(1), where n = 1]) (simp_all add: demo_nums(1))
qed

lemma port_ids_member:
  assumes "sw \<in> set sws" "map sp_id (opt_list (sw_ports sw)) = map dec [a..<Suc b]" "i = dec n" "a \<le> n" "n \<le> b"
  shows "i \<in> set (port_ids sws (sw_mac sw))"
proof -
  have "i \<in> set (map sp_id (opt_list (sw_ports sw)))"
    using port_in_run [OF assms(3-5)] assms(2) by simp
  then show ?thesis using assms(1) by (force simp: port_ids_def)
qed

lemma demo_runs:
  "map sp_id (opt_list (sw_ports demo_hd)) = map dec [1..<Suc 28]"
  "map sp_id (opt_list (sw_ports demo_max16)) = map dec [1..<Suc 18]"
  "map sp_id (opt_list (sw_ports demo_flex8)) = map dec [1..<Suc 10]"
  using run_join [of 25 24 1 28] run_join [of 17 16 1 18] run_join [of 10 9 1 10]
  by (simp_all add: demo_defs del: upt_Suc)

lemma demo_plugged: "sw \<in> set (opt_list (tv_switches buildTopoDemo)) \<Longrightarrow> plugged (opt_list (tv_switches buildTopoDemo)) sw"
proof -
  let ?s = "opt_list (tv_switches buildTopoDemo)"
  have "demo_hd \<in> set ?s" "demo_max16 \<in> set ?s" "demo_flex8 \<in> set ?s"
    by (simp_all add: buildTopoDemo_def opt_list_def)
  note m = port_ids_member [OF this(1) demo_runs(1)] port_ids_member [OF this(2) demo_runs(2)]
    port_ids_member [OF this(3) demo_runs(3)]
  have parents: "''27'' \<in> set (port_ids ?s (sw_mac demo_hd))" "''1'' \<in> set (port_ids ?s (sw_mac demo_hd))"
    "''3'' \<in> set (port_ids ?s (sw_mac demo_hd))" "''8'' \<in> set (port_ids ?s (sw_mac demo_max16))"
    "''7'' \<in> set (port_ids ?s (sw_mac demo_max16))" "''2'' \<in> set (port_ids ?s (sw_mac demo_max16))"
    "''3'' \<in> set (port_ids ?s (sw_mac demo_flex8))"
    using m(1) [OF demo_nums(9)] m(1) [OF demo_nums(1)] m(1) [OF demo_nums(3)] m(2) [OF demo_nums(6)]
      m(2) [OF demo_nums(5)] m(2) [OF demo_nums(2)] m(3) [OF demo_nums(3)] by simp_all
  have plug: "plugged ?s sw" if "sw_parent_mac sw = None \<or>
      (\<exists>m p. sw_parent_mac sw = Some m \<and> sw_parent_port sw = Some p \<and> p \<in> set (port_ids ?s m))" for sw
    using that by (auto simp: plugged_def opt_str_def)
  have up: "sw_parent_mac demo_hd = None" "sw_parent_mac demo_swx = None"
    "sw_parent_mac demo_agg = Some (sw_mac demo_hd)" "sw_parent_port demo_agg = Some ''27''"
    "sw_parent_mac demo_max16 = Some (sw_mac demo_hd)" "sw_parent_port demo_max16 = Some ''1''"
    "sw_parent_mac demo_flex8 = Some (sw_mac demo_max16)" "sw_parent_port demo_flex8 = Some ''8''"
    "sw_parent_mac demo_flex5 = Some (sw_mac demo_max16)" "sw_parent_port demo_flex5 = Some ''7''"
    "sw_parent_mac demo_ap1 = Some (sw_mac demo_max16)" "sw_parent_port demo_ap1 = Some ''2''"
    "sw_parent_mac demo_ap2 = Some (sw_mac demo_flex8)" "sw_parent_port demo_ap2 = Some ''3''"
    "sw_parent_mac demo_mystery = Some (sw_mac demo_hd)" "sw_parent_port demo_mystery = Some ''3''"
    by (simp_all add: demo_defs)
  assume "sw \<in> set ?s"
  then have "sw \<in> {demo_hd, demo_agg, demo_max16, demo_swx, demo_flex8, demo_flex5, demo_ap1, demo_ap2, demo_mystery}"
    by (auto simp: buildTopoDemo_def opt_list_def)
  then show ?thesis using parents by (intro plug) (auto simp: up)
qed

text \<open>in the demonstration the list of switches and the tree describe the same cables: the edges of the
  tree are the links of the switches to their parents, every cable ends in a port that the parent has, and every
  switch has exactly one port marked as its uplink, the one it names.\<close>

theorem demo_coherent:
  "let sws = opt_list (tv_switches buildTopoDemo)
   in set (concat (map node_edges (opt_list (tv_tree buildTopoDemo)))) = set (map (switch_edge (demo_mac ''00'')) sws) \<and>
      list_all (plugged sws) sws \<and> list_all uplinked sws \<and> distinct (upper_macs sws)"
proof -
  have "list_all uplinked (opt_list (tv_switches buildTopoDemo))"
    using demo_uplinked by (simp add: buildTopoDemo_def opt_list_def)
  then show ?thesis using demo_edges demo_apart demo_plugged by (simp add: Let_def list_all_iff)
qed

section \<open>The stored demonstration is read back\<close>

text \<open>What is printed of a node or a switch has no number but those of its radios.\<close>

lemma printable_bools: "pred_option (printable str_num) (map_option JBool x)"
  by (cases x) simp_all

lemma printable_texts: "pred_option (printable str_num) (map_option JStr x)"
  by (cases x) simp_all

lemma printable_text_lists: "pred_option (printable str_num) (map_option (of_list JStr) x)"
  by (cases x) (simp_all add: printable_strs)

lemma printable_opt: "(\<And>y. x = Some y \<Longrightarrow> printable str_num (enc y)) \<Longrightarrow> pred_option (printable str_num) (map_option enc x)"
  by (cases x) simp_all

lemmas printable_members_opt = printable_bools printable_texts printable_text_lists

lemma printable_node: "printable str_num (of_node n)"
proof (induction n)
  case (TopoNode mac name ip kind pport cport clients children)
  have "printable str_num (JArr (map of_node ns))" if "children = Some ns" for ns
  proof -
    have "list_all (\<lambda>x. printable str_num (of_node x)) ns" using TopoNode that by (simp add: list_all_iff)
    then show ?thesis by (simp only: of_list_def [symmetric] printable_list)
  qed
  then have "pred_option (printable str_num) (map_option (\<lambda>ns. JArr (map of_node ns)) children)"
    by (rule printable_opt)
  then show ?case unfolding of_node.simps
    by (intro printable_fields) (simp_all add: printable_members_opt)
qed

lemma printable_switch:
  assumes "list_all bare (opt_list (sw_ports sw))" "list_all (\<lambda>r. printable str_num (of_radio r)) (opt_list (sw_radios sw))"
    and "sw_poe sw = None" "sw_acl sw = None" "sw_capabilities sw = None"
  shows "printable str_num (of_switch sw)"
proof -
  have "pred_option (printable str_num) (map_option (of_list of_port) (sw_ports sw))"
    using assms(1) by (intro printable_opt) (simp add: printable_ports opt_list_def)
  moreover have "pred_option (printable str_num) (map_option (of_list of_radio) (sw_radios sw))"
    using assms(2) by (intro printable_opt) (simp add: printable_list opt_list_def)
  moreover have "pred_option (printable str_num) (map_option (of_list (of_list JStr)) (sw_lags sw))"
    by (intro printable_opt) (simp add: printable_list printable_strs list_all_iff)
  ultimately show ?thesis unfolding of_switch_def
    by (intro printable_fields) (simp_all add: printable_members_opt assms)
qed

lemma printable_mk:
  "list_all bare ps \<Longrightarrow> printable str_num (of_switch (mk m n d ps l\<lparr>sw_lags := g\<rparr>))"
  "list_all bare ps \<Longrightarrow> printable str_num (of_switch (mk m n d ps l\<lparr>sw_lags := g, sw_parent_port := p\<rparr>))"
  "list_all bare ps \<Longrightarrow> printable str_num (of_switch (mk m n d ps l))"
  by (intro printable_switch; auto simp: mk_def opt_list_def list_all_iff bare_mark)+

lemma printable_whole: "\<forall>n. str_num (of_nat n) = dec n \<Longrightarrow> printable str_num (of_whole (int n))"
  using reads_back_dec [of str_num n] by (simp add: of_whole_def)

lemma printable_ap: "\<forall>n. str_num (of_nat n) = dec n \<Longrightarrow> printable str_num (of_switch (mkAp m n d pm pp))"
  using printable_whole [of str_num 6] printable_whole [of str_num 20] printable_whole [of str_num 36]
    printable_whole [of str_num 80]
  by (intro printable_switch)
    (auto simp: mkAp_def opt_list_def bare_def of_radio_def intro!: printable_fields)

lemma printable_demo: "\<forall>n. str_num (of_nat n) = dec n \<Longrightarrow> printable str_num (of_topo buildTopoDemo)"
proof -
  assume n: "\<forall>n. str_num (of_nat n) = dec n"
  have "list_all (\<lambda>sw. printable str_num (of_switch sw)) (opt_list (tv_switches buildTopoDemo))"
    by (simp add: buildTopoDemo_def opt_list_def demo_defs printable_mk printable_ap [OF n] bare_ports)
  moreover have "printable str_num (of_labeled l)" for l
    unfolding of_labeled_def by (intro printable_fields) simp_all
  then have "printable str_num (of_box demo_box)"
    unfolding of_box_def demo_box_def by (intro printable_fields) (simp_all add: printable_list)
  ultimately show ?thesis unfolding of_topo_def
    by (intro printable_fields) (simp_all add: buildTopoDemo_def opt_list_def printable_list printable_node list_all_iff)
qed

lemma of_topo_obj: "\<exists>ms. of_topo v = JObj ms"
  by (simp add: of_topo_def js_obj_def)

lemma truthy_topo: "truthy (Some (stringify str_num (of_topo v)))"
  using of_topo_obj [of v] by (auto simp: truthy_def)

lemma load_save_demo:
  assumes "usable s" and "printable str_num (of_topo v)"
  shows "\<exists>s'. saveTopoDemo str_num (Some v) s = Inr s' \<and> usable s' \<and> loadTopoDemo s' = Inr (Some v) \<and>
    (\<forall>k. k \<noteq> DEMO_KEY \<longrightarrow> getItem k s' = getItem k s)"
proof -
  obtain ms where ms: "of_topo v = JObj ms" using of_topo_obj by blast
  have "JSON_parse (stringify str_num (of_topo v)) = Some (JObj ms)"
    using parse_stringify [OF assms(2)] ms by simp
  moreover have "as_topo (JObj ms) = Some v" using js_topo.dec_enc [of v] ms by simp
  ultimately show ?thesis
    using assms(1) truthy_topo [of str_num v]
    by (simp add: saveTopoDemo_def loadTopoDemo_def usable_setItem opt_str_def)
qed

lemma debug_keys:
  "DEMO_ON_KEY \<noteq> DEMO_KEY" "DEMO_KEY \<noteq> DEMO_ON_KEY" "SIMS_KEY \<noteq> DEMO_KEY" "SIMS_KEY \<noteq> DEMO_ON_KEY"
  by (simp_all add: DEMO_ON_KEY_def DEMO_KEY_def SIMS_KEY_def)

lemma loadVRackSims_cong: "getItem SIMS_KEY s' = getItem SIMS_KEY s \<Longrightarrow> loadVRackSims s' = loadVRackSims s"
  by (simp add: loadVRackSims_def)

lemma loadTopoDemo_cong: "getItem DEMO_KEY s' = getItem DEMO_KEY s \<Longrightarrow> loadTopoDemo s' = loadTopoDemo s"
  by (simp add: loadTopoDemo_def)

lemma setTopoDemoOn_ok:
  "usable s \<Longrightarrow> \<exists>s'. setTopoDemoOn on s = Inr s' \<and> usable s' \<and> isTopoDemoOn s' = on \<and>
     (\<forall>k. k \<noteq> DEMO_ON_KEY \<longrightarrow> getItem k s' = getItem k s)"
  by (auto simp: setTopoDemoOn_def isTopoDemoOn_def usable_setItem)

lemma enable_ok:
  assumes "usable s" and "\<forall>n. str_num (of_nat n) = dec n"
  shows "\<exists>s'. enableTopoDemo str_num s = Inr (buildTopoDemo, s') \<and> usable s' \<and> isTopoDemoOn s' \<and>
    loadTopoDemo s' = Inr (Some buildTopoDemo) \<and> loadVRackSims s' = loadVRackSims s"
proof -
  obtain s1 where 1: "saveTopoDemo str_num (Some buildTopoDemo) s = Inr s1" "usable s1"
    "loadTopoDemo s1 = Inr (Some buildTopoDemo)" "\<forall>k. k \<noteq> DEMO_KEY \<longrightarrow> getItem k s1 = getItem k s"
    using load_save_demo [OF assms(1) printable_demo [OF assms(2)]] by blast
  obtain s2 where 2: "setTopoDemoOn True s1 = Inr s2" "usable s2" "isTopoDemoOn s2"
    "\<forall>k. k \<noteq> DEMO_ON_KEY \<longrightarrow> getItem k s2 = getItem k s1"
    using setTopoDemoOn_ok [OF 1(2), of True] by blast
  have "loadTopoDemo s2 = loadTopoDemo s1" "loadVRackSims s2 = loadVRackSims s"
    using 1(4) 2(4) by (auto intro!: loadTopoDemo_cong loadVRackSims_cong simp: debug_keys)
  then show ?thesis using 1 2 by (simp add: enableTopoDemo_def)
qed

text \<open>when debugging is on, the switch in the page takes the shown topology from the network to the demonstration
  and back: after switching it on, the demonstration read back from the storage is shown in place of the network,
  followed by the simulated switches that it does not have; after switching it off, the network with the simulated
  switches is shown as before. With debugging off the network is shown whatever is stored.\<close>

theorem demo_switches_view:
  assumes "usable s" and "\<forall>n. str_num (of_nat n) = dec n" and "loadVRackSims s = Inr sims"
  shows "\<exists>s1 s2 demo net. enableTopoDemo str_num s = Inr (buildTopoDemo, s1) \<and> disableTopoDemo s1 = Inr s2 \<and>
    topoViewWithSims True s1 (Some view) = Inr (Some demo) \<and>
    opt_list (tv_switches demo) = opt_list (tv_switches buildTopoDemo) @ extra_sims sims (tv_switches buildTopoDemo) \<and>
    topoViewWithSims True s2 (Some view) = Inr (Some net) \<and>
    opt_list (tv_switches net) = opt_list (tv_switches view) @ extra_sims sims (tv_switches view) \<and>
    topoViewWithSims False s1 (Some view) = Inr (Some view)"
proof -
  obtain s1 where 1: "enableTopoDemo str_num s = Inr (buildTopoDemo, s1)" "usable s1" "isTopoDemoOn s1"
    "loadTopoDemo s1 = Inr (Some buildTopoDemo)" "loadVRackSims s1 = Inr sims"
    using enable_ok [OF assms(1,2)] assms(3) by auto
  obtain s2 where 2: "disableTopoDemo s1 = Inr s2" "\<not> isTopoDemoOn s2"
    "\<forall>k. k \<noteq> DEMO_ON_KEY \<longrightarrow> getItem k s2 = getItem k s1"
    using setTopoDemoOn_ok [OF 1(2), of False] by (auto simp: disableTopoDemo_def)
  have 3: "loadVRackSims s2 = Inr sims"
    using 1(5) 2(3) loadVRackSims_cong [of s2 s1] by (simp add: debug_keys)
  obtain demo where "mergeExtraSims s1 buildTopoDemo = Inr demo" "opt_list (tv_switches demo) =
      opt_list (tv_switches buildTopoDemo) @ extra_sims sims (tv_switches buildTopoDemo)"
    using merge_switches [OF 1(5)] by blast
  moreover obtain net where "mergeExtraSims s2 view = Inr net" "opt_list (tv_switches net) =
      opt_list (tv_switches view) @ extra_sims sims (tv_switches view)"
    using merge_switches [OF 3] by blast
  ultimately show ?thesis using 1 2 by (simp add: topoViewWithSims_def)
qed

theorem demo_switches_view_witness:
  "let s = \<lparr>ls_items = [], ls_blocked = False, ls_full = False\<rparr>
   in \<exists>s1 demo. enableTopoDemo (\<lambda>x. dec (nat \<lfloor>x\<rfloor>)) s = Inr (buildTopoDemo, s1) \<and>
        topoViewWithSims True s1 (Some (debug_view [])) = Inr (Some demo) \<and>
        opt_list (tv_switches demo) = opt_list (tv_switches buildTopoDemo)"
proof -
  let ?s = "\<lparr>ls_items = [], ls_blocked = False, ls_full = False\<rparr>"
  have "usable ?s" "loadVRackSims ?s = Inr []"
    by (simp_all add: usable_def loadVRackSims_def getItem_def truthy_def)
  then show ?thesis
    using demo_switches_view [of ?s "\<lambda>x. dec (nat \<lfloor>x\<rfloor>)" "[]" "debug_view []"]
    by (auto simp: Let_def extra_sims_def)
qed

section \<open>Where a new simulated switch is put\<close>

lemma pick_port_in: "pick_port ports = Some i \<Longrightarrow> i \<in> sp_id ` set ports"
  by (auto simp: pick_port_def find_Some_iff split: option.splits list.splits)

lemma pick_port_free:
  "pick_port ports = Some i \<Longrightarrow> p \<in> set ports \<Longrightarrow> sp_uplink p \<noteq> Some True \<Longrightarrow>
     \<exists>q \<in> set ports. sp_id q = i \<and> sp_uplink q \<noteq> Some True"
  by (fastforce simp: pick_port_def find_None_iff find_Some_iff split: option.splits list.splits)

text \<open>The parent is a switch of the network that is not simulated, and the port one of its own; it is the uplink of that
  switch only when it has no other port.\<close>

lemma pickParent_ok:
  assumes "pickParent live sims = Some (m, i)"
  shows "\<exists>sw \<in> set live. sw_mac sw = m \<and> toUpperCase m \<notin> set (upper_macs (map sim_sw sims)) \<and>
    i \<in> sp_id ` set (opt_list (sw_ports sw)) \<and>
    ((\<exists>p \<in> set (opt_list (sw_ports sw)). sp_uplink p \<noteq> Some True) \<longrightarrow>
     (\<exists>q \<in> set (opt_list (sw_ports sw)). sp_id q = i \<and> sp_uplink q \<noteq> Some True))"
proof -
  obtain sw where f: "find (\<lambda>s. sw_kind s \<noteq> Some ''ap'' \<and> sw_kind s \<noteq> Some ''box'' \<and>
      toUpperCase (sw_mac s) \<notin> set (map (\<lambda>s. toUpperCase (sw_mac (sim_sw s))) sims) \<and> opt_list (sw_ports s) \<noteq> []) live = Some sw"
    and p: "truthy (pick_port (opt_list (sw_ports sw)))" "m = sw_mac sw" "i = opt_str (pick_port (opt_list (sw_ports sw)))"
    using assms by (auto simp: pickParent_def Let_def split: option.splits if_splits)
  have "pick_port (opt_list (sw_ports sw)) = Some i" using p by (auto simp: truthy_def opt_str_def split: option.splits)
  moreover have "sw \<in> set live" "toUpperCase (sw_mac sw) \<notin> set (upper_macs (map sim_sw sims))"
    using f by (auto simp: find_Some_iff upper_macs_def)
  ultimately show ?thesis using p(2) pick_port_in pick_port_free by blast
qed

end
