(* ===== verification/Charts.thy ===== *)
theory Charts
  imports Format
begin

text \<open>
  The figures behind the charts (\<open>ui/src/components/SpeedSpark.tsx\<close>, \<open>TransferChart.tsx\<close>, \<open>Sparkline.tsx\<close>):
  scales, axes and their labels, the trend of a series, the sparse labels of the dates, the point under
  the mouse and the path of a line. Numbers are exact rationals, so what rounding of floating point may
  change in the last place is left out. The size of the drawing and the position of the mouse are arguments.
\<close>

section \<open>Extremes and powers of ten\<close>

definition max_of :: "rat \<Rightarrow> rat list \<Rightarrow> rat" where
  "max_of x xs = foldr max xs x"

definition min_of :: "rat \<Rightarrow> rat list \<Rightarrow> rat" where
  "min_of x xs = foldr min xs x"

text \<open>\<open>10 ** Math.floor(Math.log10(v))\<close> for a positive number: the power of ten with as many places.\<close>

definition floor_log10 :: "rat \<Rightarrow> int" where
  "floor_log10 v =
     (if 1 \<le> v then int (length (dec (nat \<lfloor>v\<rfloor>))) - 1
      else - int (length (dec (nat (\<lceil>1 / v\<rceil> - 1)))))"

definition pow10 :: "int \<Rightarrow> rat" where
  "pow10 e = (if 0 \<le> e then 10 ^ nat e else 1 / 10 ^ nat (- e))"

section \<open>Speed tests\<close>

record SparkPoint =
  spk_ts :: rat
  spk_down :: rat
  spk_up :: rat

datatype Trend = Falling | Level | Rising

record SeriesStats =
  st_avg :: rat
  st_y0 :: rat
  st_y1 :: rat
  st_trend :: Trend

definition sum_rat :: "rat list \<Rightarrow> rat" where
  "sum_rat xs = foldl (+) 0 xs"

definition slope_of :: "rat list \<Rightarrow> rat" where
  "slope_of values =
     (let n = of_nat (length values); is = map of_nat [0..<length values];
          sumX = sum_rat is; sumY = sum_rat values;
          sumXY = sum_rat (map2 (*) is values); sumXX = sum_rat (map2 (*) is is);
          denom = n * sumXX - sumX * sumX
      in if denom = 0 then 0 else (n * sumXY - sumX * sumY) / denom)"

definition seriesStats :: "rat list \<Rightarrow> SeriesStats" where
  "seriesStats values =
     (let n = length values in
      if n = 0 then \<lparr>st_avg = 0, st_y0 = 0, st_y1 = 0, st_trend = Level\<rparr>
      else let avg = sum_rat values / of_nat n in
        if n = 1 then \<lparr>st_avg = avg, st_y0 = hd values, st_y1 = hd values, st_trend = Level\<rparr>
        else let sumX = sum_rat (map of_nat [0..<n]); sumY = sum_rat values;
                 slope = slope_of values;
                 intercept = (sumY - slope * sumX) / of_nat n;
                 delta = slope * (of_nat n - 1)
             in \<lparr>st_avg = avg, st_y0 = intercept, st_y1 = intercept + slope * (of_nat n - 1),
                 st_trend = (if \<bar>delta\<bar> < max (avg * (5 / 100)) (1 / 2) then Level
                             else if 0 < delta then Rising else Falling)\<rparr>)"

definition speedTrend :: "SparkPoint list \<Rightarrow> Trend" where
  "speedTrend points = st_trend (seriesStats (map spk_down points))"

definition completeHourPoints :: "('p \<Rightarrow> rat) \<Rightarrow> 'p list \<Rightarrow> rat \<Rightarrow> 'p list" where
  "completeHourPoints ts points asOf = filter (\<lambda>p. ts p + 3600 \<le> asOf) points"

definition tightFloor :: "rat \<Rightarrow> rat" where
  "tightFloor m =
     (if m \<le> 0 then 0
      else let ex = pow10 (floor_log10 m);
               step = (if 100 \<le> ex then ex / 2 else ex)
           in of_int \<lfloor>m / step\<rfloor> * step)"

definition typicalRange :: "rat list \<Rightarrow> rat \<times> rat" where
  "typicalRange values =
     (case values of
        [] \<Rightarrow> (0, 1)
      | v # vs \<Rightarrow>
          let mx = max_of v vs;
              sorted = js_sort (\<lambda>a b. if a < b then -1 else if b < a then 1 else 0) values;
              mid = sorted ! (length sorted div 2);
              typical = filter (\<lambda>v. mid * (6 / 10) \<le> v) values;
              mn = (case typical of [] \<Rightarrow> min_of v vs | t # ts \<Rightarrow> min_of t ts);
              lo = tightFloor mn
          in (lo, max mx (lo + 1)))"

text \<open>The indices of the labels. With one label wanted and several points the code divides zero by zero.\<close>

definition sparse_index :: "nat \<Rightarrow> nat \<Rightarrow> nat \<Rightarrow> jsnum" where
  "sparse_index n cnt k =
     (if cnt = 1 then NaN else Num (of_int (js_round (of_nat (k * (n - 1)) / of_nat (cnt - 1)))))"

definition sparseIndices :: "nat \<Rightarrow> nat \<Rightarrow> jsnum list" where
  "sparseIndices n want =
     (if n = 0 then [] else if n = 1 then [Num 0]
      else let cnt = min want n in
        if cnt = 2 then [Num 0, Num (of_nat (n - 1))]
        else rev (remdups (rev (map (sparse_index n cnt) [0..<cnt]))))"

definition fmtCountAxis :: "rat \<Rightarrow> string" where
  "fmtCountAxis v =
     (if 1000 \<le> v then
        let k = v / 1000;
            s = (if 10 \<le> k then toFixed 0 k
                 else toFixed (if 1 \<le> k \<and> k - of_int \<lfloor>k\<rfloor> < 5 / 100 then 0 else 1) k)
        in (if drop (length s - 2) s = ''.0'' then take (length s - 2) s else s) @ ''k''
      else dec_int (js_round v))"

section \<open>Paths\<close>

type_synonym pt = "rat \<times> rat"

definition fix1 :: "pt \<Rightarrow> string" where
  "fix1 p = toFixed 1 (fst p) @ '' '' @ toFixed 1 (snd p)"

definition along :: "pt \<Rightarrow> pt \<Rightarrow> pt \<Rightarrow> rat \<Rightarrow> pt" where
  "along p a b t = (fst p + (fst b - fst a) * t, snd p + (snd b - snd a) * t)"

text \<open>The curve from a point to the next: its two control points and its end.\<close>

definition path_segment :: "pt list \<Rightarrow> rat \<Rightarrow> nat \<Rightarrow> pt \<times> pt \<times> pt" where
  "path_segment pts t i =
     (let p0 = pts ! (if i = 0 then i else i - 1); p1 = pts ! i; p2 = pts ! (i + 1);
          p3 = (if i + 2 < length pts then pts ! (i + 2) else p2)
      in (along p1 p0 p2 t, along p2 p1 p3 (- t), p2))"

definition segment_text :: "pt \<times> pt \<times> pt \<Rightarrow> string" where
  "segment_text s = (case s of (c1, c2, p) \<Rightarrow> '' C '' @ fix1 c1 @ '' '' @ fix1 c2 @ '' '' @ fix1 p)"

definition smoothPath :: "pt list \<Rightarrow> rat \<Rightarrow> string" where
  "smoothPath pts t =
     (if length pts < 2 then []
      else ''M '' @ fix1 (pts ! 0) @ concat (map (\<lambda>i. segment_text (path_segment pts t i)) [0..<length pts - 1]))"

definition areaPath :: "pt list \<Rightarrow> rat \<Rightarrow> string" where
  "areaPath pts baseY =
     (let line = smoothPath pts (1 / 10) in
      if line = [] then []
      else line @ '' L '' @ fix1 (fst (last pts), baseY) @ '' L '' @ fix1 (fst (pts ! 0), baseY) @ '' Z'')"

section \<open>The chart of the speed tests\<close>

text \<open>The width and the height of the drawing less the margins.\<close>

definition inner :: "rat \<Rightarrow> rat \<Rightarrow> rat \<Rightarrow> rat" where
  "inner d a b = max 1 (d - a - b)"

definition step_of :: "rat \<Rightarrow> nat \<Rightarrow> rat" where
  "step_of innerW n = innerW / max (of_nat n) 1"

definition x_of :: "rat \<Rightarrow> rat \<Rightarrow> nat \<Rightarrow> rat" where
  "x_of padL step i = padL + (of_nat i + 1 / 2) * step"

definition downMax :: "rat \<Rightarrow> SparkPoint list \<Rightarrow> rat" where
  "downMax planDown points = max_of (max planDown 1) (map spk_down points)"

definition upMax :: "rat \<Rightarrow> SparkPoint list \<Rightarrow> rat" where
  "upMax planUp points = max_of (max planUp 1) (map spk_up points)"

definition bar_vals :: "SparkPoint list \<Rightarrow> rat list" where
  "bar_vals points = map (\<lambda>p. spk_down p + spk_up p) points"

definition barLo :: "SparkPoint list \<Rightarrow> rat" where
  "barLo points = (case bar_vals points of [] \<Rightarrow> 0 | v # vs \<Rightarrow> tightFloor (min_of v vs))"

definition barHi :: "SparkPoint list \<Rightarrow> rat" where
  "barHi points = (case bar_vals points of [] \<Rightarrow> 1 | vs \<Rightarrow> max_of (barLo points + 1) vs)"

definition y_clamped :: "rat \<Rightarrow> rat \<Rightarrow> rat \<Rightarrow> rat \<Rightarrow> rat" where
  "y_clamped padT innerH mx v = padT + innerH - (min (max v 0) mx / mx) * innerH"

definition y_floor :: "rat \<Rightarrow> rat \<Rightarrow> rat \<Rightarrow> rat \<Rightarrow> rat \<Rightarrow> rat" where
  "y_floor padT innerH lo hi v = padT + innerH - ((max v lo - lo) / (hi - lo)) * innerH"

definition yDown :: "rat \<Rightarrow> rat \<Rightarrow> SparkPoint list \<Rightarrow> rat \<Rightarrow> rat" where
  "yDown h planDown points = y_clamped 10 (inner h 10 16) (downMax planDown points)"

definition yUp :: "rat \<Rightarrow> rat \<Rightarrow> SparkPoint list \<Rightarrow> rat \<Rightarrow> rat" where
  "yUp h planUp points = y_clamped 10 (inner h 10 16) (upMax planUp points)"

definition yBar :: "rat \<Rightarrow> SparkPoint list \<Rightarrow> rat \<Rightarrow> rat" where
  "yBar h points = y_floor 10 (inner h 10 16) (barLo points) (barHi points)"

definition bar_width :: "rat \<Rightarrow> rat \<Rightarrow> rat \<Rightarrow> rat" where
  "bar_width lo hi step = min hi (max lo (step * (72 / 100)))"

definition bar_height :: "rat \<Rightarrow> rat \<Rightarrow> rat \<Rightarrow> rat" where
  "bar_height padT innerH mx = max 0 (padT + innerH - mx)"

text \<open>The mouse: the index under it, held to the points there are.\<close>

definition hover_index :: "rat \<Rightarrow> rat \<Rightarrow> rat \<Rightarrow> int" where
  "hover_index padL step px = \<lfloor>(px - padL) / step\<rfloor>"

definition hover_point :: "int option \<Rightarrow> nat \<Rightarrow> nat option" where
  "hover_point hover n =
     (case hover of None \<Rightarrow> None
      | Some h \<Rightarrow> if 2 \<le> n then Some (nat (min (int n - 1) (max 0 h))) else None)"

section \<open>The chart of the lookups\<close>

definition yDns :: "rat \<Rightarrow> rat list \<Rightarrow> rat \<Rightarrow> rat" where
  "yDns h counts = y_floor 8 (inner h 8 18) (fst (typicalRange counts)) (snd (typicalRange counts))"

definition dns_label_every :: "nat \<Rightarrow> nat" where
  "dns_label_every n = (if 12 < n then 6 else 3)"

section \<open>The chart of the traffic\<close>

definition hasConn :: "BytePoint list \<Rightarrow> bool" where
  "hasConn points \<longleftrightarrow> (\<exists>p \<in> set points. 0 < (case bp_conn p of Some c \<Rightarrow> c | None \<Rightarrow> 0))"

definition barValue :: "BytePoint \<Rightarrow> bool \<Rightarrow> rat" where
  "barValue p conn =
     (if conn then of_int (case bp_conn p of Some c \<Rightarrow> c | None \<Rightarrow> 0) else of_int (bp_upload p + bp_download p))"

definition niceMax :: "rat \<Rightarrow> rat" where
  "niceMax v =
     (if v \<le> 0 then 1
      else let ex = pow10 (floor_log10 v); n = v / ex;
               nice = (if n \<le> 1 then 1 else if n \<le> 2 then 2 else if n \<le> 5 then 5 else 10)
           in nice * ex)"

definition byteMax :: "BytePoint list \<Rightarrow> rat" where
  "byteMax points = niceMax (max_of 1 (concat (map (\<lambda>p. [of_int (bp_upload p), of_int (bp_download p)]) points)))"

definition barMax :: "BytePoint list \<Rightarrow> rat" where
  "barMax points = niceMax (max_of 1 (map (\<lambda>p. barValue p (hasConn points)) points))"

definition y_scaled :: "rat \<Rightarrow> rat \<Rightarrow> rat \<Rightarrow> rat \<Rightarrow> rat" where
  "y_scaled padT innerH mx v = padT + innerH - (v / mx) * innerH"

definition yB :: "rat \<Rightarrow> BytePoint list \<Rightarrow> rat \<Rightarrow> rat" where
  "yB h points = y_scaled 8 (inner h 8 22) (byteMax points)"

definition yTraffic :: "rat \<Rightarrow> BytePoint list \<Rightarrow> rat \<Rightarrow> rat" where
  "yTraffic h points = y_scaled 8 (inner h 8 22) (barMax points)"

definition traffic_inner_w :: "rat \<Rightarrow> BytePoint list \<Rightarrow> rat" where
  "traffic_inner_w w points = inner w 52 (if hasConn points then 36 else 12)"

definition traffic_line :: "(BytePoint \<Rightarrow> int) \<Rightarrow> rat \<Rightarrow> rat \<Rightarrow> BytePoint list \<Rightarrow> pt list" where
  "traffic_line value w h points =
     map2 (\<lambda>i p. (x_of 52 (traffic_inner_w w points / of_nat (length points)) i, yB h points (of_int (value p))))
       [0..<length points] points"

definition axis_trim :: "rat \<Rightarrow> string" where
  "axis_trim n =
     (let s = (if 10 \<le> n then toFixed 0 n else toFixed (if 1 \<le> n then 0 else 1) n)
      in if drop (length s - 2) s = ''.0'' then take (length s - 2) s else s)"

definition axisBytes :: "rat \<Rightarrow> string" where
  "axisBytes v =
     (if 10 ^ 12 \<le> v then axis_trim (v / 10 ^ 12) @ '' TB''
      else if 10 ^ 9 \<le> v then axis_trim (v / 10 ^ 9) @ '' GB''
      else if 10 ^ 6 \<le> v then axis_trim (v / 10 ^ 6) @ '' MB''
      else if 10 ^ 3 \<le> v then axis_trim (v / 10 ^ 3) @ '' KB''
      else if v = 0 then ''0 B'' else dec_int (js_round v) @ '' B'')"

definition axisCount :: "rat \<Rightarrow> string" where
  "axisCount v =
     (if 10 ^ 6 \<le> v then axis_trim (v / 10 ^ 6) @ '' M''
      else if 10 ^ 3 \<le> v then axis_trim (v / 10 ^ 3) @ '' K''
      else if v = 0 then ''0'' else dec_int (js_round v))"

section \<open>The line of a history\<close>

definition spark_pts :: "rat \<Rightarrow> rat \<Rightarrow> rat list \<Rightarrow> pt list" where
  "spark_pts width height values =
     (if length values < 2 then []
      else let mx = max_of (1 / 100) values; mn = min_of 0 values;
               span = (if mx - mn = 0 then 1 else mx - mn)
           in map2 (\<lambda>i v. (of_nat i / of_nat (length values - 1) * (width - 2) + 1,
                           height - 1 - ((v - mn) / span) * (height - 2)))
                [0..<length values] values)"

section \<open>Facts about extremes and powers of ten\<close>

lemma max_of_ge: "x \<le> max_of x xs" "y \<in> set xs \<Longrightarrow> y \<le> max_of x xs"
  by (induction xs) (auto simp: max_of_def max_def)

lemma max_of_in: "max_of x xs \<in> insert x (set xs)"
  by (induction xs) (auto simp: max_of_def max_def)

lemma min_of_le: "min_of x xs \<le> x" "y \<in> set xs \<Longrightarrow> min_of x xs \<le> y"
  by (induction xs) (auto simp: min_of_def min_def)

lemma min_of_in: "min_of x xs \<in> insert x (set xs)"
  by (induction xs) (auto simp: min_of_def min_def)

lemma dec_length: "0 < n \<Longrightarrow> 10 ^ (length (dec n) - 1) \<le> n \<and> n < 10 ^ length (dec n)"
proof (induction n rule: less_induct)
  case (less n)
  show ?case
  proof (cases "n < 10")
    case True
    then have "dec n = [digit_char n]" by (simp add: dec_def radix.simps [of 10 n])
    then show ?thesis using True less.prems by simp
  next
    case False
    let ?q = "n div 10"
    have len: "length (dec n) = Suc (length (dec ?q))"
      using False by (simp add: dec_def radix.simps [of 10 n])
    have "0 < ?q" "?q < n" using False by auto
    then have q: "10 ^ (length (dec ?q) - 1) \<le> ?q" "?q < 10 ^ length (dec ?q)" using less.IH by auto
    have "length (dec ?q) \<noteq> 0" by simp
    then have "(10 :: nat) ^ length (dec ?q) = 10 * 10 ^ (length (dec ?q) - 1)" by (cases "length (dec ?q)") auto
    then have "10 ^ length (dec ?q) \<le> n" "n < 10 * 10 ^ length (dec ?q)" using q by linarith+
    then show ?thesis by (simp add: len)
  qed
qed

lemma dec_places:
  assumes "0 < n"
  obtains k where "length (dec n) = Suc k" "(10 :: rat) ^ k \<le> of_nat n" "of_nat n + 1 \<le> (10 :: rat) ^ Suc k"
proof -
  obtain k where k: "length (dec n) = Suc k" by (cases "length (dec n)") auto
  have n: "10 ^ k \<le> n" "n + 1 \<le> 10 ^ Suc k" using dec_length [OF assms] k by auto
  have "(of_nat (10 ^ k) :: rat) \<le> of_nat n" "(of_nat (n + 1) :: rat) \<le> of_nat (10 ^ Suc k)"
    using n by (simp_all only: of_nat_le_iff)
  then show thesis using k by (intro that [of k]) simp_all
qed

lemma pow10_pos [simp]: "0 < pow10 e"
  by (simp add: pow10_def)

lemma floor_log10_big:
  assumes "1 \<le> v"
  shows "pow10 (floor_log10 v) \<le> v \<and> v < 10 * pow10 (floor_log10 v)"
proof -
  define n where "n = nat \<lfloor>v\<rfloor>"
  have "0 < n" and v: "of_nat n \<le> v" "v < of_nat n + 1" using assms unfolding n_def by (simp, linarith, linarith)
  then obtain k where k: "length (dec n) = Suc k" "(10 :: rat) ^ k \<le> of_nat n" "of_nat n + 1 \<le> (10 :: rat) ^ Suc k"
    using dec_places by blast
  have "floor_log10 v = int k" using assms k(1) by (simp add: floor_log10_def flip: n_def)
  then have "pow10 (floor_log10 v) = 10 ^ k" by (simp add: pow10_def)
  then show ?thesis using v k(2,3) unfolding power_Suc by linarith
qed

lemma floor_log10_small:
  assumes "0 < v" "v < 1"
  shows "pow10 (floor_log10 v) \<le> v \<and> v < 10 * pow10 (floor_log10 v)"
proof -
  define m where "m = nat (\<lceil>1 / v\<rceil> - 1)"
  have w: "1 < 1 / v" using assms by simp
  have m: "0 < m" and wm: "of_nat m < 1 / v" "1 / v \<le> of_nat m + 1" using w unfolding m_def by linarith+
  obtain k where k: "length (dec m) = Suc k" "(10 :: rat) ^ k \<le> of_nat m" "of_nat m + 1 \<le> (10 :: rat) ^ Suc k"
    using dec_places [OF m] by blast
  have lo: "(10 :: rat) ^ k < 1 / v" and hi: "1 / v \<le> 10 * (10 :: rat) ^ k" using wm k(2,3) unfolding power_Suc by linarith+
  have "floor_log10 v = - int (Suc k)" using assms k(1) by (simp add: floor_log10_def flip: m_def)
  then have e: "pow10 (floor_log10 v) = 1 / (10 * 10 ^ k)" by (simp add: pow10_def nat_add_distrib)
  have "1 \<le> v * (10 * 10 ^ k)" using hi assms(1) by (simp add: pos_divide_le_eq mult.commute)
  moreover have "v * 10 ^ k < 1" using lo assms(1) by (simp add: pos_less_divide_eq mult.commute)
  ultimately show ?thesis unfolding e by (simp add: pos_divide_le_eq pos_less_divide_eq)
qed

lemma floor_log10_bounds: "0 < v \<Longrightarrow> pow10 (floor_log10 v) \<le> v" "0 < v \<Longrightarrow> v < 10 * pow10 (floor_log10 v)"
  using floor_log10_big [of v] floor_log10_small [of v] by (cases "1 \<le> v"; simp)+

text \<open>The end of an axis is not below the largest value and at most two and a half times as large.\<close>

lemma niceMax_bounds:
  assumes "0 < v"
  shows "v \<le> niceMax v" "niceMax v \<le> 5 / 2 * v" "0 < niceMax v"
proof -
  let ?e = "pow10 (floor_log10 v)"
  have b: "?e \<le> v" "v < 10 * ?e" and e: "0 < ?e" using floor_log10_bounds [OF assms] by simp_all
  have n: "v / ?e \<le> k \<longleftrightarrow> v \<le> k * ?e" for k using e by (simp add: pos_divide_le_eq)
  have "v \<le> niceMax v \<and> niceMax v \<le> 5 / 2 * v \<and> 0 < niceMax v"
    using b e assms unfolding niceMax_def Let_def n by (auto split: if_splits)
  then show "v \<le> niceMax v" "niceMax v \<le> 5 / 2 * v" "0 < niceMax v" by auto
qed

lemma floor_step:
  assumes "0 < s" "s \<le> (m :: rat)"
  shows "of_int \<lfloor>m / s\<rfloor> * s \<le> m" "m / 2 < of_int \<lfloor>m / s\<rfloor> * s"
proof -
  define q where "q = (of_int \<lfloor>m / s\<rfloor> :: rat)"
  have "1 \<le> m / s" using assms by (simp add: pos_le_divide_eq)
  then have f: "q \<le> m / s" "m / s < q + 1" "1 \<le> q" unfolding q_def by (linarith, linarith, simp add: le_floor_iff)
  have "q * s \<le> m" using f(1) assms(1) by (simp add: pos_le_divide_eq)
  moreover have "m < q * s + s" using f(2) assms(1) by (simp add: pos_divide_less_eq algebra_simps)
  moreover have "s \<le> q * s" using mult_right_mono [OF f(3), of s] assms(1) by simp
  ultimately show "of_int \<lfloor>m / s\<rfloor> * s \<le> m" "m / 2 < of_int \<lfloor>m / s\<rfloor> * s" unfolding q_def by linarith+
qed

lemma tightFloor_pos:
  assumes "0 < m"
  shows "tightFloor m \<le> m \<and> m / 2 < tightFloor m"
proof -
  define s where "s = (if 100 \<le> pow10 (floor_log10 m) then pow10 (floor_log10 m) / 2 else pow10 (floor_log10 m))"
  have s: "0 < s" "s \<le> m" using floor_log10_bounds [OF assms] pow10_pos [of "floor_log10 m"] by (auto simp: s_def)
  have "tightFloor m = of_int \<lfloor>m / s\<rfloor> * s" using assms by (simp add: tightFloor_def Let_def s_def)
  then show ?thesis using floor_step [OF s] by simp
qed

lemma tightFloor_bounds: "0 \<le> tightFloor m" "0 \<le> m \<Longrightarrow> tightFloor m \<le> m"
  using tightFloor_pos [of m] by (cases "0 < m"; simp add: tightFloor_def)+

section \<open>Axes\<close>

text \<open>
  What the charts need of a scale: the values from \<open>lo\<close> to \<open>hi\<close> are drawn, in order, from the bottom of the
  plot to its upper edge. Every scale of the charts is an instance.
\<close>

locale axis =
  fixes y :: "rat \<Rightarrow> rat" and lo hi edge height :: rat
  assumes lo_hi: "lo < hi" and height: "0 < height"
    and scale: "lo \<le> v \<Longrightarrow> v \<le> hi \<Longrightarrow> y v = edge + height - ((v - lo) / (hi - lo)) * height"
begin

lemma y_lo: "y lo = edge + height"
  using scale [of lo] lo_hi by simp

lemma y_hi: "y hi = edge"
  using scale [of hi] lo_hi by simp

lemma y_mono: "lo \<le> v \<Longrightarrow> v \<le> w \<Longrightarrow> w \<le> hi \<Longrightarrow> y w \<le> y v"
  using scale [of v] scale [of w] lo_hi height
  by (simp add: divide_right_mono mult_right_mono)

lemma in_plot: "lo \<le> v \<Longrightarrow> v \<le> hi \<Longrightarrow> edge \<le> y v \<and> y v \<le> edge + height"
  using y_mono [of v hi] y_mono [of lo v] y_lo y_hi by auto

lemma y_inj: "lo \<le> v \<Longrightarrow> v \<le> hi \<Longrightarrow> lo \<le> w \<Longrightarrow> w \<le> hi \<Longrightarrow> y v = y w \<longleftrightarrow> v = w"
  using scale [of v] scale [of w] lo_hi height by simp

end

lemma inner_pos: "0 < inner d a b"
  by (simp add: inner_def)

lemma downMax_pos: "1 \<le> downMax plan points" "1 \<le> upMax plan points"
  using max_of_ge(1) [of "max plan 1" "map spk_down points"] max_of_ge(1) [of "max plan 1" "map spk_up points"]
  by (auto simp: downMax_def upMax_def)

lemma bar_range: "barLo points < barHi points"
  using max_of_ge(1) [of "barLo points + 1"]
  by (cases "bar_vals points") (auto simp: barHi_def barLo_def less_eq_rat_def add_pos_pos intro: less_le_trans [of _ "barLo points + 1"])

lemma typical_lo_hi: "fst (typicalRange vs) < snd (typicalRange vs)"
  by (cases vs) (auto simp: typicalRange_def Let_def less_max_iff_disj)

lemma byteMax_pos: "0 < byteMax points" "0 < barMax points"
proof -
  have "0 < max_of 1 xs" for xs using max_of_ge(1) [of 1 xs] by simp
  then show "0 < byteMax points" "0 < barMax points"
    unfolding byteMax_def barMax_def by (auto intro: niceMax_bounds(3))
qed

interpretation ax_down: axis "yDown h plan points" 0 "downMax plan points" 10 "inner h 10 16" for h plan points
  using downMax_pos(1) [of plan points] inner_pos
  by unfold_locales (auto simp: yDown_def y_clamped_def max_def min_def)

interpretation ax_up: axis "yUp h plan points" 0 "upMax plan points" 10 "inner h 10 16" for h plan points
  using downMax_pos(2) [of plan points] inner_pos
  by unfold_locales (auto simp: yUp_def y_clamped_def max_def min_def)

interpretation ax_bar: axis "yBar h points" "barLo points" "barHi points" 10 "inner h 10 16" for h points
  using bar_range [of points] inner_pos by unfold_locales (auto simp: yBar_def y_floor_def max_def)

interpretation ax_dns: axis "yDns h counts" "fst (typicalRange counts)" "snd (typicalRange counts)" 8 "inner h 8 18" for h counts
  using typical_lo_hi [of counts] inner_pos by unfold_locales (auto simp: yDns_def y_floor_def max_def)

interpretation ax_bytes: axis "yB h points" 0 "byteMax points" 8 "inner h 8 22" for h points
  using byteMax_pos [of points] inner_pos by unfold_locales (auto simp: yB_def y_scaled_def)

interpretation ax_conn: axis "yTraffic h points" 0 "barMax points" 8 "inner h 8 22" for h points
  using byteMax_pos [of points] inner_pos by unfold_locales (auto simp: yTraffic_def y_scaled_def)

section \<open>Points stay in the plot\<close>

lemma x_in_plot:
  assumes "i < n" "0 < w"
  shows "padL \<le> x_of padL (w / of_nat n) i" "x_of padL (w / of_nat n) i \<le> padL + w"
proof -
  have n: "(0 :: rat) < of_nat n" and i: "(of_nat i :: rat) + 1 / 2 \<le> of_nat n"
    using assms(1) by (auto simp flip: of_nat_Suc)
  have "(of_nat i + 1 / 2) * (w / of_nat n) \<le> of_nat n * (w / of_nat n)"
    using i n assms(2) by (intro mult_right_mono) auto
  then show "padL \<le> x_of padL (w / of_nat n) i" "x_of padL (w / of_nat n) i \<le> padL + w"
    using n assms(2) by (auto simp: x_of_def)
qed

lemma byteMax_covers: "p \<in> set points \<Longrightarrow> of_int (bp_upload p) \<le> byteMax points \<and> of_int (bp_download p) \<le> byteMax points"
proof -
  let ?vs = "concat (map (\<lambda>p. [of_int (bp_upload p), of_int (bp_download p)]) points)"
  assume "p \<in> set points"
  then have "of_int (bp_upload p) \<in> set ?vs" "of_int (bp_download p) \<in> set ?vs" by force+
  moreover have "max_of 1 ?vs \<le> byteMax points"
    unfolding byteMax_def using max_of_ge(1) [of 1 ?vs] by (intro niceMax_bounds(1)) simp
  ultimately show ?thesis using max_of_ge(2) [of _ ?vs 1] order_trans by blast
qed

lemma traffic_line_in_plot:
  assumes "q \<in> set (traffic_line value w h points)"
    and "\<And>p. p \<in> set points \<Longrightarrow> 0 \<le> value p \<and> of_int (value p) \<le> byteMax points"
  shows "52 \<le> fst q \<and> fst q \<le> 52 + traffic_inner_w w points \<and> 8 \<le> snd q \<and> snd q \<le> 8 + inner h 8 22"
proof -
  obtain i where i: "i < length points" "q = (x_of 52 (traffic_inner_w w points / of_nat (length points)) i,
      yB h points (of_int (value (points ! i))))"
    using assms(1) by (auto simp: traffic_line_def set_zip)
  have "0 \<le> value (points ! i)" "of_int (value (points ! i)) \<le> byteMax points"
    using assms(2) [of "points ! i"] i(1) by auto
  then have "8 \<le> snd q" "snd q \<le> 8 + inner h 8 22"
    using ax_bytes.in_plot [of "of_int (value (points ! i))" points h] i(2) by simp_all
  moreover have "0 < traffic_inner_w w points" by (simp add: traffic_inner_w_def inner_pos)
  ultimately show ?thesis using x_in_plot [OF i(1)] i(2) by simp
qed



section \<open>The point under the mouse\<close>

lemma hover_point_bound: "hover_point hover n = Some i \<Longrightarrow> i < n"
  by (auto simp: hover_point_def split: option.splits if_splits)

text \<open>The mouse anywhere over the column of a point finds the point; outside of the plot it finds the first or the last.\<close>

lemma hover_finds_column:
  assumes "2 \<le> n" "i < n" "0 < step" "padL + of_nat i * step \<le> px" "px < padL + (of_nat i + 1) * step"
  shows "hover_point (Some (hover_index padL step px)) n = Some i"
proof -
  have "of_nat i \<le> (px - padL) / step" "(px - padL) / step < of_nat i + 1"
    using assms(3-5) by (simp_all add: pos_le_divide_eq pos_divide_less_eq algebra_simps)
  then have "hover_index padL step px = int i" unfolding hover_index_def by linarith
  then show ?thesis using assms(1,2) by (simp add: hover_point_def)
qed

lemma hover_finds_point: "2 \<le> n \<Longrightarrow> i < n \<Longrightarrow> 0 < step \<Longrightarrow> hover_point (Some (hover_index padL step (x_of padL step i))) n = Some i"
  by (rule hover_finds_column) (simp_all add: x_of_def algebra_simps)

section \<open>The trend of a series\<close>

lemma sum_rat_sum: "sum_rat xs = (\<Sum>i = 0..<length xs. xs ! i)"
proof -
  have "foldl (+) a xs = a + sum_list xs" for a by (induction xs arbitrary: a) (simp_all add: add.assoc)
  then show ?thesis by (simp add: sum_rat_def sum_list_sum_nth)
qed

lemma sum_indices: "sum_rat (map of_nat [0..<n]) = of_nat n * (of_nat n - 1) / 2"
proof -
  have "(\<Sum>i = 0..<n. of_nat i :: rat) = of_nat n * (of_nat n - 1) / 2"
    by (induction n) (simp_all add: field_simps)
  then show ?thesis by (simp add: sum_rat_sum)
qed

definition sum_sq :: "nat \<Rightarrow> rat" where
  "sum_sq n = (\<Sum>i = 0..<n. of_nat i * of_nat i)"

lemma sum_sq: "sum_sq n = of_nat n * (of_nat n - 1) * (2 * of_nat n - 1) / 6"
  unfolding sum_sq_def by (induction n) (simp_all add: field_simps)

definition denom :: "nat \<Rightarrow> rat" where
  "denom n = of_nat n * sum_sq n - (of_nat n * (of_nat n - 1) / 2) * (of_nat n * (of_nat n - 1) / 2)"

lemma denom_pos: "2 \<le> n \<Longrightarrow> 0 < denom n"
proof -
  assume "2 \<le> n"
  then have n: "(2 :: rat) \<le> of_nat n" by (metis of_nat_le_iff of_nat_numeral)
  have "denom n = of_nat n * of_nat n * ((of_nat n - 1) * (of_nat n + 1)) / 12"
    by (simp add: denom_def sum_sq field_simps)
  moreover have "0 < of_nat n * of_nat n * ((of_nat n - 1) * (of_nat n + 1 :: rat)) / 12"
    using n by (intro divide_pos_pos mult_pos_pos) simp_all
  ultimately show ?thesis by (simp only:)
qed

text \<open>The slope of a series over its indices.\<close>

definition moment :: "rat list \<Rightarrow> rat" where
  "moment values = (\<Sum>i = 0..<length values. of_nat i * values ! i)"

lemma slope_of_eq:
  assumes "2 \<le> length values"
  shows "slope_of values = (of_nat (length values) * moment values -
    (of_nat (length values) * (of_nat (length values) - 1) / 2) * sum_rat values) / denom (length values)"
proof -
  let ?n = "length values" and ?is = "map of_nat [0..<length values] :: rat list"
  have xy: "sum_rat (map2 (*) ?is values) = moment values"
    unfolding sum_rat_sum moment_def by (intro sum.cong) auto
  have xx: "sum_rat (map2 (*) ?is ?is) = sum_sq ?n"
    unfolding sum_rat_sum sum_sq_def by (intro sum.cong) auto
  have d: "of_nat ?n * sum_rat (map2 (*) ?is ?is) - sum_rat ?is * sum_rat ?is = denom ?n"
    unfolding xx sum_indices denom_def by simp
  then show ?thesis
    using denom_pos [OF assms] unfolding slope_of_def Let_def xy sum_indices by (simp add: xx denom_def)
qed

lemma seriesStats_many:
  assumes "2 \<le> length values"
  shows "seriesStats values = (let n = of_nat (length values); avg = sum_rat values / n; slope = slope_of values;
      intercept = avg - slope * (n - 1) / 2; delta = slope * (n - 1)
    in \<lparr>st_avg = avg, st_y0 = intercept, st_y1 = intercept + delta,
        st_trend = (if \<bar>delta\<bar> < max (avg * (5 / 100)) (1 / 2) then Level else if 0 < delta then Rising else Falling)\<rparr>)"
proof -
  have n: "length values \<noteq> 0" "length values \<noteq> 1" "(of_nat (length values) :: rat) \<noteq> 0" using assms by auto
  have "(sum_rat values - slope_of values * (of_nat (length values) * (of_nat (length values) - 1) / 2)) / of_nat (length values) =
      sum_rat values / of_nat (length values) - slope_of values * (of_nat (length values) - 1) / 2"
    using n(3) by (simp add: field_simps)
  then show ?thesis using n unfolding seriesStats_def Let_def sum_indices by simp
qed

text \<open>A series on a line gives the line.\<close>

lemma sum_of_indices: "(\<Sum>i = 0..<n. of_nat i :: rat) = of_nat n * (of_nat n - 1) / 2"
  using sum_indices [of n] by (simp add: sum_rat_sum)

lemma sum_of_line: "sum_rat (map (\<lambda>i. a + b * of_nat i) [0..<n]) = a * of_nat n + b * (of_nat n * (of_nat n - 1) / 2)"
  unfolding sum_of_indices [symmetric] sum_distrib_left sum_rat_sum by (simp add: sum.distrib)

lemma slope_of_line:
  assumes "2 \<le> n"
  shows "slope_of (map (\<lambda>i. a + b * of_nat i) [0..<n]) = b"
proof -
  let ?vs = "map (\<lambda>i. a + b * of_nat i) [0..<n]"
  have "moment ?vs = a * (of_nat n * (of_nat n - 1) / 2) + b * sum_sq n"
    unfolding sum_of_indices [symmetric] sum_sq_def sum_distrib_left moment_def
    by (simp add: sum.distrib [symmetric] algebra_simps)
  then have "of_nat n * moment ?vs - (of_nat n * (of_nat n - 1) / 2) * sum_rat ?vs = b * denom n"
    by (simp add: sum_of_line denom_def algebra_simps)
  then show ?thesis using slope_of_eq [of ?vs] denom_pos [OF assms] assms by simp
qed

text \<open>Read backwards, a series has the opposite slope.\<close>

lemma moment_rev: "moment (rev values) = (of_nat (length values) - 1) * sum_rat values - moment values"
proof -
  let ?n = "length values"
  have "moment (rev values) = (\<Sum>i = 0..<?n. of_nat (?n - Suc i) * values ! i)"
    unfolding moment_def
    by (rule sum.reindex_bij_witness [where i = "\<lambda>i. ?n - Suc i" and j = "\<lambda>i. ?n - Suc i"]) (auto simp: rev_nth)
  also have "\<dots> = (\<Sum>i = 0..<?n. (of_nat ?n - 1) * values ! i - of_nat i * values ! i)"
    by (intro sum.cong) (auto simp: of_nat_diff algebra_simps)
  finally show ?thesis by (simp add: sum_subtractf moment_def sum_rat_sum flip: sum_distrib_left)
qed

lemma sum_rat_rev: "sum_rat (rev values) = sum_rat values"
proof -
  have "sum_rat xs = sum_list xs" for xs by (simp add: sum_rat_sum sum_list_sum_nth)
  then show ?thesis by simp
qed

lemma slope_of_rev:
  assumes "2 \<le> length values"
  shows "slope_of (rev values) = - slope_of values"
proof -
  define n where "n = (of_nat (length values) :: rat)"
  define m where "m = moment values"
  define s where "s = sum_rat values"
  have "n * ((n - 1) * s - m) - n * (n - 1) / 2 * s = - (n * m - n * (n - 1) / 2 * s)"
    by (simp add: field_simps)
  moreover have "slope_of values = (n * m - n * (n - 1) / 2 * s) / denom (length values)"
    unfolding n_def m_def s_def by (rule slope_of_eq [OF assms])
  moreover have "slope_of (rev values) = (n * ((n - 1) * s - m) - n * (n - 1) / 2 * s) / denom (length values)"
    using slope_of_eq [of "rev values"] assms by (simp only: n_def m_def s_def moment_rev sum_rat_rev length_rev)
  ultimately show ?thesis by (simp only: minus_divide_left)
qed

fun opposite :: "Trend \<Rightarrow> Trend" where
  "opposite Rising = Falling"
| "opposite Level = Level"
| "opposite Falling = Rising"

text \<open>the trend of a series is that of its line of regression: a series that lies on a line gives the line itself, at
  its first and its last point; the two ends of the line have the mean of the series as their mean; and the
  series in the opposite order has the opposite trend.\<close>

theorem seriesStats_trend:
  "seriesStats (map (\<lambda>i. a + b * of_nat i) [0..<n + 2]) =
     \<lparr>st_avg = a + b * (of_nat n + 1) / 2, st_y0 = a, st_y1 = a + b * (of_nat n + 1),
      st_trend = st_trend (seriesStats (map (\<lambda>i. a + b * of_nat i) [0..<n + 2]))\<rparr> \<and>
   (st_y0 (seriesStats vs) + st_y1 (seriesStats vs)) / 2 = st_avg (seriesStats vs) \<and>
   st_trend (seriesStats (rev vs)) = opposite (st_trend (seriesStats vs))"
proof (intro conjI)
  let ?vs = "map (\<lambda>i. a + b * of_nat i) [0..<n + 2]"
  have "sum_rat ?vs / of_nat (n + 2) = a + b * (of_nat n + 1) / 2"
    unfolding sum_of_line by (simp add: field_simps)
  then show "seriesStats ?vs = \<lparr>st_avg = a + b * (of_nat n + 1) / 2, st_y0 = a, st_y1 = a + b * (of_nat n + 1),
      st_trend = st_trend (seriesStats ?vs)\<rparr>"
    using slope_of_line [of "n + 2" a b] by (simp add: seriesStats_many Let_def) (simp add: field_simps)
next
  consider "length vs = 0" | "length vs = 1" | "2 \<le> length vs" by linarith
  then show "(st_y0 (seriesStats vs) + st_y1 (seriesStats vs)) / 2 = st_avg (seriesStats vs)"
  proof cases
    case 2
    then obtain v where "vs = [v]" by (auto simp: length_Suc_conv)
    then show ?thesis by (simp add: seriesStats_def sum_rat_def)
  qed (simp_all add: seriesStats_def [of "[]"] seriesStats_many Let_def)
  consider "length vs = 0" | "length vs = 1" | "2 \<le> length vs" by linarith
  then show "st_trend (seriesStats (rev vs)) = opposite (st_trend (seriesStats vs))"
  proof cases
    case 2
    then obtain v where "vs = [v]" by (auto simp: length_Suc_conv)
    then show ?thesis by (simp add: seriesStats_def)
  next
    case 3
    then show ?thesis by (auto simp: seriesStats_many slope_of_rev sum_rat_rev Let_def)
  qed (simp add: seriesStats_def)
qed

section \<open>The labels of the dates\<close>

lemma js_round_step: "x + 1 \<le> y \<Longrightarrow> js_round x < js_round y"
  unfolding js_round_def by linarith

definition label_at :: "nat \<Rightarrow> nat \<Rightarrow> nat \<Rightarrow> int" where
  "label_at n cnt k = js_round (of_nat (k * (n - 1)) / of_nat (cnt - 1))"

lemma label_step:
  assumes "2 \<le> cnt" "cnt \<le> n"
  shows "label_at n cnt k < label_at n cnt (Suc k)"
proof -
  have "1 \<le> (of_nat (n - 1) :: rat) / of_nat (cnt - 1)" using assms by simp
  then have "of_nat (k * (n - 1)) / of_nat (cnt - 1) + 1 \<le> (of_nat (Suc k * (n - 1)) :: rat) / of_nat (cnt - 1)"
    by (simp add: add_divide_distrib)
  then show ?thesis unfolding label_at_def by (rule js_round_step)
qed

lemma label_mono: "2 \<le> cnt \<Longrightarrow> cnt \<le> n \<Longrightarrow> j < k \<Longrightarrow> label_at n cnt j < label_at n cnt k"
  by (rule lift_Suc_mono_less [of "label_at n cnt"]) (auto intro: label_step)

lemma js_round_of_int: "js_round (of_int n) = n"
  unfolding js_round_def by linarith

lemma label_first: "label_at n cnt 0 = 0"
  using js_round_of_int [of 0] by (simp add: label_at_def)

lemma label_last:
  assumes "2 \<le> cnt" "1 \<le> n"
  shows "label_at n cnt (cnt - 1) = int n - 1"
proof -
  have "(of_nat ((cnt - 1) * (n - 1)) :: rat) / of_nat (cnt - 1) = of_int (int n - 1)"
    using assms by (simp add: of_nat_diff)
  then show ?thesis by (simp only: label_at_def js_round_of_int)
qed

text \<open>The labels: from the first point to the last, in order, as many as wanted when there are enough points.\<close>

lemma sparse_labels:
  assumes "2 \<le> n" "2 \<le> want"
  shows "\<exists>is. sparseIndices n want = map (\<lambda>i. Num (of_nat i)) is \<and> length is = min want n \<and>
    hd is = 0 \<and> last is = n - 1 \<and> sorted_wrt (<) is"
proof -
  define cnt where "cnt = min want n"
  have c: "2 \<le> cnt" "cnt \<le> n" using assms by (auto simp: cnt_def)
  define ls where "ls = map (\<lambda>k. nat (label_at n cnt k)) [0..<cnt]"
  have pos: "0 \<le> label_at n cnt k" for k
    using label_mono [OF c, of 0 k] by (cases k) (simp_all add: label_first)
  have sorted: "sorted_wrt (<) ls"
    using pos label_mono [OF c] by (auto simp: ls_def sorted_wrt_iff_nth_less intro: le_less_trans)
  have ends: "hd ls = 0" "last ls = n - 1" "length ls = min want n"
    using c label_first [of n cnt] label_last [of cnt n]
    by (auto simp: ls_def hd_map last_map cnt_def)
  show ?thesis
  proof (cases "cnt = 2")
    case True
    have "sparseIndices n want = map (\<lambda>i. Num (of_nat i)) [0, n - 1]"
      using assms True by (simp add: sparseIndices_def flip: cnt_def)
    moreover have "min want n = 2" using True by (simp add: cnt_def)
    ultimately show ?thesis using assms by (intro exI [of _ "[0, n - 1]"]) simp
  next
    case False
    have eq: "map (sparse_index n cnt) [0..<cnt] = map (\<lambda>i. Num (of_nat i)) ls"
      using c pos by (simp add: ls_def sparse_index_def label_at_def)
    have "distinct (map (\<lambda>i. Num (of_nat i)) ls)"
      using sorted strict_sorted_iff [of ls] by (simp add: distinct_map inj_on_def)
    then have "rev (remdups (rev (map (\<lambda>i. Num (of_nat i)) ls))) = map (\<lambda>i. Num (of_nat i)) ls"
      by (simp add: distinct_remdups_id)
    then have "sparseIndices n want = map (\<lambda>i. Num (of_nat i)) ls"
      using assms False by (simp add: sparseIndices_def eq flip: cnt_def)
    then show ?thesis using sorted ends by blast
  qed
qed

text \<open>With one label wanted there is none: the code divides by zero.\<close>

lemma sparse_one: "2 \<le> n \<Longrightarrow> sparseIndices n 1 = [NaN]"
  by (simp add: sparseIndices_def sparse_index_def)

section \<open>The range of the lookups\<close>

text \<open>Every figure is drawn inside the plot of the lookups; those below the range lie on its lower edge.\<close>

lemma typicalRange_covers: "v \<in> set vs \<Longrightarrow> v \<le> snd (typicalRange vs)"
  using max_of_ge [of "hd vs" "tl vs"] max_of_ge(2) [of v "tl vs" "hd vs"]
  by (cases vs) (auto simp: typicalRange_def Let_def le_max_iff_disj)

lemma dns_in_plot:
  assumes "v \<in> set counts"
  shows "8 \<le> yDns h counts v \<and> yDns h counts v \<le> 8 + inner h 8 18"
proof (cases "fst (typicalRange counts) \<le> v")
  case True
  then show ?thesis using ax_dns.in_plot typicalRange_covers [OF assms] by blast
next
  case False
  then have "yDns h counts v = yDns h counts (fst (typicalRange counts))"
    by (simp add: yDns_def y_floor_def max_def)
  then show ?thesis using ax_dns.y_lo [of h counts] inner_pos [of h 8 18] by simp
qed

text \<open>Labels of different ticks may be the same: on an axis up to two kilobytes the last two read alike.\<close>

lemma axis_labels_repeat: "axisBytes (2000 * (8 / 10)) = axisBytes 2000"
  by code_simp

end
