(* ===== verification/Speedtest.thy ===== *)
theory Speedtest
  imports Format
begin

text \<open>
  The speed test of the panel \<open>SpeedtestDetail\<close> and the figures of the overview (\<open>ui/src/tabs/MetricsTab.tsx\<close>). A request
  ends with an answer or with the message of an error; an answer has a status and a body that may fail
  to parse. The clock and the answers to the polls are functions of the number of the poll, so that the loop
  that waits for the result is a partial function: that it ends is a theorem, under what \<open>setTimeout\<close> promises.
  The rendering of the dialog, its animation and the focus are not modelled.
\<close>

type_synonym 'b fetch = "string + nat \<times> (string + 'b)"

definition ok_status :: "nat \<Rightarrow> bool" where
  "ok_status n \<longleftrightarrow> 200 \<le> n \<and> n < 300"

section \<open>Which lines belong to a provider\<close>

fun dnsSvcLabel :: "string \<Rightarrow> string" where
  "dnsSvcLabel name =
     (if name = ''unbound'' then ''Unbound''
      else if name = ''dnsmasq'' then ''Dnsmasq''
      else if name = ''firerouter'' then ''Firerouter''
      else name)"

text \<open>The pattern ends in \<open>\<backslash>d*\<close> without an anchor, so it asks only for the prefix.\<close>

definition iface_prefixes :: "string list" where
  "iface_prefixes = [''eth'', ''enp'', ''ens'', ''enx'', ''wlan'', ''wlp'', ''br'', ''bond'', ''vlan'', ''wg'', ''tun'']"

definition isISPLabel :: "string \<Rightarrow> bool" where
  "isISPLabel name =
     (let n = toLowerCase (trim name) in
      if n = [] \<or> str_includes n ''vpn'' then False
      else \<not> (\<exists>p \<in> set iface_prefixes. startsWith n p))"

definition monthly_wans :: "Dashboard option \<Rightarrow> WANUsage list" where
  "monthly_wans dashboard =
     filter (\<lambda>w. isISPLabel (wu_name w)) (case dashboard of None \<Rightarrow> [] | Some d \<Rightarrow> opt_list (da_monthly_wans d))"

definition monthMax :: "WANUsage list \<Rightarrow> int" where
  "monthMax monthly = foldr max (map (\<lambda>w. wu_upload w + wu_download w) monthly) 1"

definition month_width :: "WANUsage list \<Rightarrow> WANUsage \<Rightarrow> rat" where
  "month_width monthly w =
     (let used = wu_upload w + wu_download w
      in max (of_int used / of_int (monthMax monthly) * 100) (if 0 < used then 2 else 0))"

section \<open>The result of a test\<close>

record SpeedResult =
  sr_down :: "rat option"
  sr_up :: "rat option"
  sr_ping :: "rat option"
  sr_ts :: "int option"
  sr_server_id :: "string option"
  sr_server :: "string option"
  sr_location :: "string option"

record SpeedServer =
  ss_id :: string
  ss_name :: string
  ss_sponsor :: string

definition or_zero :: "rat option \<Rightarrow> rat" where
  "or_zero x = (case x of Some v \<Rightarrow> v | None \<Rightarrow> 0)"

text \<open>A time may be in seconds or in milliseconds; a missing time, or zero, is the present.\<close>

definition result_ts :: "SpeedResult \<Rightarrow> int \<Rightarrow> ts" where
  "result_ts r now_ms =
     (let raw = (case sr_ts r of Some t \<Rightarrow> if t \<noteq> 0 then t else now_ms div 1000 | None \<Rightarrow> now_ms div 1000)
      in if 10 ^ 12 < raw then raw div 1000 else raw)"

definition text_or_none :: "string option \<Rightarrow> string option" where
  "text_or_none x = (if truthy x then x else None)"

definition result_point :: "SpeedResult \<Rightarrow> int \<Rightarrow> SpeedtestPoint" where
  "result_point r now_ms =
     \<lparr>stp_ts = result_ts r now_ms, stp_down = or_zero (sr_down r), stp_up = or_zero (sr_up r),
      stp_ping = (case sr_ping r of Some p \<Rightarrow> if p \<noteq> 0 then Some p else None | None \<Rightarrow> None),
      stp_server_id = text_or_none (sr_server_id r), stp_server = text_or_none (sr_server r),
      stp_location = text_or_none (sr_location r)\<rparr>"

definition or_old :: "'a option \<Rightarrow> 'a option \<Rightarrow> 'a option" where
  "or_old new old = (case new of Some _ \<Rightarrow> new | None \<Rightarrow> old)"

definition add_point :: "SpeedtestPoint \<Rightarrow> SpeedtestPoint list \<Rightarrow> SpeedtestPoint list" where
  "add_point p pts = (if \<exists>q \<in> set pts. stp_ts q = stp_ts p then pts else pts @ [p])"

definition patch_wan :: "SpeedResult \<Rightarrow> int \<Rightarrow> SpeedtestWAN \<Rightarrow> SpeedtestWAN" where
  "patch_wan r now_ms w =
     w\<lparr>stw_down := Some (or_zero (sr_down r)), stw_up := Some (or_zero (sr_up r)), stw_ping := sr_ping r,
       stw_server_id := or_old (sr_server_id r) (stw_server_id w),
       stw_server := or_old (sr_server r) (stw_server w),
       stw_location := or_old (sr_location r) (stw_location w),
       stw_points := Some (add_point (result_point r now_ms) (opt_list (stw_points w)))\<rparr>"

definition new_wan :: "string \<Rightarrow> SpeedResult \<Rightarrow> int \<Rightarrow> SpeedtestWAN" where
  "new_wan wanUUID r now_ms =
     \<lparr>stw_uuid = wanUUID, stw_name = wanUUID, stw_active = None, stw_plan_down = None, stw_plan_up = None,
      stw_down = Some (or_zero (sr_down r)), stw_up = Some (or_zero (sr_up r)), stw_ping = sr_ping r,
      stw_jitter = None, stw_server_id = sr_server_id r, stw_server = sr_server r,
      stw_location = sr_location r, stw_points = Some [result_point r now_ms]\<rparr>"

definition patch_speedtest :: "string \<Rightarrow> SpeedResult \<Rightarrow> int \<Rightarrow> SpeedtestWAN list \<Rightarrow> SpeedtestWAN list" where
  "patch_speedtest wanUUID r now_ms base =
     map (\<lambda>w. if stw_uuid w \<noteq> wanUUID then w else patch_wan r now_ms w) base @
     (if \<exists>w \<in> set base. stw_uuid w = wanUUID then [] else [new_wan wanUUID r now_ms])"

text \<open>The dashboard is the one that the panel had when the test was started.\<close>

definition applyOptimistic ::
  "Dashboard \<Rightarrow> SpeedtestWAN list \<Rightarrow> string \<Rightarrow> SpeedResult \<Rightarrow> int \<Rightarrow> Dashboard" where
  "applyOptimistic dashboard wans wanUUID r now_ms =
     (let base = (if opt_list (da_speedtest dashboard) \<noteq> [] then opt_list (da_speedtest dashboard) else wans)
      in dashboard\<lparr>da_speedtest := Some (patch_speedtest wanUUID r now_ms base)\<rparr>)"

section \<open>Waiting for the result\<close>

record JobBody =
  jb_state :: "string option"
  jb_error :: "string option"
  jb_result :: "SpeedResult option"

record StartBody =
  sb_error :: "string option"
  sb_job_id :: "string option"

definition msg_or :: "string option \<Rightarrow> string \<Rightarrow> string" where
  "msg_or x d = (if truthy x then opt_str x else d)"

text \<open>One poll: an error, the end with what the job has as its result, or another round.\<close>

definition poll_step :: "JobBody fetch \<Rightarrow> string + SpeedResult option option" where
  "poll_step jr =
     (case jr of
        Inl e \<Rightarrow> Inl e
      | Inr (status, body) \<Rightarrow>
          if \<not> ok_status status then Inl (''job '' @ dec status)
          else case body of
            Inl e \<Rightarrow> Inl e
          | Inr jb \<Rightarrow>
              if jb_state jb = Some ''error'' then Inl (msg_or (jb_error jb) ''speedtest failed'')
              else if jb_state jb = Some ''done'' then Inr (Some (jb_result jb))
              else Inr None)"

partial_function (option) poll_loop ::
  "(nat \<Rightarrow> int) \<Rightarrow> (nat \<Rightarrow> JobBody fetch) \<Rightarrow> int \<Rightarrow> nat \<Rightarrow> (string + SpeedResult option) option" where
  "poll_loop clock reply deadline k =
     (if \<not> clock k < deadline then Some (Inr None)
      else case poll_step (reply k) of
        Inl e \<Rightarrow> Some (Inl e)
      | Inr (Some r) \<Rightarrow> Some (Inr r)
      | Inr None \<Rightarrow> poll_loop clock reply deadline (Suc k))"

definition RUN_MS :: int where
  "RUN_MS = 180000"

definition POLL_MS :: int where
  "POLL_MS = 1500"

definition job_started :: "StartBody fetch \<Rightarrow> string + string" where
  "job_started r =
     (case r of
        Inl e \<Rightarrow> Inl e
      | Inr (status, body) \<Rightarrow>
          (case body of
             Inl e \<Rightarrow> Inl e
           | Inr sb \<Rightarrow>
               if \<not> ok_status status then Inl (msg_or (sb_error sb) (''speedtest '' @ dec status))
               else if \<not> truthy (sb_job_id sb) then Inl ''no job id''
               else Inr (opt_str (sb_job_id sb))))"

definition fill_result :: "string \<Rightarrow> SpeedServer list \<Rightarrow> SpeedResult \<Rightarrow> SpeedResult" where
  "fill_result sid servers r =
     (let picked = (if sid = [] then None else find (\<lambda>s. ss_id s = sid) servers) in
      r\<lparr>sr_server_id := (if \<not> truthy (sr_server_id r) \<and> sid \<noteq> [] then Some sid else sr_server_id r),
        sr_server := (case picked of Some s \<Rightarrow> if \<not> truthy (sr_server r) then Some (ss_sponsor s) else sr_server r
                      | None \<Rightarrow> sr_server r),
        sr_location := (case picked of Some s \<Rightarrow> if \<not> truthy (sr_location r) then Some (ss_name s) else sr_location r
                        | None \<Rightarrow> sr_location r)\<rparr>)"

definition UP_ARROW :: string where
  "UP_ARROW = [CHR 0xE2, CHR 0x86, CHR 0x91]"

definition DOWN_ARROW :: string where
  "DOWN_ARROW = [CHR 0xE2, CHR 0x86, CHR 0x93]"

definition MID_DOT :: string where
  "MID_DOT = [CHR '' '', CHR 0xC2, CHR 0xB7, CHR '' '']"

definition result_toast :: "SpeedResult \<Rightarrow> string" where
  "result_toast r =
     (let bits = [DOWN_ARROW @ '' '' @ fmtMbps (Some (Num (or_zero (sr_down r)))),
                  UP_ARROW @ '' '' @ fmtMbps (Some (Num (or_zero (sr_up r))))] @
            (case sr_ping r of Some p \<Rightarrow> if p \<noteq> 0 then [dec_int (js_round p) @ '' ms''] else [] | None \<Rightarrow> []);
          label = join MID_DOT (map opt_str (filter truthy [sr_server r, sr_location r]))
      in join MID_DOT (bits @ (if label = [] then [] else [label])))"

text \<open>A run: the request, the polls, and the result with what was chosen filled in, or the message of the error.\<close>

definition run_test ::
  "string \<Rightarrow> SpeedServer list \<Rightarrow> StartBody fetch \<Rightarrow> int \<Rightarrow> (nat \<Rightarrow> int) \<Rightarrow> (nat \<Rightarrow> JobBody fetch) \<Rightarrow> (string + SpeedResult) option" where
  "run_test sid servers post now clock reply =
     (case job_started post of
        Inl e \<Rightarrow> Some (Inl e)
      | Inr _ \<Rightarrow>
          (case poll_loop clock reply (now + RUN_MS) 0 of
             None \<Rightarrow> None
           | Some (Inl e) \<Rightarrow> Some (Inl e)
           | Some (Inr None) \<Rightarrow> Some (Inl ''speedtest timed out'')
           | Some (Inr (Some r)) \<Rightarrow> Some (Inr (fill_result sid servers r))))"

text \<open>The dashboard that the server has afterwards is taken when it has the measurement.\<close>

definition refreshed :: "string \<Rightarrow> ts \<Rightarrow> Dashboard \<Rightarrow> bool" where
  "refreshed wanUUID t dash =
     (let w = find (\<lambda>x. stw_uuid x = wanUUID) (opt_list (da_speedtest dash));
          pts = (case w of Some x \<Rightarrow> opt_list (stw_points x) | None \<Rightarrow> [])
      in \<exists>p \<in> set pts. stp_ts p = t \<or> t - 2 \<le> stp_ts p)"

definition after_run :: "string \<Rightarrow> ts \<Rightarrow> Dashboard fetch \<Rightarrow> Dashboard \<Rightarrow> Dashboard" where
  "after_run wanUUID t answer shown =
     (case answer of
        Inr (status, Inr dash) \<Rightarrow> if ok_status status \<and> refreshed wanUUID t dash then dash else shown
      | _ \<Rightarrow> shown)"

section \<open>Whether a test can be run\<close>

record SpeedModule =
  sm_id :: string
  sm_enabled :: "bool option"

definition HINT_UNCHECKED :: string where
  "HINT_UNCHECKED = ''Control availability could not be checked. Running a test requires enabled Firewalla control, a LAN connection, and a reported WAN.''"

definition HINT_ENABLE :: string where
  "HINT_ENABLE = ''To run a test, enable Firewalla control in Settings and connect it on the LAN.''"

definition HINT_LAN :: string where
  "HINT_LAN = ''To run a test, Firewalla control must be connected on the LAN.''"

definition HINT_WAN :: string where
  "HINT_WAN = ''Firewalla control is connected, but no WAN information has been reported. A reported WAN is required to run a test.''"

definition HINT_READY :: string where
  "HINT_READY = ''Firewalla control is connected. Run starts a speed test on the selected WAN.''"

text \<open>The answers to the two requests: the state of the control channel, and the modules if the body has them. A body is
  read only when its request succeeded.\<close>

definition availability :: "string option fetch \<Rightarrow> SpeedModule list option fetch \<Rightarrow> nat \<Rightarrow> bool \<times> string" where
  "availability stR modR wans =
     (case (stR, modR) of
        (Inr (st_status, st_body), Inr (mod_status, mod_body)) \<Rightarrow>
          (case (if ok_status st_status then map_sum id (\<lambda>s. s = Some ''lan-ok'') st_body else Inr False,
                 if ok_status mod_status
                 then map_sum id (\<lambda>ms. case find (\<lambda>m. sm_id m = ''fw-app'') (opt_list ms) of
                                         Some m \<Rightarrow> sm_enabled m = Some True | None \<Rightarrow> False) mod_body
                 else Inr False) of
             (Inr lanOk, Inr enabled) \<Rightarrow>
               (enabled \<and> lanOk \<and> 0 < wans,
                if \<not> ok_status st_status \<or> \<not> ok_status mod_status then HINT_UNCHECKED
                else if \<not> enabled then HINT_ENABLE
                else if \<not> lanOk then HINT_LAN
                else if wans = 0 then HINT_WAN
                else HINT_READY)
           | _ \<Rightarrow> (False, HINT_UNCHECKED))
      | _ \<Rightarrow> (False, HINT_UNCHECKED))"

text \<open>When a test can be run, the results of the box are fetched first and then the dashboard; a failure leaves it.\<close>

definition sync_done :: "bool \<Rightarrow> bool \<Rightarrow> string + nat \<Rightarrow> Dashboard fetch \<Rightarrow> Dashboard \<Rightarrow> Dashboard" where
  "sync_done ok cancelled sync answer shown =
     (if \<not> ok then shown
      else case (sync, answer) of
        (Inr _, Inr (status, Inr dash)) \<Rightarrow> if \<not> cancelled \<and> ok_status status then dash else shown
      | _ \<Rightarrow> shown)"

text \<open>The table of the measurements of all lines, the latest first.\<close>

definition speed_rows :: "SpeedtestWAN list \<Rightarrow> (SpeedtestPoint \<times> string) list" where
  "speed_rows wans =
     js_sort (\<lambda>a b. stp_ts (fst b) - stp_ts (fst a))
       (concat (map (\<lambda>w. map (\<lambda>p. (p, stw_name w)) (opt_list (stw_points w))) wans))"

section \<open>The panel\<close>

datatype Phase = RunIdle | Running

text \<open>The state of the panel, with the runs that are under way (the asynchronous calls of \<open>startRun\<close>).\<close>

record SpeedPanel =
  pn_picking :: bool
  pn_phase :: Phase
  pn_error :: "string option"
  pn_toast :: "string option"
  pn_pickWan :: "string option"
  pn_serverId :: string
  pn_servers :: "SpeedServer list"
  pn_serversErr :: "string option"
  pn_closing :: bool
  pn_runs :: "(string \<times> string) list"

definition panel_start :: SpeedPanel where
  "panel_start = \<lparr>pn_picking = False, pn_phase = RunIdle, pn_error = None, pn_toast = None, pn_pickWan = None,
     pn_serverId = ''auto'', pn_servers = [], pn_serversErr = None, pn_closing = False, pn_runs = []\<rparr>"

definition preferred_wan :: "SpeedtestWAN list \<Rightarrow> string option" where
  "preferred_wan wans =
     (case find (\<lambda>w. stw_active w = Some True) wans of
        Some w \<Rightarrow> Some (stw_uuid w)
      | None \<Rightarrow> (case wans of [] \<Rightarrow> None | w # _ \<Rightarrow> Some (stw_uuid w)))"

definition onRunClick :: "SpeedtestWAN list \<Rightarrow> SpeedPanel \<Rightarrow> SpeedPanel" where
  "onRunClick wans p =
     p\<lparr>pn_pickWan := preferred_wan wans, pn_serverId := ''auto'', pn_picking := True, pn_serversErr := None\<rparr>"

record ServersBody =
  svb_error :: "string option"
  svb_servers :: "SpeedServer list option"

definition loadServers :: "ServersBody fetch \<Rightarrow> SpeedPanel \<Rightarrow> SpeedPanel" where
  "loadServers r p =
     (case (case r of
              Inl e \<Rightarrow> Inl e
            | Inr (status, Inl e) \<Rightarrow> Inl e
            | Inr (status, Inr body) \<Rightarrow>
                if \<not> ok_status status then Inl (msg_or (svb_error body) (''servers '' @ dec status))
                else Inr (opt_list (svb_servers body))) of
        Inl e \<Rightarrow> p\<lparr>pn_servers := [], pn_serversErr := Some e\<rparr>
      | Inr servers \<Rightarrow> p\<lparr>pn_servers := servers\<rparr>)"

definition startRun :: "string \<Rightarrow> string \<Rightarrow> SpeedPanel \<Rightarrow> SpeedPanel" where
  "startRun wanUUID sid p =
     p\<lparr>pn_picking := False, pn_error := None, pn_phase := Running, pn_runs := pn_runs p @ [(wanUUID, sid)]\<rparr>"

definition onConfirmRun :: "SpeedtestWAN list \<Rightarrow> SpeedPanel \<Rightarrow> SpeedPanel" where
  "onConfirmRun wans p =
     (let wan = or_old (pn_pickWan p) (preferred_wan wans) in
      if \<not> truthy wan then p\<lparr>pn_error := Some ''Pick ISP''\<rparr>
      else startRun (opt_str wan) (if pn_serverId p = ''auto'' then [] else pn_serverId p) p)"

definition run_ended :: "string + SpeedResult \<Rightarrow> SpeedPanel \<Rightarrow> SpeedPanel" where
  "run_ended outcome p =
     (case outcome of
        Inl e \<Rightarrow> p\<lparr>pn_error := Some e, pn_phase := RunIdle\<rparr>
      | Inr r \<Rightarrow> p\<lparr>pn_toast := Some (result_toast r), pn_phase := RunIdle\<rparr>)"

definition requestClose :: "SpeedPanel \<Rightarrow> SpeedPanel" where
  "requestClose p = (if pn_closing p \<or> pn_phase p = Running then p else p\<lparr>pn_closing := True\<rparr>)"

text \<open>What may happen: the buttons as they are offered and enabled, and the answers.\<close>

inductive speed_step :: "SpeedtestWAN list \<Rightarrow> bool \<Rightarrow> SpeedPanel \<Rightarrow> SpeedPanel \<Rightarrow> bool" for wans canRun where
  run_click: "canRun \<Longrightarrow> pn_phase p \<noteq> Running \<Longrightarrow> speed_step wans canRun p (onRunClick wans p)"
| servers: "speed_step wans canRun p (loadServers r p)"
| pick_wan: "pn_picking p \<Longrightarrow> pn_phase p \<noteq> Running \<Longrightarrow> w \<in> set wans \<Longrightarrow>
    speed_step wans canRun p (p\<lparr>pn_pickWan := Some (stw_uuid w)\<rparr>)"
| pick_server: "pn_picking p \<Longrightarrow> pn_phase p \<noteq> Running \<Longrightarrow> sid = ''auto'' \<or> sid \<in> ss_id ` set (pn_servers p) \<Longrightarrow>
    speed_step wans canRun p (p\<lparr>pn_serverId := sid\<rparr>)"
| confirm: "pn_picking p \<Longrightarrow> pn_phase p \<noteq> Running \<Longrightarrow> speed_step wans canRun p (onConfirmRun wans p)"
| give_up: "pn_picking p \<Longrightarrow> pn_phase p \<noteq> Running \<Longrightarrow> speed_step wans canRun p (p\<lparr>pn_picking := False\<rparr>)"
| ended: "pn_runs p = rs @ run # rs' \<Longrightarrow> speed_step wans canRun p (run_ended outcome (p\<lparr>pn_runs := rs @ rs'\<rparr>))"
| dismiss: "speed_step wans canRun p (p\<lparr>pn_toast := None\<rparr>)"
| close: "speed_step wans canRun p (requestClose p)"

inductive speed_reach :: "SpeedtestWAN list \<Rightarrow> bool \<Rightarrow> SpeedPanel \<Rightarrow> bool" for wans canRun where
  start: "speed_reach wans canRun panel_start"
| step: "speed_reach wans canRun p \<Longrightarrow> speed_step wans canRun p q \<Longrightarrow> speed_reach wans canRun q"

inductive_cases speed_stepE: "speed_step wans canRun p q"

section \<open>The wait ends\<close>

text \<open>What \<open>setTimeout\<close> promises of the clock: the loop does not look at it again before the pause is over.\<close>

definition pauses :: "(nat \<Rightarrow> int) \<Rightarrow> int \<Rightarrow> bool" where
  "pauses clock now \<longleftrightarrow> now \<le> clock 0 \<and> (\<forall>k. clock k + POLL_MS \<le> clock (Suc k))"

lemma pauses_at: "pauses clock now \<Longrightarrow> now + int k * POLL_MS \<le> clock k"
proof (induction k)
  case (Suc k)
  then have "clock k + POLL_MS \<le> clock (Suc k)" by (simp add: pauses_def)
  then show ?case using Suc by (simp add: algebra_simps)
qed (simp add: pauses_def)

definition POLLS :: nat where
  "POLLS = 120"

lemma late: "pauses clock now \<Longrightarrow> \<not> clock POLLS < now + RUN_MS"
  using pauses_at [of clock now POLLS] by (simp add: POLLS_def POLL_MS_def RUN_MS_def)

text \<open>A run of the loop: it goes on as long as the time is not over and the job is pending.\<close>

definition waiting :: "(nat \<Rightarrow> int) \<Rightarrow> (nat \<Rightarrow> JobBody fetch) \<Rightarrow> int \<Rightarrow> nat \<Rightarrow> bool" where
  "waiting clock reply deadline k \<longleftrightarrow> clock k < deadline \<and> poll_step (reply k) = Inr None"

definition poll_result :: "(nat \<Rightarrow> int) \<Rightarrow> (nat \<Rightarrow> JobBody fetch) \<Rightarrow> int \<Rightarrow> nat \<Rightarrow> string + SpeedResult option" where
  "poll_result clock reply deadline k =
     (if \<not> clock k < deadline then Inr None
      else case poll_step (reply k) of Inl e \<Rightarrow> Inl e | Inr (Some r) \<Rightarrow> Inr r | Inr None \<Rightarrow> Inr None)"

lemma poll_loop_stop:
  "\<not> waiting clock reply deadline k \<Longrightarrow>
     poll_loop clock reply deadline k = Some (poll_result clock reply deadline k)"
  by (subst poll_loop.simps) (auto simp: waiting_def poll_result_def split: sum.splits option.splits)

lemma poll_loop_go:
  "waiting clock reply deadline k \<Longrightarrow>
     poll_loop clock reply deadline k = poll_loop clock reply deadline (Suc k)"
  by (subst poll_loop.simps) (simp add: waiting_def)

lemma poll_loop_reaches:
  "(\<And>j. k \<le> j \<Longrightarrow> j < m \<Longrightarrow> waiting clock reply deadline j) \<Longrightarrow> k \<le> m \<Longrightarrow>
     poll_loop clock reply deadline k = poll_loop clock reply deadline m"
proof (induction "m - k" arbitrary: k)
  case (Suc d)
  then have "waiting clock reply deadline k" "d = m - Suc k" "Suc k \<le> m" by auto
  then show ?case using Suc.hyps(1) [of "Suc k"] Suc.prems(1) poll_loop_go by (metis Suc_leD)
qed simp

lemma poll_loop_eq:
  assumes "\<forall>j < m. waiting clock reply deadline j" "\<not> waiting clock reply deadline m"
  shows "poll_loop clock reply deadline 0 = Some (poll_result clock reply deadline m)"
  using poll_loop_reaches [of 0 m clock reply deadline] poll_loop_stop [OF assms(2)] assms(1) by simp

lemma wait_ends:
  assumes "pauses clock now"
  obtains m where "m \<le> POLLS" "\<forall>j < m. waiting clock reply (now + RUN_MS) j" "\<not> waiting clock reply (now + RUN_MS) m"
proof -
  let ?P = "\<lambda>k. \<not> waiting clock reply (now + RUN_MS) k"
  have p: "?P POLLS" using late [OF assms] by (simp add: waiting_def)
  then have "(LEAST k. ?P k) \<le> POLLS" by (rule Least_le)
  moreover have "?P (LEAST k. ?P k)" using p by (rule LeastI)
  moreover have "\<forall>j < (LEAST k. ?P k). \<not> ?P j" using not_less_Least by blast
  ultimately show thesis using that by blast
qed

text \<open>C33: a started test ends: when the pause between two polls takes its time, the loop stops after at most 120 polls,
  whatever the answers are, and the run ends with a result or with the message of an error. It ends with a result exactly
  when some answer in time reports the job as done with a result, all answers before it being in time and pending; with no such
  answer by the deadline it reports that the test timed out.\<close>

theorem speedtest_ends:
  assumes "pauses clock now" and "job_started post = Inr job"
  shows "\<exists>m \<le> POLLS. (\<forall>j < m. clock j < now + RUN_MS \<and> poll_step (reply j) = Inr None) \<and>
    run_test sid servers post now clock reply = Some (
      if \<not> clock m < now + RUN_MS then Inl ''speedtest timed out''
      else case poll_step (reply m) of
        Inl e \<Rightarrow> Inl e
      | Inr (Some (Some r)) \<Rightarrow> Inr (fill_result sid servers r)
      | _ \<Rightarrow> Inl ''speedtest timed out'') \<and>
    (clock m < now + RUN_MS \<longrightarrow> poll_step (reply m) \<noteq> Inr None)"
proof -
  obtain m where m: "m \<le> POLLS" "\<forall>j < m. waiting clock reply (now + RUN_MS) j" "\<not> waiting clock reply (now + RUN_MS) m"
    using wait_ends [OF assms(1)] by blast
  have "poll_loop clock reply (now + RUN_MS) 0 = Some (poll_result clock reply (now + RUN_MS) m)"
    by (rule poll_loop_eq [OF m(2,3)])
  then have "run_test sid servers post now clock reply = Some (
      if \<not> clock m < now + RUN_MS then Inl ''speedtest timed out''
      else case poll_step (reply m) of
        Inl e \<Rightarrow> Inl e
      | Inr (Some (Some r)) \<Rightarrow> Inr (fill_result sid servers r)
      | _ \<Rightarrow> Inl ''speedtest timed out'')"
    using assms(2) by (auto simp: run_test_def poll_result_def split: sum.splits option.splits)
  then show ?thesis using m by (auto simp: waiting_def)
qed

theorem speedtest_ends_witness:
  "let clock = \<lambda>k. 1500 * int k; pending = Inr (200, Inr \<lparr>jb_state = Some ''running'', jb_error = None, jb_result = None\<rparr>);
       r = \<lparr>sr_down = Some 900, sr_up = Some 40, sr_ping = Some 12, sr_ts = Some 1700000000, sr_server_id = None,
            sr_server = None, sr_location = None\<rparr>;
       finished = Inr (200, Inr \<lparr>jb_state = Some ''done'', jb_error = None, jb_result = Some r\<rparr>);
       post = Inr (200, Inr \<lparr>sb_error = None, sb_job_id = Some ''7''\<rparr>)
   in run_test ''31'' [] post 0 clock (\<lambda>k. if k < 3 then pending else finished) = Some (Inr (r\<lparr>sr_server_id := Some ''31''\<rparr>))"
proof -
  define clock where "clock = (\<lambda>k. 1500 * int k)"
  define pending :: "JobBody fetch" where "pending = Inr (200, Inr \<lparr>jb_state = Some ''running'', jb_error = None, jb_result = None\<rparr>)"
  define r where "r = \<lparr>sr_down = Some 900, sr_up = Some 40, sr_ping = Some 12, sr_ts = Some 1700000000, sr_server_id = None,
    sr_server = None, sr_location = None\<rparr>"
  define finished :: "JobBody fetch" where "finished = Inr (200, Inr \<lparr>jb_state = Some ''done'', jb_error = None, jb_result = Some r\<rparr>)"
  define reply where "reply = (\<lambda>k. if k < (3 :: nat) then pending else finished)"
  define post :: "StartBody fetch" where "post = Inr (200, Inr \<lparr>sb_error = None, sb_job_id = Some ''7''\<rparr>)"
  have step: "poll_step (reply j) = (if j < 3 then Inr None else Inr (Some (Some r)))" for j
    by (simp add: reply_def pending_def finished_def poll_step_def ok_status_def)
  have "pauses clock 0" by (simp add: pauses_def clock_def POLL_MS_def)
  moreover have "job_started post = Inr ''7''" by (simp add: post_def job_started_def ok_status_def truthy_def opt_str_def)
  ultimately obtain m where m: "\<forall>j < m. clock j < RUN_MS \<and> poll_step (reply j) = Inr None"
    "run_test ''31'' [] post 0 clock reply = Some (if \<not> clock m < 0 + RUN_MS then Inl ''speedtest timed out''
      else case poll_step (reply m) of Inl e \<Rightarrow> Inl e | Inr (Some (Some r)) \<Rightarrow> Inr (fill_result ''31'' [] r)
      | _ \<Rightarrow> Inl ''speedtest timed out'')"
    "clock m < 0 + RUN_MS \<longrightarrow> poll_step (reply m) \<noteq> Inr None"
    using speedtest_ends [of clock 0 post "''7''" reply "''31''" "[]"] by auto
  have "m \<le> 3" using m(1) step [of 3] by (metis leI less_irrefl option.distinct(1) sum.inject(2))
  moreover have "clock m < RUN_MS" using \<open>m \<le> 3\<close> by (simp add: clock_def RUN_MS_def)
  ultimately have "m = 3" using m(3) step [of m] by (auto split: if_splits)
  then have "run_test ''31'' [] post 0 clock reply = Some (Inr (r\<lparr>sr_server_id := Some ''31''\<rparr>))"
    using m(2) step [of 3] by (simp add: clock_def RUN_MS_def fill_result_def r_def truthy_def)
  then show ?thesis by (simp only: Let_def clock_def reply_def pending_def finished_def post_def r_def)
qed

section \<open>One run at a time\<close>

lemmas panel_defs = onRunClick_def loadServers_def startRun_def onConfirmRun_def run_ended_def requestClose_def Let_def

lemma speed_step_runs:
  assumes "speed_step wans canRun p q" and "length (pn_runs p) = (if pn_phase p = Running then 1 else 0)"
  shows "length (pn_runs q) = (if pn_phase q = Running then 1 else 0)"
  using assms by (cases rule: speed_step.cases) (auto simp: panel_defs split: if_splits sum.splits prod.splits)

text \<open>C34: in the panel of the speed test there is never more than one run under way, and the panel shows that it runs
  exactly as long as there is one: neither the buttons nor answers that arrive late can start a second test
  or leave the panel busy.\<close>

theorem one_run_at_a_time:
  assumes "speed_reach wans canRun p"
  shows "length (pn_runs p) = (if pn_phase p = Running then 1 else 0)"
  using assms by (induction rule: speed_reach.induct) (simp add: panel_start_def, rule speed_step_runs)

lemma reach_confirm:
  assumes "speed_reach wans True p" "pn_phase p = RunIdle"
  shows "speed_reach wans True (onConfirmRun wans (onRunClick wans p))"
proof -
  have "speed_reach wans True (onRunClick wans p)"
    using assms by (intro speed_reach.step [OF assms(1)] speed_step.run_click) simp_all
  then show ?thesis
    by (rule speed_reach.step) (rule speed_step.confirm, simp_all add: onRunClick_def assms(2))
qed

theorem one_run_at_a_time_witness:
  "let w = \<lparr>stw_uuid = ''u1'', stw_name = ''Fiber'', stw_active = Some True, stw_plan_down = None, stw_plan_up = None,
      stw_down = None, stw_up = None, stw_ping = None, stw_jitter = None, stw_server_id = None, stw_server = None,
      stw_location = None, stw_points = None\<rparr>;
       p = onConfirmRun [w] (onRunClick [w] panel_start)
   in pn_phase p = Running \<and> length (pn_runs p) = 1"
proof -
  let ?w = "\<lparr>stw_uuid = ''u1'', stw_name = ''Fiber'', stw_active = Some True, stw_plan_down = None, stw_plan_up = None,
      stw_down = None, stw_up = None, stw_ping = None, stw_jitter = None, stw_server_id = None, stw_server = None,
      stw_location = None, stw_points = None\<rparr>"
  have "speed_reach [?w] True (onConfirmRun [?w] (onRunClick [?w] panel_start))"
    by (rule reach_confirm [OF speed_reach.start]) (simp add: panel_start_def)
  from one_run_at_a_time [OF this] show ?thesis
    by (simp add: Let_def onConfirmRun_def onRunClick_def startRun_def preferred_wan_def or_old_def truthy_def panel_start_def)
qed

section \<open>The shown result\<close>

lemma patch_wan_frame [simp]:
  "stw_uuid (patch_wan r now w) = stw_uuid w" "stw_name (patch_wan r now w) = stw_name w"
  "stw_plan_down (patch_wan r now w) = stw_plan_down w" "stw_plan_up (patch_wan r now w) = stw_plan_up w"
  "stw_down (patch_wan r now w) = Some (or_zero (sr_down r))" "stw_up (patch_wan r now w) = Some (or_zero (sr_up r))"
  "opt_list (stw_points (patch_wan r now w)) = add_point (result_point r now) (opt_list (stw_points w))"
  by (simp_all add: patch_wan_def opt_list_def)

lemma new_wan_frame [simp]:
  "stw_down (new_wan u r now) = Some (or_zero (sr_down r))" "stw_up (new_wan u r now) = Some (or_zero (sr_up r))"
  "opt_list (stw_points (new_wan u r now)) = [result_point r now]"
  by (simp_all add: new_wan_def opt_list_def)

lemma result_point_ts [simp]: "stp_ts (result_point r now) = result_ts r now"
  by (simp add: result_point_def)

lemma add_point_has: "\<exists>q \<in> set (add_point p pts). stp_ts q = stp_ts p"
  by (auto simp: add_point_def)

lemma add_point_apart: "distinct (map stp_ts pts) \<Longrightarrow> distinct (map stp_ts (add_point p pts))"
  by (auto simp: add_point_def)

lemma add_point_keeps: "set pts \<subseteq> set (add_point p pts)"
  by (auto simp: add_point_def)

lemma find_map: "find P (map f xs) = map_option f (find (\<lambda>x. P (f x)) xs)"
  by (induction xs) auto

lemma patched_wan:
  "find (\<lambda>x. stw_uuid x = u) (patch_speedtest u r now base) =
     Some (case find (\<lambda>x. stw_uuid x = u) base of Some w \<Rightarrow> patch_wan r now w | None \<Rightarrow> new_wan u r now)"
proof -
  let ?f = "\<lambda>w. if stw_uuid w \<noteq> u then w else patch_wan r now w"
  have "find (\<lambda>x. stw_uuid x = u) (map ?f base) = map_option ?f (find (\<lambda>x. stw_uuid (?f x) = u) base)"
    by (rule find_map)
  also have "(\<lambda>x. stw_uuid (?f x) = u) = (\<lambda>x. stw_uuid x = u)" by auto
  finally have m: "find (\<lambda>x. stw_uuid x = u) (map ?f base) = map_option ?f (find (\<lambda>x. stw_uuid x = u) base)" .
  show ?thesis
  proof (cases "find (\<lambda>x. stw_uuid x = u) base")
    case None
    then have "\<not> (\<exists>w \<in> set base. stw_uuid w = u)" by (auto simp: find_None_iff)
    then show ?thesis using m None by (simp add: patch_speedtest_def find_append new_wan_def)
  next
    case (Some w)
    then have "stw_uuid w = u" by (auto simp: find_Some_iff)
    then show ?thesis using m Some by (simp add: patch_speedtest_def find_append)
  qed
qed

text \<open>The lines that the update starts from.\<close>

definition base_wans :: "Dashboard \<Rightarrow> SpeedtestWAN list \<Rightarrow> SpeedtestWAN list" where
  "base_wans d wans = (if opt_list (da_speedtest d) \<noteq> [] then opt_list (da_speedtest d) else wans)"

lemma applyOptimistic_wans:
  "opt_list (da_speedtest (applyOptimistic d wans u r now)) = patch_speedtest u r now (base_wans d wans)"
  by (simp add: applyOptimistic_def base_wans_def opt_list_def Let_def)

lemma tested_wan:
  "\<exists>w. find (\<lambda>x. stw_uuid x = u) (opt_list (da_speedtest (applyOptimistic d wans u r now))) = Some w \<and>
     stw_down w = Some (or_zero (sr_down r)) \<and> stw_up w = Some (or_zero (sr_up r)) \<and>
     (\<exists>q \<in> set (opt_list (stw_points w)). stp_ts q = result_ts r now) \<and>
     (\<forall>old. find (\<lambda>x. stw_uuid x = u) (base_wans d wans) = Some old \<longrightarrow>
        stw_name w = stw_name old \<and> set (opt_list (stw_points old)) \<subseteq> set (opt_list (stw_points w)) \<and>
        (distinct (map stp_ts (opt_list (stw_points old))) \<longrightarrow> distinct (map stp_ts (opt_list (stw_points w)))))"
  using patched_wan [of u r now "base_wans d wans"] add_point_has [of "result_point r now"]
    add_point_keeps add_point_apart
  unfolding applyOptimistic_wans
  by (cases "find (\<lambda>x. stw_uuid x = u) (base_wans d wans)") auto

lemma refreshed_if:
  "find (\<lambda>x. stw_uuid x = u) (opt_list (da_speedtest d)) = Some w \<Longrightarrow> q \<in> set (opt_list (stw_points w)) \<Longrightarrow> stp_ts q = t \<Longrightarrow>
     refreshed u t d"
  by (auto simp: refreshed_def)

text \<open>the dashboard shown right after a test has the result: the line that was tested carries the new figures and a point at the
  time of the test, so that the condition by which a dashboard of the server is accepted later holds of it; earlier points
  are kept, no time occurs twice if none did, every other line stays in its place as it was, and nothing but the
  speed tests changes.\<close>

theorem optimistic_result_shown:
  "let d' = applyOptimistic d wans u r now; base = base_wans d wans in
   (\<exists>w. find (\<lambda>x. stw_uuid x = u) (opt_list (da_speedtest d')) = Some w \<and>
     stw_down w = Some (or_zero (sr_down r)) \<and> stw_up w = Some (or_zero (sr_up r)) \<and>
     (\<forall>old. find (\<lambda>x. stw_uuid x = u) base = Some old \<longrightarrow>
        stw_name w = stw_name old \<and> set (opt_list (stw_points old)) \<subseteq> set (opt_list (stw_points w)) \<and>
        (distinct (map stp_ts (opt_list (stw_points old))) \<longrightarrow> distinct (map stp_ts (opt_list (stw_points w)))))) \<and>
   refreshed u (result_ts r now) d' \<and>
   (\<forall>i < length base. stw_uuid (base ! i) \<noteq> u \<longrightarrow> opt_list (da_speedtest d') ! i = base ! i) \<and>
   d'\<lparr>da_speedtest := da_speedtest d\<rparr> = d"
proof -
  let ?d = "applyOptimistic d wans u r now"
  have "refreshed u (result_ts r now) ?d"
    using tested_wan [of u d wans r now] refreshed_if by blast
  moreover have "\<forall>i < length (base_wans d wans). stw_uuid (base_wans d wans ! i) \<noteq> u \<longrightarrow>
      opt_list (da_speedtest ?d) ! i = base_wans d wans ! i"
    by (simp add: applyOptimistic_wans patch_speedtest_def nth_append)
  moreover have "?d\<lparr>da_speedtest := da_speedtest d\<rparr> = d" by (simp add: applyOptimistic_def Let_def)
  ultimately show ?thesis using tested_wan [of u d wans r now] unfolding Let_def by blast
qed

theorem optimistic_result_shown_witness:
  "let none = \<lparr>tr_upload = 0, tr_download = 0, tr_points = None\<rparr>;
       d = \<lparr>da_ts = None, da_host = None, da_devices = 4, da_rules = 0, da_alarm_count = 0, da_transfer_24h = none,
         da_transfer_30d = None, da_transfer_60 = None, da_transfer_12m = None, da_monthly_wans = None,
         da_monthly_begin_ts = None, da_monthly_end_ts = None, da_blocked = \<lparr>bx_blocked = 0, bx_allowed = 0\<rparr>,
         da_top_upload = None, da_top_download = None, da_top_dest_upload = None, da_top_dest_download = None,
         da_top_regions = None, da_speedtest = None, da_dns = None, da_source = None, da_fetched_at = None,
         da_stale = None, da_enriched_from = None, da_reason = None\<rparr>;
       r = \<lparr>sr_down = Some 900, sr_up = Some 40, sr_ping = None, sr_ts = Some 1700000000, sr_server_id = None,
         sr_server = None, sr_location = None\<rparr>
   in refreshed ''u1'' 1700000000 (applyOptimistic d [] ''u1'' r 0) \<and> da_devices (applyOptimistic d [] ''u1'' r 0) = 4"
proof -
  define d where "d = \<lparr>da_ts = None, da_host = None, da_devices = 4, da_rules = 0, da_alarm_count = 0,
         da_transfer_24h = \<lparr>tr_upload = 0, tr_download = 0, tr_points = None\<rparr>,
         da_transfer_30d = None, da_transfer_60 = None, da_transfer_12m = None, da_monthly_wans = None,
         da_monthly_begin_ts = None, da_monthly_end_ts = None, da_blocked = \<lparr>bx_blocked = 0, bx_allowed = 0\<rparr>,
         da_top_upload = None, da_top_download = None, da_top_dest_upload = None, da_top_dest_download = None,
         da_top_regions = None, da_speedtest = None, da_dns = None, da_source = None, da_fetched_at = None,
         da_stale = None, da_enriched_from = None, da_reason = None\<rparr>"
  define r where "r = \<lparr>sr_down = Some 900, sr_up = Some 40, sr_ping = None, sr_ts = Some 1700000000, sr_server_id = None,
         sr_server = None, sr_location = None\<rparr>"
  have "result_ts r 0 = 1700000000" by (simp add: result_ts_def r_def)
  then have "refreshed ''u1'' 1700000000 (applyOptimistic d [] ''u1'' r 0)"
    "applyOptimistic d [] ''u1'' r 0\<lparr>da_speedtest := da_speedtest d\<rparr> = d"
    using optimistic_result_shown [of d "[]" "''u1''" r 0] by (simp_all add: Let_def)
  moreover from this(2) have "da_devices (applyOptimistic d [] ''u1'' r 0) = da_devices d"
    by (metis Dashboard.select_convs(3) Dashboard.surjective Dashboard.update_convs(19))
  ultimately show ?thesis by (simp add: Let_def d_def r_def)
qed

section \<open>What the application shows after a run\<close>

text \<open>The dashboard that the application has when the run ends, given the one that the panel had when the run began.\<close>

definition run_done ::
  "Dashboard \<Rightarrow> SpeedtestWAN list \<Rightarrow> string \<Rightarrow> int \<Rightarrow> string + SpeedResult \<Rightarrow> Dashboard \<Rightarrow> Dashboard" where
  "run_done begun wans wanUUID now_ms outcome shown =
     (case outcome of Inl _ \<Rightarrow> shown | Inr r \<Rightarrow> applyOptimistic begun wans wanUUID r now_ms)"

text \<open>A dashboard that arrived during the run is lost: all but the speed tests is again as it was when the run began.\<close>

lemma refresh_during_run_lost:
  "run_done begun wans u now (Inr r) shown\<lparr>da_speedtest := x\<rparr> = begun\<lparr>da_speedtest := x\<rparr>"
  by (simp add: run_done_def applyOptimistic_def Let_def)

section \<open>Monthly usage\<close>

lemma monthMax_ge: "1 \<le> monthMax ws" "w \<in> set ws \<Longrightarrow> wu_upload w + wu_download w \<le> monthMax ws"
  by (induction ws) (auto simp: monthMax_def max_def)

text \<open>The bar of a line is as wide as its share of the largest, visible when anything was used and never beyond the card.\<close>

lemma month_width_bounds:
  assumes "w \<in> set ws"
  shows "month_width ws w \<le> 100" "0 < wu_upload w + wu_download w \<Longrightarrow> 2 \<le> month_width ws w" "0 \<le> month_width ws w"
proof -
  have "(of_int (wu_upload w + wu_download w) :: rat) \<le> of_int (monthMax ws)"
    using monthMax_ge(2) [OF assms] by (simp only: of_int_le_iff)
  moreover have "(0 :: rat) < of_int (monthMax ws)" using monthMax_ge(1) [of ws] by simp
  ultimately have s: "(of_int (wu_upload w + wu_download w) :: rat) / of_int (monthMax ws) \<le> 1" by simp
  then show "month_width ws w \<le> 100"
    using mult_right_mono [OF s, of 100] unfolding month_width_def Let_def by simp
  show "0 < wu_upload w + wu_download w \<Longrightarrow> 2 \<le> month_width ws w" "0 \<le> month_width ws w"
    by (auto simp: month_width_def Let_def le_max_iff_disj)
qed

text \<open>A provider whose name begins like an interface is taken for one.\<close>

lemma provider_hidden: "\<not> isISPLabel ''Brightspeed'' \<and> isISPLabel ''Comcast''"
  by code_simp

end
