(* ===== verification/Settings.thy ===== *)
theory Settings
  imports Format Json
begin

text \<open>
  The pages of the settings and the sheets of a rule: every action marks the page as busy, clears the last error, makes its
  requests and ends idle with its effect or with the message of the error (\<open>ui/src/tabs/TPLinkSettings.tsx\<close>,
  \<open>FWAppSettings.tsx\<close>, \<open>IdentitySettings.tsx\<close>, \<open>FeaturesDNSSettings.tsx\<close>, \<open>SettingsTab.tsx\<close> and the sheets at the end of
  \<open>RulesTab.tsx\<close>). That shape is the contract of the locale \<open>page_action\<close>, interpreted for each action. An action is
  two functions of the page: what happens at the click and what happens when the answers are there; other events
  may come between. A request ends with a response or with the message of the rejection; reading the text or the JSON of a response
  may be rejected too.
\<close>

section \<open>Responses\<close>

record 'b Response =
  rp_status :: nat
  rp_text :: "string + string"
  rp_json :: "string + 'b"

type_synonym 'b request = "string + 'b Response"

definition rp_ok :: "'b Response \<Rightarrow> bool" where
  "rp_ok r \<longleftrightarrow> 200 \<le> rp_status r \<and> rp_status r < 300"

definition or_default :: "string \<Rightarrow> string \<Rightarrow> string" where
  "or_default t d = (if t = [] then d else t)"

definition status_text :: "string \<Rightarrow> 'b Response \<Rightarrow> string" where
  "status_text what r = what @ '' '' @ dec (rp_status r)"

text \<open>The error of a response that is not ok: its text, or a message with the status.\<close>

definition text_error :: "(string \<Rightarrow> string) \<Rightarrow> string \<Rightarrow> 'b Response \<Rightarrow> string" where
  "text_error clean what r = (case rp_text r of Inl e \<Rightarrow> e | Inr t \<Rightarrow> or_default (clean t) (status_text what r))"

section \<open>The contract of an action\<close>

locale page_action =
  fixes busy :: "'s \<Rightarrow> bool" and err :: "'s \<Rightarrow> string option"
    and click :: "'s \<Rightarrow> 's" and answer :: "'r \<Rightarrow> 's \<Rightarrow> 's" and failure :: "'r \<Rightarrow> string option"
  assumes clicked: "busy (click s)" "err (click s) = None"
    and answered: "\<not> busy (answer r s)"
    and outcome: "err s = None \<Longrightarrow> err (answer r s) = failure r"
begin

lemma runs: "\<not> busy (answer r (click s)) \<and> err (answer r (click s)) = failure r"
  using clicked answered outcome by blast

lemma fails_visibly: "failure r = Some e \<Longrightarrow> err (answer r (click s)) = Some e"
  by (simp add: runs)

text \<open>The last of several runs in a row decides what is shown.\<close>

lemma runs_in_row: "err (fold (\<lambda>r s. answer r (click s)) (rs @ [r]) s) = failure r"
  by (simp add: runs)

end

section \<open>Sheets of a rule\<close>

record RuleSheet =
  rs_err :: "string option"
  rs_working :: bool

definition is_timelimit :: "FwAppRule \<Rightarrow> bool" where
  "is_timelimit rule \<longleftrightarrow> fr_section rule = SecTimelimit \<or> fr_action rule = ''screentime''"

definition canPause :: "(string \<Rightarrow> bool) \<Rightarrow> FwAppRule \<Rightarrow> bool" where
  "canPause caps rule \<longleftrightarrow> caps ''rule.pause'' \<and> fr_readOnly rule \<noteq> Some True \<and>
     fr_section rule \<noteq> SecTimelimit \<and> fr_action rule \<noteq> ''screentime''"

definition canDelete :: "(string \<Rightarrow> bool) \<Rightarrow> FwAppRule \<Rightarrow> bool" where
  "canDelete caps rule \<longleftrightarrow> caps ''rule.delete'' \<and> fr_readOnly rule \<noteq> Some True \<and>
     fr_section rule \<noteq> SecTimelimit \<and> fr_action rule \<noteq> ''screentime''"

text \<open>The three actions: changing the pause of a rule, deleting it, and emergency access.\<close>

datatype SheetCall = PauseRule string bool | DeleteRule string | Emergency bool

definition sheet_click :: "RuleSheet \<Rightarrow> RuleSheet" where
  "sheet_click s = s\<lparr>rs_working := True, rs_err := None\<rparr>"

definition pause_rule :: "(string \<Rightarrow> bool) \<Rightarrow> FwAppRule \<Rightarrow> bool \<Rightarrow> RuleSheet \<Rightarrow> RuleSheet \<times> SheetCall option" where
  "pause_rule caps rule busy s =
     (if \<not> canPause caps rule \<or> rs_working s \<or> busy then (s, None)
      else (sheet_click s, Some (PauseRule (fr_id rule) (\<not> fr_disabled rule))))"

definition remove_rule :: "(string \<Rightarrow> bool) \<Rightarrow> FwAppRule \<Rightarrow> bool \<Rightarrow> bool \<Rightarrow> RuleSheet \<Rightarrow> RuleSheet \<times> SheetCall option" where
  "remove_rule caps rule busy confirmed s =
     (if \<not> canDelete caps rule \<or> rs_working s \<or> busy then (s, None)
      else if \<not> confirmed then (s, None)
      else (sheet_click s, Some (DeleteRule (fr_id rule))))"

definition emergency :: "bool \<Rightarrow> bool \<Rightarrow> RuleSheet \<Rightarrow> RuleSheet \<times> SheetCall option" where
  "emergency enabled busy s =
     (if rs_working s \<or> busy then (s, None) else (sheet_click s, Some (Emergency enabled)))"

fun sheet_call_name :: "SheetCall \<Rightarrow> string" where
  "sheet_call_name (PauseRule i d) = ''pause''"
| "sheet_call_name (DeleteRule i) = ''delete''"
| "sheet_call_name (Emergency e) = ''emergency''"

text \<open>The response, of which only the error is read, and what the reload of the rules after it rejects with.\<close>

definition sheet_failure :: "string \<Rightarrow> string option request \<times> string option \<Rightarrow> string option" where
  "sheet_failure what r =
     (case fst r of
        Inl e \<Rightarrow> Some e
      | Inr rp \<Rightarrow>
          if \<not> rp_ok rp then
            Some (case rp_json rp of Inr e \<Rightarrow> or_default (opt_str e) (status_text what rp) | Inl _ \<Rightarrow> status_text what rp)
          else snd r)"

definition sheet_answer :: "string \<Rightarrow> string option request \<times> string option \<Rightarrow> RuleSheet \<Rightarrow> RuleSheet" where
  "sheet_answer what r s =
     (case sheet_failure what r of
        Some e \<Rightarrow> s\<lparr>rs_err := Some e, rs_working := False\<rparr>
      | None \<Rightarrow> s\<lparr>rs_working := False\<rparr>)"

interpretation sheet: page_action rs_working rs_err sheet_click "sheet_answer (sheet_call_name call)" "sheet_failure (sheet_call_name call)" for call
  by unfold_locales (auto simp: sheet_click_def sheet_answer_def split: option.splits)

section \<open>Switches of the maker TP-Link\<close>

record TPLinkSwitch =
  tp_id :: string
  tp_ip :: string
  tp_mac :: "string option"
  tp_username :: string
  tp_has_password :: bool
  tp_enabled :: bool
  tp_last_status :: "string option"
  tp_last_error :: "string option"
  tp_last_model :: "string option"
  tp_last_firmware :: "string option"
  tp_last_ok_at :: "string option"
  tp_uplink_port :: "string option"

record TPCandidate =
  tc_mac :: string
  tc_ip :: "string option"
  tc_name :: "string option"
  tc_vendor :: "string option"

definition formatPoll :: "int \<Rightarrow> string" where
  "formatPoll sec =
     (if sec < 60 then dec_int sec @ ''s''
      else if sec mod 60 = 0 then dec_int (sec div 60) @ ''m''
      else dec_int (sec div 60) @ ''m'' @ dec_int (sec mod 60) @ ''s'')"

fun notch_step :: "int list \<Rightarrow> int \<Rightarrow> nat \<Rightarrow> nat \<times> int \<Rightarrow> nat \<times> int" where
  "notch_step notches sec i (best, bestDist) =
     (let d = \<bar>sec - notches ! i\<bar> in if d < bestDist then (i, d) else (best, bestDist))"

definition notchIndex :: "int list \<Rightarrow> int \<Rightarrow> nat" where
  "notchIndex notches sec =
     fst (fold (notch_step notches sec) [1..<length notches]
       (0, \<bar>sec - (case notches of [] \<Rightarrow> 60 | n # _ \<Rightarrow> n)\<bar>))"

record TPPage =
  tpp_switches :: "TPLinkSwitch list"
  tpp_candidates :: "TPCandidate list"
  tpp_secretsReady :: bool
  tpp_error :: "string option"
  tpp_busy :: bool
  tpp_formIP :: string
  tpp_formUser :: string
  tpp_formPass :: string
  tpp_editID :: "string option"
  tpp_testMsg :: "string option"
  tpp_showAdd :: bool
  tpp_pollSec :: int
  tpp_pollNotches :: "int list"

text \<open>A page and the error that stopped a sequence of steps, if any.\<close>

definition then_do :: "('s \<Rightarrow> string option \<times> 's) \<Rightarrow> string option \<times> 's \<Rightarrow> string option \<times> 's" where
  "then_do f x = (case x of (None, s) \<Rightarrow> f s | (Some e, s) \<Rightarrow> (Some e, s))"

definition when_ok :: "('b \<Rightarrow> 's \<Rightarrow> 's) \<Rightarrow> 'b Response \<Rightarrow> 's \<Rightarrow> string option \<times> 's" where
  "when_ok f r s =
     (if rp_ok r then (case rp_json r of Inl e \<Rightarrow> (Some e, s) | Inr b \<Rightarrow> (None, f b s)) else (None, s))"

record TPSwitches =
  tps_switches :: "TPLinkSwitch list option"
  tps_secrets_ready :: "bool option"

record TPPoll =
  tpo_poll_sec :: "int option"
  tpo_poll_notches :: "int list option"

definition set_switches :: "TPSwitches \<Rightarrow> TPPage \<Rightarrow> TPPage" where
  "set_switches b p = p\<lparr>tpp_switches := opt_list (tps_switches b), tpp_secretsReady := (tps_secrets_ready b \<noteq> Some False)\<rparr>"

definition set_candidates :: "TPCandidate list option \<Rightarrow> TPPage \<Rightarrow> TPPage" where
  "set_candidates b p = p\<lparr>tpp_candidates := opt_list b\<rparr>"

definition set_poll :: "TPPoll \<Rightarrow> TPPage \<Rightarrow> TPPage" where
  "set_poll b p =
     p\<lparr>tpp_pollSec := (case tpo_poll_sec b of Some n \<Rightarrow> n | None \<Rightarrow> tpp_pollSec p),
       tpp_pollNotches := (if opt_list (tpo_poll_notches b) \<noteq> [] then opt_list (tpo_poll_notches b) else tpp_pollNotches p)\<rparr>"

type_synonym tp_load_answers = "string + TPSwitches Response \<times> TPCandidate list option Response \<times> TPPoll Response"

definition tp_load_steps :: "tp_load_answers \<Rightarrow> TPPage \<Rightarrow> string option \<times> TPPage" where
  "tp_load_steps r p =
     (case r of
        Inl e \<Rightarrow> (Some e, p)
      | Inr (swR, candR, setR) \<Rightarrow>
          then_do (when_ok set_poll setR) (then_do (when_ok set_candidates candR) (when_ok set_switches swR p)))"

definition tp_load :: "tp_load_answers \<Rightarrow> TPPage \<Rightarrow> TPPage" where
  "tp_load r p = (case tp_load_steps r p of (None, q) \<Rightarrow> q | (Some e, q) \<Rightarrow> q\<lparr>tpp_error := Some e\<rparr>)"

definition tp_click :: "TPPage \<Rightarrow> TPPage" where
  "tp_click p = p\<lparr>tpp_busy := True, tpp_error := None\<rparr>"

definition tp_fail :: "string \<Rightarrow> TPPage \<Rightarrow> TPPage" where
  "tp_fail e p = p\<lparr>tpp_error := Some e\<rparr>"

definition tp_idle :: "TPPage \<Rightarrow> TPPage" where
  "tp_idle p = p\<lparr>tpp_busy := False\<rparr>"

definition resetAddForm :: "TPPage \<Rightarrow> TPPage" where
  "resetAddForm p = p\<lparr>tpp_formIP := [], tpp_formUser := ''admin'', tpp_formPass := [], tpp_testMsg := None, tpp_error := None\<rparr>"

definition startAdd :: "TPCandidate option \<Rightarrow> TPPage \<Rightarrow> TPPage" where
  "startAdd c p =
     p\<lparr>tpp_editID := None, tpp_showAdd := True, tpp_formIP := (case c of Some x \<Rightarrow> opt_str (tc_ip x) | None \<Rightarrow> []),
       tpp_formUser := ''admin'', tpp_formPass := [], tpp_testMsg := None, tpp_error := None\<rparr>"

definition startEdit :: "TPLinkSwitch \<Rightarrow> TPPage \<Rightarrow> TPPage" where
  "startEdit sw p =
     p\<lparr>tpp_showAdd := False, tpp_editID := Some (tp_id sw), tpp_formIP := tp_ip sw,
       tpp_formUser := or_default (tp_username sw) ''admin'', tpp_formPass := [], tpp_testMsg := None, tpp_error := None\<rparr>"

definition cancelEdit :: "TPPage \<Rightarrow> TPPage" where
  "cancelEdit p = resetAddForm (p\<lparr>tpp_editID := None\<rparr>)"

text \<open>What the load rejects with does not depend on the page.\<close>

definition json_failure :: "'b Response \<Rightarrow> string option" where
  "json_failure r = (if rp_ok r then (case rp_json r of Inl e \<Rightarrow> Some e | Inr _ \<Rightarrow> None) else None)"

definition first_error :: "string option list \<Rightarrow> string option" where
  "first_error es = (case filter (\<lambda>e. e \<noteq> None) es of [] \<Rightarrow> None | e # _ \<Rightarrow> e)"

definition tp_load_failure :: "tp_load_answers \<Rightarrow> string option" where
  "tp_load_failure r =
     (case r of
        Inl e \<Rightarrow> Some e
      | Inr (swR, candR, setR) \<Rightarrow> first_error [json_failure swR, json_failure candR, json_failure setR])"

lemma when_ok_error: "fst (when_ok f r s) = json_failure r"
  by (simp add: when_ok_def json_failure_def split: sum.splits)

lemma then_do_error:
  "(\<And>s. fst (f s) = e) \<Longrightarrow> fst (then_do f x) = first_error [fst x, e]"
  by (cases x; cases "fst x"; cases e) (auto simp: then_do_def first_error_def)

lemma tp_load_steps_error: "fst (tp_load_steps r p) = tp_load_failure r"
proof (cases r)
  case (Inr t)
  obtain swR candR setR where t: "t = (swR, candR, setR)" by (cases t)
  have "fst (tp_load_steps r p) = first_error [first_error [json_failure swR, json_failure candR], json_failure setR]"
    using Inr t by (simp add: tp_load_steps_def then_do_error [OF when_ok_error] when_ok_error)
  then show ?thesis using Inr t by (auto simp: tp_load_failure_def first_error_def)
qed (simp_all add: tp_load_steps_def tp_load_failure_def)

lemma when_ok_frame:
  assumes "\<And>b s. g (f b s) = g s"
  shows "g (snd (when_ok f r s)) = g s"
  using assms by (auto simp: when_ok_def split: sum.splits)

lemma then_do_frame: "(\<And>s. g (snd (f s)) = g s) \<Longrightarrow> g (snd (then_do f x)) = g (snd x)"
  by (cases x; cases "fst x") (simp_all add: then_do_def)

lemma tp_load_steps_frame:
  assumes "\<And>b s. g (set_switches b s) = g s" "\<And>b s. g (set_candidates b s) = g s" "\<And>b s. g (set_poll b s) = g s"
  shows "g (snd (tp_load_steps r p)) = g p"
  by (simp add: tp_load_steps_def when_ok_frame [where g = g] then_do_frame [where g = g] assms split: sum.split prod.split)

lemma tp_load_shape: "tp_load r p = (snd (tp_load_steps r p))\<lparr>tpp_error := (case tp_load_failure r of Some e \<Rightarrow> Some e | None \<Rightarrow> tpp_error p)\<rparr>"
proof -
  have "tpp_error (snd (tp_load_steps r p)) = tpp_error p"
    by (rule tp_load_steps_frame) (simp_all add: set_switches_def set_candidates_def set_poll_def)
  then show ?thesis
    using tp_load_steps_error [of r p] by (cases "tp_load_steps r p") (auto simp: tp_load_def split: option.splits)
qed

lemma tp_load_error [simp]: "tpp_error (tp_load r p) = (case tp_load_failure r of Some e \<Rightarrow> Some e | None \<Rightarrow> tpp_error p)"
  by (simp add: tp_load_shape)

lemma tp_load_form [simp]:
  "tpp_busy (tp_load r p) = tpp_busy p" "tpp_editID (tp_load r p) = tpp_editID p" "tpp_formIP (tp_load r p) = tpp_formIP p"
  "tpp_formUser (tp_load r p) = tpp_formUser p" "tpp_formPass (tp_load r p) = tpp_formPass p" "tpp_showAdd (tp_load r p) = tpp_showAdd p"
  by (simp_all add: tp_load_shape tp_load_steps_frame [where g = tpp_busy] tp_load_steps_frame [where g = tpp_editID]
      tp_load_steps_frame [where g = tpp_formIP] tp_load_steps_frame [where g = tpp_formUser]
      tp_load_steps_frame [where g = tpp_formPass] tp_load_steps_frame [where g = tpp_showAdd]
      set_switches_def set_candidates_def set_poll_def)

text \<open>The actions.\<close>

definition finish :: "string option \<Rightarrow> (TPPage \<Rightarrow> TPPage) \<Rightarrow> TPPage \<Rightarrow> TPPage" where
  "finish e f p = tp_idle (case e of Some m \<Rightarrow> tp_fail m p | None \<Rightarrow> f p)"

definition text_failure :: "(string \<Rightarrow> string) \<Rightarrow> string \<Rightarrow> 'b request \<Rightarrow> string option" where
  "text_failure clean what r =
     (case r of Inl e \<Rightarrow> Some e | Inr rp \<Rightarrow> if rp_ok rp then None else Some (text_error clean what rp))"

definition body_failure :: "(string \<Rightarrow> string) \<Rightarrow> string \<Rightarrow> 'b request \<Rightarrow> string option" where
  "body_failure clean what r =
     (case text_failure clean what r of
        Some e \<Rightarrow> Some e
      | None \<Rightarrow> (case r of Inr rp \<Rightarrow> (case rp_json rp of Inl e \<Rightarrow> Some e | Inr _ \<Rightarrow> None) | Inl e \<Rightarrow> Some e))"

definition with_body :: "('b \<Rightarrow> 's \<Rightarrow> 's) \<Rightarrow> 'b request \<Rightarrow> 's \<Rightarrow> 's" where
  "with_body f r s = (case r of Inr rp \<Rightarrow> (case rp_json rp of Inr b \<Rightarrow> f b s | Inl _ \<Rightarrow> s) | Inl _ \<Rightarrow> s)"

definition savePoll :: "TPPoll request \<Rightarrow> TPPage \<Rightarrow> TPPage" where
  "savePoll r p = finish (body_failure trim ''save'' r) (with_body set_poll r) p"

definition saveUplink :: "string \<Rightarrow> string \<Rightarrow> unit request \<Rightarrow> TPPage \<Rightarrow> TPPage" where
  "saveUplink i port r p =
     finish (text_failure trim ''save'' r)
       (\<lambda>p. p\<lparr>tpp_switches := map (\<lambda>s. if tp_id s = i then s\<lparr>tp_uplink_port := (if port = [] then None else Some port)\<rparr> else s)
            (tpp_switches p)\<rparr>) p"

record TPCreds =
  cr_ip :: string
  cr_username :: string
  cr_password :: "string option"

datatype TPCall = PatchSwitch string TPCreds | AddSwitch TPCreds

definition creds_body :: "TPPage \<Rightarrow> TPCreds" where
  "creds_body p = \<lparr>cr_ip = trim (tpp_formIP p), cr_username = or_default (trim (tpp_formUser p)) ''admin'',
     cr_password = (if tpp_formPass p = [] then None else Some (tpp_formPass p))\<rparr>"

definition creds_call :: "TPPage \<Rightarrow> string + TPCall" where
  "creds_call p =
     (if truthy (tpp_editID p) then Inr (PatchSwitch (opt_str (tpp_editID p)) (creds_body p))
      else if trim (tpp_formPass p) = [] then Inl ''password required''
      else Inr (AddSwitch (creds_body p)))"

text \<open>The end of \<open>saveCreds\<close>, for the call that it made at the click.\<close>

definition creds_failure :: "string + TPCall \<Rightarrow> unit request \<times> tp_load_answers \<Rightarrow> string option" where
  "creds_failure call r =
     (case call of
        Inl e \<Rightarrow> Some e
      | Inr _ \<Rightarrow> (case text_failure trim ''save'' (fst r) of Some e \<Rightarrow> Some e | None \<Rightarrow> tp_load_failure (snd r)))"

definition creds_saved :: "TPCall \<Rightarrow> TPPage \<Rightarrow> TPPage" where
  "creds_saved call p =
     (case call of
        PatchSwitch _ _ \<Rightarrow> resetAddForm (p\<lparr>tpp_editID := None\<rparr>)
      | AddSwitch _ \<Rightarrow> resetAddForm (p\<lparr>tpp_showAdd := False\<rparr>))"

definition saveCreds :: "string + TPCall \<Rightarrow> unit request \<times> tp_load_answers \<Rightarrow> TPPage \<Rightarrow> TPPage" where
  "saveCreds call r p =
     (case call of
        Inl e \<Rightarrow> tp_idle (tp_fail e p)
      | Inr c \<Rightarrow> finish (text_failure trim ''save'' (fst r)) (\<lambda>p. tp_load (snd r) (creds_saved c p)) p)"

definition delete_failure :: "unit request \<Rightarrow> string option" where
  "delete_failure r =
     (case r of
        Inl e \<Rightarrow> Some e
      | Inr rp \<Rightarrow> if \<not> rp_ok rp \<and> rp_status rp \<noteq> 204 then Some (status_text ''delete'' rp) else None)"

definition tp_remove :: "string \<Rightarrow> string option \<Rightarrow> unit request \<times> tp_load_answers \<Rightarrow> TPPage \<Rightarrow> TPPage" where
  "tp_remove i editID r p =
     finish (delete_failure (fst r)) (\<lambda>p. tp_load (snd r) (if editID = Some i then cancelEdit p else p)) p"

record TPTest =
  tt_ok :: "bool option"
  tt_error :: "string option"
  tt_model :: "string option"

definition test_click :: "TPPage \<Rightarrow> TPPage" where
  "test_click p = p\<lparr>tpp_busy := True, tpp_error := None, tpp_testMsg := None\<rparr>"

definition json_only_failure :: "'b request \<Rightarrow> string option" where
  "json_only_failure r = (case r of Inl e \<Rightarrow> Some e | Inr rp \<Rightarrow> (case rp_json rp of Inl e \<Rightarrow> Some e | Inr _ \<Rightarrow> None))"

definition tp_test :: "TPTest request \<Rightarrow> TPPage \<Rightarrow> TPPage" where
  "tp_test r p =
     finish (json_only_failure r)
       (with_body (\<lambda>j p. p\<lparr>tpp_testMsg := Some (if tt_ok j \<noteq> Some True then or_default (opt_str (tt_error j)) ''failed''
                                               else or_default (opt_str (tt_model j)) ''ok'')\<rparr>) r) p"

definition canSaveAdd :: "TPPage \<Rightarrow> bool" where
  "canSaveAdd p \<longleftrightarrow> trim (tpp_formIP p) \<noteq> [] \<and> trim (tpp_formPass p) \<noteq> []"

definition canSaveEdit :: "TPPage \<Rightarrow> bool" where
  "canSaveEdit p \<longleftrightarrow> trim (tpp_formIP p) \<noteq> []"

text \<open>Every action of the page has the shape of an action.\<close>

lemma finish_simps [simp]:
  "\<not> tpp_busy (finish e f p)"
  "tpp_error (finish e f p) = (case e of Some m \<Rightarrow> Some m | None \<Rightarrow> tpp_error (f p))"
  by (auto simp: finish_def tp_idle_def tp_fail_def split: option.splits)

lemma with_body_frame: "(\<And>b s. g (f b s) = g s) \<Longrightarrow> g (with_body f r s) = g s"
  by (auto simp: with_body_def split: sum.splits)

lemma tp_clicked: "tpp_busy (tp_click p)" "tpp_error (tp_click p) = None"
  by (simp_all add: tp_click_def)

lemma reset_error [simp]: "tpp_error (resetAddForm p) = None" "tpp_error (creds_saved c p) = None" "tpp_error (cancelEdit p) = None"
  by (simp_all add: resetAddForm_def creds_saved_def cancelEdit_def split: TPCall.splits)

interpretation tp_save_poll: page_action tpp_busy tpp_error tp_click savePoll "body_failure trim ''save''"
  by unfold_locales (simp_all add: tp_clicked savePoll_def with_body_frame [where g = tpp_error] set_poll_def split: option.splits)

interpretation tp_save_uplink: page_action tpp_busy tpp_error tp_click "saveUplink i port" "text_failure trim ''save''" for i port
  by unfold_locales (simp_all add: tp_clicked saveUplink_def split: option.splits)

interpretation tp_save_creds: page_action tpp_busy tpp_error tp_click "saveCreds call" "creds_failure call" for call
  by unfold_locales (auto simp: tp_clicked saveCreds_def creds_failure_def tp_idle_def tp_fail_def split: option.splits sum.splits)

interpretation tp_delete: page_action tpp_busy tpp_error tp_click "tp_remove i editID"
    "\<lambda>r. case delete_failure (fst r) of Some e \<Rightarrow> Some e | None \<Rightarrow> tp_load_failure (snd r)" for i editID
  by unfold_locales (auto simp: tp_clicked tp_remove_def split: option.splits)

interpretation tp_probe: page_action tpp_busy tpp_error test_click tp_test json_only_failure
  by unfold_locales (simp_all add: test_click_def tp_test_def with_body_frame [where g = tpp_error] split: option.splits)

section \<open>Pairing with the box\<close>

datatype PairStep = Overview | Risk | PairForm | Working

record PairStatus =
  ps_paired :: bool
  ps_state :: string
  ps_box_ip :: "string option"
  ps_gid_hint :: "string option"
  ps_email :: "string option"
  ps_device_name :: "string option"
  ps_paired_at :: "string option"
  ps_last_ping_ok :: "bool option"
  ps_last_ping_at :: "string option"
  ps_last_error :: "string option"
  ps_secrets_ready :: bool

record PairPage =
  pg_status :: "PairStatus option"
  pg_error :: "string option"
  pg_busy :: bool
  pg_checking :: bool
  pg_step :: PairStep
  pg_ack :: bool
  pg_qrJson :: string
  pg_boxIP :: string
  pg_email :: string
  pg_deviceName :: string
  pg_pinging :: bool

text \<open>The body of an answer: the status itself, an error, or a status inside.\<close>

record PairBody =
  pb_self :: PairStatus
  pb_error :: "string option"
  pb_status :: "PairStatus option"

definition pair_load :: "PairStatus request \<Rightarrow> PairPage \<Rightarrow> PairPage" where
  "pair_load r p =
     (case r of
        Inl e \<Rightarrow> p\<lparr>pg_error := Some e\<rparr>
      | Inr rp \<Rightarrow>
          if \<not> rp_ok rp then p\<lparr>pg_error := Some (status_text ''status'' rp)\<rparr>
          else case rp_json rp of
            Inl e \<Rightarrow> p\<lparr>pg_error := Some e\<rparr>
          | Inr st \<Rightarrow> p\<lparr>pg_status := Some st, pg_error := None\<rparr>)"

definition probe_click :: "PairPage \<Rightarrow> PairPage" where
  "probe_click p = (if pg_pinging p then p else p\<lparr>pg_pinging := True, pg_checking := True\<rparr>)"

text \<open>The answer to the ping; when it fails without a status the status is loaded, in the middle or after the error.\<close>

definition probe_answer :: "PairBody request \<Rightarrow> PairStatus request \<Rightarrow> PairPage \<Rightarrow> PairPage" where
  "probe_answer r reload p =
     (let q = (case r of
          Inl e \<Rightarrow> pair_load reload (p\<lparr>pg_error := Some e\<rparr>)
        | Inr rp \<Rightarrow>
            (case rp_json rp of
               Inl e \<Rightarrow> pair_load reload (p\<lparr>pg_error := Some e\<rparr>)
             | Inr body \<Rightarrow>
                 let p1 = (case pb_status body of
                        Some st \<Rightarrow> p\<lparr>pg_status := Some st\<rparr>
                      | None \<Rightarrow> if rp_ok rp then p\<lparr>pg_status := Some (pb_self body)\<rparr> else pair_load reload p)
                 in p1\<lparr>pg_error := (if \<not> rp_ok rp then Some (or_default (opt_str (pb_error body)) (status_text ''ping'' rp)) else None)\<rparr>))
      in q\<lparr>pg_pinging := False, pg_checking := False\<rparr>)"

definition pair_click :: "PairPage \<Rightarrow> PairPage" where
  "pair_click p = p\<lparr>pg_busy := True, pg_error := None, pg_step := Working\<rparr>"

record PairRequest =
  pq_qr_json :: string
  pq_box_ip :: string
  pq_email :: string
  pq_device_name :: string

definition pair_request :: "PairPage \<Rightarrow> string + PairRequest" where
  "pair_request p =
     (let parsed = trim (pg_qrJson p) in
      if JSON_parse parsed = None then Inl ''QR must be valid JSON''
      else if trim (pg_boxIP p) = [] then Inl ''Box LAN IP required''
      else if trim (pg_email p) = [] then Inl ''Email required''
      else Inr \<lparr>pq_qr_json = parsed, pq_box_ip = trim (pg_boxIP p), pq_email = trim (pg_email p),
                pq_device_name = or_default (trim (pg_deviceName p)) ''FireProxy''\<rparr>)"

definition pair_failed :: "string \<Rightarrow> PairPage \<Rightarrow> PairPage" where
  "pair_failed e p = p\<lparr>pg_error := Some e, pg_step := PairForm, pg_busy := False\<rparr>"

definition pair_failure :: "string + PairRequest \<Rightarrow> PairBody request \<Rightarrow> string option" where
  "pair_failure req r =
     (case req of
        Inl e \<Rightarrow> Some e
      | Inr _ \<Rightarrow>
          (case r of
             Inl e \<Rightarrow> Some e
           | Inr rp \<Rightarrow>
               (case rp_json rp of
                  Inl e \<Rightarrow> Some e
                | Inr body \<Rightarrow>
                    if \<not> rp_ok rp then Some (or_default (opt_str (pb_error body)) (status_text ''pair'' rp)) else None)))"

definition pair_answer :: "string + PairRequest \<Rightarrow> PairBody request \<Rightarrow> PairPage \<Rightarrow> PairPage" where
  "pair_answer req r p =
     (case pair_failure req r of
        Some e \<Rightarrow>
          pair_failed e (case (req, r) of
              (Inr _, Inr rp) \<Rightarrow>
                (case rp_json rp of
                   Inr body \<Rightarrow> (case pb_status body of Some st \<Rightarrow> p\<lparr>pg_status := Some st\<rparr> | None \<Rightarrow> p)
                 | Inl _ \<Rightarrow> p)
            | _ \<Rightarrow> p)
      | None \<Rightarrow>
          (with_body (\<lambda>body p. p\<lparr>pg_status := Some (pb_self body)\<rparr>) r p)
            \<lparr>pg_step := Overview, pg_ack := False, pg_qrJson := [], pg_busy := False\<rparr>)"

definition unpair_click :: "PairPage \<Rightarrow> PairPage" where
  "unpair_click p = p\<lparr>pg_busy := True, pg_error := None\<rparr>"

definition unpair_failure :: "PairStatus request \<Rightarrow> string option" where
  "unpair_failure r =
     (case r of
        Inl e \<Rightarrow> Some e
      | Inr rp \<Rightarrow> if \<not> rp_ok rp then Some (status_text ''unpair'' rp)
          else (case rp_json rp of Inl e \<Rightarrow> Some e | Inr _ \<Rightarrow> None))"

definition unpair_answer :: "PairStatus request \<Rightarrow> PairPage \<Rightarrow> PairPage" where
  "unpair_answer r p =
     (case unpair_failure r of
        Some e \<Rightarrow> p\<lparr>pg_error := Some e, pg_busy := False\<rparr>
      | None \<Rightarrow> (with_body (\<lambda>st p. p\<lparr>pg_status := Some st\<rparr>) r p)\<lparr>pg_step := Overview, pg_busy := False\<rparr>)"

definition stateLabel :: "bool \<Rightarrow> PairPage \<Rightarrow> string" where
  "stateLabel enabled p =
     (let state = (case pg_status p of Some st \<Rightarrow> ps_state st | None \<Rightarrow> []);
          paired = (case pg_status p of Some st \<Rightarrow> ps_paired st | None \<Rightarrow> False)
      in if \<not> enabled then ''Off''
         else if pg_checking p \<and> paired then ''Checking'' @ [CHR 0xE2, CHR 0x80, CHR 0xA6]
         else if state = ''lan-ok'' then ''LAN OK''
         else if state = ''lan-down'' then ''LAN down''
         else if state = ''ready'' then ''Paired''
         else if state = ''error'' then ''Error''
         else ''Not paired'')"

interpretation pairing: page_action pg_busy pg_error pair_click "pair_answer req" "pair_failure req" for req
  by unfold_locales
    (auto simp: pair_click_def pair_answer_def pair_failed_def with_body_frame [where g = pg_error] split: option.splits)

interpretation unpairing: page_action pg_busy pg_error unpair_click unpair_answer unpair_failure
  by unfold_locales (auto simp: unpair_click_def unpair_answer_def with_body_frame [where g = pg_error] split: option.splits)

section \<open>Identity and access\<close>

record OIDCSettings =
  oi_name :: "string option"
  oi_issuer :: "string option"
  oi_client_id :: "string option"
  oi_redirect_uri :: "string option"
  oi_allowlist :: "string list option"
  oi_secret_set :: bool

record APIKeyRow =
  ak_id :: string
  ak_name :: string
  ak_scopes :: "string list"
  ak_created_at :: int
  ak_last_used_at :: "int option"

record AgentCred =
  ac_id :: string
  ac_created_at :: int
  ac_last_used_at :: "int option"

definition SCOPES :: "string list" where
  "SCOPES = [''read'', ''write'', ''admin'']"

text \<open>\<open>text.split(/[\<backslash>n,]+/)\<close>: between separators, runs of which count as one; what is empty is dropped afterwards anyway.\<close>

definition is_sep :: "char \<Rightarrow> bool" where
  "is_sep c \<longleftrightarrow> c = CHR 0x0A \<or> c = CHR '',''"

function split_seps :: "string \<Rightarrow> string list" where
  "split_seps s =
     (let w = takeWhile (\<lambda>c. \<not> is_sep c) s; r = dropWhile (\<lambda>c. \<not> is_sep c) s
      in if r = [] then [w] else w # split_seps (dropWhile is_sep r))"
  by auto
termination
proof (relation "measure length")
  fix s w r :: string
  assume r: "r = dropWhile (\<lambda>c. \<not> is_sep c) s" and ne: "r \<noteq> []"
  then have "is_sep (hd r)" using hd_dropWhile [of "\<lambda>c. \<not> is_sep c" s] by simp
  with ne obtain c cs where c: "r = c # cs" "is_sep c" by (cases r) auto
  have "length (dropWhile is_sep r) \<le> length cs" using c by (simp add: length_dropWhile_le)
  moreover have "length r \<le> length s" by (simp add: r length_dropWhile_le)
  ultimately show "(dropWhile is_sep r, s) \<in> measure length" using c by simp
qed simp

definition parseAllowlist :: "string \<Rightarrow> string list" where
  "parseAllowlist t = filter (\<lambda>s. s \<noteq> []) (map trim (split_seps t))"

record IdentityPage =
  id_error :: "string option"
  id_busy :: bool
  id_oidcName :: string
  id_issuer :: string
  id_clientId :: string
  id_clientSecret :: string
  id_redirectURI :: string
  id_allowlistText :: string
  id_secretSet :: bool
  id_keyName :: string
  id_scopes :: "string \<Rightarrow> bool"
  id_keys :: "APIKeyRow list option"
  id_newToken :: "string option"
  id_agents :: "AgentCred list option"

type_synonym id_load_answers =
  "string + OIDCSettings Response \<times> APIKeyRow list option Response \<times> AgentCred list option Response"

definition set_oidc :: "string \<Rightarrow> OIDCSettings \<Rightarrow> IdentityPage \<Rightarrow> IdentityPage" where
  "set_oidc origin b p =
     p\<lparr>id_oidcName := opt_str (oi_name b), id_issuer := opt_str (oi_issuer b), id_clientId := opt_str (oi_client_id b),
       id_redirectURI := or_default (opt_trim (oi_redirect_uri b)) (origin @ ''/v1/auth/oidc/callback''),
       id_allowlistText := join [CHR 0x0A] (opt_list (oi_allowlist b)),
       id_secretSet := oi_secret_set b, id_clientSecret := []\<rparr>"

definition need_ok :: "string \<Rightarrow> 'b Response \<Rightarrow> string option" where
  "need_ok what r = (if rp_ok r then None else Some (text_error id what r))"

definition set_json :: "('b \<Rightarrow> 's \<Rightarrow> 's) \<Rightarrow> 'b Response \<Rightarrow> 's \<Rightarrow> string option \<times> 's" where
  "set_json f r s = (case rp_json r of Inl e \<Rightarrow> (Some e, s) | Inr b \<Rightarrow> (None, f b s))"

definition id_load_steps :: "string \<Rightarrow> id_load_answers \<Rightarrow> IdentityPage \<Rightarrow> string option \<times> IdentityPage" where
  "id_load_steps origin r p =
     (case r of
        Inl e \<Rightarrow> (Some e, p)
      | Inr (oidcR, keysR, agentsR) \<Rightarrow>
          (case first_error [need_ok ''oidc'' oidcR, need_ok ''api-keys'' keysR, need_ok ''agents'' agentsR] of
             Some e \<Rightarrow> (Some e, p)
           | None \<Rightarrow>
               then_do (set_json (\<lambda>b p. p\<lparr>id_agents := Some (opt_list b)\<rparr>) agentsR)
                 (then_do (set_json (\<lambda>b p. p\<lparr>id_keys := Some (opt_list b)\<rparr>) keysR)
                   (set_json (set_oidc origin) oidcR p))))"

definition id_load :: "string \<Rightarrow> id_load_answers \<Rightarrow> IdentityPage \<Rightarrow> IdentityPage" where
  "id_load origin r p =
     (case id_load_steps origin r (p\<lparr>id_error := None\<rparr>) of (None, q) \<Rightarrow> q | (Some e, q) \<Rightarrow> q\<lparr>id_error := Some e\<rparr>)"

definition id_click :: "IdentityPage \<Rightarrow> IdentityPage" where
  "id_click p = p\<lparr>id_busy := True, id_error := None\<rparr>"

record OIDCRequest =
  oq_name :: string
  oq_issuer :: string
  oq_client_id :: string
  oq_redirect_uri :: string
  oq_allowlist :: "string list"
  oq_client_secret :: "string option"

definition oidc_request :: "IdentityPage \<Rightarrow> OIDCRequest" where
  "oidc_request p = \<lparr>oq_name = trim (id_oidcName p), oq_issuer = trim (id_issuer p), oq_client_id = trim (id_clientId p),
     oq_redirect_uri = trim (id_redirectURI p), oq_allowlist = parseAllowlist (id_allowlistText p),
     oq_client_secret = (let c = trim (id_clientSecret p) in if c = [] then None else Some c)\<rparr>"

text \<open>Saving the settings of the sign-in ends the session: the page stays busy and a notice is left for the page of the login.\<close>

definition saveOIDC :: "unit request \<Rightarrow> IdentityPage \<Rightarrow> IdentityPage \<times> bool" where
  "saveOIDC r p =
     (case text_failure id ''save'' r of
        Some e \<Rightarrow> (p\<lparr>id_error := Some e, id_busy := False\<rparr>, False)
      | None \<Rightarrow> (p, True))"

definition key_click :: "IdentityPage \<Rightarrow> IdentityPage" where
  "key_click p = p\<lparr>id_busy := True, id_error := None, id_newToken := None\<rparr>"

definition canCreateKey :: "IdentityPage \<Rightarrow> bool" where
  "canCreateKey p \<longleftrightarrow> trim (id_keyName p) \<noteq> [] \<and> (\<exists>s \<in> set SCOPES. id_scopes p s)"

definition key_request :: "IdentityPage \<Rightarrow> string \<times> string list" where
  "key_request p = (trim (id_keyName p), filter (id_scopes p) SCOPES)"

definition key_created :: "string option \<Rightarrow> IdentityPage \<Rightarrow> IdentityPage" where
  "key_created token p =
     p\<lparr>id_newToken := (if truthy token then token else id_newToken p), id_keyName := [], id_scopes := (\<lambda>s. s = ''read'')\<rparr>"

definition createKey :: "string \<Rightarrow> string option request \<times> id_load_answers \<Rightarrow> IdentityPage \<Rightarrow> IdentityPage" where
  "createKey origin r p =
     (case body_failure id ''create'' (fst r) of
        Some e \<Rightarrow> p\<lparr>id_error := Some e\<rparr>
      | None \<Rightarrow> id_load origin (snd r) (with_body key_created (fst r) p))\<lparr>id_busy := False\<rparr>"

definition revoke_failure :: "unit request \<Rightarrow> string option" where
  "revoke_failure r =
     (case r of
        Inl e \<Rightarrow> Some e
      | Inr rp \<Rightarrow> if \<not> rp_ok rp \<and> rp_status rp \<noteq> 204 then Some (text_error id ''revoke'' rp) else None)"

text \<open>Revoking a key and revoking the credential of an agent differ in the address of the request only.\<close>

definition revoke :: "string \<Rightarrow> unit request \<times> id_load_answers \<Rightarrow> IdentityPage \<Rightarrow> IdentityPage" where
  "revoke origin r p =
     (case revoke_failure (fst r) of
        Some e \<Rightarrow> p\<lparr>id_error := Some e\<rparr>
      | None \<Rightarrow> id_load origin (snd r) p)\<lparr>id_busy := False\<rparr>"

definition id_load_failure :: "id_load_answers \<Rightarrow> string option" where
  "id_load_failure r =
     (case r of
        Inl e \<Rightarrow> Some e
      | Inr (oidcR, keysR, agentsR) \<Rightarrow>
          first_error [need_ok ''oidc'' oidcR, need_ok ''api-keys'' keysR, need_ok ''agents'' agentsR,
            (case rp_json oidcR of Inl e \<Rightarrow> Some e | Inr _ \<Rightarrow> None),
            (case rp_json keysR of Inl e \<Rightarrow> Some e | Inr _ \<Rightarrow> None),
            (case rp_json agentsR of Inl e \<Rightarrow> Some e | Inr _ \<Rightarrow> None)])"

lemma set_json_error: "fst (set_json f r s) = (case rp_json r of Inl e \<Rightarrow> Some e | Inr _ \<Rightarrow> None)"
  by (simp add: set_json_def split: sum.splits)

lemma set_json_frame: "(\<And>b s. g (f b s) = g s) \<Longrightarrow> g (snd (set_json f r s)) = g s"
  by (auto simp: set_json_def split: sum.splits)

lemma first_error_Nil [simp]: "first_error [] = None"
  by (simp add: first_error_def)

lemma first_error_Cons [simp]: "first_error (x # xs) = (case x of None \<Rightarrow> first_error xs | Some e \<Rightarrow> Some e)"
  by (auto simp: first_error_def split: option.splits)

lemma id_load_steps_error: "fst (id_load_steps origin r p) = id_load_failure r"
  by (auto simp: id_load_steps_def id_load_failure_def then_do_error [OF set_json_error] set_json_error
      split: sum.splits option.splits)

lemma id_load_steps_frame:
  assumes "\<And>b s. g (set_oidc origin b s) = g s" "\<And>b s. g (s\<lparr>id_keys := b\<rparr>) = g s" "\<And>b s. g (s\<lparr>id_agents := b\<rparr>) = g s"
  shows "g (snd (id_load_steps origin r p)) = g p"
  by (simp add: id_load_steps_def set_json_frame [where g = g] then_do_frame [where g = g] assms
      split: sum.split prod.split option.split)

lemma id_load_error [simp]: "id_error (id_load origin r p) = id_load_failure r"
proof -
  have "id_error (snd (id_load_steps origin r (p\<lparr>id_error := None\<rparr>))) = None"
    by (subst id_load_steps_frame [where g = id_error]) (simp_all add: set_oidc_def)
  then show ?thesis
    using id_load_steps_error [of origin r "p\<lparr>id_error := None\<rparr>"]
    by (cases "id_load_steps origin r (p\<lparr>id_error := None\<rparr>)") (auto simp: id_load_def split: option.splits)
qed

interpretation key_creation: page_action id_busy id_error key_click "createKey origin"
    "\<lambda>r. case body_failure id ''create'' (fst r) of Some e \<Rightarrow> Some e | None \<Rightarrow> id_load_failure (snd r)" for origin
  by unfold_locales (auto simp: key_click_def createKey_def split: option.splits)

interpretation revocation: page_action id_busy id_error id_click "revoke origin"
    "\<lambda>r. case revoke_failure (fst r) of Some e \<Rightarrow> Some e | None \<Rightarrow> id_load_failure (snd r)" for origin
  by unfold_locales (auto simp: id_click_def revoke_def split: option.splits)

section \<open>Features and DNS\<close>

record Feature =
  ft_id :: string
  ft_label :: string
  ft_enabled :: bool
  ft_writable :: bool
  ft_confirm :: bool

record FeaturesView =
  fv_state :: string
  fv_features :: "Feature list"
  fv_unbound_summary :: string
  fv_doh_enabled :: bool
  fv_doh_selected :: "string list"
  fv_config_writable :: bool

text \<open>What the server sends, of which each part may be missing, null or of another type (none of the three is told apart).\<close>

record FeaturesResponse =
  fb_status :: "string option option"
  fb_features :: "Feature list option"
  fb_unbound_summary :: "string option"
  fb_doh_enabled :: "bool option"
  fb_doh_selected :: "string list option"
  fb_config_writable :: "bool option"
  fb_error :: "string option"

definition normalizeFeaturesView :: "FeaturesResponse \<Rightarrow> FeaturesView" where
  "normalizeFeaturesView b =
     \<lparr>fv_state = (case fb_status b of Some s \<Rightarrow> opt_str s | None \<Rightarrow> []), fv_features = opt_list (fb_features b),
      fv_unbound_summary = opt_str (fb_unbound_summary b), fv_doh_enabled = (fb_doh_enabled b = Some True),
      fv_doh_selected = opt_list (fb_doh_selected b), fv_config_writable = (fb_config_writable b = Some True)\<rparr>"

definition no_features :: FeaturesResponse where
  "no_features = \<lparr>fb_status = None, fb_features = None, fb_unbound_summary = None, fb_doh_enabled = None,
     fb_doh_selected = None, fb_config_writable = None, fb_error = None\<rparr>"

definition statusLabel :: "string \<Rightarrow> string" where
  "statusLabel state =
     (if state = ''lan-down'' then ''LAN down''
      else if state = ''error'' then ''Control error''
      else if state = ''unpaired'' then ''Not paired''
      else or_default state ''Control unavailable'')"

record FeaturesPage =
  fp_view :: "FeaturesView option"
  fp_error :: "string option"
  fp_loading :: bool
  fp_busy :: bool

text \<open>A refused request may still tell the state of the connection.\<close>

definition refused_status :: "FeaturesResponse \<Rightarrow> FeaturesPage \<Rightarrow> FeaturesPage" where
  "refused_status b p =
     (case fb_status b of
        None \<Rightarrow> p
      | Some s \<Rightarrow>
          let state = fv_state (normalizeFeaturesView (no_features\<lparr>fb_status := Some s\<rparr>))
          in p\<lparr>fp_view := Some (case fp_view p of Some v \<Rightarrow> v\<lparr>fv_state := state\<rparr>
                | None \<Rightarrow> normalizeFeaturesView (no_features\<lparr>fb_status := Some (Some state)\<rparr>))\<rparr>)"

definition features_body :: "FeaturesResponse Response \<Rightarrow> FeaturesResponse" where
  "features_body rp = (case rp_json rp of Inr b \<Rightarrow> b | Inl _ \<Rightarrow> no_features)"

definition features_failure :: "string \<Rightarrow> FeaturesResponse request \<Rightarrow> string option" where
  "features_failure what r =
     (case r of
        Inl e \<Rightarrow> Some e
      | Inr rp \<Rightarrow> if rp_ok rp then None else Some (or_default (opt_str (fb_error (features_body rp))) (status_text what rp)))"

definition features_answer :: "string \<Rightarrow> FeaturesResponse request \<Rightarrow> FeaturesPage \<Rightarrow> FeaturesPage" where
  "features_answer what r p =
     (case r of
        Inl e \<Rightarrow> p\<lparr>fp_error := Some e\<rparr>
      | Inr rp \<Rightarrow>
          if rp_ok rp then p\<lparr>fp_view := Some (normalizeFeaturesView (features_body rp))\<rparr>
          else (refused_status (features_body rp) p)\<lparr>fp_error := features_failure what r\<rparr>)"

definition features_load_click :: "FeaturesPage \<Rightarrow> FeaturesPage" where
  "features_load_click p = p\<lparr>fp_loading := True, fp_error := None\<rparr>"

definition features_load :: "FeaturesResponse request \<Rightarrow> FeaturesPage \<Rightarrow> FeaturesPage" where
  "features_load r p = (features_answer ''features'' r p)\<lparr>fp_loading := False\<rparr>"

definition toggle_click :: "FeaturesPage \<Rightarrow> FeaturesPage" where
  "toggle_click p = p\<lparr>fp_busy := True, fp_error := None\<rparr>"

definition toggle_feature :: "Feature \<Rightarrow> bool \<Rightarrow> bool \<Rightarrow> FeaturesPage \<Rightarrow> FeaturesPage \<times> (string \<times> bool) option" where
  "toggle_feature feature enabled confirmed p =
     (if fp_busy p \<or> map_option fv_state (fp_view p) \<noteq> Some ''lan-ok'' \<or> \<not> ft_writable feature then (p, None)
      else if ft_confirm feature \<and> \<not> confirmed then (p, None)
      else (toggle_click p, Some (ft_id feature, enabled)))"

definition toggle_answer :: "FeaturesResponse request \<Rightarrow> FeaturesPage \<Rightarrow> FeaturesPage" where
  "toggle_answer r p = (features_answer ''save'' r p)\<lparr>fp_busy := False\<rparr>"

lemma refused_error [simp]: "fp_error (refused_status b p) = fp_error p"
  by (simp add: refused_status_def Let_def split: option.splits)

lemma features_answer_error: "fp_error (features_answer what r p) = (case features_failure what r of Some e \<Rightarrow> Some e | None \<Rightarrow> fp_error p)"
  by (simp add: features_answer_def features_failure_def split: sum.splits)

interpretation features_page: page_action fp_loading fp_error features_load_click features_load "features_failure ''features''"
  by unfold_locales (simp_all add: features_load_click_def features_load_def features_answer_error split: option.splits)

interpretation feature_toggle: page_action fp_busy fp_error toggle_click toggle_answer "features_failure ''save''"
  by unfold_locales (simp_all add: toggle_click_def toggle_answer_def features_answer_error split: option.splits)

section \<open>Modules and the synchronisation of names\<close>

record SettingsPage =
  stg_mods :: "ModuleInfo list option"
  stg_agentOnline :: bool
  stg_error :: "string option"
  stg_rows :: "NameSyncRow list option"
  stg_excluded :: "NameSyncRow list"
  stg_rowsHint :: "string option"
  stg_busy :: bool

type_synonym modules_body = "ModuleInfo list option"

definition stg_fail :: "string \<Rightarrow> SettingsPage \<Rightarrow> SettingsPage" where
  "stg_fail e p = p\<lparr>stg_error := Some e\<rparr>"

text \<open>The poll of the modules and of the agent. A page that was left takes nothing in.\<close>

definition settings_load :: "bool \<Rightarrow> string + modules_body Response \<times> bool option Response \<Rightarrow> SettingsPage \<Rightarrow> SettingsPage" where
  "settings_load cancelled r p =
     (if cancelled then p
      else case r of
        Inl e \<Rightarrow> stg_fail e p
      | Inr (modR, agentR) \<Rightarrow>
          if \<not> rp_ok modR then stg_fail (status_text ''modules'' modR) p
          else case rp_json modR of
            Inl e \<Rightarrow> stg_fail e p
          | Inr mods \<Rightarrow>
              let q = p\<lparr>stg_mods := Some (opt_list mods)\<rparr>
              in if rp_ok agentR
                 then (case rp_json agentR of
                         Inl e \<Rightarrow> stg_fail e q
                       | Inr online \<Rightarrow> q\<lparr>stg_agentOnline := (online = Some True)\<rparr>)
                 else q)"

definition no_rows :: "string \<Rightarrow> SettingsPage \<Rightarrow> SettingsPage" where
  "no_rows hint p = p\<lparr>stg_rows := Some [], stg_excluded := [], stg_rowsHint := Some hint\<rparr>"

definition loadRows :: "bool \<Rightarrow> bool \<Rightarrow> NameSyncView request \<Rightarrow> SettingsPage \<Rightarrow> SettingsPage" where
  "loadRows enabled moduleOn r p =
     (if \<not> enabled then p\<lparr>stg_rows := None, stg_excluded := [], stg_rowsHint := None\<rparr>
      else if \<not> moduleOn then no_rows ''Enable UniFi'' p
      else case r of
        Inl e \<Rightarrow> no_rows e p
      | Inr rp \<Rightarrow>
          if rp_status rp = 404 then
            (case rp_text rp of
               Inl e \<Rightarrow> no_rows e p
             | Inr t \<Rightarrow> no_rows (if str_includes (trim t) ''devices'' then ''No devices yet'' else ''Enable UniFi'') p)
          else if rp_status rp = 503 then
            (case rp_text rp of Inl e \<Rightarrow> no_rows e p | Inr t \<Rightarrow> no_rows (or_default (trim t) ''UniFi down'') p)
          else if \<not> rp_ok rp then no_rows (status_text ''name-sync'' rp) p
          else (case rp_json rp of
                  Inl e \<Rightarrow> no_rows e p
                | Inr v \<Rightarrow> p\<lparr>stg_rows := Some (nsv_rows v), stg_excluded := opt_list (nsv_excluded v), stg_rowsHint := None\<rparr>))"

definition set_enabled :: "string \<Rightarrow> bool \<Rightarrow> ModuleInfo list \<Rightarrow> ModuleInfo list" where
  "set_enabled i enabled mods = map (\<lambda>m. if mi_id m = i then m\<lparr>mi_enabled := enabled\<rparr> else m) mods"

text \<open>Switching a module: shown at once, taken back from the list of the click when the request fails.\<close>

definition toggle_module_click :: "string \<Rightarrow> bool \<Rightarrow> SettingsPage \<Rightarrow> SettingsPage" where
  "toggle_module_click i enabled p =
     p\<lparr>stg_error := None, stg_mods := map_option (set_enabled i enabled) (stg_mods p)\<rparr>"

definition module_failure :: "modules_body request \<Rightarrow> string option" where
  "module_failure r =
     (case r of
        Inl e \<Rightarrow> Some e
      | Inr rp \<Rightarrow> if \<not> rp_ok rp then Some (status_text ''save'' rp)
          else (case rp_json rp of Inl e \<Rightarrow> Some e | Inr _ \<Rightarrow> None))"

definition toggle_module_answer ::
  "ModuleInfo list option \<Rightarrow> string \<Rightarrow> bool \<Rightarrow> modules_body request \<Rightarrow> SettingsPage \<Rightarrow> SettingsPage" where
  "toggle_module_answer clicked i enabled r p =
     (case module_failure r of
        Some e \<Rightarrow>
          p\<lparr>stg_mods := (case clicked of
                 Some mods \<Rightarrow> Some (set_enabled i (\<not> enabled) mods)
               | None \<Rightarrow> map_option (set_enabled i (\<not> enabled)) (stg_mods p)),
            stg_error := Some e\<rparr>
      | None \<Rightarrow> with_body (\<lambda>b p. p\<lparr>stg_mods := Some (opt_list b)\<rparr>) r p)"

record NameSyncPatch =
  np_enabled :: "bool option"
  np_auto :: "bool option"
  np_exclude_add :: "mac list"
  np_exclude_remove :: "mac list"

record NameSyncBody =
  nb_enabled :: "bool option"
  nb_auto :: "bool option"

definition set_sync :: "NameSyncBody \<Rightarrow> ModuleInfo list \<Rightarrow> ModuleInfo list" where
  "set_sync b mods =
     map (\<lambda>m. if mi_id m = ''unifi-sync''
              then m\<lparr>mi_name_sync_enabled := Some (nb_enabled b = Some True), mi_name_sync_auto := Some (nb_auto b = Some True)\<rparr>
              else m) mods"

definition sync_ready :: "modules_body \<Rightarrow> bool" where
  "sync_ready mods = (case find (\<lambda>m. mi_id m = ''unifi-sync'') (opt_list mods) of
     Some u \<Rightarrow> mi_enabled u \<and> mi_name_sync_enabled u = Some True | None \<Rightarrow> False)"

text \<open>The change of the synchronisation: the answer, then the modules, then the rows if the module is ready for them. After an error
  the modules are loaded again; a rejection of that last request is passed on (\<open>Some\<close>).\<close>

definition name_sync_failed :: "string \<Rightarrow> modules_body request \<Rightarrow> SettingsPage \<Rightarrow> string option \<times> SettingsPage" where
  "name_sync_failed e again p =
     (case again of
        Inl e' \<Rightarrow> (Some e', stg_fail e p)
      | Inr rp \<Rightarrow>
          if rp_ok rp then
            (case rp_json rp of
               Inl e' \<Rightarrow> (Some e', stg_fail e p)
             | Inr b \<Rightarrow> (None, (stg_fail e p)\<lparr>stg_mods := Some (opt_list b)\<rparr>))
          else (None, stg_fail e p))"

definition name_sync_failure :: "NameSyncBody request \<Rightarrow> string option" where
  "name_sync_failure r =
     (case r of
        Inl e \<Rightarrow> Some e
      | Inr rp \<Rightarrow> if \<not> rp_ok rp then Some (status_text ''name-sync'' rp)
          else (case rp_json rp of Inl e \<Rightarrow> Some e | Inr _ \<Rightarrow> None))"

definition setNameSync ::
  "NameSyncPatch \<Rightarrow> NameSyncBody request \<Rightarrow> modules_body request \<Rightarrow> NameSyncView request \<Rightarrow> modules_body request \<Rightarrow>
     SettingsPage \<Rightarrow> string option \<times> SettingsPage" where
  "setNameSync patch r modR rowsR again p =
     (case name_sync_failure r of
        Some e \<Rightarrow> name_sync_failed e again p
      | None \<Rightarrow>
          let p1 = with_body (\<lambda>b p. p\<lparr>stg_mods := map_option (set_sync b) (stg_mods p)\<rparr>) r p in
          case json_only_failure modR of
            Some e \<Rightarrow> name_sync_failed e again p1
          | None \<Rightarrow>
              let p2 = with_body (\<lambda>b p. p\<lparr>stg_mods := Some (opt_list b)\<rparr>) modR p1;
                  ready = (case modR of Inr rp \<Rightarrow> (case rp_json rp of Inr b \<Rightarrow> sync_ready b | Inl _ \<Rightarrow> False) | Inl _ \<Rightarrow> False)
              in (None, if ready then loadRows True True rowsR p2
                        else if np_enabled patch = Some False then p2\<lparr>stg_rows := None, stg_excluded := []\<rparr>
                        else p2))"

definition apply_names :: "ModuleInfo option \<Rightarrow> SettingsPage \<Rightarrow> SettingsPage option" where
  "apply_names unifi p =
     (case unifi of
        Some u \<Rightarrow> if mi_enabled u \<and> mi_name_sync_enabled u = Some True then Some (p\<lparr>stg_busy := True, stg_error := None\<rparr>) else None
      | None \<Rightarrow> None)"

definition apply_answer :: "unit request \<times> NameSyncView request \<Rightarrow> SettingsPage \<Rightarrow> SettingsPage" where
  "apply_answer r p =
     (case text_failure trim ''apply'' (fst r) of
        Some e \<Rightarrow> stg_fail e p
      | None \<Rightarrow> loadRows True True (snd r) p)\<lparr>stg_busy := False\<rparr>"

definition names_click :: "SettingsPage \<Rightarrow> SettingsPage" where
  "names_click p = p\<lparr>stg_busy := True, stg_error := None\<rparr>"

definition exclude_answer ::
  "NameSyncPatch \<Rightarrow> NameSyncBody request \<times> modules_body request \<times> NameSyncView request \<times> modules_body request \<Rightarrow> SettingsPage \<Rightarrow> SettingsPage" where
  "exclude_answer patch r p =
     (case r of (put, modR, rowsR, again) \<Rightarrow> (snd (setNameSync patch put modR rowsR again p))\<lparr>stg_busy := False\<rparr>)"

section \<open>General settings\<close>

definition clampHistoryDays :: "jsnum \<Rightarrow> int" where
  "clampHistoryDays n =
     (case n of Num x \<Rightarrow> min 3650 (max 1 (if x < 0 then \<lceil>x\<rceil> else \<lfloor>x\<rfloor>)) | _ \<Rightarrow> 365)"

text \<open>A URL without the slash at its end.\<close>

definition clean_url :: "string \<Rightarrow> string" where
  "clean_url t = (let s = trim t in if s \<noteq> [] \<and> last s = CHR ''/'' then butlast s else s)"

record GeneralPage =
  ge_publicURL :: string
  ge_urlDirty :: bool
  ge_days :: jsnum
  ge_historyDays :: jsnum
  ge_err :: "string option"

definition plain_failure :: "string \<Rightarrow> 'b request \<Rightarrow> string option" where
  "plain_failure what r = (case r of Inl e \<Rightarrow> Some e | Inr rp \<Rightarrow> if rp_ok rp then None else Some (status_text what rp))"

definition saveURL :: "string \<Rightarrow> unit request \<Rightarrow> GeneralPage \<Rightarrow> GeneralPage" where
  "saveURL typed r p =
     (case plain_failure ''save'' r of
        Some e \<Rightarrow> p\<lparr>ge_err := Some e\<rparr>
      | None \<Rightarrow> p\<lparr>ge_publicURL := clean_url typed, ge_urlDirty := False\<rparr>)"

definition saveHistoryDays_click :: "jsnum \<Rightarrow> GeneralPage \<Rightarrow> GeneralPage \<times> int" where
  "saveHistoryDays_click n p =
     (p\<lparr>ge_err := None, ge_historyDays := Num (of_int (clampHistoryDays n))\<rparr>, clampHistoryDays n)"

definition saveHistoryDays :: "int option request \<Rightarrow> GeneralPage \<Rightarrow> GeneralPage" where
  "saveHistoryDays r p =
     (case plain_failure ''save'' r of
        Some e \<Rightarrow> p\<lparr>ge_err := Some e\<rparr>
      | None \<Rightarrow> (case r of
           Inr rp \<Rightarrow> (case rp_json rp of
               Inl e \<Rightarrow> p\<lparr>ge_err := Some e\<rparr>
             | Inr (Some d) \<Rightarrow> p\<lparr>ge_historyDays := Num (of_int d)\<rparr>
             | Inr None \<Rightarrow> p)
         | Inl _ \<Rightarrow> p))"

text \<open>The load of the general settings keeps what was read before an answer that breaks; it does not replace a URL that is being edited.\<close>

definition general_load ::
  "bool \<Rightarrow> bool \<Rightarrow> (string option Response \<times> int option Response \<times> int option Response) option \<Rightarrow> GeneralPage \<Rightarrow> GeneralPage" where
  "general_load cancelled urlDirty r p =
     (if cancelled then p
      else case r of
        None \<Rightarrow> p
      | Some (agentR, logsR, historyR) \<Rightarrow>
          let keep = (\<lambda>set d p. case d of Some n \<Rightarrow> if n \<noteq> 0 then set (Num (of_int n)) p else p | None \<Rightarrow> p);
              url = (\<lambda>u p. if truthy u \<and> \<not> urlDirty then p\<lparr>ge_publicURL := opt_str u\<rparr> else p)
          in snd (then_do (when_ok (keep (\<lambda>n p. p\<lparr>ge_historyDays := n\<rparr>)) historyR)
                   (then_do (when_ok (keep (\<lambda>n p. p\<lparr>ge_days := n\<rparr>)) logsR) (when_ok url agentR p))))"

definition saveDays_click :: "jsnum \<Rightarrow> GeneralPage \<Rightarrow> GeneralPage" where
  "saveDays_click n p = p\<lparr>ge_err := None, ge_days := n\<rparr>"

definition saveDays :: "unit request \<Rightarrow> GeneralPage \<Rightarrow> GeneralPage" where
  "saveDays r p = (case plain_failure ''save'' r of Some e \<Rightarrow> p\<lparr>ge_err := Some e\<rparr> | None \<Rightarrow> p)"

lemma edited_url_kept: "ge_publicURL (general_load cancelled True r p) = ge_publicURL p"
  by (auto simp: general_load_def Let_def then_do_def when_ok_def split: option.splits prod.splits sum.splits)

section \<open>Pairing\<close>

lemma with_body_ok: "pair_failure req r = None \<Longrightarrow> \<exists>q rp body. req = Inr q \<and> r = Inr rp \<and> rp_ok rp \<and> rp_json rp = Inr body"
  by (auto simp: pair_failure_def split: sum.splits if_splits)



section \<open>Actions end\<close>

text \<open>every action of the pages ends: after its answer the page is not busy, and the error it shows is exactly the failure of the
  action, so a failure is never hidden and no error of an earlier action stays. This holds for the sheets of a rule, for
  the page of the TP-Link switches (polling, uplink, credentials, deletion, test), for unpairing, for keys and
  for the features.\<close>

theorem settings_actions_settle:
  "(\<not> rs_working (sheet_answer (sheet_call_name c) r1 (sheet_click s1)) \<and>
      rs_err (sheet_answer (sheet_call_name c) r1 (sheet_click s1)) = sheet_failure (sheet_call_name c) r1) \<and>
   (\<not> tpp_busy (savePoll r2 (tp_click p)) \<and> tpp_error (savePoll r2 (tp_click p)) = body_failure trim ''save'' r2) \<and>
   (\<not> tpp_busy (saveUplink i port r3 (tp_click p)) \<and> tpp_error (saveUplink i port r3 (tp_click p)) = text_failure trim ''save'' r3) \<and>
   (\<not> tpp_busy (saveCreds call r4 (tp_click p)) \<and> tpp_error (saveCreds call r4 (tp_click p)) = creds_failure call r4) \<and>
   (\<not> tpp_busy (tp_test r5 (test_click p)) \<and> tpp_error (tp_test r5 (test_click p)) = json_only_failure r5) \<and>
   (\<not> pg_busy (unpair_answer r6 (unpair_click q)) \<and> pg_error (unpair_answer r6 (unpair_click q)) = unpair_failure r6) \<and>
   (\<not> id_busy (createKey u r7 (key_click k)) \<and> id_error (createKey u r7 (key_click k)) =
      (case body_failure id ''create'' (fst r7) of Some e \<Rightarrow> Some e | None \<Rightarrow> id_load_failure (snd r7))) \<and>
   (\<not> fp_busy (toggle_answer r8 (toggle_click f)) \<and> fp_error (toggle_answer r8 (toggle_click f)) = features_failure ''save'' r8)"
  by (intro conjI sheet.runs [THEN conjunct1] sheet.runs [THEN conjunct2] tp_save_poll.runs [THEN conjunct1]
      tp_save_poll.runs [THEN conjunct2] tp_save_uplink.runs [THEN conjunct1] tp_save_uplink.runs [THEN conjunct2]
      tp_save_creds.runs [THEN conjunct1] tp_save_creds.runs [THEN conjunct2] tp_probe.runs [THEN conjunct1]
      tp_probe.runs [THEN conjunct2] unpairing.runs [THEN conjunct1] unpairing.runs [THEN conjunct2]
      key_creation.runs [THEN conjunct1] key_creation.runs [THEN conjunct2] feature_toggle.runs [THEN conjunct1]
      feature_toggle.runs [THEN conjunct2])

section \<open>What may be sent\<close>

text \<open>A sheet sends a request only for what the box allows, and none while one is under way.\<close>

lemma pause_only_allowed:
  "snd (pause_rule caps rule busy s) = Some c \<Longrightarrow>
     c = PauseRule (fr_id rule) (\<not> fr_disabled rule) \<and> caps ''rule.pause'' \<and> fr_readOnly rule \<noteq> Some True \<and> \<not> is_timelimit rule \<and>
     \<not> rs_working s \<and> rs_working (fst (pause_rule caps rule busy s))"
  by (auto simp: pause_rule_def canPause_def is_timelimit_def sheet_click_def split: if_splits)

lemma remove_only_allowed:
  "snd (remove_rule caps rule busy confirmed s) = Some c \<Longrightarrow>
     c = DeleteRule (fr_id rule) \<and> confirmed \<and> caps ''rule.delete'' \<and> fr_readOnly rule \<noteq> Some True \<and> \<not> is_timelimit rule \<and>
     \<not> rs_working s \<and> rs_working (fst (remove_rule caps rule busy confirmed s))"
  by (auto simp: remove_rule_def canDelete_def is_timelimit_def sheet_click_def split: if_splits)

lemma working_sends_nothing:
  "rs_working s \<Longrightarrow> pause_rule caps rule busy s = (s, None) \<and> remove_rule caps rule busy ok s = (s, None) \<and> emergency on busy s = (s, None)"
  by (simp add: pause_rule_def remove_rule_def emergency_def)

lemma feature_only_ready:
  "snd (toggle_feature f on confirmed p) = Some c \<Longrightarrow>
     c = (ft_id f, on) \<and> map_option fv_state (fp_view p) = Some ''lan-ok'' \<and> ft_writable f \<and> (ft_confirm f \<longrightarrow> confirmed) \<and> \<not> fp_busy p"
  by (auto simp: toggle_feature_def split: if_splits)

lemma no_call_no_change: "snd (toggle_feature f on confirmed p) = None \<Longrightarrow> fst (toggle_feature f on confirmed p) = p"
  by (auto simp: toggle_feature_def split: if_splits)

text \<open>A refused change keeps what was known of the features.\<close>

lemma refused_keeps_features:
  assumes "fp_view p = Some v" "\<not> rp_ok rp"
  shows "\<exists>v'. fp_view (toggle_answer (Inr rp) p) = Some v' \<and> fv_features v' = fv_features v \<and> fv_doh_selected v' = fv_doh_selected v"
  using assms by (auto simp: toggle_answer_def features_answer_def refused_status_def Let_def split: option.splits)

section \<open>Modules\<close>

lemma set_enabled_undo:
  "\<forall>m \<in> set mods. mi_id m = i \<longrightarrow> mi_enabled m = b \<Longrightarrow> set_enabled i b mods = mods"
  by (auto simp: set_enabled_def intro!: map_idI)

lemma set_enabled_twice: "set_enabled i b (set_enabled i c mods) = set_enabled i b mods"
  by (auto simp: set_enabled_def)

text \<open>A refused switch of a module shows the error and leaves the list as it was at the click.\<close>

lemma module_rollback:
  assumes "module_failure r = Some e" and "\<forall>m \<in> set (opt_list (stg_mods p)). mi_id m = i \<longrightarrow> mi_enabled m = (\<not> on)"
  shows "toggle_module_answer (stg_mods p) i on r (toggle_module_click i on p) = p\<lparr>stg_error := Some e\<rparr>"
  using assms
  by (cases "stg_mods p") (auto simp: toggle_module_answer_def toggle_module_click_def opt_list_def set_enabled_undo)

text \<open>A poll between the click and the refusal is overwritten by the list of the click.\<close>

lemma module_rollback_stale:
  assumes "module_failure r = Some e" and "stg_mods p = Some mods"
  shows "stg_mods (toggle_module_answer (stg_mods p) i on r q) = Some (set_enabled i (\<not> on) mods)"
  using assms by (simp add: toggle_module_answer_def)

section \<open>Fields\<close>

lemma clampHistoryDays_range: "1 \<le> clampHistoryDays n \<and> clampHistoryDays n \<le> 3650"
  by (cases n) (auto simp: clampHistoryDays_def)

lemma clampHistoryDays_id: "1 \<le> n \<Longrightarrow> n \<le> 3650 \<Longrightarrow> clampHistoryDays (Num (of_int n)) = n"
  by (simp add: clampHistoryDays_def)

lemma notch_fold:
  assumes "fold (notch_step notches sec) is (b, \<bar>sec - notches ! b\<bar>) = (best, d)"
  shows "d = \<bar>sec - notches ! best\<bar> \<and> best \<in> insert b (set is) \<and> (\<forall>i \<in> insert b (set is). d \<le> \<bar>sec - notches ! i\<bar>)"
  using assms
proof (induction "is" arbitrary: b)
  case (Cons j js)
  show ?case
  proof (cases "\<bar>sec - notches ! j\<bar> < \<bar>sec - notches ! b\<bar>")
    case True
    then have "fold (notch_step notches sec) js (j, \<bar>sec - notches ! j\<bar>) = (best, d)"
      using Cons.prems by (simp add: Let_def)
    then show ?thesis using Cons.IH [of j] True by fastforce
  next
    case False
    then have "fold (notch_step notches sec) js (b, \<bar>sec - notches ! b\<bar>) = (best, d)"
      using Cons.prems by (simp add: Let_def)
    then show ?thesis using Cons.IH [of b] False by fastforce
  qed
qed simp

text \<open>The slider stands at a notch that is nearest to the interval.\<close>

lemma notchIndex_nearest:
  assumes "notches \<noteq> []"
  shows "notchIndex notches sec < length notches \<and>
    (\<forall>i < length notches. \<bar>sec - notches ! notchIndex notches sec\<bar> \<le> \<bar>sec - notches ! i\<bar>)"
proof -
  obtain best d where f: "fold (notch_step notches sec) [1..<length notches] (0, \<bar>sec - notches ! 0\<bar>) = (best, d)"
    by (cases "fold (notch_step notches sec) [1..<length notches] (0, \<bar>sec - notches ! 0\<bar>)")
  have "notchIndex notches sec = best"
    using f assms by (cases notches) (auto simp: notchIndex_def)
  moreover have "insert 0 (set [1..<length notches]) = {0..<length notches}" using assms by auto
  ultimately show ?thesis using notch_fold [OF f] by auto
qed

section \<open>The allow list\<close>

definition plain_entry :: "string \<Rightarrow> bool" where
  "plain_entry x \<longleftrightarrow> x \<noteq> [] \<and> trim x = x \<and> list_all (\<lambda>c. \<not> is_sep c) x"

lemma takeWhile_plain: "list_all (\<lambda>c. \<not> is_sep c) x \<Longrightarrow> is_sep c \<Longrightarrow>
    takeWhile (\<lambda>c. \<not> is_sep c) (x @ c # r) = x \<and> dropWhile (\<lambda>c. \<not> is_sep c) (x @ c # r) = c # r"
  by (induction x) auto

lemma split_seps_join:
  "xs \<noteq> [] \<Longrightarrow> list_all plain_entry xs \<Longrightarrow> split_seps (join [CHR 0x0A] xs) = xs"
proof (induction xs)
  case (Cons x xs)
  have x: "x \<noteq> []" "list_all (\<lambda>c. \<not> is_sep c) x" using Cons.prems by (auto simp: plain_entry_def)
  show ?case
  proof (cases xs)
    case Nil
    have "takeWhile (\<lambda>c. \<not> is_sep c) x = x" "dropWhile (\<lambda>c. \<not> is_sep c) x = []"
      using x(2) by (auto simp: list_all_iff)
    then show ?thesis using Nil by (subst split_seps.simps) simp
  next
    case (Cons y ys)
    have sep: "is_sep (CHR 0x0A)" by (simp add: is_sep_def)
    have j: "join [CHR 0x0A] (x # xs) = x @ CHR 0x0A # join [CHR 0x0A] xs" by (simp add: Cons)
    obtain c cs where c: "join [CHR 0x0A] xs = c # cs" "\<not> is_sep c"
    proof -
      have "y \<noteq> []" "list_all (\<lambda>c. \<not> is_sep c) y" using Cons.prems Cons by (auto simp: plain_entry_def)
      then obtain c y' where "y = c # y'" "\<not> is_sep c" by (cases y) auto
      then show thesis using that Cons by (cases ys) auto
    qed
    have "split_seps (x @ CHR 0x0A # join [CHR 0x0A] xs) = x # split_seps (join [CHR 0x0A] xs)"
      using takeWhile_plain [OF x(2) sep, of "join [CHR 0x0A] xs"] c sep by (subst split_seps.simps) simp
    then show ?thesis using Cons.IH Cons.prems Cons j by simp
  qed
qed simp

text \<open>The list that the page shows, one entry on a line, is saved as the list it came from.\<close>

lemma allowlist_round_trip:
  assumes "list_all plain_entry xs"
  shows "parseAllowlist (join [CHR 0x0A] xs) = xs"
proof (cases "xs = []")
  case True
  have "split_seps [] = [[]]" by (subst split_seps.simps) simp
  then show ?thesis using True by (simp add: parseAllowlist_def)
next
  case False
  have "map trim xs = xs" using assms by (auto simp: list_all_iff plain_entry_def intro: map_idI)
  moreover have "filter (\<lambda>s. s \<noteq> []) xs = xs" using assms by (auto simp: list_all_iff plain_entry_def intro: filter_True)
  ultimately show ?thesis using split_seps_join [OF False assms] by (simp add: parseAllowlist_def)
qed

lemma oidc_saved_as_loaded:
  "oi_allowlist b = Some xs \<Longrightarrow> list_all plain_entry xs \<Longrightarrow> oq_allowlist (oidc_request (set_oidc origin b p)) = xs"
  by (simp add: oidc_request_def set_oidc_def opt_list_def allowlist_round_trip)

end
