(* ===== verification/Streams.thy ===== *)
theory Streams
  imports AnonViews Settings
begin

text \<open>
  Lists that grow or are paged: the history of control actions (\<open>ui/src/tabs/HistoryTab.tsx\<close>), the logs with their live
  view (\<open>LogsTab.tsx\<close>), and the event log and actions of the page of the agent (\<open>SettingsTab.tsx\<close>). The server is
  known by what its answers contain; what the pages rely on is that the page before an id holds the latest entries with smaller ids
  (\<open>serves\<close>).
\<close>

section \<open>History of control actions\<close>

definition PAGE :: nat where
  "PAGE = 50"

record HistoryBody =
  hb_events :: "ControlEvent list option"
  hb_actions :: "(string, string list) jsmap option"

record HistoryPage =
  hi_scheme :: string
  hi_action :: string
  hi_actorKind :: string
  hi_result :: string
  hi_q :: string
  hi_actions :: "(string, string list) jsmap"
  hi_events :: "ControlEvent list"
  hi_busy :: bool
  hi_loadingMore :: bool
  hi_error :: "string option"
  hi_hasMore :: bool
  hi_expanded :: "int list"

text \<open>The order of strings that \<open>sort()\<close> uses.\<close>

fun str_cmp :: "string \<Rightarrow> string \<Rightarrow> int" where
  "str_cmp [] [] = 0"
| "str_cmp [] (d # ds) = -1"
| "str_cmp (c # cs) [] = 1"
| "str_cmp (c # cs) (d # ds) =
     (if (of_char c :: nat) < of_char d then -1 else if (of_char d :: nat) < of_char c then 1 else str_cmp cs ds)"

definition actionOptions :: "HistoryPage \<Rightarrow> string list" where
  "actionOptions p =
     (if hi_scheme p = [] then js_sort str_cmp (rev (remdups (rev (concat (map snd (hi_actions p))))))
      else opt_list (map_of (hi_actions p) (hi_scheme p)))"

definition action_effect :: "HistoryPage \<Rightarrow> HistoryPage" where
  "action_effect p = (if hi_action p \<noteq> [] \<and> hi_action p \<notin> set (actionOptions p) then p\<lparr>hi_action := []\<rparr> else p)"

definition serverQ :: "bool \<Rightarrow> HistoryPage \<Rightarrow> string" where
  "serverQ anonOn p = (if anonOn then [] else trim (hi_q p))"

definition param :: "string \<Rightarrow> string \<Rightarrow> (string \<times> string) list" where
  "param k v = (if v = [] then [] else [(k, v)])"

definition history_params :: "bool \<Rightarrow> HistoryPage \<Rightarrow> int \<Rightarrow> (string \<times> string) list" where
  "history_params anonOn p beforeId =
     [(''limit'', dec PAGE)] @ param ''scheme'' (hi_scheme p) @ param ''action'' (hi_action p) @
     param ''actor_kind'' (hi_actorKind p) @ param ''result'' (hi_result p) @ param ''q'' (serverQ anonOn p) @
     (if 0 < beforeId then [(''before_id'', dec_int beforeId)] else [])"

definition page_failure :: "HistoryBody request \<Rightarrow> string option" where
  "page_failure r =
     (case r of
        Inl e \<Rightarrow> Some e
      | Inr rp \<Rightarrow> if \<not> rp_ok rp then Some (status_text ''history'' rp)
          else (case rp_json rp of Inl e \<Rightarrow> Some e | Inr _ \<Rightarrow> None))"

definition take_page :: "(ControlEvent list \<Rightarrow> HistoryPage \<Rightarrow> HistoryPage) \<Rightarrow> HistoryBody \<Rightarrow> HistoryPage \<Rightarrow> HistoryPage" where
  "take_page f b p =
     f (opt_list (hb_events b)) (case hb_actions b of Some a \<Rightarrow> p\<lparr>hi_actions := a\<rparr> | None \<Rightarrow> p)"

definition history_click :: "HistoryPage \<Rightarrow> HistoryPage" where
  "history_click p = p\<lparr>hi_busy := True, hi_error := None\<rparr>"

definition history_load :: "HistoryBody request \<Rightarrow> HistoryPage \<Rightarrow> HistoryPage" where
  "history_load r p =
     (case page_failure r of
        Some e \<Rightarrow> p\<lparr>hi_error := Some e, hi_events := [], hi_hasMore := False\<rparr>
      | None \<Rightarrow> with_body (take_page (\<lambda>rows p. p\<lparr>hi_events := rows, hi_hasMore := PAGE \<le> length rows, hi_expanded := []\<rparr>)) r p)
     \<lparr>hi_busy := False\<rparr>"

text \<open>The button is there when there is more, and enabled when nothing is loading; its call asks for what comes before the last row.\<close>

definition more_click :: "HistoryPage \<Rightarrow> (HistoryPage \<times> int) option" where
  "more_click p =
     (if \<not> hi_hasMore p \<or> hi_loadingMore p \<or> hi_busy p \<or> hi_events p = [] then None
      else Some (p\<lparr>hi_loadingMore := True, hi_error := None\<rparr>, ce_id (last (hi_events p))))"

definition history_more :: "HistoryBody request \<Rightarrow> HistoryPage \<Rightarrow> HistoryPage" where
  "history_more r p =
     (case page_failure r of
        Some e \<Rightarrow> p\<lparr>hi_error := Some e\<rparr>
      | None \<Rightarrow> with_body (take_page (\<lambda>rows p. p\<lparr>hi_events := hi_events p @ rows, hi_hasMore := PAGE \<le> length rows\<rparr>)) r p)
     \<lparr>hi_loadingMore := False\<rparr>"

definition event_matches :: "string \<Rightarrow> ControlEvent \<Rightarrow> bool" where
  "event_matches needle e \<longleftrightarrow>
     str_includes (toLowerCase (ce_target e)) needle \<or> str_includes (toLowerCase (opt_str (ce_summary e))) needle \<or>
     str_includes (toLowerCase (ce_actor e)) needle \<or> str_includes (toLowerCase (ce_action e)) needle"

text \<open>With anonymity on, the search runs over the pseudonyms that are shown, not on the server.\<close>

definition show_history :: "string option \<Rightarrow> Names \<Rightarrow> HistoryPage \<Rightarrow> ControlEvent list" where
  "show_history anon names p =
     (case anon of
        None \<Rightarrow> hi_events p
      | Some salt \<Rightarrow>
          let faked = fst (State_Monad.run_state (anonymizeControlEvents salt (hi_events p) []) names);
              needle = toLowerCase (trim (hi_q p))
          in if needle = [] then faked else filter (event_matches needle) faked)"

section \<open>Logs\<close>

datatype LiveState = LiveOff | LiveConnecting | LiveOn | LiveError

record LogsPage =
  lg_source :: string
  lg_q :: string
  lg_lines :: "AnonLogLine list"
  lg_status :: "string option"
  lg_busy :: bool
  lg_wantLive :: bool
  lg_live :: LiveState

definition last_n :: "nat \<Rightarrow> 'a list \<Rightarrow> 'a list" where
  "last_n n xs = drop (length xs - n) xs"

definition KEEP_LINES :: nat where
  "KEEP_LINES = 2000"

text \<open>The messages of the socket: a status with an error or the mark that the stream runs, a batch of lines, or something else.\<close>

datatype LogsMessage = LogsStatus "string option" bool | LogsBatch "AnonLogLine list" | OtherMessage

datatype WsEvent = WsOpen | WsMessage LogsMessage | WsError | WsClose

definition line_passes :: "string option \<Rightarrow> string \<Rightarrow> string \<Rightarrow> AnonLogLine \<Rightarrow> bool" where
  "line_passes anon src q l =
     (let needle = toLowerCase (trim q) in
      if src \<noteq> ''all'' \<and> ll_source l \<noteq> src then False
      else if needle = [] then True
      else str_includes (toLowerCase (case anon of Some salt \<Rightarrow> rewriteText salt (ll_line l) [] | None \<Rightarrow> ll_line l)) needle)"

definition ws_batch :: "string option \<Rightarrow> AnonLogLine list \<Rightarrow> LogsPage \<Rightarrow> LogsPage" where
  "ws_batch anon lines p =
     (if lines = [] then p
      else let q = p\<lparr>lg_live := LiveOn\<rparr>;
               add = filter (line_passes anon (lg_source p) (lg_q p)) lines
           in if add = [] then q else q\<lparr>lg_lines := last_n KEEP_LINES (lg_lines p @ add)\<rparr>)"

fun ws_event :: "string option \<Rightarrow> WsEvent \<Rightarrow> LogsPage \<Rightarrow> LogsPage" where
  "ws_event anon WsOpen p = (if lg_live p = LiveOn then p else p\<lparr>lg_live := LiveConnecting\<rparr>)"
| "ws_event anon (WsMessage (LogsStatus err live)) p =
     (if truthy err then p\<lparr>lg_status := err, lg_live := LiveError\<rparr>
      else if live then p\<lparr>lg_live := LiveOn, lg_status := None\<rparr>
      else p)"
| "ws_event anon (WsMessage (LogsBatch lines)) p = ws_batch anon lines p"
| "ws_event anon (WsMessage OtherMessage) p = p"
| "ws_event anon WsError p = p\<lparr>lg_status := Some ''live ws error'', lg_live := LiveError\<rparr>"
| "ws_event anon WsClose p = p\<lparr>lg_live := LiveOff\<rparr>"

definition toggle_live :: "LogsPage \<Rightarrow> LogsPage" where
  "toggle_live p =
     (if lg_wantLive p then p\<lparr>lg_wantLive := False, lg_live := LiveOff\<rparr>
      else p\<lparr>lg_wantLive := True, lg_live := LiveConnecting, lg_status := None\<rparr>)"

definition logs_failure :: "AnonLogLine list option request \<Rightarrow> string option" where
  "logs_failure r =
     (case r of
        Inl e \<Rightarrow> Some e
      | Inr rp \<Rightarrow> if \<not> rp_ok rp then Some (status_text ''logs'' rp)
          else (case rp_json rp of Inl e \<Rightarrow> Some e | Inr _ \<Rightarrow> None))"

definition logs_load :: "AnonLogLine list option request \<Rightarrow> LogsPage \<Rightarrow> LogsPage" where
  "logs_load r p =
     (case logs_failure r of Some _ \<Rightarrow> p | None \<Rightarrow> with_body (\<lambda>b p. p\<lparr>lg_lines := opt_list b\<rparr>) r p)"

definition logs_refresh_click :: "LogsPage \<Rightarrow> LogsPage" where
  "logs_refresh_click p = p\<lparr>lg_busy := True, lg_status := None\<rparr>"

definition logs_refresh :: "string option request \<times> AnonLogLine list option request \<Rightarrow> LogsPage \<Rightarrow> LogsPage" where
  "logs_refresh r p =
     (let fetched = (case fst r of
            Inl e \<Rightarrow> (Some e, p)
          | Inr rp \<Rightarrow>
              if rp_ok rp then
                (case rp_json rp of
                   Inl e \<Rightarrow> (Some e, p)
                 | Inr st \<Rightarrow> (None, if truthy st \<and> st \<noteq> Some ''ok'' then p\<lparr>lg_status := st\<rparr> else p))
              else (None, p\<lparr>lg_status := Some (status_text ''fetch'' rp)\<rparr>));
          loaded = then_do (\<lambda>p. (logs_failure (snd r), logs_load (snd r) p)) fetched
      in (case loaded of (Some e, q) \<Rightarrow> q\<lparr>lg_status := Some e\<rparr> | (None, q) \<Rightarrow> q)\<lparr>lg_busy := False\<rparr>)"

definition show_lines :: "string option \<Rightarrow> LogsPage \<Rightarrow> AnonLogLine list" where
  "show_lines anon p =
     (case anon of
        None \<Rightarrow> lg_lines p
      | Some salt \<Rightarrow>
          let faked = anonymizeLogLines salt (lg_lines p) []; needle = toLowerCase (trim (lg_q p))
          in if needle = [] then faked
             else filter (\<lambda>l. str_includes (toLowerCase (ll_line l)) needle \<or> str_includes (toLowerCase (ll_source l)) needle) faked)"

section \<open>The queries behind the pages\<close>

text \<open>
  The handlers in \<open>server/internal/api\<close> and their queries in \<open>server/internal/store\<close>. A table is the list of its rows as they are
  sent; the matching of \<open>LIKE\<close> belongs to SQLite and is an argument.
\<close>

definition go_ParseInt :: "string \<Rightarrow> int option" where
  "go_ParseInt v =
     (let neg = (v \<noteq> [] \<and> hd v = CHR ''-'');
          ds = (if v \<noteq> [] \<and> (hd v = CHR ''-'' \<or> hd v = CHR ''+'') then tl v else v);
          n = (if neg then - int (read_nat 10 ds) else int (read_nat 10 ds))
      in if all_digits ds \<and> - (2 ^ 63) \<le> n \<and> n < 2 ^ 63 then Some n else None)"

record ControlEventQuery =
  qu_Scheme :: string
  qu_Action :: string
  qu_ActorKind :: string
  qu_Result :: string
  qu_Q :: string
  qu_BeforeID :: int
  qu_Limit :: int

definition row_matches :: "(string \<Rightarrow> string \<Rightarrow> bool) \<Rightarrow> ControlEventQuery \<Rightarrow> ControlEvent \<Rightarrow> bool" where
  "row_matches like q e \<longleftrightarrow>
     (qu_Scheme q = [] \<or> ce_scheme e = qu_Scheme q) \<and> (qu_Action q = [] \<or> ce_action e = qu_Action q) \<and>
     (qu_ActorKind q = [] \<or> ce_actor_kind e = qu_ActorKind q) \<and> (qu_Result q = [] \<or> ce_result e = qu_Result q) \<and>
     (qu_Q q = [] \<or> (let pat = ''%'' @ qu_Q q @ ''%'' in
        like (ce_target e) pat \<or> like (opt_str (ce_summary e)) pat \<or> like (ce_actor e) pat))"

text \<open>\<open>ORDER BY id DESC\<close>, and the rows before an id when the id is positive.\<close>

definition order_desc :: "('a \<Rightarrow> int) \<Rightarrow> 'a list \<Rightarrow> 'a list" where
  "order_desc key rows = rev (sort_key key rows)"

definition page_before :: "('a \<Rightarrow> int) \<Rightarrow> int \<Rightarrow> nat \<Rightarrow> 'a list \<Rightarrow> 'a list" where
  "page_before key b limit rows = take limit (order_desc key (filter (\<lambda>e. b \<le> 0 \<or> key e < b) rows))"

definition QueryControlEvents :: "(string \<Rightarrow> string \<Rightarrow> bool) \<Rightarrow> ControlEventQuery \<Rightarrow> ControlEvent list \<Rightarrow> ControlEvent list" where
  "QueryControlEvents like q rows =
     page_before ce_id (qu_BeforeID q) (nat (if qu_Limit q \<le> 0 then 25 else qu_Limit q)) (filter (row_matches like q) rows)"

definition url_get :: "(string \<times> string) list \<Rightarrow> string \<Rightarrow> string" where
  "url_get params k = opt_str (map_of params k)"

definition positive_or :: "int \<Rightarrow> string \<Rightarrow> int" where
  "positive_or d v = (case go_ParseInt v of Some n \<Rightarrow> if 0 < n then n else d | None \<Rightarrow> d)"

definition getControlHistory :: "(string \<Rightarrow> string \<Rightarrow> bool) \<Rightarrow> (string \<times> string) list \<Rightarrow> ControlEvent list \<Rightarrow> ControlEvent list" where
  "getControlHistory like params rows =
     QueryControlEvents like
       \<lparr>qu_Scheme = url_get params ''scheme'', qu_Action = url_get params ''action'', qu_ActorKind = url_get params ''actor_kind'',
        qu_Result = url_get params ''result'', qu_Q = url_get params ''q'',
        qu_BeforeID = positive_or 0 (url_get params ''before_id''), qu_Limit = min 200 (positive_or 50 (url_get params ''limit''))\<rparr> rows"

record AgentEventRow =
  ar_id :: int
  ar_ts :: ts
  ar_kind :: string
  ar_detail :: "string option"
  ar_from_ver :: "string option"
  ar_to_ver :: "string option"

definition QueryAgentEvents :: "int \<Rightarrow> int \<Rightarrow> AgentEventRow list \<Rightarrow> AgentEventRow list" where
  "QueryAgentEvents beforeID limit rows = page_before ar_id beforeID (nat (if limit \<le> 0 then 25 else limit)) rows"

text \<open>The wanted rows of a log, the newest first.\<close>

definition newest :: "('a \<Rightarrow> int) \<Rightarrow> ('a \<Rightarrow> bool) \<Rightarrow> 'a list \<Rightarrow> 'a list" where
  "newest key wanted rows = order_desc key (filter wanted rows)"

text \<open>The contract of a log of which rows are served page by page.\<close>

locale paged_log =
  fixes key :: "'a \<Rightarrow> int" and wanted :: "'a \<Rightarrow> bool" and n :: nat and serve :: "'a list \<Rightarrow> int \<Rightarrow> 'a list"
  assumes served: "serve rows b = page_before key b n (filter wanted rows)"
    and some_rows: "0 < n"
begin

lemma first_page: "serve rows 0 = take n (newest key wanted rows)"
  by (simp add: served page_before_def newest_def)

lemma older_rows: "0 < b \<Longrightarrow> serve rows b = take n (filter (\<lambda>e. key e < b) (newest key wanted rows))"
  by (simp add: served page_before_def newest_def order_desc_def rev_filter [symmetric] filter_sort conj_commute)

lemma newest_decreasing:
  assumes "distinct (map key rows)"
  shows "sorted_wrt (\<lambda>x y. key y < key x) (newest key wanted rows)"
proof -
  have d: "distinct (map key (sort_key key (filter wanted rows)))"
    using assms by (simp add: distinct_map inj_on_def)
  have "sorted (map key (sort_key key (filter wanted rows)))" by simp
  then have "sorted_wrt (<) (map key (sort_key key (filter wanted rows)))"
    using d by (simp add: strict_sorted_iff)
  then show ?thesis by (simp add: newest_def order_desc_def sorted_wrt_rev sorted_wrt_map)
qed

lemma rest_after:
  assumes "sorted_wrt (\<lambda>x y. key y < key x) xs" "k < length xs"
  shows "filter (\<lambda>e. key e < key (xs ! k)) xs = drop (Suc k) xs"
proof -
  have xs: "xs = take k xs @ xs ! k # drop (Suc k) xs" using assms(2) by (simp add: id_take_nth_drop)
  have s: "sorted_wrt (\<lambda>x y. key y < key x) (take k xs @ xs ! k # drop (Suc k) xs)" using assms(1) xs by simp
  have "filter (\<lambda>e. key e < key (xs ! k)) (take k xs) = []" "filter (\<lambda>e. key e < key (xs ! k)) (drop (Suc k) xs) = drop (Suc k) xs"
    using s by (fastforce simp: sorted_wrt_append filter_empty_conv filter_id_conv)+
  then show ?thesis by (subst xs) (simp add: filter_empty_conv)
qed

end
text \<open>A log to which rows with larger keys have been added.\<close>

definition appended :: "('a \<Rightarrow> int) \<Rightarrow> 'a list \<Rightarrow> 'a list \<Rightarrow> bool" where
  "appended key rows rows' \<longleftrightarrow>
     take (length rows) rows' = rows \<and> (\<forall>x\<in>set rows. \<forall>y\<in>set (drop (length rows) rows'). key x < key y)"

lemma appended_refl [simp]: "appended key rows rows"
  by (simp add: appended_def)

context paged_log
begin

lemma older_grown:
  assumes "appended key rows rows'" "e \<in> set rows"
  shows "filter (\<lambda>x. key x < key e) (newest key wanted rows') = filter (\<lambda>x. key x < key e) (newest key wanted rows)"
proof -
  define new where "new = drop (length rows) rows'"
  have r: "rows' = rows @ new" using assms(1) by (metis appended_def append_take_drop_id new_def)
  have "filter (\<lambda>x. key x < key e \<and> wanted x) new = []"
    using assms by (fastforce simp: appended_def filter_empty_conv new_def [symmetric])
  then show ?thesis
    by (simp add: newest_def order_desc_def rev_filter [symmetric] filter_sort r conj_commute)
qed

lemma newest_set: "set (newest key wanted rows) = {e \<in> set rows. wanted e}"
  by (simp add: newest_def order_desc_def)

text \<open>The page that is asked for with the last row shown continues the list, also when rows were added since.\<close>

lemma next_page:
  assumes "distinct (map key rows)" "\<forall>e\<in>set rows. 0 < key e" "appended key rows rows'"
    and "0 < k" "k \<le> length (newest key wanted rows)"
  shows "serve rows' (key (last (take k (newest key wanted rows)))) = take n (drop k (newest key wanted rows))"
proof -
  let ?e = "newest key wanted rows ! (k - 1)"
  have l: "last (take k (newest key wanted rows)) = ?e" using assms(4,5) by (cases k) (simp_all add: take_Suc_conv_app_nth)
  have "?e \<in> set (newest key wanted rows)" using assms(4,5) by simp
  then have e: "?e \<in> set rows" "0 < key ?e" using assms(2) by (auto simp: newest_set)
  have "serve rows' (key ?e) = take n (filter (\<lambda>x. key x < key ?e) (newest key wanted rows))"
    by (simp only: older_rows [OF e(2)] older_grown [OF assms(3) e(1)])
  also have "\<dots> = take n (drop k (newest key wanted rows))"
    using rest_after [OF newest_decreasing [OF assms(1)], of "k - 1"] assms(4,5) by simp
  finally show ?thesis using l by simp
qed

end

text \<open>The handler answers the parameters of the page with the page of the log.\<close>

lemma map_of_param: "map_of (param k v @ ps) k' = (if k = k' \<and> v \<noteq> [] then Some v else map_of ps k')"
  by (simp add: param_def)

lemma go_ParseInt_dec:
  assumes "int n < 2 ^ 63"
  shows "go_ParseInt (dec n) = Some (int n)"
proof -
  have h: "hd (dec n) \<noteq> CHR ''-''" "hd (dec n) \<noteq> CHR ''+''" using hd_dec [of n] by (auto simp: is_digit_def)
  then show ?thesis using assms by (simp add: go_ParseInt_def)
qed

lemma positive_or_dec [simp]: "0 < i \<Longrightarrow> i < 2 ^ 63 \<Longrightarrow> positive_or d (dec_int i) = i"
  by (simp add: positive_or_def dec_int_def go_ParseInt_dec)

definition history_filters :: "bool \<Rightarrow> HistoryPage \<Rightarrow> ControlEventQuery" where
  "history_filters anonOn p =
     \<lparr>qu_Scheme = hi_scheme p, qu_Action = hi_action p, qu_ActorKind = hi_actorKind p, qu_Result = hi_result p,
      qu_Q = serverQ anonOn p, qu_BeforeID = 0, qu_Limit = int PAGE\<rparr>"

lemma history_served:
  assumes "0 \<le> b" "b < 2 ^ 63"
  shows "getControlHistory like (history_params anonOn p b) rows =
         page_before ce_id b PAGE (filter (row_matches like (history_filters anonOn p)) rows)"
proof -
  let ?ps = "history_params anonOn p b"
  have get: "url_get ?ps ''scheme'' = hi_scheme p" "url_get ?ps ''action'' = hi_action p" "url_get ?ps ''actor_kind'' = hi_actorKind p"
      "url_get ?ps ''result'' = hi_result p" "url_get ?ps ''q'' = serverQ anonOn p"
      "url_get ?ps ''before_id'' = (if 0 < b then dec_int b else [])" "url_get ?ps ''limit'' = dec PAGE"
    by (simp_all add: url_get_def history_params_def opt_str_def map_of_param del: map_of_append)
  have "positive_or 50 (dec PAGE) = 50" by (simp add: positive_or_def PAGE_def go_ParseInt_dec)
  moreover have "positive_or 0 [] = 0" by (simp add: positive_or_def go_ParseInt_def all_digits_def)
  moreover have "row_matches like \<lparr>qu_Scheme = hi_scheme p, qu_Action = hi_action p, qu_ActorKind = hi_actorKind p, qu_Result = hi_result p,
      qu_Q = serverQ anonOn p, qu_BeforeID = c, qu_Limit = l\<rparr> = row_matches like (history_filters anonOn p)" for c l
    by (rule ext) (simp add: row_matches_def history_filters_def)
  ultimately show ?thesis
    using assms by (simp add: getControlHistory_def QueryControlEvents_def get PAGE_def)
qed

definition history_answer ::
  "(string \<Rightarrow> string \<Rightarrow> bool) \<Rightarrow> (string, string list) jsmap \<Rightarrow> (string \<times> string) list \<Rightarrow> ControlEvent list \<Rightarrow> HistoryBody request" where
  "history_answer like acts params rows =
     Inr \<lparr>rp_status = 200, rp_text = Inr [],
          rp_json = Inr \<lparr>hb_events = Some (getControlHistory like params rows), hb_actions = Some acts\<rparr>\<rparr>"

text \<open>Load, and then the button once for each of the states of the table.\<close>

definition history_open ::
  "(string \<Rightarrow> string \<Rightarrow> bool) \<Rightarrow> (string, string list) jsmap \<Rightarrow> bool \<Rightarrow> ControlEvent list \<Rightarrow> HistoryPage \<Rightarrow> HistoryPage" where
  "history_open like acts anonOn rows p = history_load (history_answer like acts (history_params anonOn p 0) rows) (history_click p)"

definition press_more ::
  "(string \<Rightarrow> string \<Rightarrow> bool) \<Rightarrow> (string, string list) jsmap \<Rightarrow> bool \<Rightarrow> ControlEvent list \<Rightarrow> HistoryPage \<Rightarrow> HistoryPage" where
  "press_more like acts anonOn rows p =
     (case more_click p of
        None \<Rightarrow> p
      | Some (q, b) \<Rightarrow> history_more (history_answer like acts (history_params anonOn p b) rows) q)"
text \<open>The log as one set of filters sees it.\<close>

definition history_log :: "(string \<Rightarrow> string \<Rightarrow> bool) \<Rightarrow> ControlEventQuery \<Rightarrow> ControlEvent list \<Rightarrow> ControlEvent list" where
  "history_log like q rows = newest ce_id (row_matches like q) rows"

interpretation control_log: paged_log ce_id "row_matches like q" PAGE
    "\<lambda>rows b. page_before ce_id b PAGE (filter (row_matches like q) rows)" for like q
  by unfold_locales (simp_all add: PAGE_def)

lemmas history_answers = history_answer_def page_failure_def with_body_def take_page_def rp_ok_def opt_list_def

lemma answer_load:
  "history_load (history_answer like acts ps rows) p =
   p\<lparr>hi_actions := acts, hi_events := getControlHistory like ps rows,
     hi_hasMore := PAGE \<le> length (getControlHistory like ps rows), hi_expanded := [], hi_busy := False\<rparr>"
  by (simp add: history_load_def history_answers)

lemma answer_more:
  "history_more (history_answer like acts ps rows) p =
   p\<lparr>hi_actions := acts, hi_events := hi_events p @ getControlHistory like ps rows,
     hi_hasMore := PAGE \<le> length (getControlHistory like ps rows), hi_loadingMore := False\<rparr>"
  by (simp add: history_more_def history_answers)

text \<open>The state of the page after the first \<open>k\<close> pages of the log.\<close>

definition shows_pages ::
  "(string \<Rightarrow> string \<Rightarrow> bool) \<Rightarrow> bool \<Rightarrow> ControlEventQuery \<Rightarrow> ControlEvent list \<Rightarrow> nat \<Rightarrow> HistoryPage \<Rightarrow> bool" where
  "shows_pages like anonOn q rows k p \<longleftrightarrow>
     hi_events p = take (PAGE * k) (history_log like q rows) \<and>
     (hi_hasMore p \<longleftrightarrow> PAGE * k \<le> length (history_log like q rows)) \<and>
     \<not> hi_busy p \<and> \<not> hi_loadingMore p \<and> history_filters anonOn p = q"

definition ids_ok :: "ControlEvent list \<Rightarrow> bool" where
  "ids_ok rows \<longleftrightarrow> distinct (map ce_id rows) \<and> (\<forall>e\<in>set rows. 0 < ce_id e \<and> ce_id e < 2 ^ 63)"

lemma open_shows:
  assumes "\<not> hi_loadingMore p"
  shows "shows_pages like anonOn (history_filters anonOn p) rows 1 (history_open like acts anonOn rows p)"
proof -
  have "getControlHistory like (history_params anonOn p 0) rows = take PAGE (history_log like (history_filters anonOn p) rows)"
    by (simp add: history_served control_log.first_page history_log_def)
  then show ?thesis
    using assms by (simp add: shows_pages_def history_open_def answer_load history_click_def history_filters_def serverQ_def)
qed

lemma more_shows:
  assumes "ids_ok rows" "appended ce_id rows rows'" "shows_pages like anonOn q rows k p" "0 < k"
  shows "shows_pages like anonOn q rows (Suc k) (press_more like acts anonOn rows' p)"
proof (cases "hi_hasMore p")
  case False
  then show ?thesis using assms(3) by (auto simp: press_more_def more_click_def shows_pages_def)
next
  case True
  let ?all = "history_log like q rows"
  have k: "PAGE * k \<le> length ?all" "0 < PAGE * k" using True assms(3,4) by (auto simp: shows_pages_def PAGE_def)
  then have ne: "hi_events p \<noteq> []" using assms(3) by (auto simp: shows_pages_def)
  define b where "b = ce_id (last (hi_events p))"
  have "last (hi_events p) \<in> set ?all" using ne assms(3) by (metis in_set_takeD last_in_set shows_pages_def)
  then have b: "0 \<le> b" "b < 2 ^ 63"
    using assms(1) by (auto simp: b_def ids_ok_def history_log_def control_log.newest_set)
  have "page_before ce_id b PAGE (filter (row_matches like q) rows') = take PAGE (drop (PAGE * k) ?all)"
    using control_log.next_page [of rows rows' "PAGE * k" like q] assms k by (auto simp: b_def ids_ok_def shows_pages_def history_log_def)
  then have g: "getControlHistory like (history_params anonOn p b) rows' = take PAGE (drop (PAGE * k) ?all)"
    using history_served [OF b] assms(3) by (simp add: shows_pages_def)
  have m: "more_click p = Some (p\<lparr>hi_loadingMore := True, hi_error := None\<rparr>, b)"
    using True ne assms(3) by (simp add: more_click_def shows_pages_def b_def)
  show ?thesis
    using assms(3) k by (simp add: press_more_def m answer_more g shows_pages_def take_add [symmetric] add.commute history_filters_def
        serverQ_def PAGE_def) auto
qed
text \<open>C23: the history page reads the log without gaps and without repetition. After loading and pressing Load more any number of times, the
  page shows exactly the first rows of the log as its filters saw it at the load, fifty for each page, newest first, also when the server
  has recorded further actions before any of the presses; and the button is offered as long as a full last page was read.
\<close>

theorem history_pages:
  assumes "ids_ok rows" "\<forall>t\<in>set tables. appended ce_id rows t" "\<not> hi_loadingMore p"
  shows "hi_events (fold (press_more like acts anonOn) tables (history_open like acts anonOn rows p)) =
           take (50 * (length tables + 1)) (history_log like (history_filters anonOn p) rows) \<and>
         hi_hasMore (fold (press_more like acts anonOn) tables (history_open like acts anonOn rows p)) =
           (50 * (length tables + 1) \<le> length (history_log like (history_filters anonOn p) rows))"
proof -
  let ?q = "history_filters anonOn p"
  have "shows_pages like anonOn ?q rows (k + length tables) (fold (press_more like acts anonOn) tables s)"
    if "shows_pages like anonOn ?q rows k s" "0 < k" for k s
    using that assms(2)
  proof (induction tables arbitrary: k s)
    case (Cons t ts)
    then have "shows_pages like anonOn ?q rows (Suc k) (press_more like acts anonOn t s)"
      by (intro more_shows [OF assms(1)]) simp_all
    with Cons show ?case using Cons.IH [of "Suc k"] by simp
  qed simp
  from this [OF open_shows [OF assms(3)]] show ?thesis by (simp add: shows_pages_def PAGE_def add.commute)
qed

definition sample_event :: "int \<Rightarrow> ControlEvent" where
  "sample_event i = \<lparr>ce_id = i, ce_ts = 0, ce_scheme = ''unifi'', ce_action = [], ce_actor_kind = [], ce_actor = [], ce_target = [],
     ce_summary = None, ce_result = [], ce_error = None, ce_before = None, ce_after = None\<rparr>"

definition sample_page :: HistoryPage where
  "sample_page = \<lparr>hi_scheme = [], hi_action = [], hi_actorKind = [], hi_result = [], hi_q = [], hi_actions = [], hi_events = [],
     hi_busy = False, hi_loadingMore = False, hi_error = None, hi_hasMore = False, hi_expanded = []\<rparr>"

theorem history_pages_witness:
  "hi_events (fold (press_more (\<lambda>_ _. False) [] False) [[sample_event 1, sample_event 2, sample_event 7]]
     (history_open (\<lambda>_ _. False) [] False [sample_event 1, sample_event 2] sample_page)) = [sample_event 2, sample_event 1]"
proof -
  have "history_log (\<lambda>_ _. False) (history_filters False sample_page) [sample_event 1, sample_event 2] = [sample_event 2, sample_event 1]"
    by (simp add: history_log_def newest_def order_desc_def row_matches_def history_filters_def sample_page_def sample_event_def serverQ_def)
  then show ?thesis
    using history_pages [of "[sample_event 1, sample_event 2]" "[[sample_event 1, sample_event 2, sample_event 7]]" sample_page
        "\<lambda>_ _. False" "[]" False]
    by (simp add: ids_ok_def appended_def sample_event_def sample_page_def)
qed

text \<open>
  The rows that a press asked for under one set of filters are appended to the list of the next one, when the filters change while the
  request is under way: the answer is not tied to the filters that it was asked for.
\<close>

lemma stale_page_appended:
  assumes "more_click p = Some (p', b)" "rp_ok rp" "rp_json rp = Inr \<lparr>hb_events = Some old, hb_actions = None\<rparr>"
    and "page_failure r = None" "r = Inr rp'" "rp_json rp' = Inr \<lparr>hb_events = Some new, hb_actions = None\<rparr>"
  shows "hi_events (history_more (Inr rp) (history_load r (history_click (p'\<lparr>hi_scheme := s\<rparr>)))) = new @ old"
  using assms by (simp add: history_more_def history_load_def page_failure_def with_body_def take_page_def opt_list_def)

section \<open>The lines of the live view\<close>

lemma last_n_window: "last_n n (last_n n xs @ ys) = last_n n (xs @ ys)"
  by (cases "n \<le> length xs") (simp_all add: last_n_def add.commute)

lemma length_last_n [simp]: "length (last_n n xs) = min n (length xs)"
  by (simp add: last_n_def)

definition batch_lines :: "WsEvent \<Rightarrow> AnonLogLine list" where
  "batch_lines e = (case e of WsMessage (LogsBatch ls) \<Rightarrow> ls | _ \<Rightarrow> [])"

lemma ws_event_frame [simp]:
  "lg_source (ws_event anon e p) = lg_source p" "lg_q (ws_event anon e p) = lg_q p" "lg_wantLive (ws_event anon e p) = lg_wantLive p"
  by (cases "(anon, e, p)" rule: ws_event.cases; simp add: ws_batch_def Let_def)+

lemma ws_event_lines:
  "lg_lines (ws_event anon e p) =
   (let add = filter (line_passes anon (lg_source p) (lg_q p)) (batch_lines e)
    in if add = [] then lg_lines p else last_n KEEP_LINES (lg_lines p @ add))"
  by (cases "(anon, e, p)" rule: ws_event.cases) (auto simp: ws_batch_def batch_lines_def Let_def)

text \<open>C24: whatever the socket of the live view sends, and in whatever batches, the page holds the last 2000 lines of what it had and of the
  lines received that pass its source and its search text; errors, closings and unknown messages lose none.
\<close>

theorem live_window:
  "lg_lines (fold (ws_event anon) evs p) =
   (let add = filter (line_passes anon (lg_source p) (lg_q p)) (concat (map batch_lines evs))
    in if add = [] then lg_lines p else last_n 2000 (lg_lines p @ add))"
proof (induction evs arbitrary: p)
  case (Cons e evs)
  then show ?case
    by (simp add: ws_event_lines Let_def KEEP_LINES_def last_n_window [of 2000 "lg_lines p @ _", simplified])
qed (simp add: Let_def)

text \<open>A socket reports an error and then closes; the closing replaces the mark of the error by the mark of a live view that is off.\<close>

lemma close_hides_error:
  "lg_live (fold (ws_event anon) [WsError, WsClose] p) = LiveOff" "lg_status (fold (ws_event anon) [WsError, WsClose] p) = Some ''live ws error''"
  by simp_all

text \<open>The closing of the socket before, reported after the view is live again, switches the mark off although the view is wanted.\<close>

lemma late_close_switches_off:
  assumes "lg_wantLive p" 
  shows "lg_wantLive (fold (ws_event anon) [WsMessage (LogsStatus None True), WsClose] p)"
    "lg_live (fold (ws_event anon) [WsMessage (LogsStatus None True), WsClose] p) = LiveOff"
  using assms by simp_all
section \<open>The page of the agent\<close>

record AgentInfo =
  ai_online :: "bool option"
  ai_host :: "string option"
  ai_version :: "string option"
  ai_last_seen :: "ts option"

record AgentBody =
  ab_public_base_url :: "string option"
  ab_package_missing :: "bool option"
  ab_package_version :: "string option"
  ab_update_available :: "bool option"
  ab_agent :: "AgentInfo option"

record AgentPage =
  ap_publicURL :: string
  ap_cmd :: string
  ap_status :: "string option"
  ap_agent :: AgentInfo
  ap_pkgMissing :: bool
  ap_pkgVer :: string
  ap_boxVer :: string
  ap_updateAvailable :: bool
  ap_busy :: bool
  ap_catalogBusy :: bool
  ap_logOpen :: bool
  ap_events :: "AgentEventRow list"
  ap_pageCursor :: int
  ap_beforeStack :: "int list"
  ap_logBusy :: bool

definition no_agent :: AgentInfo where
  "no_agent = \<lparr>ai_online = None, ai_host = None, ai_version = None, ai_last_seen = None\<rparr>"

definition set_agent :: "AgentBody \<Rightarrow> AgentPage \<Rightarrow> AgentPage" where
  "set_agent b p =
     p\<lparr>ap_publicURL := (if truthy (ab_public_base_url b) then opt_str (ab_public_base_url b) else ap_publicURL p),
       ap_pkgMissing := (ab_package_missing b = Some True), ap_pkgVer := opt_str (ab_package_version b),
       ap_updateAvailable := (ab_update_available b = Some True),
       ap_agent := (case ab_agent b of Some a \<Rightarrow> a | None \<Rightarrow> no_agent)\<rparr>"

text \<open>Both answers are awaited together; a body that cannot be read ends the refresh there.\<close>

definition agent_refresh :: "(AgentBody Response \<times> string option Response) option \<Rightarrow> AgentPage \<Rightarrow> AgentPage" where
  "agent_refresh r p =
     (case r of
        None \<Rightarrow> p
      | Some (agentR, boxR) \<Rightarrow>
          snd (then_do
            (\<lambda>p. if rp_ok boxR then
                   (case rp_json boxR of Inl e \<Rightarrow> (Some e, p) | Inr v \<Rightarrow> (None, p\<lparr>ap_boxVer := opt_trim v\<rparr>))
                 else (None, p\<lparr>ap_boxVer := []\<rparr>))
            (when_ok set_agent agentR p)))"

definition AGENT_PAGE :: nat where
  "AGENT_PAGE = 25"

definition loadEvents_click :: "AgentPage \<Rightarrow> AgentPage" where
  "loadEvents_click p = p\<lparr>ap_logBusy := True\<rparr>"

definition loadEvents :: "int \<Rightarrow> AgentEventRow list option request \<Rightarrow> AgentPage \<Rightarrow> AgentPage" where
  "loadEvents beforeId r p =
     (case r of
        Inr rp \<Rightarrow> if rp_ok rp then with_body (\<lambda>b p. p\<lparr>ap_events := opt_list b, ap_pageCursor := beforeId\<rparr>) r p else p
      | Inl _ \<Rightarrow> p)\<lparr>ap_logBusy := False\<rparr>"

definition toggle_log :: "AgentPage \<Rightarrow> AgentPage \<times> int option" where
  "toggle_log p =
     (if ap_logOpen p then (p\<lparr>ap_logOpen := False\<rparr>, None)
      else (loadEvents_click (p\<lparr>ap_logOpen := True, ap_beforeStack := []\<rparr>), Some 0))"

definition newer_click :: "AgentPage \<Rightarrow> (AgentPage \<times> int) option" where
  "newer_click p =
     (if ap_beforeStack p = [] \<or> ap_logBusy p then None
      else Some (loadEvents_click (p\<lparr>ap_beforeStack := butlast (ap_beforeStack p)\<rparr>), last (ap_beforeStack p)))"

definition older_click :: "AgentPage \<Rightarrow> (AgentPage \<times> int) option" where
  "older_click p =
     (if length (ap_events p) < AGENT_PAGE \<or> ap_logBusy p then None
      else Some (loadEvents_click (p\<lparr>ap_beforeStack := ap_beforeStack p @ [ap_pageCursor p]\<rparr>), ar_id (last (ap_events p))))"

record EnrollBody =
  eb_command :: "string option"
  eb_public_base_url :: "string option"

definition generate_click :: "AgentPage \<Rightarrow> AgentPage" where
  "generate_click p = p\<lparr>ap_busy := True, ap_status := None, ap_cmd := []\<rparr>"

text \<open>The text of a refusal; a request or a body that breaks leaves the status as it is.\<close>

definition refusal :: "string \<Rightarrow> 'b request \<Rightarrow> string option" where
  "refusal what r =
     (case r of
        Inr rp \<Rightarrow> if rp_ok rp then None else (case rp_text rp of Inr t \<Rightarrow> Some (or_default t (status_text what rp)) | Inl _ \<Rightarrow> None)
      | Inl _ \<Rightarrow> None)"

definition accepted :: "'b request \<Rightarrow> 'b option" where
  "accepted r = (case r of Inr rp \<Rightarrow> if rp_ok rp then (case rp_json rp of Inr b \<Rightarrow> Some b | Inl _ \<Rightarrow> None) else None | Inl _ \<Rightarrow> None)"

definition set_status :: "string option \<Rightarrow> AgentPage \<Rightarrow> AgentPage" where
  "set_status e p = (case e of Some m \<Rightarrow> p\<lparr>ap_status := Some m\<rparr> | None \<Rightarrow> p)"

definition generate_code :: "EnrollBody request \<Rightarrow> AgentPage \<Rightarrow> AgentPage" where
  "generate_code r p =
     (case accepted r of
        Some b \<Rightarrow> p\<lparr>ap_cmd := opt_str (eb_command b),
            ap_publicURL := (if truthy (eb_public_base_url b) then opt_str (eb_public_base_url b) else ap_publicURL p)\<rparr>
      | None \<Rightarrow> set_status (refusal ''enroll'' r) p)\<lparr>ap_busy := False\<rparr>"

definition pushUpdate ::
  "string option request \<Rightarrow> (AgentBody Response \<times> string option Response) option \<Rightarrow> AgentPage \<Rightarrow> AgentPage" where
  "pushUpdate r after p =
     (let q = p\<lparr>ap_status := None\<rparr> in
      case accepted r of
        Some st \<Rightarrow> agent_refresh after (q\<lparr>ap_status := Some (case st of Some s \<Rightarrow> s | None \<Rightarrow> ''ok'')\<rparr>)
      | None \<Rightarrow> set_status (refusal ''update'' r) q)"

definition catalog_click :: "AgentPage \<Rightarrow> AgentPage" where
  "catalog_click p = p\<lparr>ap_status := None, ap_catalogBusy := True\<rparr>"

definition catalog_message :: "string option request \<Rightarrow> string option" where
  "catalog_message r =
     (case accepted r of
        Some st \<Rightarrow> let s = (case st of Some s \<Rightarrow> s | None \<Rightarrow> ''ok'') in Some (if s = ''ok'' then ''catalog fetched'' else s)
      | None \<Rightarrow> refusal ''catalog'' r)"

definition pushCatalog :: "string option request \<Rightarrow> AgentPage \<Rightarrow> AgentPage" where
  "pushCatalog r p = (set_status (catalog_message r) p)\<lparr>ap_catalogBusy := False\<rparr>"

definition can_catalog :: "AgentPage \<Rightarrow> bool" where
  "can_catalog p \<longleftrightarrow> ai_online (ap_agent p) = Some True \<and> \<not> ap_catalogBusy p"

definition can_update :: "AgentPage \<Rightarrow> bool" where
  "can_update p \<longleftrightarrow> ai_online (ap_agent p) = Some True \<and> ap_updateAvailable p"

definition can_generate :: "AgentPage \<Rightarrow> bool" where
  "can_generate p \<longleftrightarrow> \<not> ap_busy p \<and> \<not> ap_pkgMissing p"

definition status_quiet :: "string \<Rightarrow> bool" where
  "status_quiet s \<longleftrightarrow> s = ''ok'' \<or> s = ''up_to_date'' \<or> s = ''catalog fetched''"

definition show_agent_events :: "string option \<Rightarrow> AgentPage \<Rightarrow> AgentEventRow list" where
  "show_agent_events anon p =
     (case anon of Some salt \<Rightarrow> map (\<lambda>e. e\<lparr>ar_ts := shiftTS salt (ar_ts e)\<rparr>) (ap_events p) | None \<Rightarrow> ap_events p)"

definition show_cmd :: "string option \<Rightarrow> AgentPage \<Rightarrow> string" where
  "show_cmd anon p =
     (case anon of Some salt \<Rightarrow> if ap_cmd p \<noteq> [] then anonymizeEnrollCmd salt (ap_cmd p) else ap_cmd p | None \<Rightarrow> ap_cmd p)"

text \<open>The arrow U+2192 stands as its three bytes in UTF-8.\<close>

definition agentEventLabel :: "AgentEventRow \<Rightarrow> string" where
  "agentEventLabel e =
     (let k = ar_kind e in
      if k = ''updated'' then
        ''updated '' @ or_default (opt_str (ar_from_ver e)) ''?'' @ '' '' @ [CHR 0xE2, CHR 0x86, CHR 0x92] @ '' '' @ or_default (opt_str (ar_to_ver e)) ''?''
      else if k = ''offline'' then trim (''offline '' @ opt_str (ar_detail e))
      else if k = ''restarted'' then ''restarted''
      else if k = ''enrolled'' then ''enrolled''
      else if k = ''update_failed'' then ''update failed: '' @ or_default (opt_str (ar_detail e)) ''error''
      else k)"
interpretation code_generation: page_action ap_busy ap_status generate_click generate_code "refusal ''enroll''"
  by unfold_locales (auto simp: generate_click_def generate_code_def set_status_def accepted_def refusal_def split: option.splits sum.splits)

interpretation catalog_push: page_action ap_catalogBusy ap_status catalog_click pushCatalog catalog_message
  by unfold_locales (simp_all add: catalog_click_def pushCatalog_def set_status_def split: option.splits)

interpretation agent_log: paged_log ar_id "\<lambda>_. True" AGENT_PAGE "\<lambda>rows b. QueryAgentEvents b (int AGENT_PAGE) rows"
  by unfold_locales (simp_all add: AGENT_PAGE_def QueryAgentEvents_def)

definition agent_answer :: "int \<Rightarrow> AgentEventRow list \<Rightarrow> AgentEventRow list option request" where
  "agent_answer b rows = Inr \<lparr>rp_status = 200, rp_text = Inr [], rp_json = Inr (Some (QueryAgentEvents b (int AGENT_PAGE) rows))\<rparr>"

lemma agent_answer_load:
  "loadEvents b (agent_answer b rows) p =
   p\<lparr>ap_events := QueryAgentEvents b (int AGENT_PAGE) rows, ap_pageCursor := b, ap_logBusy := False\<rparr>"
  by (simp add: loadEvents_def agent_answer_def with_body_def rp_ok_def opt_list_def)

definition press_older :: "AgentEventRow list \<Rightarrow> AgentPage \<Rightarrow> AgentPage" where
  "press_older rows p = (case older_click p of None \<Rightarrow> p | Some (q, b) \<Rightarrow> loadEvents b (agent_answer b rows) q)"

definition press_newer :: "AgentEventRow list \<Rightarrow> AgentPage \<Rightarrow> AgentPage" where
  "press_newer rows p = (case newer_click p of None \<Rightarrow> p | Some (q, b) \<Rightarrow> loadEvents b (agent_answer b rows) q)"

lemma press_older_state:
  assumes "AGENT_PAGE \<le> length (ap_events p)" "\<not> ap_logBusy p"
  shows "press_older rows p =
    p\<lparr>ap_beforeStack := ap_beforeStack p @ [ap_pageCursor p],
      ap_events := QueryAgentEvents (ar_id (last (ap_events p))) (int AGENT_PAGE) rows,
      ap_pageCursor := ar_id (last (ap_events p)), ap_logBusy := False\<rparr>"
  using assms by (simp add: press_older_def older_click_def agent_answer_load loadEvents_click_def)

lemma newer_undoes_older:
  assumes "AGENT_PAGE \<le> length (ap_events p)" "\<not> ap_logBusy p"
  shows "press_newer rows' (press_older rows p) = p\<lparr>ap_events := QueryAgentEvents (ap_pageCursor p) (int AGENT_PAGE) rows'\<rparr>"
  using assms by (simp add: press_older_state press_newer_def newer_click_def agent_answer_load loadEvents_click_def)

text \<open>The pages below the first do not change when events are recorded.\<close>

lemma older_page_stable:
  assumes "appended ar_id rows rows'" "e \<in> set rows" "0 < ar_id e"
  shows "QueryAgentEvents (ar_id e) (int AGENT_PAGE) rows' = QueryAgentEvents (ar_id e) (int AGENT_PAGE) rows"
  using agent_log.older_rows [OF assms(3)] agent_log.older_grown [OF assms(1,2)] by simp

text \<open>
  The buttons Older and Newer of the event log of the agent undo each other. Newer after Older leads back to the same cursor and the
  same stack; and what it shows is the page that was there before, when that page is not the first, also when the agent has recorded
  events in between.
\<close>

lemma agent_log_round_trip:
  assumes "25 \<le> length (ap_events p)" "\<not> ap_logBusy p" "appended ar_id rows rows'"
    and "ap_events p = QueryAgentEvents (ap_pageCursor p) 25 rows"
    and "ap_pageCursor p = ar_id e" "e \<in> set rows" "0 < ar_id e"
  shows "press_newer rows' (press_older rows p) = p"
  using assms newer_undoes_older [of p rows' rows] older_page_stable [OF assms(3,6,7)] by (simp add: AGENT_PAGE_def)

text \<open>
  A request for older events that fails leaves the cursor pushed although the page did not change: the next press of Newer loads the page
  that is shown again.
\<close>

lemma failed_older_stays_pushed:
  assumes "older_click p = Some (q, b)" "accepted r = None"
  shows "ap_events (loadEvents b r q) = ap_events p" "newer_click (loadEvents b r q) = Some (q', c) \<Longrightarrow> c = ap_pageCursor p"
  using assms by (auto simp: older_click_def loadEvents_def loadEvents_click_def accepted_def with_body_def newer_click_def
      split: if_splits sum.splits)

end
