(* ===== verification/DevicesTab.thy ===== *)
theory DevicesTab
  imports DeviceGroup DeviceCols DeviceDetail
begin

text \<open>
  The table of devices (\<open>ui/src/tabs/DevicesTab.tsx\<close>): which devices it shows and in which order, its columns, groups and folds, what its
  cells show and do, and the actions of the menu of a row with their requests. The two comparisons by locale, of texts and of texts with
  numbers in them, are arguments.
\<close>

section \<open>Comparators that tell the sides apart\<close>

locale sign_comparator =
  fixes cmp :: "'a \<Rightarrow> 'a \<Rightarrow> int"
  assumes flips: "cmp x y < 0 \<longleftrightarrow> 0 < cmp y x"
    and le_trans: "cmp x y \<le> 0 \<Longrightarrow> cmp y z \<le> 0 \<Longrightarrow> cmp x z \<le> 0"
begin

lemma zero_sym: "cmp x y = 0 \<longleftrightarrow> cmp y x = 0"
  using flips [of x y] flips [of y x] by linarith

lemma zero_trans: "cmp x y = 0 \<Longrightarrow> cmp y z = 0 \<Longrightarrow> cmp x z = 0"
  using le_trans [of x y z] le_trans [of z y x] flips [of x z] zero_sym [of x y] zero_sym [of y z] by linarith

lemma ge_trans: "0 \<le> cmp x y \<Longrightarrow> 0 \<le> cmp y z \<Longrightarrow> 0 \<le> cmp x z"
  using le_trans [of z y x] flips [of x y] flips [of y z] flips [of x z] by linarith

lemma reversed: "sign_comparator (\<lambda>x y. cmp x y * (- 1))"
  using flips ge_trans by unfold_locales (force, force)

lemma then_by:
  assumes "sign_comparator cmp2"
  shows "sign_comparator (\<lambda>x y. if cmp x y = 0 then cmp2 x y else cmp x y)"
proof
  show "(if cmp x y = 0 then cmp2 x y else cmp x y) < 0 \<longleftrightarrow> 0 < (if cmp y x = 0 then cmp2 y x else cmp y x)" for x y
    using flips [of x y] zero_sym [of x y] sign_comparator.flips [OF assms, of x y] by auto
next
  fix x y z
  assume xy: "(if cmp x y = 0 then cmp2 x y else cmp x y) \<le> 0" and yz: "(if cmp y z = 0 then cmp2 y z else cmp y z) \<le> 0"
  then have le: "cmp x y \<le> 0" "cmp y z \<le> 0" by (auto split: if_splits)
  then have xz: "cmp x z \<le> 0" by (rule le_trans)
  show "(if cmp x z = 0 then cmp2 x z else cmp x z) \<le> 0"
  proof (cases "cmp x z = 0")
    case True
    then have "cmp z x \<le> 0" using zero_sym [of x z] by simp
    then have "cmp y x \<le> 0" "cmp z y \<le> 0" using le le_trans by blast+
    then have "cmp x y = 0" "cmp y z = 0" using le flips [of x y] flips [of y z] by linarith+
    with True xy yz show ?thesis using sign_comparator.le_trans [OF assms, of x y z] by simp
  qed (use xz in simp)
qed

end

sublocale sign_comparator \<subseteq> comparator cmp
proof
  show "cmp x y \<le> 0 \<or> cmp y x \<le> 0" for x y using flips [of y x] by linarith
qed (rule le_trans)
interpretation by_difference: sign_comparator "\<lambda>a b. f a - (f b :: int)" for f
  by unfold_locales linarith+

lemma difference_flipped: "sign_comparator (\<lambda>a b. f b - (f a :: int))"
  by unfold_locales linarith+

lemma by_collation:
  assumes "strict_collation lc"
  shows "sign_comparator (\<lambda>a b. lc (f a) (f b))"
  using strict_collation.lc_neg [OF assms] collation.lc_trans [OF strict_collation.axioms(1) [OF assms]]
  by (unfold_locales) blast+

section \<open>The rows of the table\<close>

datatype TagScope = ScopeGroup | ScopeUser | ScopeDevice

record Row =
  rw_d :: Device
  rw_membership :: "Membership option"
  rw_online :: bool
  rw_lan :: "NetIface option"
  rw_loc :: "PortLoc option"

record TableProps =
  tb_devices :: "Device list"
  tb_groupFilter :: string
  tb_groupTagType :: TagScope
  tb_lanFilter :: string
  tb_switchMacs :: "mac list"
  tb_switches :: "Switch list"
  tb_query :: string
  tb_nowMs :: int
  tb_uuidToNet :: "(string, NetIface) jsmap"
  tb_tags :: "Tag list"
  tb_labelTag :: "string \<Rightarrow> string option \<Rightarrow> string"

record TableState =
  st_sortKey :: DeviceColId
  st_asc :: bool
  st_cols :: "DeviceColId list"
  st_showInactive :: bool
  st_groupBy :: "DeviceGroupBy option"
  st_collapsed :: "string list"
  st_previousGroupBy :: "DeviceGroupBy option"

definition first_of :: "string list option \<Rightarrow> string option" where
  "first_of xs = (case opt_list xs of x # _ \<Rightarrow> if x \<noteq> [] then Some x else None | [] \<Rightarrow> None)"

definition primaryMembership :: "Device \<Rightarrow> (string \<Rightarrow> string option \<Rightarrow> string) \<Rightarrow> Membership option" where
  "primaryMembership d labelTag =
     (case first_of (dev_user_tag_ids d) of
        Some u \<Rightarrow> Some \<lparr>mb_id = u, mb_name = labelTag u (Some ''user''), mb_kind = Some MemberUser\<rparr>
      | None \<Rightarrow>
          (case first_of (dev_tag_ids d) of
             Some g \<Rightarrow> Some \<lparr>mb_id = g, mb_name = labelTag g (Some ''group''), mb_kind = Some MemberGroup\<rparr>
           | None \<Rightarrow> None))"

definition portOf :: "TableProps \<Rightarrow> (string, PortLoc) jsmap" where
  "portOf t = indexDevicePorts (tb_switches t)"

definition visibleDevices :: "TableProps \<Rightarrow> TableState \<Rightarrow> Device list" where
  "visibleDevices t s = filterDevicesByActive (tb_devices t) (st_showInactive s)"

definition tags_in_scope :: "TagScope \<Rightarrow> Device \<Rightarrow> string list" where
  "tags_in_scope k d =
     opt_list (case k of ScopeDevice \<Rightarrow> dev_device_tag_ids d | ScopeUser \<Rightarrow> dev_user_tag_ids d | ScopeGroup \<Rightarrow> dev_tag_ids d)"

definition in_scope :: "TableProps \<Rightarrow> Device \<Rightarrow> bool" where
  "in_scope t d =
     (if tb_groupFilter t \<noteq> [] \<and> tb_groupFilter t \<notin> set (tags_in_scope (tb_groupTagType t) d) then False
      else if tb_lanFilter t \<noteq> [] \<and> dev_intf_uuid d \<noteq> Some (tb_lanFilter t) then False
      else if tb_switchMacs t \<noteq> [] \<and> toUpperCase (dev_mac d) \<notin> set (tb_switchMacs t) then False
      else True)"

definition scoped :: "TableProps \<Rightarrow> TableState \<Rightarrow> Device list" where
  "scoped t s = filter (in_scope t) (visibleDevices t s)"

definition table_ctx :: "TableProps \<Rightarrow> SearchCtx" where
  "table_ctx t = \<lparr>cx_nowMs = tb_nowMs t, cx_uuidToNet = tb_uuidToNet t,
     cx_labelTag = (\<lambda>i k. tb_labelTag t i (Some k)), cx_portOf = Some (portOf t)\<rparr>"

definition make_row :: "TableProps \<Rightarrow> Device \<Rightarrow> Row" where
  "make_row t d =
     \<lparr>rw_d = d, rw_membership = primaryMembership d (tb_labelTag t), rw_online = deviceOnline d (tb_nowMs t),
      rw_lan = (if truthy (dev_intf_uuid d) then map_of (tb_uuidToNet t) (opt_str (dev_intf_uuid d)) else None),
      rw_loc = map_of (portOf t) (toUpperCase (dev_mac d))\<rparr>"

definition dap_number :: "(DAP \<Rightarrow> int) \<Rightarrow> Row \<Rightarrow> int" where
  "dap_number f r = (case dev_dap (rw_d r) of Some x \<Rightarrow> f x | None \<Rightarrow> -1)"

definition int_or_zero :: "int option \<Rightarrow> int" where
  "int_or_zero x = (case x of Some n \<Rightarrow> n | None \<Rightarrow> 0)"

definition vendor_of :: "Device \<Rightarrow> string" where
  "vendor_of d = or_else (opt_str (dev_vendor d)) ''Unknown''"

definition row_network :: "Row \<Rightarrow> string" where
  "row_network r = (case rw_lan r of Some l \<Rightarrow> netLabel l | None \<Rightarrow> [])"

fun compareRow :: "(string \<Rightarrow> string \<Rightarrow> int) \<Rightarrow> (string \<Rightarrow> string \<Rightarrow> int) \<Rightarrow> DeviceColId \<Rightarrow> Row \<Rightarrow> Row \<Rightarrow> int" where
  "compareRow lc lcn CName a b = lc (preferredName (rw_d a)) (preferredName (rw_d b))"
| "compareRow lc lcn CGroup a b =
     lc (case rw_membership a of Some m \<Rightarrow> mb_name m | None \<Rightarrow> []) (case rw_membership b of Some m \<Rightarrow> mb_name m | None \<Rightarrow> [])"
| "compareRow lc lcn CStatus a b = of_bool (rw_online b) - of_bool (rw_online a)"
| "compareRow lc lcn CDap a b =
     lc (dapLabel (map_option dap_status (dev_dap (rw_d a)))) (dapLabel (map_option dap_status (dev_dap (rw_d b))))"
| "compareRow lc lcn CLearned a b = dap_number dap_learned a - dap_number dap_learned b"
| "compareRow lc lcn CTrusted a b = dap_number dap_trusted a - dap_number dap_trusted b"
| "compareRow lc lcn CBlocked a b = dap_number dap_blocked a - dap_number dap_blocked b"
| "compareRow lc lcn CIp a b = lcn (opt_str (dev_ip (rw_d a))) (opt_str (dev_ip (rw_d b)))"
| "compareRow lc lcn CPort a b =
     lcn (case rw_loc a of Some l \<Rightarrow> pl_label l | None \<Rightarrow> []) (case rw_loc b of Some l \<Rightarrow> pl_label l | None \<Rightarrow> [])"
| "compareRow lc lcn CNetwork a b = lc (row_network a) (row_network b)"
| "compareRow lc lcn CIpv6 a b =
     lc (case opt_list (dev_ipv6 (rw_d a)) of x # _ \<Rightarrow> x | [] \<Rightarrow> []) (case opt_list (dev_ipv6 (rw_d b)) of x # _ \<Rightarrow> x | [] \<Rightarrow> [])"
| "compareRow lc lcn CMac a b = lc (dev_mac (rw_d a)) (dev_mac (rw_d b))"
| "compareRow lc lcn CVendor a b = lc (vendor_of (rw_d a)) (vendor_of (rw_d b))"
| "compareRow lc lcn CDownload a b = int_or_zero (dev_download (rw_d a)) - int_or_zero (dev_download (rw_d b))"
| "compareRow lc lcn CUpload a b = int_or_zero (dev_upload (rw_d a)) - int_or_zero (dev_upload (rw_d b))"

definition table_row_order :: "(string \<Rightarrow> string \<Rightarrow> int) \<Rightarrow> (string \<Rightarrow> string \<Rightarrow> int) \<Rightarrow> TableState \<Rightarrow> Row \<Rightarrow> Row \<Rightarrow> int" where
  "table_row_order lc lcn s a b =
     (let cmp = compareRow lc lcn (st_sortKey s) a b; dir = (if st_asc s then 1 else -1)
      in if cmp = 0 then lc (preferredName (rw_d a)) (preferredName (rw_d b)) else cmp * dir)"

definition row_found :: "TableProps \<Rightarrow> Device \<Rightarrow> bool" where
  "row_found t d \<longleftrightarrow> toLowerCase (trim (tb_query t)) = [] \<or> deviceMatchesSearch d (tb_query t) (table_ctx t)"

definition table_rows :: "(string \<Rightarrow> string \<Rightarrow> int) \<Rightarrow> (string \<Rightarrow> string \<Rightarrow> int) \<Rightarrow> TableProps \<Rightarrow> TableState \<Rightarrow> Row list" where
  "table_rows lc lcn t s =
     js_sort (table_row_order lc lcn s) (filter (\<lambda>r. row_found t (rw_d r)) (map (make_row t) (scoped t s)))"

definition group_fields :: "Row \<Rightarrow> DeviceGroupFields" where
  "group_fields r =
     \<lparr>gf_online = rw_online r, gf_membership = rw_membership r,
      gf_lan = map_option (\<lambda>l. \<lparr>gl_uuid = ni_uuid l, gl_label = netLabel l\<rparr>) (rw_lan r),
      gf_loc = map_option (\<lambda>l. \<lparr>lo_switchMac = pl_switchMac l, lo_switchName = pl_switchName l, lo_portId = pl_portId l,
          lo_label = pl_label l, lo_clients = pl_clients l\<rparr>) (rw_loc r)\<rparr>"

definition table_groups ::
  "(string \<Rightarrow> string \<Rightarrow> int) \<Rightarrow> (string \<Rightarrow> string \<Rightarrow> int) \<Rightarrow> TableProps \<Rightarrow> TableState \<Rightarrow> Row DeviceRowGroup list" where
  "table_groups lc lcn t s = groupDeviceRows lc (table_rows lc lcn t s) (st_groupBy s) group_fields"

text \<open>The rows on the screen: those of the groups that are not folded.\<close>

definition shown_rows ::
  "(string \<Rightarrow> string \<Rightarrow> int) \<Rightarrow> (string \<Rightarrow> string \<Rightarrow> int) \<Rightarrow> TableProps \<Rightarrow> TableState \<Rightarrow> Row list" where
  "shown_rows lc lcn t s =
     concat (map rg_rows (filter (\<lambda>g. rg_key g \<notin> set (st_collapsed s)) (table_groups lc lcn t s)))"
lemma compareRow_sign:
  assumes "strict_collation lc" "strict_collation lcn"
  shows "sign_comparator (compareRow lc lcn key)"
proof -
  have texts: "sign_comparator (\<lambda>a b. lc (f a) (f b))" "sign_comparator (\<lambda>a b. lcn (f a) (f b))" for f :: "Row \<Rightarrow> string"
    using assms by (auto intro: by_collation)
  show ?thesis
    by (cases key) (simp_all add: fun_eq_iff compareRow.simps [abs_def] texts by_difference.sign_comparator_axioms difference_flipped)
qed

lemma table_row_order_sign:
  assumes "strict_collation lc" "strict_collation lcn"
  shows "sign_comparator (table_row_order lc lcn s)"
proof -
  let ?c = "compareRow lc lcn (st_sortKey s)" and ?n = "\<lambda>a b. lc (preferredName (rw_d a)) (preferredName (rw_d b))"
  have c: "sign_comparator ?c" and n: "sign_comparator ?n"
    using assms by (simp_all add: compareRow_sign by_collation [where f = "\<lambda>a. preferredName (rw_d a)"])
  have "sign_comparator (\<lambda>a b. ?c a b * (if st_asc s then 1 else -1))"
    using c sign_comparator.reversed [OF c] by (cases "st_asc s") simp_all
  from sign_comparator.then_by [OF this n] show ?thesis
    by (cases "st_asc s") (simp_all add: table_row_order_def [abs_def] Let_def)
qed

definition shows_device :: "TableProps \<Rightarrow> TableState \<Rightarrow> Device \<Rightarrow> bool" where
  "shows_device t s d \<longleftrightarrow>
     (st_showInactive s \<or> \<not> catalogHasActiveStamp (tb_devices t) \<or> dev_active d = Some True) \<and> in_scope t d \<and> row_found t d"

lemma filter_shows: "filter (row_found t) (scoped t s) = filter (shows_device t s) (tb_devices t)"
  by (auto simp: scoped_def visibleDevices_def filterDevicesByActive_def shows_device_def intro: filter_cong)

lemma make_row_device [simp]: "rw_d (make_row t d) = d"
  by (simp add: make_row_def)

lemma mset_table_rows: "mset (table_rows lc lcn t s) = mset (map (make_row t) (filter (shows_device t s) (tb_devices t)))"
  by (simp add: table_rows_def filter_map o_def filter_shows [symmetric])

text \<open>C20: the table shows exactly the devices that pass its filters, each once for each time it is in the list, and orders them by the chosen
  column: of two rows, the one above is strictly before the other in the direction of the sort, or the column does not tell them apart and
  the names are in ascending order, whatever the direction.
\<close>

theorem table_rows_ordered:
  assumes "strict_collation lc" "strict_collation lcn"
  shows "mset (map rw_d (table_rows lc lcn t s)) = mset (filter (shows_device t s) (tb_devices t)) \<and>
         sorted_wrt (\<lambda>a b.
           (if st_asc s then compareRow lc lcn (st_sortKey s) a b < 0 else 0 < compareRow lc lcn (st_sortKey s) a b) \<or>
           compareRow lc lcn (st_sortKey s) a b = 0 \<and> lc (preferredName (rw_d a)) (preferredName (rw_d b)) \<le> 0)
           (table_rows lc lcn t s)"
proof -
  have "mset (map rw_d (table_rows lc lcn t s)) = mset (map rw_d (map (make_row t) (filter (shows_device t s) (tb_devices t))))"
    by (simp only: mset_map mset_table_rows)
  then have m: "mset (map rw_d (table_rows lc lcn t s)) = mset (filter (shows_device t s) (tb_devices t))"
    by (simp only: map_map o_def make_row_device map_ident)
  have "comparator (table_row_order lc lcn s)"
    by (rule comparator.intro) (use table_row_order_sign [OF assms, of s] sign_comparator.flips sign_comparator.le_trans in \<open>force simp: not_le\<close>)+
  then have "sorted_wrt (\<lambda>a b. table_row_order lc lcn s a b \<le> 0) (table_rows lc lcn t s)"
    unfolding table_rows_def by (rule comparator.sorted_js_sort)
  then show ?thesis
    using m by (auto simp: table_row_order_def Let_def elim!: sorted_wrt_mono_rel [rotated] split: if_splits)
qed
definition table_device :: "mac \<Rightarrow> string \<Rightarrow> int \<Rightarrow> Device" where
  "table_device m name down =
     \<lparr>dev_mac = m, dev_name = name, dev_ip = None, dev_ipv6 = None, dev_vendor = None, dev_type = None, dev_local_domain = None,
      dev_last_active_ts = None, dev_active = None, dev_intf_uuid = None, dev_tag_ids = Some [''3''], dev_device_tag_ids = None,
      dev_user_tag_ids = None, dev_upload = None, dev_download = Some down, dev_top_dests = None, dev_dap = None, dev_hostname = None,
      dev_os = None, dev_tx_kbps = None, dev_rx_kbps = None, dev_ssid = None, dev_band = None, dev_ap_mac = None, dev_ap_name = None\<rparr>"

definition table_props :: "Device list \<Rightarrow> TableProps" where
  "table_props ds =
     \<lparr>tb_devices = ds, tb_groupFilter = ''3'', tb_groupTagType = ScopeGroup, tb_lanFilter = [], tb_switchMacs = [], tb_switches = [],
      tb_query = [], tb_nowMs = 0, tb_uuidToNet = [], tb_tags = [], tb_labelTag = (\<lambda>i _. i)\<rparr>"

definition by_download :: TableState where
  "by_download = \<lparr>st_sortKey = CDownload, st_asc = False, st_cols = [], st_showInactive = True, st_groupBy = None, st_collapsed = [],
     st_previousGroupBy = None\<rparr>"

theorem table_rows_ordered_witness:
  "sorted_wrt (\<lambda>a b. 0 < compareRow unit_compare unit_compare CDownload a b \<or>
       compareRow unit_compare unit_compare CDownload a b = 0 \<and> unit_compare (preferredName (rw_d a)) (preferredName (rw_d b)) \<le> 0)
     (table_rows unit_compare unit_compare (table_props [table_device ''A'' ''cam'' 3, table_device ''B'' ''tv'' 9]) by_download) \<and>
   size (mset (map rw_d (table_rows unit_compare unit_compare
     (table_props [table_device ''A'' ''cam'' 3, table_device ''B'' ''tv'' 9]) by_download))) = 2"
proof -
  let ?t = "table_props [table_device ''A'' ''cam'' 3, table_device ''B'' ''tv'' 9]"
  have shown: "filter (shows_device ?t by_download) (tb_devices ?t) = tb_devices ?t"
    by (simp add: shows_device_def table_props_def by_download_def table_device_def in_scope_def tags_in_scope_def opt_list_def row_found_def
        toLowerCase_def)
  have "st_asc by_download = False" "st_sortKey by_download = CDownload" by (simp_all add: by_download_def)
  with table_rows_ordered [OF units_strict.strict_collation_axioms units_strict.strict_collation_axioms, of ?t by_download] shown
  show ?thesis by (simp add: table_props_def)
qed

section \<open>Sort, columns, folds\<close>

definition toggleSort :: "DeviceColId \<Rightarrow> TableState \<Rightarrow> TableState" where
  "toggleSort key s =
     (if st_sortKey s = key then s\<lparr>st_asc := \<not> st_asc s\<rparr> else s\<lparr>st_sortKey := key, st_asc := (key = CName)\<rparr>)"

definition toggleCol :: "DeviceColId \<Rightarrow> bool \<Rightarrow> TableState \<Rightarrow> TableState" where
  "toggleCol i locked s =
     (if locked then s
      else s\<lparr>st_cols := (if i \<in> set (st_cols s) then filter (\<lambda>c. c \<noteq> i) (st_cols s) else st_cols s @ [i])\<rparr>)"

definition resetCols :: "TableState \<Rightarrow> TableState" where
  "resetCols s = s\<lparr>st_cols := defaultDeviceCols\<rparr>"

definition toggleCollapsed :: "string \<Rightarrow> TableState \<Rightarrow> TableState" where
  "toggleCollapsed key s =
     s\<lparr>st_collapsed := (if key \<in> set (st_collapsed s) then filter (\<lambda>k. k \<noteq> key) (st_collapsed s) else st_collapsed s @ [key])\<rparr>"

definition group_effect :: "TableState \<Rightarrow> TableState" where
  "group_effect s =
     (if st_previousGroupBy s \<noteq> st_groupBy s then s\<lparr>st_collapsed := []\<rparr> else s)\<lparr>st_previousGroupBy := st_groupBy s\<rparr>"

definition visible_cols :: "TableState \<Rightarrow> DeviceColId list" where
  "visible_cols s = filter (\<lambda>c. c \<in> set (st_cols s)) (map fst DEVICE_COLS)"

definition is_locked :: "DeviceColId \<Rightarrow> bool" where
  "is_locked i = list_ex (\<lambda>(c, l, locked). c = i \<and> locked) DEVICE_COLS"

text \<open>
  The column of the name cannot be removed by its checkbox, and the others appear in the order of the table, whatever the order in which
  they were chosen.
\<close>

lemma name_stays: "CName \<in> set (st_cols s) \<Longrightarrow> CName \<in> set (st_cols (toggleCol i (is_locked i) s))"
  by (simp add: toggleCol_def is_locked_def DEVICE_COLS_def)

lemma visible_order: "set (st_cols s) = set (st_cols s') \<Longrightarrow> visible_cols s = visible_cols s'"
  by (simp add: visible_cols_def)

lemma toggle_twice:
  "set (st_cols (toggleCol i l (toggleCol i l s))) = set (st_cols s)"
  "set (st_collapsed (toggleCollapsed k (toggleCollapsed k s))) = set (st_collapsed s)"
  by (auto simp: toggleCol_def toggleCollapsed_def)

lemma rows_ignore_folds:
  "table_rows lc lcn t (toggleCollapsed k s) = table_rows lc lcn t s" "table_groups lc lcn t (toggleCollapsed k s) = table_groups lc lcn t s"
  by (simp_all add: table_groups_def table_rows_def toggleCollapsed_def scoped_def visibleDevices_def table_row_order_def [abs_def])

text \<open>After a change of the grouping every group is unfolded, so every row is on the screen.\<close>

lemma all_shown_after_regroup:
  assumes "st_previousGroupBy s \<noteq> st_groupBy s"
  shows "shown_rows lc lcn t (group_effect s) = concat (map rg_rows (table_groups lc lcn t (group_effect s)))"
  using assms by (simp add: shown_rows_def group_effect_def)
lemma mset_by_keys:
  assumes "distinct ks" "f ` set rows \<subseteq> set ks"
  shows "mset (concat (map (\<lambda>k. filter (\<lambda>r. f r = k) rows) ks)) = mset rows"
  using assms
proof (induction ks arbitrary: rows)
  case (Cons k ks)
  let ?rest = "filter (\<lambda>r. f r \<noteq> k) rows"
  have same: "map (\<lambda>k. filter (\<lambda>r. f r = k) rows) ks = map (\<lambda>k. filter (\<lambda>r. f r = k) ?rest) ks"
    using Cons.prems(1) by (auto intro: filter_cong)
  have "mset (concat (map (\<lambda>k. filter (\<lambda>r. f r = k) ?rest) ks)) = mset ?rest"
    using Cons.prems by (intro Cons.IH) auto
  then show ?case
    by (simp add: same del: filter_filter)
qed simp

text \<open>C21: grouping and folding never lose or repeat a device. The groups together hold exactly the rows of the table; and folding a group away
  takes exactly its rows off the screen and leaves every other row there.
\<close>

theorem groups_hold_rows:
  "mset (concat (map rg_rows (table_groups lc lcn t s))) = mset (table_rows lc lcn t s) \<and>
   mset (shown_rows lc lcn t s) =
     mset (filter (\<lambda>r. (case st_groupBy s of None \<Rightarrow> ''all'' | Some gb \<Rightarrow> row_key group_fields gb r) \<notin> set (st_collapsed s))
       (table_rows lc lcn t s))"
proof -
  let ?rows = "table_rows lc lcn t s" and ?gs = "table_groups lc lcn t s"
  let ?f = "\<lambda>r. case st_groupBy s of None \<Rightarrow> ''all'' | Some gb \<Rightarrow> row_key group_fields gb r"
  have p: "distinct (map rg_key ?gs)" "?f ` set ?rows \<subseteq> set (map rg_key ?gs)"
      "\<forall>g\<in>set ?gs. rg_rows g = filter (\<lambda>r. ?f r = rg_key g) ?rows"
    using groups_partition [of lc ?rows _ group_fields]
    by (cases "st_groupBy s"; force simp: table_groups_def groupDeviceRows_def [of _ _ None] Let_def list_all_iff)+
  have cat: "concat (map rg_rows gs) = concat (map (\<lambda>k. filter (\<lambda>r. ?f r = k) ?rows) (map rg_key gs))" if "set gs \<subseteq> set ?gs" for gs
    using that p(3) by (induction gs) auto
  have all: "mset (concat (map rg_rows ?gs)) = mset ?rows"
    using mset_by_keys [OF p(1,2)] cat [of ?gs] by simp
  let ?open = "\<lambda>k. k \<notin> set (st_collapsed s)"
  let ?ks = "map rg_key (filter (\<lambda>g. ?open (rg_key g)) ?gs)"
  have ks: "?ks = filter ?open (map rg_key ?gs)" by (simp add: filter_map o_def)
  have "concat (map rg_rows (filter (\<lambda>g. ?open (rg_key g)) ?gs)) = concat (map (\<lambda>k. filter (\<lambda>r. ?f r = k) ?rows) ?ks)"
    by (rule cat) auto
  also have "\<dots> = concat (map (\<lambda>k. filter (\<lambda>r. ?f r = k) (filter (\<lambda>r. ?open (?f r)) ?rows)) ?ks)"
    by (rule arg_cong [where f = concat], rule map_cong) (auto simp: ks intro: filter_cong)
  finally have "mset (shown_rows lc lcn t s) = mset (filter (\<lambda>r. ?open (?f r)) ?rows)"
    unfolding shown_rows_def
    using mset_by_keys [of ?ks ?f "filter (\<lambda>r. ?open (?f r)) ?rows"] p(1,2) by (simp add: ks distinct_filter image_subset_iff)
  with all show ?thesis by blast
qed
section \<open>Cells and their buttons\<close>

text \<open>The texts of a cell in their order; the dash is the mark for no value.\<close>

fun cell_text :: "(jsnum \<Rightarrow> string) \<Rightarrow> DeviceColId \<Rightarrow> Row \<Rightarrow> string list" where
  "cell_text num CName r = [preferredName (rw_d r)]"
| "cell_text num CGroup r = [case rw_membership r of Some m \<Rightarrow> mb_name m | None \<Rightarrow> EM_DASH]"
| "cell_text num CStatus r = [if rw_online r then ''Online'' else ''Offline'']"
| "cell_text num CDap r = [case dev_dap (rw_d r) of Some x \<Rightarrow> dapLabel (Some (dap_status x)) | None \<Rightarrow> EM_DASH]"
| "cell_text num CLearned r = [case dev_dap (rw_d r) of Some x \<Rightarrow> fmtCount num (Some (Num (of_int (dap_learned x)))) | None \<Rightarrow> EM_DASH]"
| "cell_text num CTrusted r = [case dev_dap (rw_d r) of Some x \<Rightarrow> fmtCount num (Some (Num (of_int (dap_trusted x)))) | None \<Rightarrow> EM_DASH]"
| "cell_text num CBlocked r = [case dev_dap (rw_d r) of Some x \<Rightarrow> fmtCount num (Some (Num (of_int (dap_blocked x)))) | None \<Rightarrow> EM_DASH]"
| "cell_text num CIp r = [or_else (opt_str (dev_ip (rw_d r))) EM_DASH]"
| "cell_text num CPort r =
     (case rw_loc r of Some l \<Rightarrow> [if pl_uplink l then ''Uplink'' else pl_portId l, [CHR 0xB7], pl_switchName l] | None \<Rightarrow> [EM_DASH])"
| "cell_text num CNetwork r =
     [case rw_lan r of Some l \<Rightarrow> if truthy (ni_uuid l) then netLabel l else EM_DASH | None \<Rightarrow> EM_DASH]"
| "cell_text num CIpv6 r = [if opt_list (dev_ipv6 (rw_d r)) \<noteq> [] then join '', '' (opt_list (dev_ipv6 (rw_d r))) else EM_DASH]"
| "cell_text num CMac r = [dev_mac (rw_d r)]"
| "cell_text num CVendor r = [vendor_of (rw_d r)]"
| "cell_text num CDownload r = [fmtBytes (Some (Num (of_int (int_or_zero (dev_download (rw_d r))))))]"
| "cell_text num CUpload r = [fmtBytes (Some (Num (of_int (int_or_zero (dev_upload (rw_d r))))))]"

datatype TableCall = CallGroup string "MemberKind option" | CallLan string | CallPort "mac list"

definition cell_calls :: "string \<Rightarrow> DeviceColId \<Rightarrow> Row \<Rightarrow> TableCall list" where
  "cell_calls groupFilter i r =
     (case i of
        CGroup \<Rightarrow> (case rw_membership r of
            Some m \<Rightarrow> [CallGroup (if mb_id m = groupFilter then [] else mb_id m) (mb_kind m)] | None \<Rightarrow> [])
      | CPort \<Rightarrow> (case rw_loc r of
            Some l \<Rightarrow> [CallPort (pl_clients l), CallPort (if pl_switchClients l \<noteq> [] then pl_switchClients l else pl_clients l)] | None \<Rightarrow> [])
      | CNetwork \<Rightarrow> (case rw_lan r of Some l \<Rightarrow> if truthy (ni_uuid l) then [CallLan (opt_str (ni_uuid l))] else [] | None \<Rightarrow> [])
      | _ \<Rightarrow> [])"

definition group_call :: "string \<Rightarrow> Row DeviceRowGroup \<Rightarrow> TableCall option" where
  "group_call groupFilter g =
     (if rg_clients g \<noteq> [] then Some (CallPort (rg_clients g))
      else if truthy (rg_lanUuid g) then Some (CallLan (opt_str (rg_lanUuid g)))
      else if truthy (rg_tagId g)
        then Some (CallGroup (if rg_tagId g = Some groupFilter then [] else opt_str (rg_tagId g)) (rg_tagType g))
      else None)"

text \<open>What the application does with a call: it starts the navigation again with the one filter, or with none for an empty value.\<close>

fun apply_call :: "TableCall \<Rightarrow> TableProps \<Rightarrow> TableProps" where
  "apply_call (CallGroup i k) t =
     t\<lparr>tb_groupFilter := i, tb_groupTagType := (if k = Some MemberUser then ScopeUser else ScopeGroup), tb_lanFilter := [], tb_switchMacs := []\<rparr>"
| "apply_call (CallLan u) t = t\<lparr>tb_groupFilter := [], tb_lanFilter := u, tb_switchMacs := []\<rparr>"
| "apply_call (CallPort ms) t = t\<lparr>tb_groupFilter := [], tb_lanFilter := [], tb_switchMacs := ms\<rparr>"

lemma port_lists_device:
  assumes "map_of (indexDevicePorts sws) k = Some l"
  shows "k \<in> set (pl_clients l)"
proof -
  obtain c where c: "map_of (fold (offer better) (all_claims sws) []) k = Some c" "l = PortLoc.truncate c"
    using assms by (auto simp: indexDevicePorts_get)
  then have "claims.best_for (claims_for k (all_claims sws)) (Some c)"
    using claims.best_of_all [of "all_claims sws"] by (metis claims.best_of_def)
  then obtain m where "(m, c) \<in> set (claims_for k (all_claims sws))" by (auto simp: claims.best_for_def)
  then have "toUpperCase m = k" "(m, c) \<in> set (all_claims sws)" by (auto simp: claims_for_def)
  moreover have "toUpperCase m \<in> set (pl_clients c)" if "(m, c) \<in> set (all_claims sws)"
    using that by (auto simp: all_claims_def switch_claims_def port_claim_def node_claim_def)
  ultimately show ?thesis using c(2) by (simp add: PortLoc.truncate_def)
qed

lemma first_of_mem: "first_of xs = Some x \<Longrightarrow> x \<in> set (opt_list xs) \<and> x \<noteq> []"
  by (auto simp: first_of_def split: list.splits if_splits)

text \<open>C26: the link of a cell leads to a table that still has the row. The first link of a cell of any column, the user or the group, the port or
  the network of a device, sets a filter that the device passes, or clears the filters when the one it would set is set already.
\<close>

theorem cell_link_keeps_row:
  assumes "cell_calls groupFilter i (make_row t d) = c # cs"
    and "list_all (\<lambda>(u, l). ni_uuid l = Some u) (tb_uuidToNet t)"
  shows "in_scope (apply_call c t) d"
proof (cases i)
  case CGroup
  then obtain m where m: "primaryMembership d (tb_labelTag t) = Some m"
      "c = CallGroup (if mb_id m = groupFilter then [] else mb_id m) (mb_kind m)"
    using assms(1) by (auto simp: cell_calls_def make_row_def split: option.splits)
  then have "mb_id m \<in> set (opt_list (if mb_kind m = Some MemberUser then dev_user_tag_ids d else dev_tag_ids d))"
    by (auto simp: primaryMembership_def dest!: first_of_mem split: option.splits)
  then show ?thesis using m(2) by (auto simp: in_scope_def tags_in_scope_def)
next
  case CPort
  then obtain l where l: "map_of (indexDevicePorts (tb_switches t)) (toUpperCase (dev_mac d)) = Some l" "c = CallPort (pl_clients l)"
    using assms(1) by (auto simp: cell_calls_def make_row_def portOf_def split: option.splits)
  then show ?thesis using port_lists_device [OF l(1)] by (simp add: in_scope_def)
next
  case CNetwork
  then obtain l where l: "map_of (tb_uuidToNet t) (opt_str (dev_intf_uuid d)) = Some l" "truthy (dev_intf_uuid d)"
      "c = CallLan (opt_str (ni_uuid l))"
    using assms(1) by (auto simp: cell_calls_def make_row_def split: option.splits if_splits)
  then have "ni_uuid l = Some (opt_str (dev_intf_uuid d))" using assms(2) by (auto simp: list_all_iff dest!: map_of_SomeD)
  then show ?thesis using l by (auto simp: in_scope_def opt_str_def truthy_def split: option.splits)
qed (use assms(1) in \<open>simp_all add: cell_calls_def\<close>)

theorem cell_link_keeps_row_witness:
  "in_scope (apply_call (CallGroup ''3'' (Some MemberGroup)) (table_props [])) (table_device ''A'' ''cam'' 3)"
proof -
  have "cell_calls [] CGroup (make_row (table_props []) (table_device ''A'' ''cam'' 3)) = [CallGroup ''3'' (Some MemberGroup)]"
    by (simp add: cell_calls_def make_row_def primaryMembership_def first_of_def table_device_def table_props_def opt_list_def)
  from cell_link_keeps_row [OF this] show ?thesis by (simp add: table_props_def)
qed
section \<open>The menu of a row\<close>

datatype PolicyFlag = FlagAdblock | FlagFamily

datatype PolicyJob = JobGroup "string option" | JobFlag PolicyFlag | JobIsolation | JobEmergency

datatype TabRequest = AskWake mac | AskRename mac string | AskPolicy mac | WritePolicy mac HostPolicyPatch

text \<open>What a running action waits for, with what it has captured.\<close>

datatype Running =
    Waking Device
  | Renaming mac string
  | Reading Device PolicyJob
  | Writing Device PolicyJob HostPolicyPatch bool

record RowMenu =
  rm_wakeReady :: bool
  rm_actionBusy :: "mac option"
  rm_toast :: "string option"
  rm_running :: "Running option"
  rm_sent :: "TabRequest list"
  rm_calls :: "DetailCall list"

definition menu_ready :: "bool \<Rightarrow> RowMenu \<Rightarrow> bool" where
  "menu_ready writesAllowed s \<longleftrightarrow> writesAllowed \<and> rm_wakeReady s \<and> rm_actionBusy s = None"

definition say :: "string \<Rightarrow> RowMenu \<Rightarrow> RowMenu" where
  "say m s = s\<lparr>rm_toast := Some m\<rparr>"

definition begin_action :: "mac \<Rightarrow> Running \<Rightarrow> TabRequest \<Rightarrow> RowMenu \<Rightarrow> RowMenu" where
  "begin_action m r q s = s\<lparr>rm_actionBusy := Some m, rm_running := Some r, rm_sent := rm_sent s @ [q]\<rparr>"

definition end_action :: "RowMenu \<Rightarrow> RowMenu" where
  "end_action s = s\<lparr>rm_actionBusy := None, rm_running := None\<rparr>"

definition status_reply :: "(bool \<times> string) Reply \<Rightarrow> RowMenu \<Rightarrow> RowMenu" where
  "status_reply r s =
     (case r of
        NetError \<Rightarrow> s\<lparr>rm_wakeReady := False\<rparr>
      | Reply ok (paired, state) \<Rightarrow> if \<not> ok then s else s\<lparr>rm_wakeReady := (paired \<and> state = ''lan-ok'')\<rparr>)"

definition wakeDevice :: "bool \<Rightarrow> Device \<Rightarrow> RowMenu \<Rightarrow> RowMenu" where
  "wakeDevice writes d s =
     (if \<not> menu_ready writes s then s else begin_action (dev_mac d) (Waking d) (AskWake (dev_mac d)) s)"

definition wake_reply :: "Device \<Rightarrow> string option Reply \<Rightarrow> RowMenu \<Rightarrow> RowMenu" where
  "wake_reply d r s =
     end_action (case r of
        NetError \<Rightarrow> say ''Wake failed'' s
      | Reply ok err \<Rightarrow>
          if \<not> ok then say (or_msg err ''Wake failed'') s
          else say (''Wake sent '' @ [CHR 0xB7] @ '' '' @ preferredName d) s)"

text \<open>The answer of the prompt is None when it is dismissed.\<close>

definition renameDevice :: "bool \<Rightarrow> Device \<Rightarrow> string option \<Rightarrow> RowMenu \<Rightarrow> RowMenu" where
  "renameDevice writes d prompted s =
     (if \<not> menu_ready writes s then s
      else case prompted of
        None \<Rightarrow> s
      | Some nx \<Rightarrow>
          let name = trim nx in
          if name = [] then say ''Name required'' s
          else begin_action (dev_mac d) (Renaming (dev_mac d) name) (AskRename (dev_mac d) name) s)"

definition rename_reply :: "mac \<Rightarrow> string \<Rightarrow> RenameBody Reply \<Rightarrow> RowMenu \<Rightarrow> RowMenu" where
  "rename_reply m name r s =
     end_action (case r of
        NetError \<Rightarrow> say ''Rename failed'' s
      | Reply ok body \<Rightarrow>
          if \<not> ok then say (or_msg (rb_error body) ''Rename failed'') s
          else say (if truthy (rb_unifi_warning body)
                    then ''Renamed '' @ [CHR 0xB7] @ '' '' @ opt_str (rb_unifi_warning body) else ''Renamed'')
                 (s\<lparr>rm_calls := rm_calls s @ [OnRenamed m (or_msg (rb_name body) name)]\<rparr>))"

definition start_policy :: "bool \<Rightarrow> Device \<Rightarrow> PolicyJob \<Rightarrow> RowMenu \<Rightarrow> RowMenu" where
  "start_policy writes d job s =
     (if \<not> menu_ready writes s then s else begin_action (dev_mac d) (Reading d job) (AskPolicy (dev_mac d)) s)"

definition setDeviceGroup :: "bool \<Rightarrow> Device \<Rightarrow> string option \<Rightarrow> bool \<Rightarrow> RowMenu \<Rightarrow> RowMenu" where
  "setDeviceGroup writes d tagId confirmed s =
     (if \<not> truthy tagId \<and> \<not> confirmed then s else start_policy writes d (JobGroup tagId) s)"

definition togglePolicyFlag :: "bool \<Rightarrow> Device \<Rightarrow> PolicyFlag \<Rightarrow> RowMenu \<Rightarrow> RowMenu" where
  "togglePolicyFlag writes d flag s = start_policy writes d (JobFlag flag) s"

definition toggleIsolation :: "bool \<Rightarrow> Device \<Rightarrow> RowMenu \<Rightarrow> RowMenu" where
  "toggleIsolation writes d s = start_policy writes d JobIsolation s"

definition toggleEmergency :: "bool \<Rightarrow> Device \<Rightarrow> RowMenu \<Rightarrow> RowMenu" where
  "toggleEmergency writes d s = start_policy writes d JobEmergency s"

definition no_patch :: HostPolicyPatch where
  "no_patch = \<lparr>pp_monitor = None, pp_isolation = None, pp_emergency = None, pp_adblock = None, pp_family = None, pp_note = None,
     pp_tags = None\<rparr>"

definition group_tags :: "string option \<Rightarrow> Device \<Rightarrow> FwAppHostPolicy \<Rightarrow> string list" where
  "group_tags tagId d pol =
     (let current = (case hpo_tags pol of Some ts \<Rightarrow> ts | None \<Rightarrow> opt_list (dev_tag_ids d))
      in if truthy tagId then hostTagsAdd current (opt_str tagId) else [])"

definition flag_on :: "PolicyFlag \<Rightarrow> FwAppHostPolicy \<Rightarrow> bool" where
  "flag_on f pol = (case f of FlagAdblock \<Rightarrow> hpo_adblock pol = Some True | FlagFamily \<Rightarrow> hpo_family pol = Some True)"

text \<open>The change that a job makes of the policy that was read, and the new value of its switch.\<close>

fun job_patch :: "PolicyJob \<Rightarrow> Device \<Rightarrow> FwAppHostPolicy \<Rightarrow> HostPolicyPatch \<times> bool" where
  "job_patch (JobGroup tagId) d pol = (no_patch\<lparr>pp_tags := Some (group_tags tagId d pol)\<rparr>, truthy tagId)"
| "job_patch (JobFlag f) d pol =
     (let nx = \<not> flag_on f pol
      in (case f of FlagAdblock \<Rightarrow> no_patch\<lparr>pp_adblock := Some nx\<rparr> | FlagFamily \<Rightarrow> no_patch\<lparr>pp_family := Some nx\<rparr>, nx))"
| "job_patch JobIsolation d pol = (no_patch\<lparr>pp_isolation := Some (\<not> hpo_isolated pol)\<rparr>, \<not> hpo_isolated pol)"
| "job_patch JobEmergency d pol =
     (no_patch\<lparr>pp_emergency := Some (hpo_emergency pol \<noteq> Some True)\<rparr>, hpo_emergency pol \<noteq> Some True)"

fun asks_first :: "PolicyJob \<Rightarrow> bool" where
  "asks_first JobIsolation = True" | "asks_first JobEmergency = True"
| "asks_first (JobGroup _) = False" | "asks_first (JobFlag _) = False"

definition read_reply :: "Device \<Rightarrow> PolicyJob \<Rightarrow> PolicyBody Reply \<Rightarrow> bool \<Rightarrow> RowMenu \<Rightarrow> RowMenu" where
  "read_reply d job r confirmed s =
     (case (case r of Reply True body \<Rightarrow> pb_policy body | _ \<Rightarrow> None) of
        None \<Rightarrow> end_action (say ''Policy failed'' s)
      | Some pol \<Rightarrow>
          if asks_first job \<and> \<not> confirmed then end_action s
          else let (patch, nx) = job_patch job d pol
               in begin_action (dev_mac d) (Writing d job patch nx) (WritePolicy (dev_mac d) patch) s)"

fun done_text :: "(string \<Rightarrow> string option \<Rightarrow> string) \<Rightarrow> PolicyJob \<Rightarrow> bool \<Rightarrow> string" where
  "done_text labelTag (JobGroup tagId) nx =
     (if truthy tagId then ''Group '' @ [CHR 0xB7] @ '' '' @ labelTag (opt_str tagId) (Some ''group'') else ''Group cleared'')"
| "done_text labelTag (JobFlag f) nx =
     (case f of FlagAdblock \<Rightarrow> ''Adblock'' | FlagFamily \<Rightarrow> ''Family'') @
     (if nx then '': device override enabled'' else '': using inherited policy'')"
| "done_text labelTag JobIsolation nx = (if nx then ''Isolated'' else ''Isolation removed'')"
| "done_text labelTag JobEmergency nx = (if nx then ''Emergency on'' else ''Emergency off'')"

definition write_reply ::
  "(string \<Rightarrow> string option \<Rightarrow> string) \<Rightarrow> Device \<Rightarrow> PolicyJob \<Rightarrow> HostPolicyPatch \<Rightarrow> bool \<Rightarrow> PolicyBody Reply \<Rightarrow> RowMenu \<Rightarrow> RowMenu" where
  "write_reply labelTag d job patch nx r s =
     end_action (case r of
        NetError \<Rightarrow> say ''Policy failed'' s
      | Reply ok body \<Rightarrow>
          if \<not> ok then say (or_msg (pb_error body) ''Policy failed'') s
          else say (done_text labelTag job nx)
            (case job of
               JobGroup _ \<Rightarrow>
                 s\<lparr>rm_calls := rm_calls s @ [OnGroupUpdated (dev_mac d)
                     (case (case pb_policy body of Some p \<Rightarrow> hpo_tags p | None \<Rightarrow> None) of
                        Some ts \<Rightarrow> ts | None \<Rightarrow> opt_list (pp_tags patch))]\<rparr>
             | _ \<Rightarrow> s))"

datatype MenuEvent =
    StatusReply "(bool \<times> string) Reply"
  | PressWake Device | PressRename Device "string option" | PressGroup Device "string option" bool
  | PressFlag Device PolicyFlag | PressIsolation Device | PressEmergency Device
  | PlainReply "string option Reply" | NameReply "RenameBody Reply" | PolicyReply "PolicyBody Reply" bool
  | DismissToast

text \<open>The reply goes to the action that runs; there is none to take a reply of another kind.\<close>

fun menu_event :: "bool \<Rightarrow> (string \<Rightarrow> string option \<Rightarrow> string) \<Rightarrow> MenuEvent \<Rightarrow> RowMenu \<Rightarrow> RowMenu" where
  "menu_event w lt (StatusReply r) s = status_reply r s"
| "menu_event w lt (PressWake d) s = wakeDevice w d s"
| "menu_event w lt (PressRename d nx) s = renameDevice w d nx s"
| "menu_event w lt (PressGroup d tagId ok) s = setDeviceGroup w d tagId ok s"
| "menu_event w lt (PressFlag d f) s = togglePolicyFlag w d f s"
| "menu_event w lt (PressIsolation d) s = toggleIsolation w d s"
| "menu_event w lt (PressEmergency d) s = toggleEmergency w d s"
| "menu_event w lt (PlainReply r) s = (case rm_running s of Some (Waking d) \<Rightarrow> wake_reply d r s | _ \<Rightarrow> s)"
| "menu_event w lt (NameReply r) s = (case rm_running s of Some (Renaming m n) \<Rightarrow> rename_reply m n r s | _ \<Rightarrow> s)"
| "menu_event w lt (PolicyReply r ok) s =
     (case rm_running s of
        Some (Reading d job) \<Rightarrow> read_reply d job r ok s
      | Some (Writing d job patch nx) \<Rightarrow> write_reply lt d job patch nx r s
      | _ \<Rightarrow> s)"
| "menu_event w lt DismissToast s = s\<lparr>rm_toast := None\<rparr>"
definition menu_init :: RowMenu where
  "menu_init = \<lparr>rm_wakeReady = False, rm_actionBusy = None, rm_toast = None, rm_running = None, rm_sent = [], rm_calls = []\<rparr>"

fun run_mac :: "Running \<Rightarrow> mac" where
  "run_mac (Waking d) = dev_mac d" | "run_mac (Renaming m n) = m"
| "run_mac (Reading d job) = dev_mac d" | "run_mac (Writing d job patch nx) = dev_mac d"

text \<open>Every write of a policy directly follows the request that reads the policy of the same device.\<close>

fun writes_after_reads :: "TabRequest option \<Rightarrow> TabRequest list \<Rightarrow> bool" where
  "writes_after_reads prev [] = True"
| "writes_after_reads prev (x # xs) \<longleftrightarrow>
     (case x of WritePolicy m _ \<Rightarrow> prev = Some (AskPolicy m) | _ \<Rightarrow> True) \<and> writes_after_reads (Some x) xs"

lemma writes_after_reads_snoc:
  "writes_after_reads prev (xs @ [y]) \<longleftrightarrow>
   writes_after_reads prev xs \<and>
   (case y of WritePolicy m _ \<Rightarrow> (if xs = [] then prev else Some (last xs)) = Some (AskPolicy m) | _ \<Rightarrow> True)"
  by (induction xs arbitrary: prev) (auto split: TabRequest.splits)

definition run_sent :: "Running option \<Rightarrow> TabRequest list \<Rightarrow> bool" where
  "run_sent run sent =
     (case run of
        Some (Reading d job) \<Rightarrow> sent \<noteq> [] \<and> last sent = AskPolicy (dev_mac d)
      | Some _ \<Rightarrow> sent \<noteq> []
      | None \<Rightarrow> True)"

definition menu_inv :: "bool \<Rightarrow> RowMenu \<Rightarrow> bool" where
  "menu_inv w s \<longleftrightarrow>
     rm_actionBusy s = map_option run_mac (rm_running s) \<and> writes_after_reads None (rm_sent s) \<and> (w \<or> rm_sent s = []) \<and>
     run_sent (rm_running s) (rm_sent s)"

lemmas menu_defs = say_def begin_action_def end_action_def menu_ready_def start_policy_def

lemma end_action_inv: "menu_inv w s \<Longrightarrow> menu_inv w (end_action s)" "menu_inv w s \<Longrightarrow> menu_inv w (say m s)"
  by (simp_all add: menu_inv_def menu_defs run_sent_def [of None])

lemma begin_action_inv:
  assumes "menu_inv w s" "w" "run_mac r = m"
    and "case r of Reading d job \<Rightarrow> q = AskPolicy m
           | Writing d job patch nx \<Rightarrow> q = WritePolicy m patch \<and> (\<exists>j. rm_running s = Some (Reading d j))
           | _ \<Rightarrow> \<forall>n p. q \<noteq> WritePolicy n p"
  shows "menu_inv w (begin_action m r q s)"
  using assms by (auto simp: menu_inv_def begin_action_def writes_after_reads_snoc run_sent_def split: Running.splits TabRequest.splits option.splits)

lemma calls_inv: "menu_inv w s \<Longrightarrow> menu_inv w (s\<lparr>rm_calls := c\<rparr>)"
  by (simp add: menu_inv_def)

lemma started_inv:
  assumes "menu_inv w s"
  shows "menu_inv w (wakeDevice w d s)" "menu_inv w (renameDevice w d nx s)" "menu_inv w (start_policy w d job s)"
  using assms
  by (auto simp: wakeDevice_def renameDevice_def start_policy_def menu_ready_def Let_def end_action_inv begin_action_inv split: option.splits)

lemma reply_inv:
  assumes "menu_inv w s"
  shows "menu_inv w (wake_reply d r1 s)" "menu_inv w (rename_reply m n r2 s)" "menu_inv w (write_reply lt d job patch nx r3 s)"
  using assms
  by (auto simp: wake_reply_def rename_reply_def write_reply_def end_action_inv calls_inv split: Reply.splits PolicyJob.splits option.splits)

lemma read_reply_inv:
  assumes "menu_inv w s" "rm_running s = Some (Reading d job)"
  shows "menu_inv w (read_reply d job r ok s)"
proof -
  have w: "w" using assms by (auto simp: menu_inv_def run_sent_def)
  then show ?thesis
    using assms by (auto simp: read_reply_def end_action_inv begin_action_inv split: option.splits prod.splits)
qed

lemma menu_event_inv: "menu_inv w s \<Longrightarrow> menu_inv w (menu_event w lt e s)"
proof (cases e)
  case (StatusReply r)
  assume "menu_inv w s"
  then show ?thesis using StatusReply by (auto simp: status_reply_def menu_inv_def split: Reply.splits)
next
  case DismissToast
  assume "menu_inv w s"
  then show ?thesis using DismissToast by (simp add: menu_inv_def)
qed (auto simp: setDeviceGroup_def togglePolicyFlag_def toggleIsolation_def toggleEmergency_def started_inv reply_inv read_reply_inv
      split: option.splits Running.splits)


text \<open>While an action runs, no press starts another.\<close>

lemma one_action_at_a_time:
  assumes "rm_actionBusy s \<noteq> None"
    and "e \<in> {PressWake d, PressRename d nx, PressGroup d tagId ok, PressFlag d f, PressIsolation d, PressEmergency d}"
  shows "menu_event w lt e s = s"
  using assms by (auto simp: wakeDevice_def renameDevice_def setDeviceGroup_def togglePolicyFlag_def toggleIsolation_def toggleEmergency_def
      start_policy_def menu_ready_def)

text \<open>Every reply to the action that runs ends it, or takes it from reading to writing the policy.\<close>

lemma reply_progress:
  "rm_running s = Some (Waking d) \<Longrightarrow> rm_running (menu_event w lt (PlainReply r1) s) = None"
  "rm_running s = Some (Renaming m n) \<Longrightarrow> rm_running (menu_event w lt (NameReply r2) s) = None"
  "rm_running s = Some (Writing d job patch nx) \<Longrightarrow> rm_running (menu_event w lt (PolicyReply r3 ok) s) = None"
  "rm_running s = Some (Reading d job) \<Longrightarrow>
     case rm_running (menu_event w lt (PolicyReply r3 ok) s) of None \<Rightarrow> True | Some (Writing d' job' p nx) \<Rightarrow> d' = d \<and> job' = job | _ \<Rightarrow> False"
  by (auto simp: wake_reply_def rename_reply_def write_reply_def read_reply_def menu_defs split: option.splits prod.splits)

text \<open>Adding a device to a group keeps the groups that the box reports, and the table is told the groups that the box answers with.\<close>

lemma add_group_outcome:
  assumes "menu_ready w s" "tagId \<noteq> []" "hpo_tags pol = Some ts"
  shows "rm_sent (fold (menu_event w lt) [PressGroup d (Some tagId) c, PolicyReply (Reply True \<lparr>pb_error = None, pb_policy = Some pol\<rparr>) c2] s) =
      rm_sent s @ [AskPolicy (dev_mac d), WritePolicy (dev_mac d) (no_patch\<lparr>pp_tags := Some (hostTagsAdd ts tagId)\<rparr>)]"
    "rm_calls (fold (menu_event w lt) [PressGroup d (Some tagId) c, PolicyReply (Reply True \<lparr>pb_error = None, pb_policy = Some pol\<rparr>) c2,
       PolicyReply (Reply True \<lparr>pb_error = None, pb_policy = Some pol2\<rparr>) c3] s) =
     rm_calls s @ [OnGroupUpdated (dev_mac d) (case hpo_tags pol2 of Some u \<Rightarrow> u | None \<Rightarrow> hostTagsAdd ts tagId)]"
  using assms by (simp_all add: setDeviceGroup_def menu_defs read_reply_def write_reply_def group_tags_def opt_str_def truthy_def
      opt_list_def split: option.splits)
section \<open>Heads, chips and the menu of groups\<close>

definition groupTags_table :: "(string \<Rightarrow> string \<Rightarrow> int) \<Rightarrow> Tag list \<Rightarrow> Tag list" where
  "groupTags_table lc tags =
     js_sort (\<lambda>a b. lc (tag_name a) (tag_name b)) (filter (\<lambda>t. \<not> truthy (tag_type t) \<or> tag_type t = Some ''group'') tags)"

definition group_item :: "(string \<Rightarrow> string option \<Rightarrow> string) \<Rightarrow> Tag \<Rightarrow> string" where
  "group_item labelTag t =
     (let l = labelTag (tag_id t) (Some ''group'') in if l \<noteq> tag_id t then l else or_else (tag_name t) (tag_id t))"

definition head_filtered :: "string \<Rightarrow> DeviceColId \<Rightarrow> bool" where
  "head_filtered query i = list_ex (\<lambda>k. k \<in> set (map fv_key (pq_fields (parseDeviceQuery query)))) (colFilterKeys i)"

definition head_options :: "(string \<Rightarrow> string \<Rightarrow> int) \<Rightarrow> TableProps \<Rightarrow> TableState \<Rightarrow> DeviceColId \<Rightarrow> FieldValue list" where
  "head_options lc t s i = colFilterOptions lc i (scoped t s) (table_ctx t)"

definition filter_chips :: "TableProps \<Rightarrow> string list" where
  "filter_chips t =
     (if tb_groupFilter t \<noteq> [] then [or_else (tb_labelTag t (tb_groupFilter t) None) (tb_groupFilter t)] else []) @
     (if tb_lanFilter t \<noteq> [] then
        [case map_of (tb_uuidToNet t) (tb_lanFilter t) of
           Some l \<Rightarrow> or_else (opt_str (ni_desc l)) (or_else (ni_name l) (tb_lanFilter t)) | None \<Rightarrow> tb_lanFilter t] else []) @
     (if tb_switchMacs t \<noteq> [] then [describeMacFilter (tb_switchMacs t) (tb_switches t)] else [])"

text \<open>The counts of the head line: the rows, the devices they are taken from, and the inactive ones left out.\<close>

definition head_counts ::
  "(string \<Rightarrow> string \<Rightarrow> int) \<Rightarrow> (string \<Rightarrow> string \<Rightarrow> int) \<Rightarrow> TableProps \<Rightarrow> TableState \<Rightarrow> nat \<times> nat \<times> nat option" where
  "head_counts lc lcn t s =
     (length (table_rows lc lcn t s), length (visibleDevices t s),
      if catalogHasActiveStamp (tb_devices t) \<and> \<not> st_showInactive s \<and> 0 < inactiveDeviceCount (tb_devices t)
      then Some (inactiveDeviceCount (tb_devices t)) else None)"

text \<open>The counts add up to the list: a device is counted among those that can be shown or as left out.\<close>

lemma head_counts_add_up:
  assumes "head_counts lc lcn t s = (rows, visible, Some inactive)"
  shows "visible + inactive = length (tb_devices t)" "rows \<le> visible"
proof -
  have stamp: "catalogHasActiveStamp (tb_devices t)" "\<not> st_showInactive s"
      "visible = length (visibleDevices t s)" "inactive = inactiveDeviceCount (tb_devices t)" "rows = length (table_rows lc lcn t s)"
    using assms by (auto simp: head_counts_def split: if_splits)
  then show "visible + inactive = length (tb_devices t)"
    using inactive_count [of "tb_devices t"] by (simp add: visibleDevices_def)
  have "rows = length (filter (row_found t) (scoped t s))"
    unfolding stamp(5) by (metis filter_shows length_map mset_table_rows size_mset)
  also have "\<dots> \<le> length (scoped t s)" by simp
  also have "\<dots> \<le> visible" by (simp add: scoped_def stamp(3))
  finally show "rows \<le> visible" .
qed

end
