(* ===== verification/Pages.thy ===== *)
theory Pages
  imports Settings DevicesTab Ports Snooze
begin

text \<open>
  What the smaller pages of the interface compute and do: wireless (\<open>ui/src/tabs/WirelessTab.tsx\<close>), groups (\<open>GroupsTab.tsx\<close>), inventory
  (\<open>InventoryTab.tsx\<close>), network (\<open>NetworkTab.tsx\<close>), audit (\<open>AuditTab.tsx\<close>), alarms (\<open>AlarmsTab.tsx\<close>), and the list of suggestions of
  the search field (\<open>ui/src/components/DeviceSearch.tsx\<close>). The comparison by locale that ignores case and accents is an argument.
\<close>

section \<open>Wireless\<close>

definition BAND_ORDER :: "string list" where
  "BAND_ORDER = [''2.4'', ''5'', ''6'']"

definition bandRank :: "string \<Rightarrow> int" where
  "bandRank band = (case find (\<lambda>i. BAND_ORDER ! i = band) [0..<3] of Some i \<Rightarrow> int i | None \<Rightarrow> 99)"

definition apLabel :: "WirelessAP \<Rightarrow> string" where
  "apLabel ap = or_else (opt_trim (wa_name ap)) (wa_mac ap)"

definition netKey :: "WirelessNetwork \<Rightarrow> string" where
  "netKey n = or_else (opt_str (wn_id n)) (wn_name n)"

definition clientLabel :: "WirelessClient \<Rightarrow> string" where
  "clientLabel c = or_else (opt_trim (wc_name c)) (or_else (opt_trim (wc_hostname c)) (wc_mac c))"

definition clientAp :: "WirelessClient \<Rightarrow> string" where
  "clientAp c = or_else (opt_trim (wc_ap_name c)) (or_else (opt_str (wc_ap_mac c)) EM_DASH)"

definition clientOnNetwork :: "WirelessClient \<Rightarrow> WirelessNetwork \<Rightarrow> bool" where
  "clientOnNetwork c n =
     (let ssid = toLowerCase (opt_trim (wc_ssid c));
          keys = filter (\<lambda>s. s \<noteq> []) (map (\<lambda>s. toLowerCase (trim s)) [wn_name n, opt_str (wn_ssid n)])
      in ssid \<noteq> [] \<and> ssid \<in> set keys)"

definition sort_bands :: "string list \<Rightarrow> string list" where
  "sort_bands bands = js_sort (\<lambda>a b. bandRank a - bandRank b) bands"

definition uniqueBands :: "WirelessRadio list option \<Rightarrow> string list" where
  "uniqueBands radios =
     sort_bands (fold (\<lambda>r out. if wr_band r \<in> set out then out else out @ [wr_band r]) (opt_list radios) [])"

definition band_slots :: "string list \<Rightarrow> bool list" where
  "band_slots bands = map (\<lambda>b. b \<in> set bands) BAND_ORDER"

definition sorted_aps :: "(string \<Rightarrow> string \<Rightarrow> int) \<Rightarrow> WirelessAP list \<Rightarrow> WirelessAP list" where
  "sorted_aps lcb aps = js_sort (\<lambda>a b. lcb (apLabel a) (apLabel b)) aps"

record RadioRow =
  rr_key :: string
  rr_apName :: string
  rr_name :: string
  rr_band :: string
  rr_channel :: "int option"
  rr_width :: "int option"
  rr_clients :: "int option"

definition ap_radio_rows :: "WirelessAP \<Rightarrow> RadioRow list" where
  "ap_radio_rows ap =
     map (\<lambda>r. \<lparr>rr_key = wa_mac ap @ '':'' @ wr_band r, rr_apName = apLabel ap,
               rr_name = apLabel ap @ '' '' @ [CHR 0xB7] @ '' '' @ wr_band r @ '' GHz'', rr_band = wr_band r,
               rr_channel = wr_channel r, rr_width = wr_width_mhz r, rr_clients = wr_clients r\<rparr>)
       (opt_list (wa_radios ap))"

definition radio_order :: "(string \<Rightarrow> string \<Rightarrow> int) \<Rightarrow> RadioRow \<Rightarrow> RadioRow \<Rightarrow> int" where
  "radio_order lcb a b =
     (let d = lcb (rr_apName a) (rr_apName b) in if d \<noteq> 0 then d else bandRank (rr_band a) - bandRank (rr_band b))"

definition radioRows :: "(string \<Rightarrow> string \<Rightarrow> int) \<Rightarrow> WirelessAP list \<Rightarrow> RadioRow list" where
  "radioRows lcb aps = js_sort (radio_order lcb) (concat (map ap_radio_rows (sorted_aps lcb aps)))"

definition sorted_clients :: "(string \<Rightarrow> string \<Rightarrow> int) \<Rightarrow> WirelessClient list \<Rightarrow> WirelessClient list" where
  "sorted_clients lcb cs = js_sort (\<lambda>a b. lcb (clientLabel a) (clientLabel b)) cs"

definition onNet :: "(string \<Rightarrow> string \<Rightarrow> int) \<Rightarrow> WirelessNetwork \<Rightarrow> WirelessClient list \<Rightarrow> WirelessClient list" where
  "onNet lcb n cs = sorted_clients lcb (filter (\<lambda>c. clientOnNetwork c n) cs)"

definition ap_key :: "WirelessClient \<Rightarrow> string" where
  "ap_key c = toUpperCase (or_else (opt_str (wc_ap_mac c)) (opt_str (wc_ap_name c)))"

definition count_ap :: "WirelessClient \<Rightarrow> (string, string \<times> nat) jsmap \<Rightarrow> (string, string \<times> nat) jsmap" where
  "count_ap c m =
     (if ap_key c = [] then m
      else case map_of m (ap_key c) of
        Some (name, k) \<Rightarrow> AList.update (ap_key c) (name, k + 1) m
      | None \<Rightarrow> AList.update (ap_key c) (clientAp c, 1) m)"

definition network_aps :: "(string \<Rightarrow> string \<Rightarrow> int) \<Rightarrow> WirelessClient list \<Rightarrow> (string \<times> nat) list" where
  "network_aps lcb cs = js_sort (\<lambda>a b. lcb (fst a) (fst b)) (map snd (fold count_ap cs []))"

lemma radio_order_sign: "strict_collation lcb \<Longrightarrow> sign_comparator (radio_order lcb)"
proof -
  assume "strict_collation lcb"
  then have "sign_comparator (\<lambda>a b. lcb (rr_apName a) (rr_apName b))" by (rule by_collation)
  from sign_comparator.then_by [OF this by_difference.sign_comparator_axioms [of "\<lambda>r. bandRank (rr_band r)"]]
  moreover have "radio_order lcb = (\<lambda>a b. if lcb (rr_apName a) (rr_apName b) = 0 then bandRank (rr_band a) - bandRank (rr_band b)
      else lcb (rr_apName a) (rr_apName b))" by (intro ext) (simp add: radio_order_def)
  ultimately show ?thesis by simp
qed

text \<open>The counts of the access points of a network add up to its clients that name one, and every access point is listed once.\<close>

lemma sum_update:
  "sum_list (map (\<lambda>x. g (snd x)) (AList.update k v m)) + (case map_of m k of Some u \<Rightarrow> g u | None \<Rightarrow> 0) =
   sum_list (map (\<lambda>x. g (snd x)) m) + (g v :: nat)"
  by (induction m) auto

lemma count_ap_step:
  "sum_list (map (\<lambda>x. snd (snd x)) (count_ap c m)) = sum_list (map (\<lambda>x. snd (snd x)) m) + (if ap_key c = [] then 0 else 1)"
  using sum_update [where g = snd and k = "ap_key c" and m = m and v = "(fst (the (map_of m (ap_key c))), snd (the (map_of m (ap_key c))) + 1)"]
    sum_update [where g = snd and k = "ap_key c" and m = m and v = "(clientAp c, 1)"]
  by (auto simp: count_ap_def split: option.splits)

lemma network_aps_total:
  "sum_list (map snd (network_aps lcb cs)) = length (filter (\<lambda>c. ap_key c \<noteq> []) cs)"
proof -
  have "sum_list (map (\<lambda>x. snd (snd x)) (fold count_ap cs m)) =
      sum_list (map (\<lambda>x. snd (snd x)) m) + length (filter (\<lambda>c. ap_key c \<noteq> []) cs)" for m
    by (induction cs arbitrary: m) (simp_all add: count_ap_step)
  moreover have "sum_list (map snd (js_sort c xs)) = sum_list (map snd xs)" for c and xs :: "(string \<times> nat) list"
    by (metis mset_js_sort mset_map sum_mset_sum_list)
  ultimately show ?thesis by (simp add: network_aps_def o_def)
qed

lemma network_aps_once: "distinct (map fst (fold count_ap cs []))"
proof -
  have "distinct (map fst m) \<Longrightarrow> distinct (map fst (fold count_ap cs m))" for m
    by (induction cs arbitrary: m) (auto simp: count_ap_def distinct_update split: option.splits)
  then show ?thesis by simp
qed

lemma uniqueBands_spec: "distinct (uniqueBands radios) \<and> set (uniqueBands radios) = wr_band ` set (opt_list radios)"
proof -
  have "distinct (fold (\<lambda>r out. if wr_band r \<in> set out then out else out @ [wr_band r]) rs out) \<and>
      set (fold (\<lambda>r out. if wr_band r \<in> set out then out else out @ [wr_band r]) rs out) = set out \<union> wr_band ` set rs"
    if "distinct out" for rs :: "WirelessRadio list" and out
    using that by (induction rs arbitrary: out) auto
  from this [of "[]" "opt_list radios"] show ?thesis
    using mset_js_sort by (auto simp: uniqueBands_def sort_bands_def distinct_js_sort_id)
qed
section \<open>Groups\<close>

datatype TagKind = KindGroup | KindUser | KindDevice

record GroupRow_page =
  gr_id :: string
  gr_name :: string
  gr_type :: "string option"
  gr_count :: nat
  gr_kind :: "TagKind option"

definition tagTypeOf :: "GroupRow_page \<Rightarrow> TagKind" where
  "tagTypeOf g = (if gr_type g = Some ''user'' then KindUser else if gr_type g = Some ''device'' then KindDevice else KindGroup)"

definition tagKind :: "GroupRow_page \<Rightarrow> TagKind" where
  "tagKind g = (case gr_kind g of Some k \<Rightarrow> k | None \<Rightarrow> tagTypeOf g)"

definition member_tags :: "TagKind \<Rightarrow> Device \<Rightarrow> string list" where
  "member_tags k d = opt_list (case k of KindDevice \<Rightarrow> dev_device_tag_ids d | KindUser \<Rightarrow> dev_user_tag_ids d | KindGroup \<Rightarrow> dev_tag_ids d)"

definition membersOf :: "Device list \<Rightarrow> string \<Rightarrow> TagKind \<Rightarrow> Device list" where
  "membersOf devices i k = filter (\<lambda>d. i \<in> set (member_tags k d)) devices"

record GroupsPage =
  gp_typeFilter :: "TagKind option"
  gp_selectedKey :: "string option"
  gp_busyMac :: "mac option"
  gp_addKey :: nat
  gp_error :: "string option"

definition groups_filtered :: "GroupRow_page list \<Rightarrow> GroupsPage \<Rightarrow> GroupRow_page list" where
  "groups_filtered gs p = (case gp_typeFilter p of None \<Rightarrow> gs | Some k \<Rightarrow> filter (\<lambda>g. tagKind g = k) gs)"

fun kind_text :: "TagKind \<Rightarrow> string" where
  "kind_text KindGroup = ''group''" | "kind_text KindUser = ''user''" | "kind_text KindDevice = ''device''"

definition group_key :: "GroupRow_page \<Rightarrow> string" where
  "group_key g = kind_text (tagTypeOf g) @ '':'' @ gr_id g"

definition selected_group :: "GroupRow_page list \<Rightarrow> GroupsPage \<Rightarrow> GroupRow_page option" where
  "selected_group gs p =
     (if truthy (gp_selectedKey p) then
        (case find (\<lambda>g. Some (group_key g) = gp_selectedKey p) (groups_filtered gs p) of
           Some g \<Rightarrow> Some g
         | None \<Rightarrow> find (\<lambda>g. Some (group_key g) = gp_selectedKey p) gs)
      else None)"

definition group_writable :: "bool \<Rightarrow> GroupRow_page option \<Rightarrow> bool" where
  "group_writable canEdit sel = (case sel of Some g \<Rightarrow> tagTypeOf g = KindGroup \<and> canEdit | None \<Rightarrow> False)"

definition group_members :: "Device list \<Rightarrow> GroupRow_page option \<Rightarrow> Device list" where
  "group_members devices sel = (case sel of Some g \<Rightarrow> membersOf devices (gr_id g) (tagTypeOf g) | None \<Rightarrow> [])"

definition group_candidates :: "(string \<Rightarrow> string \<Rightarrow> int) \<Rightarrow> bool \<Rightarrow> Device list \<Rightarrow> GroupRow_page option \<Rightarrow> Device list" where
  "group_candidates lc canEdit devices sel =
     (if \<not> group_writable canEdit sel then []
      else let inGroup = map (\<lambda>d. toUpperCase (dev_mac d)) (group_members devices sel)
           in js_sort (\<lambda>a b. lc (preferredName a) (preferredName b)) (filter (\<lambda>d. toUpperCase (dev_mac d) \<notin> set inGroup) devices))"

definition membership_click :: "mac \<Rightarrow> GroupsPage \<Rightarrow> GroupsPage" where
  "membership_click m p = p\<lparr>gp_busyMac := Some m, gp_error := None\<rparr>"

text \<open>The answer of the parent: it resolves, or it is rejected with a message.\<close>

definition membership_answer :: "string option \<Rightarrow> GroupsPage \<Rightarrow> GroupsPage" where
  "membership_answer r p = (case r of Some e \<Rightarrow> p\<lparr>gp_error := Some e\<rparr> | None \<Rightarrow> p)\<lparr>gp_busyMac := None\<rparr>"

definition group_assign :: "bool \<Rightarrow> Device list \<Rightarrow> GroupRow_page option \<Rightarrow> mac \<Rightarrow> (mac \<times> string list) option" where
  "group_assign canEdit devices sel m =
     (case sel of
        None \<Rightarrow> None
      | Some g \<Rightarrow>
          if \<not> group_writable canEdit sel then None
          else map_option (\<lambda>d. (dev_mac d, hostTagsAdd (opt_list (dev_tag_ids d)) (gr_id g)))
                 (find (\<lambda>d. toUpperCase (dev_mac d) = toUpperCase m) devices))"

definition assign_answer :: "string option \<Rightarrow> GroupsPage \<Rightarrow> GroupsPage" where
  "assign_answer r p = (let q = membership_answer r p in q\<lparr>gp_addKey := gp_addKey q + 1\<rparr>)"

definition group_unassign :: "bool \<Rightarrow> GroupRow_page option \<Rightarrow> Device \<Rightarrow> (mac \<times> string list) option" where
  "group_unassign canEdit sel d =
     (case sel of
        None \<Rightarrow> None
      | Some g \<Rightarrow> if \<not> group_writable canEdit sel then None else Some (dev_mac d, hostTagsRemove (opt_list (dev_tag_ids d)) (gr_id g)))"

interpretation membership: page_action "\<lambda>p. gp_busyMac p \<noteq> None" gp_error "membership_click m" membership_answer "\<lambda>r. r" for m
  by unfold_locales (simp_all add: membership_click_def membership_answer_def split: option.splits)

text \<open>The devices with the tags of the one that was changed replaced, as the application keeps them after the answer.\<close>

definition with_tags :: "mac \<times> string list \<Rightarrow> Device list \<Rightarrow> Device list" where
  "with_tags c ds = map (\<lambda>d. if toUpperCase (dev_mac d) = toUpperCase (fst c) then d\<lparr>dev_tag_ids := Some (snd c)\<rparr> else d) ds"

lemma set_candidates_members:
  assumes "distinct (map (\<lambda>d. toUpperCase (dev_mac d)) devices)" "group_writable canEdit sel"
  shows "mset (group_members devices sel) + mset (group_candidates lc canEdit devices sel) = mset devices"
proof -
  obtain g where g: "sel = Some g" using assms(2) by (auto simp: group_writable_def split: option.splits)
  let ?P = "\<lambda>d. gr_id g \<in> set (member_tags (tagTypeOf g) d)"
  have "toUpperCase (dev_mac d) \<notin> (\<lambda>d. toUpperCase (dev_mac d)) ` set (filter ?P devices) \<longleftrightarrow> \<not> ?P d" if "d \<in> set devices" for d
    using assms(1) that by (auto simp: distinct_map inj_on_def)
  then have "filter (\<lambda>d. toUpperCase (dev_mac d) \<notin> (\<lambda>d. toUpperCase (dev_mac d)) ` set (filter ?P devices)) devices =
      filter (\<lambda>d. \<not> ?P d) devices" by (intro filter_cong) auto
  then show ?thesis
    using assms(2) by (simp add: g group_candidates_def group_members_def membersOf_def multiset_partition [symmetric])
qed


section \<open>Inventory\<close>

definition uptime_part :: "int \<Rightarrow> bool \<Rightarrow> string \<Rightarrow> string list" where
  "uptime_part n shown unit = (if shown then [dec_int n @ unit] else [])"

definition formatUptime :: "int \<Rightarrow> string" where
  "formatUptime sec =
     (if sec < 0 then EM_DASH
      else let m = sec div 2592000; w = (sec mod 2592000) div 604800; d = (sec mod 604800) div 86400; h = (sec mod 86400) div 3600
           in join '' '' (uptime_part m (m \<noteq> 0) ''m'' @ uptime_part w (w \<noteq> 0 \<or> m \<noteq> 0) ''w'' @
                uptime_part d (d \<noteq> 0 \<or> w \<noteq> 0 \<or> m \<noteq> 0) ''d'' @ uptime_part h True ''h''))"

text \<open>Below thirty days the parts are the uptime, to the hour.\<close>

lemma uptime_parts:
  fixes sec :: int
  assumes "0 \<le> sec" "sec < 2592000"
  shows "sec div 3600 * 3600 = (sec mod 2592000) div 604800 * 604800 + (sec mod 604800) div 86400 * 86400 + (sec mod 86400) div 3600 * 3600"
proof -
  define q w d h r where "q = sec div 3600" and "w = sec div 604800" and "d = (sec mod 604800) div 86400"
    and "h = (sec mod 86400) div 3600" and "r = sec mod 3600"
  define x y where "x = sec mod 604800" and "y = sec mod 86400"
  have "sec = w * 604800 + x" unfolding w_def x_def by (rule div_mult_mod_eq [symmetric])
  moreover have "x mod 86400 = y" unfolding x_def y_def by (rule mod_mod_cancel) simp
  then have "x = d * 86400 + y" unfolding d_def x_def by (metis div_mult_mod_eq)
  moreover have "y mod 3600 = r" unfolding y_def r_def by (rule mod_mod_cancel) simp
  then have "y = h * 3600 + r" unfolding h_def y_def by (metis div_mult_mod_eq)
  moreover have "sec = q * 3600 + r" unfolding q_def r_def by (rule div_mult_mod_eq [symmetric])
  ultimately have "q * 3600 = w * 604800 + d * 86400 + h * 3600" by presburger
  moreover have "sec mod 2592000 = sec" using assms by (rule mod_pos_pos_trivial)
  ultimately show ?thesis unfolding q_def w_def d_def h_def by (simp only:)
qed

text \<open>
  Months have thirty days, which are not whole weeks, and the days are counted in the weeks of the whole uptime instead of those of the rest:
  after exactly one month two days too many are shown.
\<close>

lemma uptime_month: "formatUptime 2592000 = ''1m 0w 2d 0h''"
  by code_simp

definition labeledMacs_inventory :: "BoxMacEntry list option \<Rightarrow> BoxMAC list" where
  "labeledMacs_inventory raw =
     map (\<lambda>(i, e). case e of Plain m \<Rightarrow> \<lparr>bm_name = ''Address '' @ dec (i + 1), bm_mac = m\<rparr> | Labeled b \<Rightarrow> b)
       (zip [0..<length (opt_list raw)] (opt_list raw))"

definition modeLabel_inventory :: "string option \<Rightarrow> string" where
  "modeLabel_inventory mode =
     (if mode = Some ''router'' then ''Router Mode'' else if mode = Some ''dhcp'' then ''DHCP Mode''
      else if mode = Some ''spoof'' then ''Simple Mode'' else if mode = Some ''dhcpSpoof'' then ''DHCP Spoof''
      else if mode = Some ''manualSpoof'' then ''Manual Spoof'' else if mode = Some ''none'' then ''Bridge Mode''
      else or_else (opt_str mode) EM_DASH)"

text \<open>The text of a value of a row; the list of public addresses stands as its lines.\<close>

definition text_row :: "string \<Rightarrow> string option \<Rightarrow> (string \<times> string list) list" where
  "text_row label v = (if truthy v then [(label, [opt_str v])] else [])"

definition wan_value :: "NetIface list \<Rightarrow> BoxInfo \<Rightarrow> string" where
  "wan_value network box =
     join ('' '' @ [CHR 0xB7] @ '' '') (filter (\<lambda>s. s \<noteq> []) [wanTypeLabel (box_wan_type box),
       join '', '' (filter (\<lambda>s. s \<noteq> []) (map netLabel (filter (\<lambda>n. managerKind n = MWan) network)))])"

definition box_rows :: "NetIface list \<Rightarrow> BoxInfo \<Rightarrow> (string \<times> string list) list" where
  "box_rows network box =
     text_row ''Public IP'' (box_public_ip box) @
     (case box_public_ips box of Some m \<Rightarrow> if m \<noteq> [] then [(''Public IPs'', map (\<lambda>(i, a). i @ '' '' @ a) m)] else [] | None \<Rightarrow> []) @
     text_row ''WAN'' (Some (wan_value network box)) @
     (case box_cloud_connected box of Some c \<Rightarrow> [(''Cloud'', [if c then ''Connected'' else ''Disconnected''])] | None \<Rightarrow> []) @
     (case box_uptime_sec box of Some s \<Rightarrow> [(''Uptime'', [formatUptime s])] | None \<Rightarrow> []) @
     (case box_os_uptime_sec box of Some s \<Rightarrow> [(''OS uptime'', [formatUptime s])] | None \<Rightarrow> []) @
     text_row ''Version'' (box_version box) @
     (if truthy (box_mode box) then [(''Mode'', [modeLabel_inventory (box_mode box)])] else []) @
     text_row ''Location'' (box_region box) @ text_row ''Timezone'' (box_timezone box) @ text_row ''EID'' (box_eid box) @
     text_row ''DDNS'' (box_ddns box) @
     (let n = length (labeledMacs_inventory (box_macs box))
      in if n \<noteq> 0 then [(''MAC Addresses'', [dec n @ '' address'' @ (if n = 1 then [] else ''es'')])] else [])"

definition unifi_rows :: "UnifiConsole \<Rightarrow> (string \<times> string list) list" where
  "unifi_rows c =
     text_row ''Server IP'' (uc_ip c) @
     (case uc_uptime_sec c of Some s \<Rightarrow> if s \<noteq> 0 then [(''Uptime'', [formatUptime s])] else [] | None \<Rightarrow> []) @
     (if truthy (uc_network_version c)
      then [(''Network '' @ opt_str (uc_network_version c), [if uc_network_update c = Some True then ''Update available'' else ''Up to date''])] else []) @
     text_row ''Hardware'' (uc_hardware c) @ text_row ''Site'' (uc_site c) @ text_row ''Inform URL'' (uc_inform c) @
     (case uc_cloud c of Some b \<Rightarrow> [(''Cloud'', [if b then ''Connected'' else ''Offline''])] | None \<Rightarrow> [])"

definition unifi_status :: "ModuleInfo \<Rightarrow> string" where
  "unifi_status u =
     (if mi_status u = Some ModOk then ''Connected'' else if mi_status u = Some ModDown then or_else (opt_str (mi_detail u)) ''Down'' else EM_DASH)"

datatype InventoryMode = InvFirewalla | InvUnifi

definition inventory_active :: "ModuleInfo option \<Rightarrow> InventoryMode \<Rightarrow> InventoryMode" where
  "inventory_active unifi mode =
     (if (case unifi of Some u \<Rightarrow> mi_enabled u | None \<Rightarrow> False) \<and> mode = InvUnifi then InvUnifi else InvFirewalla)"

definition box_counts :: "Device list \<Rightarrow> Switch list \<Rightarrow> NetIface list \<Rightarrow> Policy list \<Rightarrow> nat list" where
  "box_counts devices switches network policies =
     [length devices, length (filter (\<lambda>s. sw_source s \<noteq> Some ''unifi'' \<and> sw_kind s \<noteq> Some ''ap'') switches),
      length (filter (\<lambda>n. managerKind n = MLan) network), length policies]"
section \<open>Network\<close>

definition is_vpn_name :: "string \<Rightarrow> bool" where
  "is_vpn_name name \<longleftrightarrow> startsWith name ''wg'' \<or> startsWith name ''tun_fwvpn''"

definition has_wifi :: "NetIface \<Rightarrow> bool" where
  "has_wifi n = list_ex (\<lambda>i. startsWith i ''wlan'') (opt_list (ni_intfs n))"

definition lanBucket :: "NetIface \<Rightarrow> int" where
  "lanBucket n =
     (if is_vpn_name (ni_name n) then 3 else if has_wifi n then 2
      else if (case ni_vid n of Some v \<Rightarrow> v \<noteq> 0 | None \<Rightarrow> False) then 1 else 0)"

definition lanOrder :: "(string \<Rightarrow> string \<Rightarrow> int) \<Rightarrow> NetIface \<Rightarrow> NetIface \<Rightarrow> int" where
  "lanOrder lcb a b = (let d = lanBucket a - lanBucket b in if d \<noteq> 0 then d else lcb (netLabel a) (netLabel b))"

definition page_lans :: "(string \<Rightarrow> string \<Rightarrow> int) \<Rightarrow> NetIface list \<Rightarrow> NetIface list" where
  "page_lans lcb network = js_sort (lanOrder lcb) (filter (\<lambda>n. managerKind n = MLan) network)"

definition page_wans :: "NetIface list \<Rightarrow> NetIface list" where
  "page_wans network = filter (\<lambda>n. managerKind n = MWan) network"

record VpnPage =
  vn_vpn :: "VPNInventory option"
  vn_err :: "string option"

definition vpn_load :: "bool \<Rightarrow> VPNInventory request \<Rightarrow> VpnPage \<Rightarrow> VpnPage" where
  "vpn_load cancelled r p =
     (if cancelled then p
      else case r of
        Inl e \<Rightarrow> \<lparr>vn_vpn = None, vn_err = Some e\<rparr>
      | Inr rp \<Rightarrow>
          if rp_status rp = 404 then \<lparr>vn_vpn = None, vn_err = Some ''Not in init''\<rparr>
          else if \<not> rp_ok rp then \<lparr>vn_vpn = None, vn_err = Some (case rp_text rp of Inl e \<Rightarrow> e | Inr t \<Rightarrow> t)\<rparr>
          else (case rp_json rp of
                  Inl e \<Rightarrow> \<lparr>vn_vpn = None, vn_err = Some e\<rparr>
                | Inr v \<Rightarrow> \<lparr>vn_vpn = Some v, vn_err = None\<rparr>))"

definition vpn_shown_err :: "bool \<Rightarrow> VpnPage \<Rightarrow> string option" where
  "vpn_shown_err anon p = (if anon \<and> truthy (vn_err p) then Some ''VPN inventory unavailable'' else vn_err p)"

definition vpn_peers :: "VPNInventory \<Rightarrow> VPNPeer list" where
  "vpn_peers v = opt_list (vi_wg_peers v) @ opt_list (vi_awg_peers v)"

definition vpn_families :: "VPNInventory \<Rightarrow> VPNClientFamily list" where
  "vpn_families v = filter (\<lambda>f. opt_list (vcf_profiles f) \<noteq> []) (opt_list (vi_client_profiles v))"

definition vpn_has_data :: "VPNInventory option \<Rightarrow> bool" where
  "vpn_has_data v =
     (case v of
        Some v \<Rightarrow> vpn_peers v \<noteq> [] \<or> vpn_families v \<noteq> [] \<or> opt_list (vi_vips v) \<noteq> [] \<or> opt_list (vi_virt_wans v) \<noteq> []
      | None \<Rightarrow> False)"

definition vpn_note :: "VPNInventory option \<Rightarrow> string option \<Rightarrow> string option" where
  "vpn_note v err = (if vpn_has_data v then None else if truthy err then err else Some ''Not in init'')"

definition multi_wan_chip :: "string option \<Rightarrow> NetIface list \<Rightarrow> (string \<times> (string \<times> string) option) option" where
  "multi_wan_chip wanType wans =
     (let label = wanTypeLabel wanType in
      if label = [] \<and> length wans < 2 then None
      else if label = ''Single'' \<and> length wans < 2 then None
      else Some (or_else label ''Multi-WAN'',
        case (find (\<lambda>w. ni_wan_active w = Some True) wans, find (\<lambda>w. ni_wan_active w = Some False) wans) of
          (Some a, Some b) \<Rightarrow> Some (netLabel a, netLabel b) | _ \<Rightarrow> None))"

definition flag_text :: "bool option \<Rightarrow> string \<Rightarrow> string \<Rightarrow> string list" where
  "flag_text v on off = (case v of Some b \<Rightarrow> [if b then on else off] | None \<Rightarrow> [])"

definition dash :: "string option \<Rightarrow> string" where
  "dash v = or_else (opt_str v) EM_DASH"

definition virt_wan_parts :: "VirtWAN \<Rightarrow> string list" where
  "virt_wan_parts w =
     [or_else (opt_str (vw_name w)) (dash (vw_uuid w)), dash (vw_type w), dash (vw_conn_state w)] @
     flag_text (vw_failback w) ''failback'' ''failback off'' @ flag_text (vw_strict_vpn w) ''strictVPN'' ''strictVPN off''"

text \<open>
  A time stamp above \<open>1e12\<close> is in milliseconds; it is divided by 1000 for \<open>fmtRelative\<close>, which multiplies by 1000 again.
\<close>

definition relative_ms :: "int \<Rightarrow> int \<Rightarrow> string" where
  "relative_ms tsMs nowMs =
     (let diff = nowMs - tsMs in
      if diff < 0 then ''now''
      else if diff < MIN_MS then dec_int (max 1 (diff div 1000)) @ ''s''
      else if diff < HOUR_MS then dec_int (diff div MIN_MS) @ ''m''
      else if diff < DAY_MS then dec_int (diff div HOUR_MS) @ ''h''
      else if diff < 7 * DAY_MS then dec_int (diff div DAY_MS) @ ''d''
      else if diff < 30 * DAY_MS then dec_int (diff div (7 * DAY_MS)) @ ''w''
      else dec_int (diff div (30 * DAY_MS)) @ ''mo'')"

lemma fmtRelative_ms: "fmtRelative t nowMs = relative_ms (t * 1000) nowMs"
  by (simp add: fmtRelative_def relative_ms_def)

definition wan_test_parts :: "int \<Rightarrow> string \<times> WanTestWAN \<Rightarrow> string list" where
  "wan_test_parts nowMs x =
     (case x of (iface, w) \<Rightarrow>
        [iface] @ flag_text (wtw_ready w) ''ready'' ''not ready'' @ flag_text (wtw_active w) ''active'' ''standby'' @
        (case opt_list (wtw_failures w) of f # _ \<Rightarrow> if f \<noteq> [] then [f] else [] | [] \<Rightarrow> []) @
        (case wtw_ts w of Some t \<Rightarrow> [relative_ms (if 10 ^ 12 < t then t else t * 1000) nowMs] | None \<Rightarrow> []))"

definition wan_row_texts :: "NetIface \<Rightarrow> string list" where
  "wan_row_texts n =
     [netLabel n, or_else (opt_str (ni_ip n)) (dash (ni_subnet n)), if ni_dhcp n = Some True then ''DHCP'' else ''Static''] @
     flag_text (ni_wan_ready n) ''ready'' ''not ready'' @ flag_text (ni_wan_active n) ''Active'' ''Standby''"

definition lan_row_cidr :: "NetIface \<Rightarrow> string" where
  "lan_row_cidr n = or_else (opt_str (ni_subnet n)) (dash (ni_ip n))"

lemma lanOrder_sign: "strict_collation lcb \<Longrightarrow> sign_comparator (lanOrder lcb)"
proof -
  assume "strict_collation lcb"
  then have "sign_comparator (\<lambda>a b. lcb (netLabel a) (netLabel b))" by (rule by_collation)
  from sign_comparator.then_by [OF by_difference.sign_comparator_axioms [of lanBucket] this]
  have "sign_comparator (\<lambda>a b. if lanBucket a - lanBucket b = 0 then lcb (netLabel a) (netLabel b) else lanBucket a - lanBucket b)" .
  moreover have "lanOrder lcb = (\<lambda>a b. if lanBucket a - lanBucket b = 0 then lcb (netLabel a) (netLabel b) else lanBucket a - lanBucket b)"
    by (intro ext) (simp add: lanOrder_def)
  ultimately show ?thesis by simp
qed

lemma sign_sorted: "sign_comparator cmp \<Longrightarrow> sorted_wrt (\<lambda>a b. cmp a b \<le> 0) (js_sort cmp xs)"
proof -
  assume s: "sign_comparator cmp"
  have "comparator cmp"
  proof
    show "cmp x y \<le> 0 \<or> cmp y x \<le> 0" for x y using sign_comparator.flips [OF s, of y x] by linarith
  qed (rule sign_comparator.le_trans [OF s])
  then show ?thesis by (rule comparator.sorted_js_sort)
qed

text \<open>The networks are listed by their sort: plain ones, those with a VLAN, those with Wi-Fi, tunnels; none is lost.\<close>

lemma page_lans_ordered:
  assumes "strict_collation lcb"
  shows "sorted (map lanBucket (page_lans lcb network))" "mset (page_lans lcb network) = mset (filter (\<lambda>n. managerKind n = MLan) network)"
proof -
  have "sorted_wrt (\<lambda>a b. lanOrder lcb a b \<le> 0) (page_lans lcb network)"
    unfolding page_lans_def by (rule sign_sorted [OF lanOrder_sign [OF assms]])
  then show "sorted (map lanBucket (page_lans lcb network))"
    by (auto simp: sorted_map lanOrder_def Let_def elim!: sorted_wrt_mono_rel [rotated] split: if_splits)
qed (simp add: page_lans_def)

text \<open>With anonymity on, the text of an error of the server is never shown.\<close>

lemma vpn_error_hidden: "truthy (vpn_shown_err True p) \<Longrightarrow> vpn_shown_err True p = Some ''VPN inventory unavailable''"
  by (auto simp: vpn_shown_err_def)

section \<open>Audit\<close>

definition audit_counts :: "AuditView option \<Rightarrow> int list" where
  "audit_counts d =
     (case d of
        Some a \<Rightarrow> [fst (au_names a), fst (au_vlan a), fst (au_stp a), fst (au_unknown a), fst (au_offline a), fst (au_pending a)]
      | None \<Rightarrow> [0, 0, 0, 0, 0, 0])"

definition audit_empty :: "AuditView option \<Rightarrow> bool" where
  "audit_empty d \<longleftrightarrow> sum_list (audit_counts d) = 0"

definition show_sx :: "AuditView option \<Rightarrow> bool" where
  "show_sx d = (case d of Some a \<Rightarrow> list_ex (\<lambda>r. var_sx_vid r \<noteq> None) (snd (au_vlan a)) | None \<Rightarrow> False)"

definition focusMac :: "(string \<times> mac option \<times> nat) option \<Rightarrow> mac \<Rightarrow> bool" where
  "focusMac focus m =
     (case focus of Some (section, Some f, nonce) \<Rightarrow> f \<noteq> [] \<and> toUpperCase f = toUpperCase m | _ \<Rightarrow> False)"

definition section_effect :: "bool \<Rightarrow> bool \<Rightarrow> bool" where
  "section_effect forceOpen opened = (forceOpen \<or> opened)"
section \<open>Alarms\<close>

record AlarmsBody =
  lb_count :: "int option"
  lb_alarms :: "AlarmSample list option"
  lb_source :: "string option"
  lb_fetched_at :: "string option"
  lb_stale :: "bool option"
  lb_reason :: "string option"
  lb_enriched_from :: "string option"

record AlarmsPage =
  al_view :: "AlarmsView option"
  al_error :: "string option"
  al_busy :: bool
  al_busyAid :: "int option"
  al_confirmAll :: bool
  al_nowMs :: int
  al_calls :: "(int \<times> bool) list"

definition empty_alarms :: AlarmsView where
  "empty_alarms = \<lparr>av_active_alarm_count = 0, av_new_alarms = [], av_source = None, av_fetched_at = None, av_stale = None,
     av_reason = None, av_enriched_from = None\<rparr>"

definition alarms_view :: "AlarmsBody \<Rightarrow> AlarmsView" where
  "alarms_view b =
     \<lparr>av_active_alarm_count = int_or_zero (lb_count b), av_new_alarms = opt_list (lb_alarms b), av_source = lb_source b,
      av_fetched_at = lb_fetched_at b, av_stale = lb_stale b, av_reason = lb_reason b, av_enriched_from = lb_enriched_from b\<rparr>"

definition alarms_click :: "int \<Rightarrow> AlarmsPage \<Rightarrow> AlarmsPage" where
  "alarms_click nowMs p = p\<lparr>al_busy := True, al_error := None, al_nowMs := nowMs\<rparr>"

definition alarms_failure :: "AlarmsBody request \<Rightarrow> string option" where
  "alarms_failure r =
     (case r of
        Inl e \<Rightarrow> Some e
      | Inr rp \<Rightarrow>
          if rp_status rp = 404 then None
          else if \<not> rp_ok rp then Some (status_text ''alarms'' rp)
          else (case rp_json rp of Inl e \<Rightarrow> Some e | Inr _ \<Rightarrow> None))"

definition alarms_answer :: "AlarmsBody request \<Rightarrow> AlarmsPage \<Rightarrow> AlarmsPage" where
  "alarms_answer r p =
     (case alarms_failure r of
        Some e \<Rightarrow> p\<lparr>al_error := Some e, al_view := None\<rparr>
      | None \<Rightarrow>
          (case r of
             Inr rp \<Rightarrow>
               if rp_status rp = 404 then p\<lparr>al_view := Some empty_alarms, al_calls := al_calls p @ [(0, False)]\<rparr>
               else with_body (\<lambda>b p. p\<lparr>al_view := Some (alarms_view b),
                      al_calls := al_calls p @ [(int_or_zero (lb_count b), alarmCountLimited (lb_source b) (int_or_zero (lb_count b)))]\<rparr>) r p
           | Inl _ \<Rightarrow> p))\<lparr>al_busy := False\<rparr>"

definition alarms_load :: "int \<Rightarrow> AlarmsBody request \<Rightarrow> AlarmsPage \<Rightarrow> AlarmsPage" where
  "alarms_load nowMs r p = alarms_answer r (alarms_click nowMs p)"

definition can_ignore :: "bool \<Rightarrow> bool \<Rightarrow> AlarmsPage \<Rightarrow> bool" where
  "can_ignore anon controlLanOk p \<longleftrightarrow> \<not> anon \<and> controlLanOk \<and> al_busyAid p = None"

definition ignore_click :: "int option \<Rightarrow> AlarmsPage \<Rightarrow> AlarmsPage" where
  "ignore_click aid p =
     (case aid of
        Some i \<Rightarrow> p\<lparr>al_busyAid := Some i, al_error := None\<rparr>
      | None \<Rightarrow> p\<lparr>al_confirmAll := False, al_busyAid := Some (-1), al_error := None\<rparr>)"

definition ignore_refused :: "int option \<Rightarrow> unit request \<Rightarrow> string option" where
  "ignore_refused aid r =
     (case r of
        Inl e \<Rightarrow> Some e
      | Inr rp \<Rightarrow>
          if rp_ok rp then None
          else Some (or_default (case rp_text rp of Inr t \<Rightarrow> t | Inl _ \<Rightarrow> [])
            (status_text (if aid = None then ''ignore-all'' else ''ignore'') rp)))"

definition ignore_answer :: "int option \<Rightarrow> int \<Rightarrow> unit request \<times> AlarmsBody request \<Rightarrow> AlarmsPage \<Rightarrow> AlarmsPage" where
  "ignore_answer aid nowMs r p =
     (case ignore_refused aid (fst r) of
        Some e \<Rightarrow> p\<lparr>al_error := Some e\<rparr>
      | None \<Rightarrow> alarms_load nowMs (snd r) p)\<lparr>al_busyAid := None\<rparr>"

interpretation alarm_loading: page_action al_busy al_error "alarms_click nowMs" alarms_answer alarms_failure for nowMs
  by unfold_locales
     (auto simp: alarms_click_def alarms_answer_def with_body_def alarms_failure_def split: option.splits sum.splits if_splits)

interpretation alarm_ignoring: page_action "\<lambda>p. al_busyAid p \<noteq> None" al_error "ignore_click aid" "ignore_answer aid nowMs"
    "\<lambda>r. case ignore_refused aid (fst r) of Some e \<Rightarrow> Some e | None \<Rightarrow> alarms_failure (snd r)" for aid nowMs
  by unfold_locales
     (auto simp: ignore_click_def ignore_answer_def alarms_load_def alarm_loading.runs split: option.splits)

text \<open>What the page does: it loads, it ignores one alarm or all when it may, with the answers of the server.\<close>

datatype AlarmsEvent = LoadAlarms int "AlarmsBody request" | IgnoreAlarms "int option" int "unit request" "AlarmsBody request"

fun alarms_event :: "bool \<Rightarrow> bool \<Rightarrow> AlarmsEvent \<Rightarrow> AlarmsPage \<Rightarrow> AlarmsPage" where
  "alarms_event anon ok (LoadAlarms nowMs r) p = alarms_load nowMs r p"
| "alarms_event anon ok (IgnoreAlarms aid nowMs r l) p =
     (if can_ignore anon ok p then ignore_answer aid nowMs (r, l) (ignore_click aid p) else p)"

definition alarms_init :: "int \<Rightarrow> AlarmsPage" where
  "alarms_init nowMs = \<lparr>al_view = None, al_error = None, al_busy = False, al_busyAid = None, al_confirmAll = False, al_nowMs = nowMs,
     al_calls = []\<rparr>"

definition bell_agrees :: "AlarmsView option \<Rightarrow> (int \<times> bool) list \<Rightarrow> bool" where
  "bell_agrees view calls =
     (case view of
        Some v \<Rightarrow> calls \<noteq> [] \<and> last calls = (av_active_alarm_count v, alarmCountLimited (av_source v) (av_active_alarm_count v))
      | None \<Rightarrow> True)"

lemma alarms_answer_agrees:
  "bell_agrees (al_view p) (al_calls p) \<Longrightarrow> bell_agrees (al_view (alarms_answer r p)) (al_calls (alarms_answer r p))"
  by (auto simp: alarms_answer_def with_body_def bell_agrees_def [of "Some _"] bell_agrees_def [of None] empty_alarms_def alarms_view_def
      alarmCountLimited_def split: option.splits sum.splits)

lemma alarms_click_frame [simp]:
  "al_view (alarms_click n p) = al_view p" "al_calls (alarms_click n p) = al_calls p"
  "al_view (ignore_click aid p) = al_view p" "al_calls (ignore_click aid p) = al_calls p"
  by (simp_all add: alarms_click_def ignore_click_def split: option.splits)

lemma ignore_click_busy: "al_busy (ignore_click aid p) = al_busy p"
  by (simp add: ignore_click_def split: option.splits)

lemma alarms_load_inv:
  assumes "bell_agrees (al_view p) (al_calls p)"
  shows "bell_agrees (al_view (alarms_load n r p)) (al_calls (alarms_load n r p)) \<and> \<not> al_busy (alarms_load n r p) \<and>
    al_busyAid (alarms_load n r p) = al_busyAid p"
proof -
  have "al_busyAid (alarms_load n r p) = al_busyAid p"
    by (simp add: alarms_load_def alarms_answer_def alarms_click_def with_body_def split: option.splits sum.splits)
  then show ?thesis
    using alarms_answer_agrees [of "alarms_click n p" r] assms alarm_loading.answered [of r "alarms_click n p"] by (simp add: alarms_load_def)
qed

text \<open>C25: the number on the bell is the number on the page of the alarms. After every sequence of loads and of ignored alarms, with whatever the
  server answers, a page that shows a list of alarms has told the bell the count and the mark of a limited count of that very list; and the
  page is left neither loading nor ignoring.
\<close>

theorem alarm_count_on_bell:
  "bell_agrees (al_view (fold (alarms_event anon ok) evs (alarms_init t))) (al_calls (fold (alarms_event anon ok) evs (alarms_init t))) \<and>
   \<not> al_busy (fold (alarms_event anon ok) evs (alarms_init t)) \<and> al_busyAid (fold (alarms_event anon ok) evs (alarms_init t)) = None"
proof -
  let ?I = "\<lambda>p. bell_agrees (al_view p) (al_calls p) \<and> \<not> al_busy p \<and> al_busyAid p = None"
  have load: "?I (alarms_load n r p)" if "?I p" for n r p using that alarms_load_inv [of p n r] by simp
  have ign: "?I (ignore_answer aid n (r, l) (ignore_click aid p))" if "?I p" for aid n r l p
    using that alarms_load_inv [of "ignore_click aid p" n l] by (auto simp: ignore_answer_def ignore_click_busy split: option.splits)
  have step: "?I (alarms_event anon ok e p)" if "?I p" for e p
    using that load ign by (cases e) auto
  have "?I (fold (alarms_event anon ok) evs p)" if "?I p" for p
    using that by (induction evs arbitrary: p) (simp_all add: step)
  moreover have "?I (alarms_init t)" by (simp add: alarms_init_def bell_agrees_def)
  ultimately show ?thesis by blast
qed
section \<open>Suggestions of the search field\<close>

datatype Suggest = SuggestField SearchKey string string | SuggestValue SearchKey string string

record SuggestCtx =
  sc_devices :: "Device list"
  sc_tags :: "Tag list"
  sc_uuidToNet :: "(string, NetIface) jsmap"
  sc_switches :: "Switch list"

definition uniq_step :: "string \<Rightarrow> string \<Rightarrow> string list \<Rightarrow> string list" where
  "uniq_step needle v out =
     (let t = trim v in
      if t = [] \<or> toLowerCase t \<in> toLowerCase ` set out then out
      else if needle \<noteq> [] \<and> \<not> str_includes (toLowerCase t) (toLowerCase needle) then out
      else out @ [t])"

definition uniq_values :: "string \<Rightarrow> string list \<Rightarrow> string list" where
  "uniq_values needle vals = fold (uniq_step needle) vals []"

definition switch_port_names :: "Switch \<Rightarrow> string list" where
  "switch_port_names s =
     map (\<lambda>p. if sp_uplink p = Some True \<or> sw_uplink_port s = Some (sp_id p) then ''Uplink'' else sp_id p)
       (filter (\<lambda>p. opt_list (sp_clients p) \<noteq> []) (opt_list (sw_ports s)))"

fun key_values :: "SuggestCtx \<Rightarrow> SearchKey \<Rightarrow> string list" where
  "key_values c SStatus = [''Online'', ''Offline'']"
| "key_values c SDapstatus = [''Learning'', ''Optimizing'', ''Active'', ''Not applicable'', ''Disabled'']"
| "key_values c SDevice = map preferredName (sc_devices c)"
| "key_values c SUser = map tag_name (filter (\<lambda>t. tag_type t = Some ''user'') (sc_tags c))"
| "key_values c SGroup = map tag_name (filter (\<lambda>t. \<not> truthy (tag_type t) \<or> tag_type t = Some ''group'') (sc_tags c))"
| "key_values c SNetwork =
     map (\<lambda>n. or_else (opt_str (ni_desc n)) (ni_name n)) (filter (\<lambda>n. ni_type n \<noteq> Some ''wan'') (map snd (sc_uuidToNet c)))"
| "key_values c SSwitch = map (\<lambda>s. or_else (opt_trim (sw_name s)) (sw_mac s)) (sc_switches c)"
| "key_values c SPort = concat (map switch_port_names (sc_switches c))"
| "key_values c SIp = map (\<lambda>d. opt_str (dev_ip d)) (sc_devices c)"
| "key_values c SMac = map dev_mac (sc_devices c)"
| "key_values c SManufacturer = map vendor_of (sc_devices c)"

definition valueSuggest :: "SuggestCtx \<Rightarrow> SearchKey \<Rightarrow> string \<Rightarrow> Suggest list" where
  "valueSuggest c key needle = map (SuggestValue key (LABEL_BY_KEY key)) (uniq_values needle (key_values c key))"

definition suggestions :: "SuggestCtx \<Rightarrow> string \<Rightarrow> Suggest list" where
  "suggestions c raw =
     (case lastToken raw of
        TokField key v \<Rightarrow> take 10 (valueSuggest c key v)
      | TokPrefix p \<Rightarrow>
          map (\<lambda>f. SuggestField (sf_key f) (sf_label f) (sf_hint f))
            (filter (\<lambda>f. p = [] \<or> startsWith (toLowerCase (sf_label f)) p \<or> startsWith (key_text (sf_key f)) p) SEARCH_FIELDS))"

record SearchBox =
  sb_value :: string
  sb_open :: bool
  sb_hi :: nat

fun pick_suggestion :: "Suggest \<Rightarrow> SearchBox \<Rightarrow> SearchBox" where
  "pick_suggestion (SuggestField k label hint) b = b\<lparr>sb_value := applyField (sb_value b) label, sb_hi := 0\<rparr>"
| "pick_suggestion (SuggestValue k label v) b = b\<lparr>sb_value := applyValue (sb_value b) v, sb_hi := 0\<rparr>"

datatype BoxEvent = TypeText string | FocusBox | LeaveBox | ArrowDown | ArrowUp | EnterKey | EscapeKey | HoverItem nat | ClickItem nat

text \<open>The pointer can only be over an item of the list that is shown.\<close>

definition box_event :: "SuggestCtx \<Rightarrow> BoxEvent \<Rightarrow> SearchBox \<Rightarrow> SearchBox" where
  "box_event c e b =
     (let items = suggestions c (sb_value b); n = length items; listed = sb_open b \<and> 0 < n in
      case e of
        TypeText t \<Rightarrow> b\<lparr>sb_value := t, sb_open := True, sb_hi := 0\<rparr>
      | FocusBox \<Rightarrow> b\<lparr>sb_open := True\<rparr>
      | LeaveBox \<Rightarrow> b\<lparr>sb_open := False\<rparr>
      | ArrowDown \<Rightarrow> if listed then b\<lparr>sb_hi := (sb_hi b + 1) mod n\<rparr> else b
      | ArrowUp \<Rightarrow> if listed then b\<lparr>sb_hi := nat ((int (sb_hi b) - 1 + int n) mod int n)\<rparr> else b
      | EnterKey \<Rightarrow> if listed then pick_suggestion (if sb_hi b < n then items ! sb_hi b else hd items) b else b
      | EscapeKey \<Rightarrow> if listed then b\<lparr>sb_open := False\<rparr> else b
      | HoverItem i \<Rightarrow> if listed \<and> i < n then b\<lparr>sb_hi := i\<rparr> else b
      | ClickItem i \<Rightarrow> if listed \<and> i < n then pick_suggestion (items ! i) b else b)"

text \<open>The values offered, against the values there are.\<close>

definition value_fits :: "string \<Rightarrow> string \<Rightarrow> bool" where
  "value_fits needle v \<longleftrightarrow> trim v \<noteq> [] \<and> (needle = [] \<or> str_includes (toLowerCase (trim v)) (toLowerCase needle))"

lemma uniq_fold:
  assumes "distinct (map toLowerCase out)"
  shows "distinct (map toLowerCase (fold (uniq_step needle) vals out)) \<and>
    toLowerCase ` set (fold (uniq_step needle) vals out) = toLowerCase ` set out \<union> (toLowerCase \<circ> trim) ` {v \<in> set vals. value_fits needle v} \<and>
    set (fold (uniq_step needle) vals out) \<subseteq> set out \<union> trim ` set vals"
  using assms
proof (induction vals arbitrary: out)
  case (Cons v vals)
  have d: "distinct (map toLowerCase (uniq_step needle v out))"
    using Cons.prems by (auto simp: uniq_step_def Let_def)
  have s: "toLowerCase ` set (uniq_step needle v out) =
      toLowerCase ` set out \<union> (if value_fits needle v then {toLowerCase (trim v)} else {})"
    by (auto simp: uniq_step_def Let_def value_fits_def)
  have t: "set (uniq_step needle v out) \<subseteq> insert (trim v) (set out)"
    by (auto simp: uniq_step_def Let_def)
  have "{x \<in> set (v # vals). value_fits needle x} = (if value_fits needle v then {v} else {}) \<union> {x \<in> set vals. value_fits needle x}"
    by auto
  with Cons.IH [OF d] s t show ?case by (auto simp: image_Un)
qed simp


text \<open>The keys move the highlight within the list, and down and up undo each other.\<close>

lemma highlight_in_list:
  assumes "sb_open b" "suggestions c (sb_value b) \<noteq> []" "e \<in> {ArrowDown, ArrowUp}"
  shows "sb_hi (box_event c e b) < length (suggestions c (sb_value b))"
proof -
  have n: "0 < length (suggestions c (sb_value b))" using assms(2) by simp
  have "(int (sb_hi b) - 1 + int n) mod int n < int n" if "0 < n" for n using that by simp
  then show ?thesis using assms n by (auto simp: box_event_def Let_def nat_less_iff)
qed

lemma down_up:
  assumes "sb_open b" "sb_hi b < length (suggestions c (sb_value b))"
  shows "box_event c ArrowUp (box_event c ArrowDown b) = b"
proof -
  let ?n = "length (suggestions c (sb_value b))"
  have n: "0 < ?n" using assms(2) by linarith
  have "(int ((sb_hi b + 1) mod ?n) - 1 + int ?n) mod int ?n = int (sb_hi b)"
  proof (cases "sb_hi b + 1 = ?n")
    case True
    then have "(sb_hi b + 1) mod ?n = 0" by simp
    then have e: "int ((sb_hi b + 1) mod ?n) - 1 + int ?n = int (sb_hi b)" using True by linarith
    show ?thesis unfolding e using assms(2) by simp
  next
    case False
    then have "(sb_hi b + 1) mod ?n = sb_hi b + 1" using assms(2) by simp
    then show ?thesis using assms(2) by (simp add: mod_add_self2)
  qed
  then show ?thesis using assms n by (simp add: box_event_def Let_def)
qed

end
