(* ===== verification/Shell.thy ===== *)
theory Shell
  imports Settings AppLoad Prefs
begin

text \<open>
  The shell around the pages and its small components: the navigation bar (\<open>ui/src/components/Navigation.tsx\<close>), the page that signs in
  (\<open>ui/src/pages/LoginPage.tsx\<close>), copying to the clipboard and its mark (\<open>CopyText.tsx\<close>), messages that go away (\<open>Toast.tsx\<close>), the notice of
  a new build (\<open>UpdateBanner.tsx\<close>, \<open>ui/src/lib/ui-build.ts\<close>), the list of alarms (\<open>AlarmInboxList.tsx\<close>), flags, badges and icons. Tables of the
  code hold their own entries only; the names every object inherits are not keys of them.
\<close>

section \<open>Navigation bar\<close>

definition NAV_COLLAPSED_KEY :: string where
  "NAV_COLLAPSED_KEY = ''fp-nav-collapsed''"

definition loadNavCollapsed :: "Storage \<Rightarrow> bool" where
  "loadNavCollapsed s = (case getItem NAV_COLLAPSED_KEY s of Inr v \<Rightarrow> v = Some ''1'' | Inl _ \<Rightarrow> False)"

definition toggle_sidebar :: "bool \<times> Storage \<Rightarrow> bool \<times> Storage" where
  "toggle_sidebar cs = (let nx = \<not> fst cs in (nx, try_set NAV_COLLAPSED_KEY (if nx then ''1'' else ''0'') (snd cs)))"

text \<open>The buttons from top to bottom, each with the tab it selects.\<close>

definition nav_buttons :: "bool \<Rightarrow> (Tab \<times> string) list" where
  "nav_buttons debugOn =
     NAV @ (if debugOn then [(TDebug, ''Debug'')] else []) @ [(TSettings, ''Settings'')] @ (if debugOn then [(TLegacy, ''Legacy'')] else [])"

datatype NavCall = SelectTab Tab | OnSettings

definition nav_press :: "Tab \<Rightarrow> NavCall list" where
  "nav_press t = (if t = TSettings then [OnSettings, SelectTab TSettings] else [SelectTab t])"

record MobileNav =
  mn_open :: bool
  mn_calls :: "NavCall list"

text \<open>The dialog opens and closes by its own buttons, closes with every call that a press makes, and when the window becomes wide.\<close>

datatype MobileEvent = DialogChange bool | PressItem Tab | WidthChange bool

definition mobile_call :: "NavCall \<Rightarrow> MobileNav \<Rightarrow> MobileNav" where
  "mobile_call c s = s\<lparr>mn_calls := mn_calls s @ [c], mn_open := False\<rparr>"

fun mobile_event :: "MobileEvent \<Rightarrow> MobileNav \<Rightarrow> MobileNav" where
  "mobile_event (DialogChange b) s = s\<lparr>mn_open := b\<rparr>"
| "mobile_event (PressItem t) s = (if mn_open s then fold mobile_call (nav_press t) s else s)"
| "mobile_event (WidthChange wide) s = (if wide then s\<lparr>mn_open := False\<rparr> else s)"

section \<open>Signing in\<close>

record LoginPage =
  lp_password :: string
  lp_error :: "string option"
  lp_busy :: bool
  lp_oidcEnabled :: bool
  lp_oidcName :: string
  lp_authed :: nat

text \<open>The notice that a redirect has left is shown once: reading it takes it out of the storage of the session, which may refuse both.\<close>

definition take_notice :: "Storage \<Rightarrow> StorageError + string option \<times> Storage" where
  "take_notice s =
     (case getItem ''fp_auth_notice'' s of
        Inl e \<Rightarrow> Inl e
      | Inr n \<Rightarrow>
          if truthy n then (case removeItem ''fp_auth_notice'' s of Inl e \<Rightarrow> Inl e | Inr s' \<Rightarrow> Inr (n, s')) else Inr (n, s))"

definition login_init :: "bool option \<Rightarrow> string option \<Rightarrow> LoginPage" where
  "login_init oidc name = \<lparr>lp_password = [], lp_error = None, lp_busy = False, lp_oidcEnabled = (oidc = Some True),
     lp_oidcName = opt_trim name, lp_authed = 0\<rparr>"

text \<open>The effect: what the application passes wins; only without it the page asks itself.\<close>

definition login_props :: "bool option \<Rightarrow> string option \<Rightarrow> LoginPage \<Rightarrow> LoginPage" where
  "login_props oidc name p =
     (case oidc of Some b \<Rightarrow> p\<lparr>lp_oidcEnabled := b, lp_oidcName := opt_trim name\<rparr> | None \<Rightarrow> p)"

definition options_answer :: "bool \<Rightarrow> LoginOptions Resp \<Rightarrow> LoginPage \<Rightarrow> LoginPage" where
  "options_answer cancelled r p =
     (if \<not> rs_ok r \<or> cancelled then p
      else case rs_body r of
        Inl _ \<Rightarrow> p
      | Inr b \<Rightarrow> p\<lparr>lp_oidcEnabled := (lo_oidc_enabled b = Some True), lp_oidcName := opt_trim (lo_oidc_name b)\<rparr>)"

definition login_click :: "LoginPage \<Rightarrow> LoginPage" where
  "login_click p = p\<lparr>lp_busy := True, lp_error := None\<rparr>"

definition login_failure :: "unit request \<Rightarrow> string option" where
  "login_failure r =
     (case r of
        Inl e \<Rightarrow> Some e
      | Inr rp \<Rightarrow> if rp_ok rp then None else Some (if rp_status rp = 401 then ''Invalid password'' else dec (rp_status rp)))"

definition login_answer :: "unit request \<Rightarrow> LoginPage \<Rightarrow> LoginPage" where
  "login_answer r p =
     (case login_failure r of
        Some e \<Rightarrow> p\<lparr>lp_error := Some e\<rparr>
      | None \<Rightarrow> p\<lparr>lp_authed := Suc (lp_authed p)\<rparr>)\<lparr>lp_busy := False\<rparr>"

definition oidc_button :: "LoginPage \<Rightarrow> string option" where
  "oidc_button p = (if lp_oidcEnabled p then Some (or_else (lp_oidcName p) ''OIDC'') else None)"

interpretation signing_in: page_action lp_busy lp_error login_click login_answer login_failure
  by unfold_locales (auto simp: login_click_def login_answer_def split: option.splits)

section \<open>Clipboard\<close>

text \<open>
  \<open>writeClipboard\<close>: the interface of the browser when there is one (\<open>None\<close> stands for a browser without it) and it does not refuse; otherwise
  the command on a text area. The result says whether the text was copied, an error otherwise.
\<close>

definition writeClipboard :: "bool option \<Rightarrow> bool \<Rightarrow> string + unit" where
  "writeClipboard clipboard command =
     (if clipboard = Some True then Inr () else if command then Inr () else Inl ''copy failed'')"

text \<open>The mark of a copy goes back after a time; a second copy clears the timer of the first. The timers that run are kept with their numbers.\<close>

record CopyFeedback =
  cf_copied :: bool
  cf_timer :: "nat option"
  cf_pending :: "(nat \<times> nat) list"
  cf_next :: nat
  cf_now :: nat

definition COPY_MS :: nat where
  "COPY_MS = 1500"

definition copy_init :: "nat \<Rightarrow> CopyFeedback" where
  "copy_init now = \<lparr>cf_copied = False, cf_timer = None, cf_pending = [], cf_next = 0, cf_now = now\<rparr>"

definition clear_timer :: "CopyFeedback \<Rightarrow> CopyFeedback" where
  "clear_timer s = (case cf_timer s of
     Some i \<Rightarrow> s\<lparr>cf_pending := filter (\<lambda>(j, _). j \<noteq> i) (cf_pending s)\<rparr> | None \<Rightarrow> s)"

definition copy_press :: "bool option \<Rightarrow> bool \<Rightarrow> CopyFeedback \<Rightarrow> CopyFeedback" where
  "copy_press clipboard command s =
     (case writeClipboard clipboard command of
        Inl _ \<Rightarrow> s
      | Inr _ \<Rightarrow> let c = clear_timer (s\<lparr>cf_copied := True\<rparr>)
                in c\<lparr>cf_pending := cf_pending c @ [(cf_next c, cf_now c + COPY_MS)], cf_timer := Some (cf_next c), cf_next := Suc (cf_next c)\<rparr>)"

text \<open>Time passes, and the timers that are due run.\<close>

definition copy_wait :: "nat \<Rightarrow> CopyFeedback \<Rightarrow> CopyFeedback" where
  "copy_wait dt s =
     (let t = cf_now s + dt
      in s\<lparr>cf_now := t, cf_copied := (cf_copied s \<and> \<not> list_ex (\<lambda>(_, d). d \<le> t) (cf_pending s)),
           cf_pending := filter (\<lambda>(_, d). t < d) (cf_pending s)\<rparr>)"

datatype CopyEvent = CopyPress "bool option" bool | CopyWait nat

fun copy_event :: "CopyEvent \<Rightarrow> CopyFeedback \<Rightarrow> CopyFeedback" where
  "copy_event (CopyPress c k) s = copy_press c k s"
| "copy_event (CopyWait dt) s = copy_wait dt s"

definition copy_unmount :: "CopyFeedback \<Rightarrow> CopyFeedback" where
  "copy_unmount s = clear_timer s"

section \<open>Messages that go away\<close>

text \<open>
  A message is dismissed after four seconds. The effect that sets the timer runs again when the message or the callback is another one; a page
  that passes a new function at each rendering restarts the timer each time (\<open>fresh\<close>).
\<close>

definition TOAST_MS :: nat where
  "TOAST_MS = 4000"

record ToastState =
  to_message :: "string option"
  to_due :: nat
  to_now :: nat

datatype ToastEvent = SayMessage string | RenderParent | ToastWait nat | PressDismiss

definition toast_effect :: "bool \<Rightarrow> string option \<Rightarrow> ToastState \<Rightarrow> ToastState" where
  "toast_effect fresh before s = (if fresh \<or> to_message s \<noteq> before then s\<lparr>to_due := to_now s + TOAST_MS\<rparr> else s)"

fun toast_event :: "bool \<Rightarrow> ToastEvent \<Rightarrow> ToastState \<Rightarrow> ToastState" where
  "toast_event fresh (SayMessage m) s = toast_effect fresh (to_message s) (s\<lparr>to_message := Some m\<rparr>)"
| "toast_event fresh RenderParent s = (if to_message s = None then s else toast_effect fresh (to_message s) s)"
| "toast_event fresh (ToastWait dt) s =
     (let t = to_now s + dt in s\<lparr>to_now := t, to_message := (if to_due s \<le> t then None else to_message s)\<rparr>)"
| "toast_event fresh PressDismiss s = s\<lparr>to_message := None\<rparr>"

section \<open>Notice of a new build\<close>

text \<open>The member \<open>build\<close> of the answer, when it is text.\<close>

definition checkUiUpdate :: "bool \<Rightarrow> string \<Rightarrow> string option request \<Rightarrow> bool" where
  "checkUiUpdate dev boot r =
     (if dev \<or> boot = [] then False
      else case r of
        Inl _ \<Rightarrow> False
      | Inr rp \<Rightarrow> rp_ok rp \<and> (case rp_json rp of Inl _ \<Rightarrow> False | Inr build \<Rightarrow> truthy build \<and> build \<noteq> Some boot))"

record Banner =
  bn_available :: bool
  bn_dismissed :: bool

definition banner_init :: Banner where
  "banner_init = \<lparr>bn_available = False, bn_dismissed = False\<rparr>"

definition banner_shown :: "Banner \<Rightarrow> bool" where
  "banner_shown b \<longleftrightarrow> \<not> (bn_dismissed b \<or> \<not> bn_available b)"

datatype BannerEvent = ForceBanner | BannerTick "string option request" | DismissBanner

fun banner_event :: "bool \<Rightarrow> string \<Rightarrow> BannerEvent \<Rightarrow> Banner \<Rightarrow> Banner" where
  "banner_event dev boot ForceBanner b = b\<lparr>bn_dismissed := False, bn_available := True\<rparr>"
| "banner_event dev boot (BannerTick r) b = (if checkUiUpdate dev boot r then b\<lparr>bn_available := True\<rparr> else b)"
| "banner_event dev boot DismissBanner b = (if banner_shown b then b\<lparr>bn_dismissed := True\<rparr> else b)"

section \<open>List of alarms\<close>

text \<open>\<open>type.replace(/^ALARM_/i, '').replace(/_/g, ' ')\<close>\<close>

definition alarmTypeLabel :: "string option \<Rightarrow> string" where
  "alarmTypeLabel type =
     (if \<not> truthy type then EM_DASH
      else let t = opt_str type;
               body = (if toLowerCase (take 6 t) = ''alarm_'' then drop 6 t else t);
               raw = map (\<lambda>c. if c = CHR ''_'' then CHR '' '' else c) body
           in or_else raw t)"

definition deviceLabel :: "AlarmSample \<Rightarrow> string" where
  "deviceLabel a =
     or_else (or_else (or_else (opt_trim (al_device_name a)) (opt_trim (al_device_mac a))) (opt_trim (al_device_ip a))) EM_DASH"

text \<open>\<open>/^./\<close> does not match a line end, which has no capital either.\<close>

definition compactTypeLabel :: "AlarmSample \<Rightarrow> string" where
  "compactTypeLabel a = (case toLowerCase (alarmTypeLabel (al_type a)) of [] \<Rightarrow> [] | c # cs \<Rightarrow> upc c # cs)"

definition alarm_row :: "bool \<Rightarrow> int \<Rightarrow> AlarmSample \<Rightarrow> string \<times> string \<times> string \<times> string" where
  "alarm_row brief nowMs a =
     (if brief then compactTypeLabel a else alarmTypeLabel (al_type a),
      or_else (opt_trim (al_message a)) (if brief then ''No message available'' else EM_DASH),
      deviceLabel a,
      case al_timestamp a of Some t \<Rightarrow> fmtRelative t nowMs | None \<Rightarrow> if brief then ''Time unavailable'' else EM_DASH)"

definition no_alarms_text :: "int \<Rightarrow> string" where
  "no_alarms_text activeCount = (if 0 < activeCount then ''No alarm details'' else ''No alarms'')"

definition ignore_enabled :: "bool \<Rightarrow> int option \<Rightarrow> bool" where
  "ignore_enabled controlLanOk busyAid \<longleftrightarrow> \<not> (\<not> controlLanOk \<or> busyAid \<noteq> None)"

section \<open>Flags, badges and icons\<close>

definition ALIAS :: "(string, string) jsmap" where
  "ALIAS = [(''suriname'', ''sr''), (''sur'', ''sr''), (''usa'', ''us''), (''uk'', ''gb''), (''united kingdom'', ''gb''),
     (''united states'', ''us''), (''netherlands'', ''nl''), (''holland'', ''nl'')]"

definition letters :: "nat \<Rightarrow> string \<Rightarrow> bool" where
  "letters n s \<longleftrightarrow> length s = n \<and> list_all is_lower s"

definition iso2 :: "string option \<Rightarrow> string" where
  "iso2 raw =
     (let s = opt_trim raw in
      if s = [] \<or> s = ''[]'' \<or> s = ''null'' then []
      else let lower = toLowerCase s in
        if letters 2 lower \<and> lower \<noteq> ''xx'' \<and> lower \<noteq> ''zz'' then lower
        else opt_str (map_of ALIAS lower))"

definition SRC :: string where
  "SRC = ''https://cdn.jsdelivr.net/gh/lipis/flag-icons/flags/4x3''"

text \<open>The address of the image, unless it could not be loaded before.\<close>

definition flag_image :: "string option \<Rightarrow> bool \<Rightarrow> string option" where
  "flag_image cc dead = (if iso2 cc = [] \<or> dead then None else Some (SRC @ ''/'' @ iso2 cc @ ''.svg''))"

datatype BadgeTone = Amber | Emerald

definition source_badge :: "string option \<Rightarrow> bool option \<Rightarrow> string option \<Rightarrow> string option \<Rightarrow> (string \<times> BadgeTone) option" where
  "source_badge source stale enrichedFrom reason =
     (if \<not> truthy source \<or> source = Some ''empty'' then None
      else if source = Some ''agent'' \<and> stale = Some True then Some (''Stale'', Amber)
      else if source = Some ''agent'' then Some (''Live '' @ [CHR 0xB7] @ '' agent'', Emerald)
      else if source = Some ''fw-app-init'' then
        let prefer = (reason = Some ''prefer''); withAgent = (enrichedFrom = Some ''agent'')
        in Some (if prefer then (if withAgent then ''Control '' @ [CHR 0xB7] @ '' agent'' else ''Control'')
                 else if withAgent then ''Fallback '' @ [CHR 0xB7] @ '' control + agent''
                 else ''Fallback '' @ [CHR 0xB7] @ '' control'',
                 if prefer then Emerald else Amber)
      else if source = Some ''fw-app-get'' then Some (''Live '' @ [CHR 0xB7] @ '' control'', Emerald)
      else None)"

text \<open>The ring of a share: the part of the circle that is drawn, of its length, and the text in the middle.\<close>

definition donut_share :: "rat \<Rightarrow> rat \<Rightarrow> rat" where
  "donut_share v all = (if 0 < all then v / all else 0)"

definition donut_text :: "rat \<Rightarrow> rat \<Rightarrow> string" where
  "donut_text v all = dec_int (js_round (donut_share v all * 100)) @ ''%''"

section \<open>What the navigation does\<close>

text \<open>The state of the bar is found again after a reload, unless the storage refuses; then the press still has its effect on the page.\<close>

theorem sidebar_kept:
  "fst (toggle_sidebar (c, s)) = (\<not> c) \<and>
   (if ls_blocked s \<or> ls_full s then snd (toggle_sidebar (c, s)) = s
    else loadNavCollapsed (snd (toggle_sidebar (c, s))) = fst (toggle_sidebar (c, s)))"
  by (auto simp: toggle_sidebar_def Let_def loadNavCollapsed_def try_set_def setItem_def getItem_def NAV_COLLAPSED_KEY_def update_conv)

text \<open>
  Every press in the menu of a small window selects exactly the tab of the button, after the settings have been prepared when it is the
  settings, and leaves the menu closed.
\<close>

theorem mobile_press:
  "mn_open s \<Longrightarrow> mobile_event (PressItem t) s =
     s\<lparr>mn_open := False, mn_calls := mn_calls s @ (if t = TSettings then [OnSettings] else []) @ [SelectTab t]\<rparr>"
  by (simp add: nav_press_def mobile_call_def)

lemma nav_buttons_distinct: "distinct (map fst (nav_buttons debugOn))"
  by (simp add: nav_buttons_def NAV_def)

section \<open>What signing in does\<close>

text \<open>
  An attempt ends idle; it either tells the application once that there is a session, with no error shown, or shows an error and tells nothing.
  Neither of the two requests of the page asks for a session again, whatever is answered.
\<close>

theorem login_outcome:
  "let q = login_answer r (login_click p) in
   \<not> lp_busy q \<and> lp_error q = login_failure r \<and> lp_password q = lp_password p \<and>
   lp_authed q = lp_authed p + (if lp_error q = None then 1 else 0)"
proof -
  have "\<not> lp_busy (login_answer r (login_click p))" "lp_error (login_answer r (login_click p)) = login_failure r"
    using signing_in.runs by blast+
  then show ?thesis by (simp add: login_answer_def login_click_def split: option.splits)
qed

lemma login_asks_no_session:
  "\<not> api_needs_auth ''/v1/auth/login'' r" "\<not> api_needs_auth ''/v1/auth/login-options'' r"
  by (simp_all add: api_needs_auth_def startsWith_iff)

text \<open>The notice is shown once.\<close>

lemma notice_once: "take_notice s = Inr (n, s') \<Longrightarrow> truthy n \<Longrightarrow> take_notice s' = Inr (None, s')"
  by (auto simp: take_notice_def getItem_def removeItem_def truthy_def delete_conv split: if_splits option.splits sum.splits)

section \<open>How long a copy is marked\<close>

text \<open>The time since the last copy that succeeded.\<close>

fun since_copy :: "CopyEvent \<Rightarrow> nat option \<Rightarrow> nat option" where
  "since_copy (CopyPress c k) t = (if c = Some True \<or> k then Some 0 else t)"
| "since_copy (CopyWait dt) t = map_option (\<lambda>n. n + dt) t"

definition mark_runs :: "nat \<Rightarrow> CopyFeedback \<Rightarrow> bool" where
  "mark_runs t s \<longleftrightarrow> (\<exists>i d. cf_pending s = [(i, d)] \<and> cf_timer s = Some i \<and> d + t = cf_now s + COPY_MS) \<and> cf_copied s"

definition copy_inv :: "nat option \<Rightarrow> CopyFeedback \<Rightarrow> bool" where
  "copy_inv t s \<longleftrightarrow> (case t of
     None \<Rightarrow> cf_pending s = [] \<and> \<not> cf_copied s
   | Some n \<Rightarrow> if n < COPY_MS then mark_runs n s else cf_pending s = [] \<and> \<not> cf_copied s)"

lemma copy_press_inv:
  assumes "copy_inv t s"
  shows "copy_inv (since_copy (CopyPress c k) t) (copy_press c k s)"
proof -
  have "cf_pending (clear_timer (s\<lparr>cf_copied := True\<rparr>)) = []"
    using assms by (auto simp: copy_inv_def mark_runs_def clear_timer_def split: option.splits if_splits)
  moreover have "cf_now (clear_timer x) = cf_now x" "cf_copied (clear_timer x) = cf_copied x" for x
    by (simp_all add: clear_timer_def split: option.splits)
  ultimately have "copy_inv (Some 0) (copy_press c k s)" if "c = Some True \<or> k"
    using that by (auto simp: copy_press_def writeClipboard_def Let_def copy_inv_def mark_runs_def COPY_MS_def)
  moreover have "copy_press c k s = s" if "\<not> (c = Some True \<or> k)"
    using that by (simp add: copy_press_def writeClipboard_def)
  ultimately show ?thesis using assms by simp
qed

lemma copy_wait_inv:
  assumes "copy_inv t s"
  shows "copy_inv (since_copy (CopyWait dt) t) (copy_wait dt s)"
proof (cases t)
  case (Some n)
  then show ?thesis
    using assms by (cases "n < COPY_MS") (auto simp: copy_inv_def mark_runs_def copy_wait_def Let_def)
qed (use assms in \<open>simp add: copy_inv_def copy_wait_def\<close>)

lemma copy_event_inv: "copy_inv t s \<Longrightarrow> copy_inv (since_copy e t) (copy_event e s)"
  using copy_press_inv copy_wait_inv by (cases e) simp_all

text \<open>
  The mark is shown exactly while the last copy that succeeded is less than a second and a half ago: an earlier copy never takes the mark of a
  later one away, and a copy that failed changes nothing.
\<close>

theorem copied_recently:
  "cf_copied (fold copy_event evs (copy_init now)) \<longleftrightarrow>
     (case fold since_copy evs None of None \<Rightarrow> False | Some t \<Rightarrow> t < 1500)"
proof -
  have "copy_inv (fold since_copy evs t) (fold copy_event evs s)" if "copy_inv t s" for t s
    using that by (induction evs arbitrary: t s) (simp_all add: copy_event_inv)
  moreover have "copy_inv None (copy_init now)" by (simp add: copy_inv_def copy_init_def)
  ultimately have "copy_inv (fold since_copy evs None) (fold copy_event evs (copy_init now))" by blast
  then show ?thesis by (auto simp: copy_inv_def mark_runs_def COPY_MS_def split: option.splits if_splits)
qed

section \<open>How long a message is shown\<close>

text \<open>A page that passes the same callback each time has the message shown for four seconds, however often it is rendered.\<close>

lemma renders_keep: "(toast_event False RenderParent ^^ n) s = s"
  by (induction n) (simp_all add: toast_effect_def)

lemma toast_dismissed:
  assumes "to_message s = None" "m1 + m2 = TOAST_MS" "0 < m2"
  shows "to_message (fold (toast_event False) ([SayMessage m, ToastWait m1] @ replicate n RenderParent) s) = Some m"
    and "to_message (fold (toast_event False) ([SayMessage m, ToastWait m1] @ replicate n RenderParent @ [ToastWait m2]) s) = None"
  using assms by (simp_all add: renders_keep toast_effect_def)

text \<open>
  A page that passes a new callback at each rendering keeps the message for ever when it is rendered every four seconds or more often:
  \<open>DeviceDetail\<close> and \<open>DevicesTab\<close> pass \<open>() => setToast(null)\<close>.
\<close>

lemma toast_stays:
  assumes "dt < TOAST_MS" "to_message s = Some m" "to_now s + dt < to_due s"
  shows "to_message (fold (toast_event True) (concat (replicate n [ToastWait dt, RenderParent])) s) = Some m"
  using assms(2,3)
proof (induction n arbitrary: s)
  case (Suc n)
  let ?s = "toast_event True RenderParent (toast_event True (ToastWait dt) s)"
  have "to_message ?s = Some m" "to_now ?s + dt < to_due ?s"
    using Suc.prems assms(1) by (simp_all add: toast_effect_def)
  then show ?case using Suc.IH [of ?s] by (simp del: toast_event.simps)
qed simp

section \<open>What the notice of a new build does\<close>

text \<open>A notice that was put aside comes back only when it is forced.\<close>

lemma banner_later:
  assumes "list_all (\<lambda>e. e \<noteq> ForceBanner) evs"
  shows "bn_dismissed b \<Longrightarrow> \<not> banner_shown (fold (banner_event dev boot) evs b)"
  using assms
proof (induction evs arbitrary: b)
  case (Cons e evs)
  then have "bn_dismissed (banner_event dev boot e b)" by (cases e) auto
  with Cons show ?case by simp
qed (simp add: banner_shown_def)

text \<open>It is not shown unless it was forced or an answer in order named another build.\<close>

lemma banner_needs_build:
  assumes "list_all (\<lambda>e. case e of ForceBanner \<Rightarrow> False | BannerTick r \<Rightarrow> \<not> checkUiUpdate dev boot r | DismissBanner \<Rightarrow> True) evs"
  shows "fold (banner_event dev boot) evs banner_init = banner_init"
  using assms by (induction evs) (auto simp: banner_init_def banner_shown_def split: BannerEvent.splits)

lemma no_notice_in_development: "\<not> checkUiUpdate True boot r" "\<not> checkUiUpdate dev [] r"
  by (simp_all add: checkUiUpdate_def)

section \<open>What flags and labels are\<close>

lemma alias_letters: "map_of ALIAS k = Some v \<Longrightarrow> letters 2 v \<and> v \<noteq> ''xx'' \<and> v \<noteq> ''zz''"
  by (auto simp: ALIAS_def letters_def is_lower_def split: if_splits)

text \<open>The name of an image is two small letters, and never one of the codes for no country.\<close>

theorem flag_names:
  "iso2 raw = [] \<or> (letters 2 (iso2 raw) \<and> \<not> (iso2 raw = ''xx'' \<or> iso2 raw = ''zz''))"
  using alias_letters by (auto simp: iso2_def Let_def opt_str_def split: option.splits)

text \<open>The label of a type has words apart by spaces, unless the type is the prefix alone.\<close>

lemma alarm_label_words:
  "truthy type \<Longrightarrow> alarmTypeLabel type \<noteq> [] \<and> (CHR ''_'' \<in> set (alarmTypeLabel type) \<longrightarrow> toLowerCase (opt_str type) = ''alarm_'')"
  by (auto simp: alarmTypeLabel_def Let_def or_else_def truthy_def opt_str_def toLowerCase_def split: if_splits option.splits)

lemma donut_share_bounds: "0 \<le> v \<Longrightarrow> v \<le> all \<Longrightarrow> 0 \<le> donut_share v all \<and> donut_share v all \<le> 1"
  by (simp add: donut_share_def field_simps)

end
