(* ===== verification/Legacy.thy ===== *)
theory Legacy
  imports Streams DeviceGroup NavStack
begin

text \<open>
  The pages kept from an earlier version (\<open>ui/src/tabs/LegacyTab.tsx\<close>, \<open>LegacyDevicesTab.tsx\<close>, \<open>LegacyTopology.tsx\<close>) and the map of the
  regions (\<open>ui/src/components/RegionMap.tsx\<close>, \<open>ui/src/lib/iso-numeric.ts\<close>). The shapes of the map and their centres come from the libraries that
  read the atlas and are arguments.
\<close>

section \<open>Devices by network\<close>

definition lan_title :: "NetIface \<Rightarrow> string" where
  "lan_title n = or_else (opt_str (ni_desc n)) (ni_name n)"

definition lanOptions :: "(string \<Rightarrow> string \<Rightarrow> int) \<Rightarrow> (string, NetIface) jsmap \<Rightarrow> NetIface list" where
  "lanOptions lc uuidToNet =
     js_sort (\<lambda>a b. lc (lan_title a) (lan_title b)) (filter (\<lambda>n. truthy (ni_uuid n)) (map snd uuidToNet))"

record LanGroup =
  lgr_lan :: "NetIface option"
  lgr_devices :: "Device list"

definition lan_key :: "Device \<Rightarrow> string" where
  "lan_key d = or_else (opt_str (dev_intf_uuid d)) ''_''"

definition lan_of_device :: "(string, NetIface) jsmap \<Rightarrow> Device \<Rightarrow> NetIface option" where
  "lan_of_device uuidToNet d = (if truthy (dev_intf_uuid d) then map_of uuidToNet (opt_str (dev_intf_uuid d)) else None)"

definition add_to_lan :: "(string, NetIface) jsmap \<Rightarrow> Device \<Rightarrow> (string, LanGroup) jsmap \<Rightarrow> (string, LanGroup) jsmap" where
  "add_to_lan uuidToNet d m =
     (let g = (case map_of m (lan_key d) of Some g \<Rightarrow> g | None \<Rightarrow> \<lparr>lgr_lan = lan_of_device uuidToNet d, lgr_devices = []\<rparr>)
      in AList.update (lan_key d) (g\<lparr>lgr_devices := lgr_devices g @ [d]\<rparr>) m)"

definition lan_group_order :: "string \<times> LanGroup \<Rightarrow> string \<times> LanGroup \<Rightarrow> int" where
  "lan_group_order a b =
     (if fst a = ''_'' then 1 else if fst b = ''_'' then -1
      else int (length (lgr_devices (snd b))) - int (length (lgr_devices (snd a))))"

definition lan_groups :: "(string, NetIface) jsmap \<Rightarrow> Device list \<Rightarrow> (string, LanGroup) jsmap" where
  "lan_groups uuidToNet filtered = js_sort lan_group_order (fold (add_to_lan uuidToNet) filtered [])"

definition lan_group_title :: "LanGroup \<Rightarrow> string" where
  "lan_group_title g = (case lgr_lan g of None \<Rightarrow> ''Unassigned'' | Some n \<Rightarrow> or_else (lan_title n) ''Unassigned'')"

definition legacy_group_labels :: "(string \<Rightarrow> string option \<Rightarrow> string) \<Rightarrow> Device \<Rightarrow> string list" where
  "legacy_group_labels labelTag d = filter (\<lambda>t. t \<noteq> []) (map (\<lambda>i. labelTag i (Some ''group'')) (opt_list (dev_tag_ids d)))"

section \<open>Networks with their devices\<close>

definition legacy_topology :: "NetIface list \<Rightarrow> Device list \<Rightarrow> NetIface list" where
  "legacy_topology network devices =
     map (\<lambda>n. n\<lparr>ni_device_count :=
            Some (if truthy (ni_uuid n) then length (filter (\<lambda>d. dev_intf_uuid d = ni_uuid n) devices) else 0)\<rparr>) network"

definition device_count :: "NetIface \<Rightarrow> nat" where
  "device_count n = (case ni_device_count n of Some k \<Rightarrow> k | None \<Rightarrow> 0)"

definition legacy_lans :: "NetIface list \<Rightarrow> NetIface list" where
  "legacy_lans topology = filter (\<lambda>n. ni_type n = Some ''lan'') topology"

definition legacy_wans :: "NetIface list \<Rightarrow> NetIface list" where
  "legacy_wans topology = filter (\<lambda>n. ni_type n = Some ''wan'') topology"

definition maxCount :: "NetIface list \<Rightarrow> nat" where
  "maxCount topology = foldr max (map device_count (legacy_lans topology)) 1"

definition lan_weight :: "NetIface list \<Rightarrow> NetIface \<Rightarrow> rat" where
  "lan_weight topology n = of_nat (device_count n) / of_nat (maxCount topology)"

section \<open>Throughput by interface\<close>

definition preferred :: "string list" where
  "preferred = [''eth1'', ''eth2'', ''eth3'', ''br0'', ''br2'']"

text \<open>A set of the language keeps the order in which its members came.\<close>

definition have_ifaces :: "HistoryPoint list \<Rightarrow> string list" where
  "have_ifaces history = rev (remdups (rev (concat (map (\<lambda>p. map fst (hp_rates p)) history))))"

definition chartIfaces :: "HistoryPoint list \<Rightarrow> string list" where
  "chartIfaces history =
     (let have = have_ifaces history
      in take 6 (filter (\<lambda>i. i \<in> set have) preferred @ filter (\<lambda>i. i \<notin> set preferred) (js_sort str_cmp have)))"

definition rx_series :: "HistoryPoint list \<Rightarrow> string \<Rightarrow> rat list" where
  "rx_series history name =
     map (\<lambda>p. case map_of (hp_rates p) name of Some r \<Rightarrow> (case rt_rx_mbps r of Some v \<Rightarrow> v | None \<Rightarrow> 0) | None \<Rightarrow> 0) history"

definition last_rates :: "HistoryPoint list \<Rightarrow> string \<Rightarrow> Rates option" where
  "last_rates history name = (if history = [] then None else map_of (hp_rates (last history)) name)"

definition sorted_keys :: "(string \<Rightarrow> string \<Rightarrow> int) \<Rightarrow> (string, 'v) jsmap \<Rightarrow> (string \<times> 'v) list" where
  "sorted_keys lc m = js_sort (\<lambda>a b. lc (fst a) (fst b)) m"

definition legacy_ifaces :: "(string \<Rightarrow> string \<Rightarrow> int) \<Rightarrow> Snapshot \<Rightarrow> string list" where
  "legacy_ifaces lc snap = js_sort lc (map fst (sn_ifaces snap))"

definition legacy_wan_rows :: "(string \<Rightarrow> string \<Rightarrow> int) \<Rightarrow> Snapshot \<Rightarrow> (string \<times> WANLink) list" where
  "legacy_wan_rows lc snap = sorted_keys lc (sn_wan snap)"

section \<open>Numbers of countries\<close>

definition NUM :: "(string, string) jsmap" where
  "NUM =
    [(''AD'', ''020''), (''AE'', ''784''), (''AF'', ''004''), (''AG'', ''028''), (''AI'', ''660''), (''AL'', ''008''),
     (''AM'', ''051''), (''AO'', ''024''), (''AQ'', ''010''), (''AR'', ''032''), (''AS'', ''016''), (''AT'', ''040''),
     (''AU'', ''036''), (''AW'', ''533''), (''AX'', ''248''), (''AZ'', ''031''), (''BA'', ''070''), (''BB'', ''052''),
     (''BD'', ''050''), (''BE'', ''056''), (''BF'', ''854''), (''BG'', ''100''), (''BH'', ''048''), (''BI'', ''108''),
     (''BJ'', ''204''), (''BL'', ''652''), (''BM'', ''060''), (''BN'', ''096''), (''BO'', ''068''), (''BQ'', ''535''),
     (''BR'', ''076''), (''BS'', ''044''), (''BT'', ''064''), (''BV'', ''074''), (''BW'', ''072''), (''BY'', ''112''),
     (''BZ'', ''084''), (''CA'', ''124''), (''CC'', ''166''), (''CD'', ''180''), (''CF'', ''140''), (''CG'', ''178''),
     (''CH'', ''756''), (''CI'', ''384''), (''CK'', ''184''), (''CL'', ''152''), (''CM'', ''120''), (''CN'', ''156''),
     (''CO'', ''170''), (''CR'', ''188''), (''CU'', ''192''), (''CV'', ''132''), (''CW'', ''531''), (''CX'', ''162''),
     (''CY'', ''196''), (''CZ'', ''203''), (''DE'', ''276''), (''DJ'', ''262''), (''DK'', ''208''), (''DM'', ''212''),
     (''DO'', ''214''), (''DZ'', ''012''), (''EC'', ''218''), (''EE'', ''233''), (''EG'', ''818''), (''EH'', ''732''),
     (''ER'', ''232''), (''ES'', ''724''), (''ET'', ''231''), (''FI'', ''246''), (''FJ'', ''242''), (''FK'', ''238''),
     (''FM'', ''583''), (''FO'', ''234''), (''FR'', ''250''), (''GA'', ''266''), (''GB'', ''826''), (''GD'', ''308''),
     (''GE'', ''268''), (''GF'', ''254''), (''GG'', ''831''), (''GH'', ''288''), (''GI'', ''292''), (''GL'', ''304''),
     (''GM'', ''270''), (''GN'', ''324''), (''GP'', ''312''), (''GQ'', ''226''), (''GR'', ''300''), (''GS'', ''239''),
     (''GT'', ''320''), (''GU'', ''316''), (''GW'', ''624''), (''GY'', ''328''), (''HK'', ''344''), (''HM'', ''334''),
     (''HN'', ''340''), (''HR'', ''191''), (''HT'', ''332''), (''HU'', ''348''), (''ID'', ''360''), (''IE'', ''372''),
     (''IL'', ''376''), (''IM'', ''833''), (''IN'', ''356''), (''IO'', ''086''), (''IQ'', ''368''), (''IR'', ''364''),
     (''IS'', ''352''), (''IT'', ''380''), (''JE'', ''832''), (''JM'', ''388''), (''JO'', ''400''), (''JP'', ''392''),
     (''KE'', ''404''), (''KG'', ''417''), (''KH'', ''116''), (''KI'', ''296''), (''KM'', ''174''), (''KN'', ''659''),
     (''KP'', ''408''), (''KR'', ''410''), (''KW'', ''414''), (''KY'', ''136''), (''KZ'', ''398''), (''LA'', ''418''),
     (''LB'', ''422''), (''LC'', ''662''), (''LI'', ''438''), (''LK'', ''144''), (''LR'', ''430''), (''LS'', ''426''),
     (''LT'', ''440''), (''LU'', ''442''), (''LV'', ''428''), (''LY'', ''434''), (''MA'', ''504''), (''MC'', ''492''),
     (''MD'', ''498''), (''ME'', ''499''), (''MF'', ''663''), (''MG'', ''450''), (''MH'', ''584''), (''MK'', ''807''),
     (''ML'', ''466''), (''MM'', ''104''), (''MN'', ''496''), (''MO'', ''446''), (''MP'', ''580''), (''MQ'', ''474''),
     (''MR'', ''478''), (''MS'', ''500''), (''MT'', ''470''), (''MU'', ''480''), (''MV'', ''462''), (''MW'', ''454''),
     (''MX'', ''484''), (''MY'', ''458''), (''MZ'', ''508''), (''NA'', ''516''), (''NC'', ''540''), (''NE'', ''562''),
     (''NF'', ''574''), (''NG'', ''566''), (''NI'', ''558''), (''NL'', ''528''), (''NO'', ''578''), (''NP'', ''524''),
     (''NR'', ''520''), (''NU'', ''570''), (''NZ'', ''554''), (''OM'', ''512''), (''PA'', ''591''), (''PE'', ''604''),
     (''PF'', ''258''), (''PG'', ''598''), (''PH'', ''608''), (''PK'', ''586''), (''PL'', ''616''), (''PM'', ''666''),
     (''PN'', ''612''), (''PR'', ''630''), (''PS'', ''275''), (''PT'', ''620''), (''PW'', ''585''), (''PY'', ''600''),
     (''QA'', ''634''), (''RE'', ''638''), (''RO'', ''642''), (''RS'', ''688''), (''RU'', ''643''), (''RW'', ''646''),
     (''SA'', ''682''), (''SB'', ''090''), (''SC'', ''690''), (''SD'', ''729''), (''SE'', ''752''), (''SG'', ''702''),
     (''SH'', ''654''), (''SI'', ''705''), (''SJ'', ''744''), (''SK'', ''703''), (''SL'', ''694''), (''SM'', ''674''),
     (''SN'', ''686''), (''SO'', ''706''), (''SR'', ''740''), (''SS'', ''728''), (''ST'', ''678''), (''SV'', ''222''),
     (''SX'', ''534''), (''SY'', ''760''), (''SZ'', ''748''), (''TC'', ''796''), (''TD'', ''148''), (''TF'', ''260''),
     (''TG'', ''768''), (''TH'', ''764''), (''TJ'', ''762''), (''TK'', ''772''), (''TL'', ''626''), (''TM'', ''795''),
     (''TN'', ''788''), (''TO'', ''776''), (''TR'', ''792''), (''TT'', ''780''), (''TV'', ''798''), (''TW'', ''158''),
     (''TZ'', ''834''), (''UA'', ''804''), (''UG'', ''800''), (''UM'', ''581''), (''US'', ''840''), (''UY'', ''858''),
     (''UZ'', ''860''), (''VA'', ''336''), (''VC'', ''670''), (''VE'', ''862''), (''VG'', ''092''), (''VI'', ''850''),
     (''VN'', ''704''), (''VU'', ''548''), (''WF'', ''876''), (''WS'', ''882''), (''XK'', ''983''), (''YE'', ''887''),
     (''YT'', ''175''), (''ZA'', ''710''), (''ZM'', ''894''), (''ZW'', ''716'')]"

definition num_entry :: "string \<times> string \<Rightarrow> (string, string) jsmap \<Rightarrow> (string, string) jsmap" where
  "num_entry e m = AList.update (snd e) (fst e) (AList.update (dec (read_nat 10 (snd e))) (fst e) m)"

definition BY_NUM :: "(string, string) jsmap" where
  "BY_NUM = fold num_entry NUM []"

datatype AtlasId = IdText string | IdNumber nat

text \<open>\<open>String(Number(s))\<close>, when it is made of digits only: other numbers are printed with a sign, a point or letters, which no key of the table has.\<close>

definition number_key :: "string \<Rightarrow> string option" where
  "number_key s = (case js_Number s of Num r \<Rightarrow> if 0 \<le> r \<and> of_int \<lfloor>r\<rfloor> = r then Some (dec (nat \<lfloor>r\<rfloor>)) else None | _ \<Rightarrow> None)"

definition by_num :: "string \<Rightarrow> string" where
  "by_num k = opt_str (map_of BY_NUM k)"

fun iso2FromAtlasId :: "AtlasId option \<Rightarrow> string" where
  "iso2FromAtlasId None = []"
| "iso2FromAtlasId (Some (IdNumber n)) = by_num (dec n)"
| "iso2FromAtlasId (Some (IdText s)) =
     (if s = [] then [] else or_else (by_num s) (case number_key s of Some k \<Rightarrow> by_num k | None \<Rightarrow> []))"

section \<open>Map of the regions\<close>

record CountryFeat =
  ft_id :: "AtlasId option"
  ft_name :: "string option"

definition on_map :: "(CountryFeat \<Rightarrow> rat) \<Rightarrow> CountryFeat \<Rightarrow> bool" where
  "on_map latitude f \<longleftrightarrow>
     \<not> (iso2FromAtlasId (ft_id f) = ''AQ'' \<or> str_includes (toLowerCase (opt_str (ft_name f))) ''antarct'') \<and> - 60 < latitude f"

definition region_code :: "RankedFlow \<Rightarrow> string" where
  "region_code r = toUpperCase (or_else (opt_str (rf_country r)) (opt_str (rf_id r)))"

definition byCC :: "RankedFlow list \<Rightarrow> (string, RankedFlow) jsmap" where
  "byCC regions = fold (\<lambda>r m. if length (region_code r) = 2 then AList.update (region_code r) r m else m) regions []"

definition bytesOf :: "RankedFlow \<Rightarrow> int" where
  "bytesOf r = (if rf_bytes r \<noteq> 0 then rf_bytes r
     else (case rf_upload r of Some u \<Rightarrow> u | None \<Rightarrow> 0) + (case rf_download r of Some d \<Rightarrow> d | None \<Rightarrow> 0))"

definition max_bytes :: "RankedFlow list \<Rightarrow> int" where
  "max_bytes regions = foldr max (map (bytesOf \<circ> snd) (byCC regions)) 1"

definition hex_pair :: "string \<Rightarrow> nat \<Rightarrow> int" where
  "hex_pair c i = int (read_nat 16 (take 2 (drop (2 * i) (remove1 (CHR ''#'') c))))"

text \<open>\<open>Math.round\<close> on the mixture of two channels.\<close>

definition mix_channel :: "string \<Rightarrow> string \<Rightarrow> real \<Rightarrow> nat \<Rightarrow> int" where
  "mix_channel a b t i = \<lfloor>real_of_int (hex_pair a i) + real_of_int (hex_pair b i - hex_pair a i) * t + 1 / 2\<rfloor>"

definition IDLE_MIX :: string where
  "IDLE_MIX = ''#3f3f46''"

definition ACTIVE :: string where
  "ACTIVE = ''#027BFF''"

definition region_bytes :: "RankedFlow list \<Rightarrow> string \<Rightarrow> int" where
  "region_bytes regions cc = (if cc = [] then 0 else case map_of (byCC regions) cc of Some r \<Rightarrow> bytesOf r | None \<Rightarrow> 0)"

text \<open>The three channels of the colour of a country with traffic; the others have the colour of the theme.\<close>

definition region_fill :: "RankedFlow list \<Rightarrow> string \<Rightarrow> int list option" where
  "region_fill regions cc =
     (let bytes = region_bytes regions cc;
          t = 55 / 100 + 45 / 100 * sqrt (real_of_int bytes / real_of_int (max_bytes regions))
      in if 0 < bytes then Some (map (mix_channel IDLE_MIX ACTIVE t) [0, 1, 2]) else None)"

text \<open>A press on a country: the code and the label that the application is told.\<close>

definition region_press :: "RankedFlow list \<Rightarrow> CountryFeat \<Rightarrow> (string \<times> string) option" where
  "region_press regions f =
     (let cc = iso2FromAtlasId (ft_id f)
      in if \<not> 0 < region_bytes regions cc \<or> cc = [] then None
         else Some (cc, or_else (or_else (case map_of (byCC regions) cc of Some r \<Rightarrow> rf_name r | None \<Rightarrow> []) (opt_str (ft_name f))) cc))"

definition region_tip :: "RankedFlow list \<Rightarrow> CountryFeat list \<Rightarrow> string option \<Rightarrow> string option" where
  "region_tip regions feats hover =
     (case hover of
        None \<Rightarrow> None
      | Some cc \<Rightarrow>
          Some (or_else (or_else (case map_of (byCC regions) cc of Some r \<Rightarrow> rf_name r | None \<Rightarrow> [])
            (case find (\<lambda>f. iso2FromAtlasId (ft_id f) = cc) feats of Some f \<Rightarrow> opt_str (ft_name f) | None \<Rightarrow> [])) cc))"

section \<open>Properties of the groups\<close>

definition lan_group_of :: "(string, NetIface) jsmap \<Rightarrow> Device list \<Rightarrow> string \<Rightarrow> LanGroup option" where
  "lan_group_of net ds k =
     (let xs = filter (\<lambda>d. lan_key d = k) ds
      in if xs = [] then None else Some \<lparr>lgr_lan = lan_of_device net (hd xs), lgr_devices = xs\<rparr>)"

lemma add_to_lan_map:
  assumes "map_of m = lan_group_of net ds"
  shows "map_of (add_to_lan net d m) = lan_group_of net (ds @ [d])"
proof
  fix k
  show "map_of (add_to_lan net d m) k = lan_group_of net (ds @ [d]) k"
    using fun_cong [OF assms, of "lan_key d"] fun_cong [OF assms, of k]
    by (auto simp: add_to_lan_def Let_def lan_group_of_def update_conv split: if_splits option.splits)
qed

lemma lan_buckets: "map_of (fold (add_to_lan net) ds []) = lan_group_of net ds \<and> distinct (map fst (fold (add_to_lan net) ds []))"
proof (induction ds rule: rev_induct)
  case Nil
  show ?case by (simp add: lan_group_of_def fun_eq_iff)
next
  case (snoc d ds)
  then show ?case using add_to_lan_map [of _ net ds d]
    by (simp add: add_to_lan_def Let_def distinct_update)
qed

text \<open>The order of the code is no order on groups with the same key, which do not occur; on others it is the following one.\<close>

definition lan_group_cmp :: "string \<times> LanGroup \<Rightarrow> string \<times> LanGroup \<Rightarrow> int" where
  "lan_group_cmp a b = (if fst a = ''_'' \<and> fst b = ''_'' then 0 else lan_group_order a b)"

interpretation lan_order: comparator lan_group_cmp
  by unfold_locales (auto simp: lan_group_cmp_def lan_group_order_def split: if_splits)

lemma lan_groups_sort: "lan_groups net ds = js_sort lan_group_cmp (fold (add_to_lan net) ds [])"
  unfolding lan_groups_def
  by (rule js_sort_cong [where f = fst]) (use lan_buckets in \<open>blast, auto simp: lan_group_cmp_def\<close>)

text \<open>
  The visual page has a section for each network with devices, which holds exactly the devices of that network in their order; the sections get
  smaller downwards and the devices without a network come at the end.
\<close>

theorem lan_groups_spec:
  "distinct (map fst (lan_groups net ds)) \<and> set (map fst (lan_groups net ds)) = lan_key ` set ds \<and>
   list_all (\<lambda>(k, g). lgr_devices g = filter (\<lambda>d. lan_key d = k) ds) (lan_groups net ds) \<and>
   sorted_wrt (\<lambda>(k, g) (l, h). k \<noteq> ''_'' \<and> (l = ''_'' \<or> length (lgr_devices h) \<le> length (lgr_devices g))) (lan_groups net ds)"
proof -
  let ?m = "fold (add_to_lan net) ds []" and ?gs = "lan_groups net ds"
  have map: "map_of ?m = lan_group_of net ds" and dist: "distinct (map fst ?m)" using lan_buckets by blast+
  have same: "mset ?gs = mset ?m" by (simp add: lan_groups_sort)
  then have sets: "set ?gs = set ?m" by (metis set_mset_mset)
  have d: "distinct (map fst ?gs)" using dist same by (metis mset_eq_imp_distinct_iff mset_map)
  have keys: "set (map fst ?gs) = lan_key ` set ds"
  proof -
    have "set (map fst ?gs) = dom (map_of ?m)" using sets by (simp add: dom_map_of_conv_image_fst)
    then show ?thesis by (auto simp: map lan_group_of_def Let_def dom_def filter_empty_conv split: if_splits)
  qed
  have members: "lgr_devices g = filter (\<lambda>d. lan_key d = k) ds" if "(k, g) \<in> set ?gs" for k g
    using that sets dist map by (auto simp: lan_group_of_def Let_def dest!: map_of_is_SomeI split: if_splits)
  have "sorted_wrt (\<lambda>a b. lan_group_cmp a b \<le> 0) ?gs" by (simp add: lan_groups_sort lan_order.sorted_js_sort)
  then have "sorted_wrt (\<lambda>a b. lan_group_cmp a b \<le> 0 \<and> fst a \<noteq> fst b) ?gs"
    using d by (auto simp: sorted_wrt_iff_nth_less distinct_conv_nth)
  then have "sorted_wrt (\<lambda>(k, g) (l, h). k \<noteq> ''_'' \<and> (l = ''_'' \<or> length (lgr_devices h) \<le> length (lgr_devices g))) ?gs"
    by (rule sorted_wrt_mono_rel [rotated]) (auto simp: lan_group_cmp_def lan_group_order_def split: if_splits)
  then show ?thesis using d keys members by (auto simp: list_all_iff)
qed

section \<open>Properties of the networks and charts\<close>

lemma max_from: "x \<in> set xs \<Longrightarrow> x \<le> foldr max xs (b :: 'a :: linorder)" "b \<le> foldr max xs b"
  by (induction xs) (auto simp: le_max_iff_disj)

lemma max_in: "foldr max xs (b :: 'a :: linorder) \<in> insert b (set xs)"
  by (induction xs) (auto simp: max_def)

text \<open>The weight of a network is a share of the largest one.\<close>

theorem lan_weight_bounds:
  assumes "n \<in> set (legacy_lans topology)"
  shows "0 \<le> lan_weight topology n \<and> lan_weight topology n \<le> 1"
proof -
  have "device_count n \<le> maxCount topology" "1 \<le> maxCount topology"
    using assms max_from(1) [of "device_count n" "map device_count (legacy_lans topology)" 1]
    by (simp_all add: maxCount_def max_from(2))
  then show ?thesis by (simp add: lan_weight_def)
qed

text \<open>No device is counted in two networks with different identifiers, and every device with one of them is counted.\<close>

theorem legacy_counts:
  assumes "distinct (map ni_uuid network)"
  shows "sum_list (map device_count (legacy_topology network devices)) =
     length (filter (\<lambda>d. truthy (dev_intf_uuid d) \<and> dev_intf_uuid d \<in> ni_uuid ` set network) devices)"
  using assms
proof (induction network)
  case Nil
  then show ?case by (simp add: legacy_topology_def)
next
  case (Cons n network)
  let ?in = "\<lambda>ns d. truthy (dev_intf_uuid d) \<and> dev_intf_uuid d \<in> ni_uuid ` set ns"
  have "length (filter (?in (n # network)) devices) =
      length (filter (\<lambda>d. truthy (ni_uuid n) \<and> dev_intf_uuid d = ni_uuid n) devices) + length (filter (?in network) devices)"
    using Cons.prems by (induction devices) auto
  moreover have "device_count (hd (legacy_topology [n] devices)) =
      length (filter (\<lambda>d. truthy (ni_uuid n) \<and> dev_intf_uuid d = ni_uuid n) devices)"
    by (cases "truthy (ni_uuid n)") (simp_all add: legacy_topology_def device_count_def)
  ultimately show ?case using Cons by (simp add: legacy_topology_def)
qed

text \<open>At most six interfaces have a line, each once and each with a figure; with no more than six all of them have.\<close>

theorem chart_ifaces:
  "distinct (chartIfaces history) \<and> length (chartIfaces history) \<le> 6 \<and> set (chartIfaces history) \<subseteq> set (have_ifaces history) \<and>
   (if length (have_ifaces history) \<le> 6 then set (chartIfaces history) = set (have_ifaces history) else length (chartIfaces history) = 6)"
proof -
  let ?have = "have_ifaces history"
  let ?all = "filter (\<lambda>i. i \<in> set ?have) preferred @ filter (\<lambda>i. i \<notin> set preferred) (js_sort str_cmp ?have)"
  have d: "distinct ?have" by (simp add: have_ifaces_def)
  have "distinct preferred" by (simp add: preferred_def)
  then have all: "distinct ?all" "set ?all = set ?have" using d by (auto simp: distinct_js_sort)
  then have len: "length ?all = length ?have" using d by (metis distinct_card)
  have eq: "chartIfaces history = take 6 ?all" by (simp add: chartIfaces_def Let_def)
  have "set (take 6 ?all) \<subseteq> set ?have" using all(2) set_take_subset by metis
  moreover have "take 6 ?all = ?all" if "length ?have \<le> 6" using that len by simp
  moreover have "length (take 6 ?all) = 6" if "\<not> length ?have \<le> 6" using that len by simp
  ultimately show ?thesis unfolding eq using all by (auto simp only: distinct_take length_take min.cobounded2 if_split split: if_splits)
qed

section \<open>Properties of the map\<close>

definition entry_matches :: "string \<Rightarrow> string \<times> string \<Rightarrow> bool" where
  "entry_matches k e \<longleftrightarrow> k = snd e \<or> k = dec (read_nat 10 (snd e))"

lemma by_num_fold:
  "map_of (fold num_entry es m) k = (case find (entry_matches k) (rev es) of Some e \<Rightarrow> Some (fst e) | None \<Rightarrow> map_of m k)"
proof (induction es rule: rev_induct)
  case (snoc e es)
  then show ?case by (auto simp: num_entry_def entry_matches_def update_conv)
qed simp

lemma NUM_entries: "list_all (\<lambda>e. all_digits (snd e) \<and> fst e \<noteq> []) NUM"
  by (simp add: NUM_def all_digits_def is_digit_def)

lemma NUM_numbers:
  "map (read_nat 10 \<circ> snd) NUM =
    [20, 784, 4, 28, 660, 8, 51, 24, 10, 32, 16, 40, 36, 533, 248, 31, 70, 52, 50, 56, 854, 100, 48, 108, 204, 652,
     60, 96, 68, 535, 76, 44, 64, 74, 72, 112, 84, 124, 166, 180, 140, 178, 756, 384, 184, 152, 120, 156, 170, 188,
     192, 132, 531, 162, 196, 203, 276, 262, 208, 212, 214, 12, 218, 233, 818, 732, 232, 724, 231, 246, 242, 238,
     583, 234, 250, 266, 826, 308, 268, 254, 831, 288, 292, 304, 270, 324, 312, 226, 300, 239, 320, 316, 624, 328,
     344, 334, 340, 191, 332, 348, 360, 372, 376, 833, 356, 86, 368, 364, 352, 380, 832, 388, 400, 392, 404, 417,
     116, 296, 174, 659, 408, 410, 414, 136, 398, 418, 422, 662, 438, 144, 430, 426, 440, 442, 428, 434, 504, 492,
     498, 499, 663, 450, 584, 807, 466, 104, 496, 446, 580, 474, 478, 500, 470, 480, 462, 454, 484, 458, 508, 516,
     540, 562, 574, 566, 558, 528, 578, 524, 520, 570, 554, 512, 591, 604, 258, 598, 608, 586, 616, 666, 612, 630,
     275, 620, 585, 600, 634, 638, 642, 688, 643, 646, 682, 90, 690, 729, 752, 702, 654, 705, 744, 703, 694, 674,
     686, 706, 740, 728, 678, 222, 534, 760, 748, 796, 148, 260, 768, 764, 762, 772, 626, 795, 788, 776, 792, 780,
     798, 158, 834, 804, 800, 581, 840, 858, 860, 336, 670, 862, 92, 850, 704, 548, 876, 882, 983, 887, 175, 710,
     894, 716]"
  by (simp add: NUM_def read_nat_def digit_val_def is_digit_def)

lemma NUM_apart: "distinct (map (read_nat 10 \<circ> snd) NUM)"
  unfolding NUM_numbers by simp

lemma matches_number: "entry_matches k e \<Longrightarrow> read_nat 10 k = read_nat 10 (snd e)"
  by (auto simp: entry_matches_def)

lemma by_num_entry:
  assumes "e \<in> set NUM" "entry_matches k e"
  shows "by_num k = fst e"
proof -
  have "f = e" if "f \<in> set NUM" "entry_matches k f" for f
  proof -
    have "(read_nat 10 \<circ> snd) f = (read_nat 10 \<circ> snd) e"
      using matches_number [OF that(2)] matches_number [OF assms(2)] by simp
    then show ?thesis using NUM_apart that(1) assms(1) unfolding distinct_map by (blast dest: inj_onD)
  qed
  moreover obtain f where "find (entry_matches k) (rev NUM) = Some f"
    using assms find_None_iff [of "entry_matches k" "rev NUM"] by (cases "find (entry_matches k) (rev NUM)") (metis set_rev, blast)
  moreover have "f \<in> set NUM \<and> entry_matches k f" if "find (entry_matches k) (rev NUM) = Some f" for f
    using that by (auto simp: find_Some_iff) (metis nth_mem set_rev length_rev)
  ultimately have "find (entry_matches k) (rev NUM) = Some e" by blast
  then show ?thesis by (simp add: by_num_def BY_NUM_def by_num_fold opt_str_def)
qed

text \<open>Every country is found by its number, written with three digits, without leading zeros, or given as a number.\<close>

theorem country_found:
  "list_all (\<lambda>(cc, n). iso2FromAtlasId (Some (IdText n)) = cc \<and> iso2FromAtlasId (Some (IdText (dec (read_nat 10 n)))) = cc \<and>
     iso2FromAtlasId (Some (IdNumber (read_nat 10 n))) = cc) NUM"
proof -
  have "by_num n = cc \<and> by_num (dec (read_nat 10 n)) = cc \<and> cc \<noteq> [] \<and> n \<noteq> []" if "(cc, n) \<in> set NUM" for cc n
    using that by_num_entry [of "(cc, n)" n] by_num_entry [of "(cc, n)" "dec (read_nat 10 n)"] NUM_entries
    by (auto simp: entry_matches_def list_all_iff all_digits_def)
  then show ?thesis by (fastforce simp: list_all_iff or_else_def)
qed

lemma channels:
  "hex_pair IDLE_MIX 0 = 63" "hex_pair IDLE_MIX (Suc 0) = 63" "hex_pair IDLE_MIX 2 = 70"
  "hex_pair ACTIVE 0 = 2" "hex_pair ACTIVE (Suc 0) = 123" "hex_pair ACTIVE 2 = 255"
  by code_simp+

lemma byCC_bytes: "map_of (byCC regions) cc = Some r \<Longrightarrow> bytesOf r \<le> max_bytes regions"
  using max_from(1) [of "bytesOf r" "map (bytesOf \<circ> snd) (byCC regions)" 1]
  by (force simp: max_bytes_def dest: map_of_SomeD)

text \<open>
  A country with traffic has a colour between the one for little traffic and the one for most; the country with most traffic has the latter.
\<close>

theorem region_colours:
  assumes "region_fill regions cc = Some cs"
  shows "\<exists>r g b. cs = [r, g, b] \<and> 2 \<le> r \<and> r \<le> 29 \<and> 96 \<le> g \<and> g \<le> 123 \<and> 172 \<le> b \<and> b \<le> 255 \<and>
    (region_bytes regions cc = max_bytes regions \<longrightarrow> cs = [2, 123, 255])"
proof -
  define q where "q = real_of_int (region_bytes regions cc) / real_of_int (max_bytes regions)"
  define t where "t = 55 / 100 + 45 / 100 * sqrt q"
  have pos: "0 < region_bytes regions cc" using assms by (simp add: region_fill_def Let_def split: if_splits)
  have cs: "cs = map (mix_channel IDLE_MIX ACTIVE t) [0, 1, 2]"
    using assms by (simp add: region_fill_def Let_def t_def q_def split: if_splits)
  have "region_bytes regions cc \<le> max_bytes regions"
    using byCC_bytes max_from(2) [of 1 "map (bytesOf \<circ> snd) (byCC regions)"]
    by (auto simp: region_bytes_def max_bytes_def split: option.splits)
  then have "0 \<le> q" "q \<le> 1" using pos by (simp_all add: q_def)
  then have t: "55 / 100 \<le> t" "t \<le> 1" unfolding t_def using real_sqrt_ge_zero [of q] real_sqrt_le_mono [of q 1] by (simp_all add: field_simps)
  have rgb: "cs = [\<lfloor>63 + - 61 * t + 1 / 2\<rfloor>, \<lfloor>63 + 60 * t + 1 / 2\<rfloor>, \<lfloor>70 + 185 * t + 1 / 2\<rfloor>]"
    by (simp add: cs mix_channel_def channels)
  have "t = 1" if "region_bytes regions cc = max_bytes regions" using that pos by (simp add: t_def q_def)
  then have "cs = [2, 123, 255]" if "region_bytes regions cc = max_bytes regions" using that rgb by simp
  moreover have "2 \<le> \<lfloor>63 + - 61 * t + 1 / 2\<rfloor>" "\<lfloor>63 + - 61 * t + 1 / 2\<rfloor> \<le> 29"
    "96 \<le> \<lfloor>63 + 60 * t + 1 / 2\<rfloor>" "\<lfloor>63 + 60 * t + 1 / 2\<rfloor> \<le> 123"
    "172 \<le> \<lfloor>70 + 185 * t + 1 / 2\<rfloor>" "\<lfloor>70 + 185 * t + 1 / 2\<rfloor> \<le> 255"
    using t by linarith+
  ultimately show ?thesis using rgb by blast
qed

text \<open>A press tells the code of a country with traffic and a label that is not empty.\<close>

lemma region_press_label: "region_press regions f = Some (cc, label) \<Longrightarrow> label \<noteq> [] \<and> 0 < region_bytes regions cc"
  by (auto simp: region_press_def Let_def or_else_def split: if_splits)

end
